(* ===== verification/Prelude.thy ===== *)
theory Prelude
  imports Main "HOL-Library.Word"
begin

section \<open>Shared types, hints and lemmas\<close>

text \<open>
  What every component of the development shares: bytes and the big-endian
  integer encoding of Go's \<open>encoding/binary\<close>, decimal numerals as
  \<open>strconv.Itoa\<close> prints them, white-space trimming as \<open>bytes.TrimSpace\<close> and
  \<open>strings.TrimSpace\<close> do it, first-match search and queues held in maps.
  The collections of hints that the components extend are declared here.
\<close>

named_theorems wire_defs "definitions of the wire layer that proofs unfold together"
named_theorems cfg_defs "definitions of the configuration validators"
named_theorems conn_defs "definitions of the connection bookkeeping"

type_synonym byte = "8 word"
type_synonym bytes = "8 word list"

subsection \<open>Big-endian integers\<close>

fun be_bytes :: "nat \<Rightarrow> nat \<Rightarrow> bytes" where
  "be_bytes 0 v = []"
| "be_bytes (Suc n) v = be_bytes n (v div 256) @ [word_of_nat v]"

definition be_nat :: "bytes \<Rightarrow> nat" where
  "be_nat bs = foldl (\<lambda>acc b. acc * 256 + unat b) 0 bs"

lemma be_nat_Nil [simp]: "be_nat [] = 0"
  by (simp add: be_nat_def)

lemma be_nat_snoc [simp]: "be_nat (bs @ [b]) = be_nat bs * 256 + unat b"
  by (simp add: be_nat_def)

lemma length_be_bytes [simp]: "length (be_bytes n v) = n"
  by (induction n arbitrary: v) auto

lemma unat_byte_of_nat: "unat (word_of_nat v :: byte) = v mod 256"
  by (simp add: unat_of_nat)

lemma unat_byte_less [simp]: "unat (b :: byte) < 256"
  using unsigned_less [of b] by simp

lemma be_nat_be_bytes [simp]: "v < 256 ^ n \<Longrightarrow> be_nat (be_bytes n v) = v"
proof (induction n arbitrary: v)
  case 0
  then show ?case by simp
next
  case (Suc n)
  then have "v div 256 < 256 ^ n" by (simp add: less_mult_imp_div_less mult.commute)
  with Suc.IH show ?case by (simp add: unat_byte_of_nat div_mult_mod_eq)
qed

lemma be_bytes_numeral:
  "be_bytes (numeral k) v = be_bytes (pred_numeral k) (v div 256) @ [word_of_nat v]"
  by (simp only: numeral_eq_Suc [of k] be_bytes.simps)

lemma be_nat_bound: "be_nat bs < 256 ^ length bs"
proof (induction bs rule: rev_induct)
  case Nil
  then show ?case by simp
next
  case (snoc b bs)
  have "be_nat bs * 256 + unat b < (be_nat bs + 1) * 256" using unat_byte_less [of b] by simp
  also have "\<dots> \<le> 256 ^ length bs * 256"
    using snoc by (metis Suc_eq_plus1 Suc_leI mult_le_mono1)
  finally show ?case by (simp add: mult.commute)
qed

lemma be_bytes_be_nat [simp]: "be_bytes (length bs) (be_nat bs) = bs"
proof (induction bs rule: rev_induct)
  case Nil
  then show ?case by simp
next
  case (snoc b bs)
  have "(be_nat bs * 256 + unat b) div 256 = be_nat bs"
    using unat_byte_less [of b] by (simp add: div_mult_self3)
  moreover have "(word_of_nat (be_nat bs * 256 + unat b) :: byte) = b"
    by (simp only: word_unat_eq_iff unat_byte_of_nat) (use unat_byte_less [of b] in simp)
  ultimately show ?case using snoc by simp
qed

lemma be_bytes_inj: "be_nat as = be_nat bs \<Longrightarrow> length as = length bs \<Longrightarrow> as = bs"
  by (metis be_bytes_be_nat)

subsection \<open>First match in a table\<close>

text \<open>A Go loop that returns the first element satisfying a test is the library's \<open>find\<close>.\<close>

lemma find_SomeD: "find P xs = Some x \<Longrightarrow> x \<in> set xs \<and> P x"
  by (induction xs) (auto split: if_splits)

lemma find_unique:
  assumes "x \<in> set xs" and "P x" and "\<And>y. y \<in> set xs \<Longrightarrow> P y \<Longrightarrow> y = x"
  shows "find P xs = Some x"
proof (cases "find P xs")
  case None
  with assms(1,2) show ?thesis by (simp add: find_None_iff)
next
  case (Some y)
  then show ?thesis using assms(3) find_SomeD [OF Some] by auto
qed

subsection \<open>Decimal numerals\<close>

text \<open>\<open>strconv.Itoa\<close>: decimal digits, most significant first, a minus sign for negatives.\<close>

fun itoa_nat :: "nat \<Rightarrow> string" where
  "itoa_nat n = (if n < 10 then [char_of (48 + n)] else itoa_nat (n div 10) @ [char_of (48 + n mod 10)])"

declare itoa_nat.simps [simp del]

definition itoa :: "int \<Rightarrow> string" where
  "itoa i = (if i < 0 then CHR ''-'' # itoa_nat (nat (- i)) else itoa_nat (nat i))"

definition is_digit_char :: "char \<Rightarrow> bool" where
  "is_digit_char c \<longleftrightarrow> 48 \<le> (of_char c :: nat) \<and> (of_char c :: nat) \<le> 57"

definition atoi_digits :: "string \<Rightarrow> nat" where
  "atoi_digits s = foldl (\<lambda>acc c. acc * 10 + ((of_char c :: nat) - 48)) 0 s"

lemma atoi_digits_snoc: "atoi_digits (s @ [c]) = atoi_digits s * 10 + (of_char c - 48)"
  by (simp add: atoi_digits_def)

lemma of_char_digit: "d < 10 \<Longrightarrow> (of_char (char_of (48 + d :: nat)) :: nat) = 48 + d"
  by simp

lemma itoa_nat_digits: "c \<in> set (itoa_nat n) \<Longrightarrow> is_digit_char c"
proof (induction n arbitrary: c rule: itoa_nat.induct)
  case (1 n)
  show ?case
  proof (cases "n < 10")
    case True
    with "1.prems" show ?thesis
      by (auto simp: itoa_nat.simps [of n] is_digit_char_def)
  next
    case False
    have "is_digit_char (char_of (48 + n mod 10))"
      using of_char_digit [of "n mod 10"] by (simp add: is_digit_char_def)
    with False "1.prems" "1.IH" show ?thesis
      by (auto simp: itoa_nat.simps [of n])
  qed
qed

lemma itoa_nat_nonempty [simp]: "itoa_nat n \<noteq> []"
  by (subst itoa_nat.simps) simp

lemma atoi_itoa_nat [simp]: "atoi_digits (itoa_nat n) = n"
proof (induction n rule: itoa_nat.induct)
  case (1 n)
  show ?case
  proof (cases "n < 10")
    case True
    then show ?thesis by (simp add: itoa_nat.simps [of n] atoi_digits_def)
  next
    case False
    with 1 show ?thesis
      using of_char_digit [of "n mod 10"]
      by (simp add: itoa_nat.simps [of n] atoi_digits_snoc)
  qed
qed

lemma itoa_nat_inj: "itoa_nat m = itoa_nat n \<Longrightarrow> m = n"
  by (metis atoi_itoa_nat)

lemma colon_not_in_itoa_nat: "CHR '':'' \<notin> set (itoa_nat n)"
  using itoa_nat_digits by (fastforce simp: is_digit_char_def)

end
