(* ===== verification/Wire_Base.thy ===== *)
theory Wire_Base
  imports Prelude
begin

section \<open>Wire layer: errors, message types, byte sources\<close>

text \<open>
  The vocabulary of \<open>core/internal/wire\<close>: the error categories and stages of
  \<open>errors.go\<close>, the registered message types of \<open>message.go\<close>, the \<open>io.Reader\<close>
  values that the frame readers consume, and white-space trimming.

  A protocol error keeps its category and stage, which is what callers branch on; the
  free text of \<open>Detail\<close> is diagnostic output that no code inspects and is left out.
\<close>

subsection \<open>Errors (\<open>errors.go\<close>)\<close>

datatype error_category =
    CategoryVersionNotAccepted | CategoryCapabilityMismatch | CategoryNegotiationFrameInvalid
  | CategoryLengthExceeded | CategoryLengthInvalid | CategoryPayloadTruncated
  | CategoryTypeInvalid | CategoryFrameTypeInvalid | CategoryFlagsUnsupported
  | CategoryJSONInvalid | CategoryTransformRejected | CategoryTransportFailure

datatype stage = StageDetect | StageNegotiate | StageMessage

text \<open>
  The errors that reach the wire layer: its own protocol errors, the two end-of-stream
  values of package \<open>io\<close>, any other failure of the connection, and the sentinel errors
  of the buffer pool and of version detection.
\<close>

datatype go_error =
    IO_EOF | IO_UnexpectedEOF | IO_NoProgress | IO_Failure
  | ProtocolError error_category stage
  | ErrBufferTooLarge | ErrInvalidLimit | ErrInvalidPoolSlots
  | ErrEmptyConnection
  | ErrKeyLength | ErrCipherLength | ErrAuthentication
  | Wrapped go_error

text \<open>
  \<open>errors.As\<close> and \<open>errors.Is\<close> look through the wrapping of \<open>fmt.Errorf("...%w", err)\<close>;
  a comparison with \<open>==\<close> does not.
\<close>

fun category_of :: "go_error \<Rightarrow> error_category option" where
  "category_of (ProtocolError c s) = Some c"
| "category_of (Wrapped e) = category_of e"
| "category_of _ = None"

fun stage_of :: "go_error \<Rightarrow> stage option" where
  "stage_of (ProtocolError c s) = Some s"
| "stage_of (Wrapped e) = stage_of e"
| "stage_of _ = None"

fun is_eof :: "go_error \<Rightarrow> bool" where
  "is_eof IO_EOF = True"
| "is_eof (Wrapped e) = is_eof e"
| "is_eof _ = False"

definition is_category :: "go_error \<Rightarrow> error_category \<Rightarrow> bool" where
  "is_category e c \<longleftrightarrow> category_of e = Some c"

subsection \<open>Message types (\<open>message.go\<close>)\<close>

record message_type =
  mt_name :: string
  mt_v1byte :: byte
  mt_v2id :: "16 word"

definition MessageTypeLogin :: message_type where
  "MessageTypeLogin = \<lparr>mt_name = ''login'', mt_v1byte = of_char (CHR ''o''), mt_v2id = 1\<rparr>"
definition MessageTypeLoginResponse :: message_type where
  "MessageTypeLoginResponse = \<lparr>mt_name = ''login-response'', mt_v1byte = of_char (CHR ''1''), mt_v2id = 2\<rparr>"
definition MessageTypeNewProxy :: message_type where
  "MessageTypeNewProxy = \<lparr>mt_name = ''new-proxy'', mt_v1byte = of_char (CHR ''p''), mt_v2id = 3\<rparr>"
definition MessageTypeNewProxyResponse :: message_type where
  "MessageTypeNewProxyResponse = \<lparr>mt_name = ''new-proxy-response'', mt_v1byte = of_char (CHR ''2''), mt_v2id = 4\<rparr>"
definition MessageTypeCloseProxy :: message_type where
  "MessageTypeCloseProxy = \<lparr>mt_name = ''close-proxy'', mt_v1byte = of_char (CHR ''c''), mt_v2id = 5\<rparr>"
definition MessageTypeNewWorkConn :: message_type where
  "MessageTypeNewWorkConn = \<lparr>mt_name = ''new-work-conn'', mt_v1byte = of_char (CHR ''w''), mt_v2id = 6\<rparr>"
definition MessageTypeReqWorkConn :: message_type where
  "MessageTypeReqWorkConn = \<lparr>mt_name = ''req-work-conn'', mt_v1byte = of_char (CHR ''r''), mt_v2id = 7\<rparr>"
definition MessageTypeStartWorkConn :: message_type where
  "MessageTypeStartWorkConn = \<lparr>mt_name = ''start-work-conn'', mt_v1byte = of_char (CHR ''s''), mt_v2id = 8\<rparr>"
definition MessageTypePing :: message_type where
  "MessageTypePing = \<lparr>mt_name = ''ping'', mt_v1byte = of_char (CHR ''h''), mt_v2id = 11\<rparr>"
definition MessageTypePong :: message_type where
  "MessageTypePong = \<lparr>mt_name = ''pong'', mt_v1byte = of_char (CHR ''4''), mt_v2id = 12\<rparr>"
definition MessageTypeUDPPacket :: message_type where
  "MessageTypeUDPPacket = \<lparr>mt_name = ''udp-packet'', mt_v1byte = of_char (CHR ''u''), mt_v2id = 13\<rparr>"

lemmas message_type_defs =
  MessageTypeLogin_def MessageTypeLoginResponse_def MessageTypeNewProxy_def
  MessageTypeNewProxyResponse_def MessageTypeCloseProxy_def MessageTypeNewWorkConn_def
  MessageTypeReqWorkConn_def MessageTypeStartWorkConn_def MessageTypePing_def
  MessageTypePong_def MessageTypeUDPPacket_def

definition supported_message_types :: "message_type list" where
  "supported_message_types =
     [MessageTypeLogin, MessageTypeLoginResponse, MessageTypeNewProxy,
      MessageTypeNewProxyResponse, MessageTypeCloseProxy, MessageTypeNewWorkConn,
      MessageTypeReqWorkConn, MessageTypeStartWorkConn, MessageTypePing,
      MessageTypePong, MessageTypeUDPPacket]"

definition message_type_by_name :: "string \<Rightarrow> message_type option" where
  "message_type_by_name name = find (\<lambda>m. mt_name m = name) supported_message_types"

definition message_type_by_v1 :: "byte \<Rightarrow> message_type option" where
  "message_type_by_v1 v = find (\<lambda>m. mt_v1byte m = v) supported_message_types"

definition message_type_by_v2 :: "16 word \<Rightarrow> message_type option" where
  "message_type_by_v2 v = find (\<lambda>m. mt_v2id m = v) supported_message_types"

lemma message_keys_distinct:
  "distinct (map mt_v1byte supported_message_types)"
  "distinct (map mt_v2id supported_message_types)"
  "distinct (map mt_name supported_message_types)"
  by (simp_all add: supported_message_types_def message_type_defs)

lemma find_key:
  "distinct (map f xs) \<Longrightarrow> x \<in> set xs \<Longrightarrow> find (\<lambda>y. f y = f x) xs = Some x"
  by (rule find_unique) (auto dest: inj_onD simp: distinct_map)

lemma message_type_by_v1_self [simp]:
  "m \<in> set supported_message_types \<Longrightarrow> message_type_by_v1 (mt_v1byte m) = Some m"
  unfolding message_type_by_v1_def by (rule find_key [OF message_keys_distinct(1)])

lemma message_type_by_v2_self [simp]:
  "m \<in> set supported_message_types \<Longrightarrow> message_type_by_v2 (mt_v2id m) = Some m"
  unfolding message_type_by_v2_def by (rule find_key [OF message_keys_distinct(2)])

lemma message_type_by_name_self [simp]:
  "m \<in> set supported_message_types \<Longrightarrow> message_type_by_name (mt_name m) = Some m"
  unfolding message_type_by_name_def by (rule find_key [OF message_keys_distinct(3)])

lemma message_type_by_v1D:
  "message_type_by_v1 v = Some m \<Longrightarrow> m \<in> set supported_message_types \<and> mt_v1byte m = v"
  unfolding message_type_by_v1_def by (rule find_SomeD)

lemma message_type_by_v2D:
  "message_type_by_v2 v = Some m \<Longrightarrow> m \<in> set supported_message_types \<and> mt_v2id m = v"
  unfolding message_type_by_v2_def by (rule find_SomeD)

subsection \<open>Length limits (\<open>v1.go\<close>)\<close>

definition ensure_payload_within_limit :: "int \<Rightarrow> int \<Rightarrow> stage \<Rightarrow> go_error option" where
  "ensure_payload_within_limit n limit st =
     (if n < 0 then Some (ProtocolError CategoryLengthInvalid st)
      else if n > limit then Some (ProtocolError CategoryLengthExceeded st)
      else None)"

lemma ensure_payload_None_iff:
  "ensure_payload_within_limit n limit st = None \<longleftrightarrow> 0 \<le> n \<and> n \<le> limit"
  by (simp add: ensure_payload_within_limit_def)

subsection \<open>White space (\<open>bytes.TrimSpace\<close>, \<open>strings.TrimSpace\<close>)\<close>

text \<open>
  Go trims the code points with Unicode's White\_Space property. \<open>space_at_front\<close> gives the
  width of the UTF-8 encoding of such a code point at the front of the bytes, 0 for none;
  \<open>space_at_back\<close> the same for the reversed bytes.
\<close>

definition is_ascii_space :: "byte \<Rightarrow> bool" where
  "is_ascii_space b \<longleftrightarrow> b \<in> {9, 10, 11, 12, 13, 32}"

definition is_space2 :: "byte \<Rightarrow> byte \<Rightarrow> bool" where
  "is_space2 a b \<longleftrightarrow> a = 0xC2 \<and> (b = 0x85 \<or> b = 0xA0)"

definition is_space3 :: "byte \<Rightarrow> byte \<Rightarrow> byte \<Rightarrow> bool" where
  "is_space3 a b c \<longleftrightarrow>
     (a = 0xE1 \<and> b = 0x9A \<and> c = 0x80)
   \<or> (a = 0xE2 \<and> b = 0x80 \<and> ((0x80 \<le> c \<and> c \<le> 0x8A) \<or> c = 0xA8 \<or> c = 0xA9 \<or> c = 0xAF))
   \<or> (a = 0xE2 \<and> b = 0x81 \<and> c = 0x9F)
   \<or> (a = 0xE3 \<and> b = 0x80 \<and> c = 0x80)"

fun space_at_front :: "bytes \<Rightarrow> nat" where
  "space_at_front (a # bs) =
     (if is_ascii_space a then 1
      else case bs of
        [] \<Rightarrow> 0
      | b # cs \<Rightarrow> (if is_space2 a b then 2
          else case cs of [] \<Rightarrow> 0 | c # _ \<Rightarrow> (if is_space3 a b c then 3 else 0)))"
| "space_at_front [] = 0"

fun space_at_back :: "bytes \<Rightarrow> nat" where
  "space_at_back (a # bs) =
     (if is_ascii_space a then 1
      else case bs of
        [] \<Rightarrow> 0
      | b # cs \<Rightarrow> (if is_space2 b a then 2
          else case cs of [] \<Rightarrow> 0 | c # _ \<Rightarrow> (if is_space3 c b a then 3 else 0)))"
| "space_at_back [] = 0"

function trim_by :: "(bytes \<Rightarrow> nat) \<Rightarrow> bytes \<Rightarrow> bytes" where
  "trim_by f bs = (if bs = [] \<or> f bs = 0 then bs else trim_by f (drop (f bs) bs))"
  by pat_completeness auto
termination
  by (relation "measure (\<lambda>(f, bs). length bs)") auto

declare trim_by.simps [simp del]

definition trim_space :: "bytes \<Rightarrow> bytes" where
  "trim_space bs = rev (trim_by space_at_back (rev (trim_by space_at_front bs)))"

definition trim_string :: "string \<Rightarrow> string" where
  "trim_string s = map (\<lambda>b. char_of (unat b)) (trim_space (map of_char s))"

lemma trim_by_Nil [simp]: "trim_by f [] = []"
  by (simp add: trim_by.simps)

lemma trim_by_stop: "f bs = 0 \<Longrightarrow> trim_by f bs = bs"
  by (simp add: trim_by.simps)

lemma trim_space_Nil [simp]: "trim_space [] = []"
  by (simp add: trim_space_def)

subsection \<open>Byte sources (\<open>io.Reader\<close>, \<open>io.ReadFull\<close>)\<close>

text \<open>
  A connection delivers a finite run of bytes and then an error: \<open>io.EOF\<close> on an orderly
  end, any other error otherwise. \<open>io.ReadFull\<close> fills the whole buffer or reports why not:
  the error itself if nothing was read, \<open>io.ErrUnexpectedEOF\<close> if the end came in between.
  A request for no bytes never touches the source.
\<close>

record stream =
  st_data :: bytes
  st_end :: go_error

definition short_read_error :: "bytes \<Rightarrow> go_error \<Rightarrow> go_error" where
  "short_read_error got e = (if got \<noteq> [] \<and> e = IO_EOF then IO_UnexpectedEOF else e)"

definition stream_read_full :: "stream \<Rightarrow> nat \<Rightarrow> stream \<times> (go_error + bytes)" where
  "stream_read_full s n =
     (if n \<le> length (st_data s)
      then (s\<lparr>st_data := drop n (st_data s)\<rparr>, Inr (take n (st_data s)))
      else (s\<lparr>st_data := []\<rparr>, Inl (short_read_error (st_data s) (st_end s))))"

type_synonym 's read_full = "'s \<Rightarrow> nat \<Rightarrow> 's \<times> (go_error + bytes)"

text \<open>
  What a frame reader needs of its source: reading it is reading the stream it stands for.
\<close>

locale byte_source =
  fixes rf :: "'s read_full"
    and stream_of :: "'s \<Rightarrow> stream"
  assumes rf_ok: "rf s n = (s', Inr bs) \<Longrightarrow>
      stream_read_full (stream_of s) n = (stream_of s', Inr bs)"
    and rf_fail: "rf s n = (s', Inl e) \<Longrightarrow> snd (stream_read_full (stream_of s) n) = Inl e"
begin

lemma rf_okD:
  "rf s n = (s', Inr bs) \<Longrightarrow>
   n \<le> length (st_data (stream_of s)) \<and> bs = take n (st_data (stream_of s)) \<and>
   stream_of s' = (stream_of s)\<lparr>st_data := drop n (st_data (stream_of s))\<rparr>"
  by (drule rf_ok) (auto simp: stream_read_full_def split: if_splits)

lemma rf_failD:
  "rf s n = (s', Inl e) \<Longrightarrow> \<exists>t. stream_read_full (stream_of s) n = (t, Inl e)"
  by (drule rf_fail) (metis prod.exhaust_sel)

lemma rf_enough:
  assumes "n \<le> length (st_data (stream_of s))"
  obtains s' where "rf s n = (s', Inr (take n (st_data (stream_of s))))"
    and "stream_of s' = (stream_of s)\<lparr>st_data := drop n (st_data (stream_of s))\<rparr>"
proof (cases "rf s n")
  case (Pair s' r)
  show thesis
  proof (cases r)
    case (Inl e)
    then show thesis using rf_fail [of s n s' e] Pair assms by (simp add: stream_read_full_def)
  next
    case (Inr bs)
    then show thesis using rf_okD [of s n s' bs] Pair that by simp
  qed
qed

end

interpretation raw_stream: byte_source stream_read_full "\<lambda>s. s"
  by unfold_locales simp_all

end
