(* ===== verification/Wire_Peek.thy ===== *)
theory Wire_Peek
  imports Wire_Base
begin

section \<open>The replaying pre-reader (\<open>detect.go\<close>, \<open>PeekReader\<close>)\<close>

text \<open>
  A connection delivers its bytes in chunks of any size; \<open>io.ReadFull\<close> loops over the
  \<open>Read\<close> method. \<open>PeekReader\<close> sits on the connection, looks ahead without consuming and
  replays. The theory models the three as the code has them and shows that the chunking is
  invisible and that a pre-read byte is never lost, doubled or reordered.
\<close>

subsection \<open>A chunked connection and \<open>io.ReadFull\<close>\<close>

text \<open>
  \<open>so_chunks\<close> is how many bytes the coming calls of \<open>Read\<close> return, when that many are
  asked for and there; a call for at least one byte returns at least one or an error.
\<close>

record socket =
  so_stream :: stream
  so_chunks :: "nat list"

type_synonym 's go_read = "'s \<Rightarrow> nat \<Rightarrow> 's \<times> bytes \<times> go_error option"

fun next_chunk :: "nat list \<Rightarrow> nat \<Rightarrow> nat" where
  "next_chunk [] n = n"
| "next_chunk (c # cs) n = max 1 (min c n)"

definition sock_read :: "socket go_read" where
  "sock_read s n =
     (if n = 0 then (s, [], None)
      else if st_data (so_stream s) = [] then (s, [], Some (st_end (so_stream s)))
      else let k = next_chunk (so_chunks s) n; st = so_stream s
        in (s\<lparr>so_stream := st\<lparr>st_data := drop k (st_data st)\<rparr>, so_chunks := tl (so_chunks s)\<rparr>,
            take k (st_data st), None))"

text \<open>
  \<open>io.ReadFull\<close>: read until the buffer is full or an error. The fuel counts the calls of
  \<open>Read\<close>; as many as bytes are asked for suffice when every call makes progress. The value
  \<open>IO_NoProgress\<close> stands for a reader that returns nothing forever.
\<close>

fun read_full_loop :: "'s go_read \<Rightarrow> nat \<Rightarrow> 's \<Rightarrow> nat \<Rightarrow> bytes \<Rightarrow> 's \<times> bytes \<times> go_error option" where
  "read_full_loop rd fuel s n got =
     (if n \<le> length got then (s, got, None)
      else case fuel of
        0 \<Rightarrow> (s, got, Some IO_NoProgress)
      | Suc fuel' \<Rightarrow>
          (case rd s (n - length got) of
             (s', bs, None) \<Rightarrow> read_full_loop rd fuel' s' n (got @ bs)
           | (s', bs, Some e) \<Rightarrow>
               (if n \<le> length (got @ bs) then (s', got @ bs, None)
                else (s', got @ bs, Some (short_read_error (got @ bs) e)))))"

declare read_full_loop.simps [simp del]

definition read_full :: "'s go_read \<Rightarrow> 's \<Rightarrow> nat \<Rightarrow> 's \<times> bytes \<times> go_error option" where
  "read_full rd s n = read_full_loop rd n s n []"

definition full_result :: "'s \<times> bytes \<times> go_error option \<Rightarrow> 's \<times> (go_error + bytes)" where
  "full_result t = (case t of (s, bs, None) \<Rightarrow> (s, Inr bs) | (s, bs, Some e) \<Rightarrow> (s, Inl e))"

text \<open>
  What makes a reader well-behaved: a call for \<open>n > 0\<close> bytes gives a non-empty prefix of what
  is left, of at most \<open>n\<close> bytes, or all that is left together with the final error.
\<close>

locale progress_reader =
  fixes rd :: "'s go_read"
    and view :: "'s \<Rightarrow> stream"
  assumes rd_ok: "rd s n = (s', bs, None) \<Longrightarrow> 0 < n \<Longrightarrow>
      bs \<noteq> [] \<and> length bs \<le> n \<and> st_data (view s) = bs @ st_data (view s') \<and>
      st_end (view s') = st_end (view s)"
    and rd_fail: "rd s n = (s', bs, Some e) \<Longrightarrow> 0 < n \<Longrightarrow>
      length bs < n \<and> st_data (view s) = bs \<and> e = st_end (view s)"
begin

lemma loop_spec:
  assumes "read_full_loop rd fuel s n got = (s', bs, r)"
    and "n - length got \<le> fuel" and "length got \<le> n"
  shows "if n \<le> length (got @ st_data (view s))
    then r = None \<and> bs = take n (got @ st_data (view s)) \<and>
      view s' = (view s)\<lparr>st_data := drop (n - length got) (st_data (view s))\<rparr>
    else r = Some (short_read_error (got @ st_data (view s)) (st_end (view s))) \<and>
      bs = got @ st_data (view s)"
  using assms
proof (induction fuel arbitrary: s got)
  case 0
  then show ?case by (simp add: read_full_loop.simps)
next
  case (Suc fuel)
  show ?case
  proof (cases "n \<le> length got")
    case True
    with Suc.prems show ?thesis by (auto simp: read_full_loop.simps)
  next
    case False
    obtain s1 b o1 where r: "rd s (n - length got) = (s1, b, o1)" by (metis prod.exhaust)
    show ?thesis
    proof (cases o1)
      case None
      have b: "b \<noteq> []" "length b \<le> n - length got" "st_data (view s) = b @ st_data (view s1)"
        "st_end (view s1) = st_end (view s)"
        using rd_ok [OF r [unfolded None]] False by auto
      have "read_full_loop rd fuel s1 n (got @ b) = (s', bs, r)"
        using Suc.prems(1) False None r by (simp add: read_full_loop.simps [where fuel = "Suc fuel"])
      moreover have "n - length (got @ b) \<le> fuel" "length (got @ b) \<le> n"
        using Suc.prems(2) b(1,2) False length_greater_0_conv [of b] unfolding length_append by linarith+
      ultimately have "if n \<le> length ((got @ b) @ st_data (view s1))
        then r = None \<and> bs = take n ((got @ b) @ st_data (view s1)) \<and>
          view s' = (view s1)\<lparr>st_data := drop (n - length (got @ b)) (st_data (view s1))\<rparr>
        else r = Some (short_read_error ((got @ b) @ st_data (view s1)) (st_end (view s1))) \<and>
          bs = (got @ b) @ st_data (view s1)"
        by (rule Suc.IH)
      moreover have "view s1 = (view s)\<lparr>st_data := st_data (view s1)\<rparr>" using b(4) by simp
      moreover have "drop (n - length got) (b @ st_data (view s1)) =
          drop (n - length (got @ b)) (st_data (view s1))"
        using b(2) by (simp add: drop_append)
      ultimately show ?thesis using b(3,4) by (auto split: if_splits)
    next
      case (Some e)
      have "length b < n - length got" "st_data (view s) = b" "e = st_end (view s)"
        using rd_fail [OF r [unfolded Some]] False by auto
      then show ?thesis
        using Suc.prems(1) False Some r
        by (auto simp: read_full_loop.simps [where fuel = "Suc fuel"] split: if_splits)
    qed
  qed
qed

lemma read_full_spec:
  assumes "read_full rd s n = (s', bs, r)"
  shows "if n \<le> length (st_data (view s))
    then r = None \<and> bs = take n (st_data (view s)) \<and>
      view s' = (view s)\<lparr>st_data := drop n (st_data (view s))\<rparr>
    else r = Some (short_read_error (st_data (view s)) (st_end (view s))) \<and> bs = st_data (view s)"
  using loop_spec [of n s n "[]"] assms by (simp add: read_full_def)

lemma full_ok:
  "full_result (read_full rd s n) = (s', Inr bs) \<Longrightarrow>
   stream_read_full (view s) n = (view s', Inr bs)"
  using read_full_spec [of s n]
  by (auto simp: full_result_def stream_read_full_def split: prod.splits option.splits if_splits)

lemma full_fail:
  "full_result (read_full rd s n) = (s', Inl e) \<Longrightarrow> snd (stream_read_full (view s) n) = Inl e"
  using read_full_spec [of s n]
  by (auto simp: full_result_def stream_read_full_def split: prod.splits option.splits if_splits)

end

text \<open>A reader that, once it failed, stands for the empty stream with the same error.\<close>

locale settled_reader = progress_reader +
  assumes rd_settled: "rd s n = (s', bs, Some e) \<Longrightarrow> 0 < n \<Longrightarrow> view s' = (view s)\<lparr>st_data := []\<rparr>"
begin

lemma loop_settled:
  assumes "read_full_loop rd fuel s n got = (s', bs, Some e)"
    and "n - length got \<le> fuel" and "length got \<le> n"
  shows "view s' = (view s)\<lparr>st_data := []\<rparr>"
  using assms
proof (induction fuel arbitrary: s got)
  case 0
  then show ?case by (simp add: read_full_loop.simps)
next
  case (Suc fuel)
  obtain s1 b o1 where r: "rd s (n - length got) = (s1, b, o1)" by (metis prod.exhaust)
  have lt: "length got < n" using Suc.prems(1) by (auto simp: read_full_loop.simps split: if_splits)
  show ?case
  proof (cases o1)
    case None
    have b: "b \<noteq> []" "length b \<le> n - length got" "st_end (view s1) = st_end (view s)"
      using rd_ok [OF r [unfolded None]] lt by auto
    have "read_full_loop rd fuel s1 n (got @ b) = (s', bs, Some e)"
      using Suc.prems(1) lt None r by (simp add: read_full_loop.simps [where fuel = "Suc fuel"])
    moreover have "n - length (got @ b) \<le> fuel" "length (got @ b) \<le> n"
      using Suc.prems(2) b(1,2) lt length_greater_0_conv [of b] unfolding length_append by linarith+
    ultimately have "view s' = (view s1)\<lparr>st_data := []\<rparr>" by (rule Suc.IH)
    then show ?thesis using b(3) by simp
  next
    case (Some x)
    then show ?thesis
      using Suc.prems(1) lt r rd_settled [OF r [unfolded Some]]
      by (auto simp: read_full_loop.simps [where fuel = "Suc fuel"] split: if_splits)
  qed
qed

lemma read_full_settled:
  "read_full rd s n = (s', bs, Some e) \<Longrightarrow> view s' = (view s)\<lparr>st_data := []\<rparr>"
  by (rule loop_settled) (auto simp: read_full_def)

end

lemma sock_read_progress: "n > 0 \<Longrightarrow> 0 < next_chunk cs n \<and> next_chunk cs n \<le> n"
  by (cases cs) auto

interpretation sock: settled_reader sock_read so_stream
proof
  fix s s' :: socket and n bs
  assume "sock_read s n = (s', bs, None)" and "0 < n"
  then show "bs \<noteq> [] \<and> length bs \<le> n \<and> st_data (so_stream s) = bs @ st_data (so_stream s') \<and>
      st_end (so_stream s') = st_end (so_stream s)"
    using sock_read_progress [of n "so_chunks s"]
    by (auto simp: sock_read_def Let_def split: if_splits)
next
  fix s s' :: socket and n bs e
  assume "sock_read s n = (s', bs, Some e)" and "0 < n"
  then show "length bs < n \<and> st_data (so_stream s) = bs \<and> e = st_end (so_stream s)"
    by (auto simp: sock_read_def Let_def split: if_splits)
next
  fix s s' :: socket and n bs e
  assume "sock_read s n = (s', bs, Some e)" and "0 < n"
  then show "so_stream s' = (so_stream s)\<lparr>st_data := []\<rparr>"
    by (auto simp: sock_read_def Let_def split: if_splits)
qed

interpretation sock_source: byte_source "\<lambda>s n. full_result (read_full sock_read s n)" so_stream
  by unfold_locales (auto dest: sock.full_ok sock.full_fail)

subsection \<open>\<open>PeekReader\<close>\<close>

record peek_reader =
  pk_source :: socket
  pk_peeked :: bytes
  pk_offset :: nat

definition new_peek_reader :: "socket \<Rightarrow> peek_reader" where
  "new_peek_reader s = \<lparr>pk_source = s, pk_peeked = [], pk_offset = 0\<rparr>"

definition peek_compact :: "peek_reader \<Rightarrow> peek_reader" where
  "peek_compact r =
     (if length (pk_peeked r) \<le> pk_offset r then r\<lparr>pk_peeked := [], pk_offset := 0\<rparr> else r)"

definition peek_pending :: "peek_reader \<Rightarrow> bytes" where
  "peek_pending r = drop (pk_offset r) (pk_peeked r)"

definition peek_peek :: "peek_reader \<Rightarrow> nat \<Rightarrow> peek_reader \<times> bytes \<times> go_error option" where
  "peek_peek r n =
     (if length (pk_peeked r) - pk_offset r < n
      then let r1 = peek_compact r;
               missing = n - (length (pk_peeked r1) - pk_offset r1)
        in case read_full sock_read (pk_source r1) missing of
             (src, bs, e) \<Rightarrow>
               (let r2 = r1\<lparr>pk_source := src, pk_peeked := pk_peeked r1 @ bs\<rparr>
                in case e of
                     Some e' \<Rightarrow> (r2, peek_pending r2, Some e')
                   | None \<Rightarrow> (r2, take n (peek_pending r2), None))
      else (r, take n (peek_pending r), None))"

definition peek_read :: "peek_reader go_read" where
  "peek_read r n =
     (if pk_offset r < length (pk_peeked r)
      then let got = take n (peek_pending r);
               r1 = r\<lparr>pk_offset := pk_offset r + length got\<rparr>
        in if length got = n then (r1, got, None)
           else let r2 = (if length (pk_peeked r1) \<le> pk_offset r1 then peek_compact r1 else r1)
             in case sock_read (pk_source r2) (n - length got) of
                  (src, bs, e) \<Rightarrow> (r2\<lparr>pk_source := src\<rparr>, got @ bs, e)
      else case sock_read (pk_source r) n of
             (src, bs, e) \<Rightarrow> (r\<lparr>pk_source := src\<rparr>, bs, e))"

definition peek_replay :: "peek_reader \<Rightarrow> peek_reader" where
  "peek_replay r = r\<lparr>pk_offset := 0\<rparr>"

definition peek_consume :: "peek_reader \<Rightarrow> int \<Rightarrow> peek_reader" where
  "peek_consume r n = (if n \<le> 0 then r else r\<lparr>pk_offset := min (nat n) (length (pk_peeked r))\<rparr>)"

text \<open>The stream a \<open>PeekReader\<close> stands for: what was looked at and not consumed, then the source.\<close>

definition peek_view :: "peek_reader \<Rightarrow> stream" where
  "peek_view r = (so_stream (pk_source r))\<lparr>st_data := peek_pending r @ st_data (so_stream (pk_source r))\<rparr>"

definition peek_wf :: "peek_reader \<Rightarrow> bool" where
  "peek_wf r \<longleftrightarrow> pk_offset r \<le> length (pk_peeked r)"

lemma peek_view_new [simp]: "peek_view (new_peek_reader s) = so_stream s"
  by (simp add: peek_view_def new_peek_reader_def peek_pending_def)

lemma peek_wf_ops [simp]:
  "peek_wf (new_peek_reader s)" "peek_wf (peek_replay r)"
  "peek_wf r \<Longrightarrow> peek_wf (peek_consume r n)"
  "peek_wf r \<Longrightarrow> peek_wf (peek_compact r)"
  by (auto simp: peek_wf_def new_peek_reader_def peek_replay_def peek_consume_def peek_compact_def)

lemma peek_pending_compact [simp]: "peek_pending (peek_compact r) = peek_pending r"
  by (auto simp: peek_pending_def peek_compact_def)

lemma peek_source_compact [simp]: "pk_source (peek_compact r) = pk_source r"
  by (simp add: peek_compact_def)

lemma peek_view_compact [simp]: "peek_view (peek_compact r) = peek_view r"
  by (simp add: peek_view_def)

lemma length_peek_pending: "length (peek_pending r) = length (pk_peeked r) - pk_offset r"
  by (simp add: peek_pending_def)

lemma sock_loop_ok:
  assumes "read_full sock_read s n = (s', bs, r)"
  shows "if n \<le> length (st_data (so_stream s))
    then r = None \<and> bs = take n (st_data (so_stream s)) \<and>
      so_stream s' = (so_stream s)\<lparr>st_data := drop n (st_data (so_stream s))\<rparr>
    else r = Some (short_read_error (st_data (so_stream s)) (st_end (so_stream s))) \<and>
      bs = st_data (so_stream s) \<and> so_stream s' = (so_stream s)\<lparr>st_data := []\<rparr>"
proof (cases r)
  case None
  then show ?thesis using sock.read_full_spec [OF assms] by (simp split: if_splits)
next
  case (Some e)
  have "so_stream s' = (so_stream s)\<lparr>st_data := []\<rparr>"
    by (rule sock.read_full_settled) (use assms Some in simp)
  then show ?thesis using sock.read_full_spec [OF assms] Some by (simp split: if_splits)
qed

text \<open>Looking ahead does not change the stream, and gives its first bytes.\<close>

lemma peek_peek_view:
  assumes "peek_peek r n = (r', bs, e)" and wf: "peek_wf r"
  shows "peek_view r' = peek_view r \<and> peek_wf r' \<and>
    (case e of
       None \<Rightarrow> n \<le> length (st_data (peek_view r)) \<and> bs = take n (st_data (peek_view r))
     | Some x \<Rightarrow> length (st_data (peek_view r)) < n \<and> bs = st_data (peek_view r) \<and>
         x = short_read_error (drop (length (peek_pending r)) (st_data (peek_view r))) (st_end (peek_view r)))"
proof (cases "length (pk_peeked r) - pk_offset r < n")
  case False
  then show ?thesis
    using assms length_peek_pending [of r]
    by (auto simp: peek_peek_def peek_view_def take_append)
next
  case True
  let ?r1 = "peek_compact r"
  let ?m = "n - length (peek_pending r)"
  obtain src b o1 where rf: "read_full sock_read (pk_source r) ?m = (src, b, o1)"
    by (metis prod.exhaust)
  let ?r2 = "?r1\<lparr>pk_source := src, pk_peeked := pk_peeked ?r1 @ b\<rparr>"
  have len: "length (pk_peeked ?r1) - pk_offset ?r1 = length (peek_pending r)"
    by (metis length_peek_pending peek_pending_compact)
  have wf1: "peek_wf ?r1" using wf by simp
  have pend: "peek_pending ?r2 = peek_pending r @ b"
    using wf1 peek_pending_compact [of r] by (simp add: peek_pending_def peek_wf_def)
  have wf2: "peek_wf ?r2" using wf1 by (simp add: peek_wf_def)
  have lt: "length (peek_pending r) < n" using True by (simp add: length_peek_pending)
  have res: "(r', bs, e) = (case o1 of Some e' \<Rightarrow> (?r2, peek_pending r @ b, Some e')
      | None \<Rightarrow> (?r2, take n (peek_pending r @ b), None))"
    using assms(1) True rf len pend by (cases o1) (auto simp: peek_peek_def Let_def)
  show ?thesis
    using sock_loop_ok [OF rf] res wf2 pend lt
    by (auto simp: peek_view_def take_append split: if_splits option.splits)
qed

text \<open>Replaying after a look at a fresh reader, and dropping a prefix that was looked at.\<close>

lemma peek_replay_view:
  "pk_offset r = 0 \<Longrightarrow> peek_view (peek_replay r) = peek_view r"
  by (cases r) (simp add: peek_replay_def)

lemma peek_consume_view:
  assumes "pk_offset r = 0" and "n \<le> length (pk_peeked r)"
  shows "peek_view (peek_consume r (int n)) =
    (peek_view r)\<lparr>st_data := drop n (st_data (peek_view r))\<rparr>"
  using assms by (auto simp: peek_consume_def peek_view_def peek_pending_def min_def)

lemma peek_peek_offset:
  "peek_peek r n = (r', bs, e) \<Longrightarrow> pk_offset r = 0 \<Longrightarrow> pk_offset r' = 0"
  by (auto simp: peek_peek_def peek_compact_def Let_def split: if_splits prod.splits option.splits)

lemma peek_peek_length:
  assumes "peek_peek r n = (r', bs, None)" and "peek_wf r"
  shows "n \<le> length (peek_pending r')"
proof -
  have "peek_pending r' = peek_pending r \<or> \<not> length (pk_peeked r) - pk_offset r < n \<or>
    bs = take n (peek_pending r')"
    using assms by (auto simp: peek_peek_def Let_def split: prod.splits option.splits if_splits)
  moreover have "length bs = n"
    using peek_peek_view [OF assms] by simp
  moreover have "bs = take n (peek_pending r')"
    using assms by (auto simp: peek_peek_def Let_def split: prod.splits option.splits if_splits)
  ultimately show ?thesis by (metis length_take min.cobounded1)
qed

text \<open>\<open>Read\<close>: first what is pending, the rest of the buffer from one read of the source.\<close>

lemma peek_read_cases:
  assumes read: "peek_read r n = (r', bs, e)" and n: "0 < n"
  shows "(n \<le> length (peek_pending r) \<and> bs = take n (peek_pending r) \<and> e = None \<and>
      pk_source r' = pk_source r \<and> peek_pending r' = drop n (peek_pending r))
    \<or> (length (peek_pending r) < n \<and> (\<exists>src b.
        sock_read (pk_source r) (n - length (peek_pending r)) = (src, b, e) \<and>
        bs = peek_pending r @ b \<and> pk_source r' = src \<and> peek_pending r' = []))"
proof (cases "pk_offset r < length (pk_peeked r)")
  case False
  then show ?thesis
    using read n by (auto simp: peek_read_def peek_pending_def split: prod.splits)
next
  case True
  show ?thesis
  proof (cases "n \<le> length (peek_pending r)")
    case le: True
    then show ?thesis
      using read True
      by (auto simp: peek_read_def Let_def peek_pending_def add.commute)
  next
    case False
    then show ?thesis
      using read True
      by (auto simp: peek_read_def Let_def peek_pending_def peek_compact_def split: prod.splits if_splits)
  qed
qed

interpretation peek: settled_reader peek_read peek_view
proof
  fix r r' :: peek_reader and n bs
  assume read: "peek_read r n = (r', bs, None)" and n: "0 < n"
  show "bs \<noteq> [] \<and> length bs \<le> n \<and> st_data (peek_view r) = bs @ st_data (peek_view r') \<and>
      st_end (peek_view r') = st_end (peek_view r)"
    using peek_read_cases [OF read n] n
    by (auto simp: peek_view_def append_take_drop_id dest!: sock.rd_ok)
next
  fix r r' :: peek_reader and n bs e
  assume read: "peek_read r n = (r', bs, Some e)" and n: "0 < n"
  show "length bs < n \<and> st_data (peek_view r) = bs \<and> e = st_end (peek_view r)"
    using peek_read_cases [OF read n] n by (auto simp: peek_view_def dest!: sock.rd_fail)
next
  fix r r' :: peek_reader and n bs e
  assume read: "peek_read r n = (r', bs, Some e)" and n: "0 < n"
  show "peek_view r' = (peek_view r)\<lparr>st_data := []\<rparr>"
    using peek_read_cases [OF read n] n by (auto simp: peek_view_def dest!: sock.rd_settled)
qed

definition peek_read_full :: "peek_reader read_full" where
  "peek_read_full r n = full_result (read_full peek_read r n)"

interpretation peek_source: byte_source peek_read_full peek_view
  by unfold_locales (auto simp: peek_read_full_def dest: peek.full_ok peek.full_fail)

end
