(* ===== verification/Wire_Crypto.thy ===== *)
theory Wire_Crypto
  imports Wire_Peek
begin

section \<open>Control channel encryption (\<open>crypto_v1.go\<close>, \<open>crypto_v2.go\<close>)\<close>

text \<open>
  The two encrypted byte streams that the control channel switches to after login: AES-CFB
  for wire v1 and framed AES-GCM for wire v2. The block cipher, the sealing and opening
  functions, the hash and the key derivations are library code and parameters of the
  definitions; the chaining, the framing, the nonces and the transcript are the program's.
\<close>

type_synonym 'w go_write = "'w \<Rightarrow> bytes \<Rightarrow> 'w \<times> go_error option"

text \<open>A target that keeps all it is given, and never fails.\<close>

definition sink_write :: "bytes go_write" where
  "sink_write out bs = (out @ bs, None)"

subsection \<open>CFB, the stream cipher of wire v1\<close>

text \<open>
  \<open>cfb_reg\<close> is the last full block of cipher text (the IV at first), \<open>cfb_cur\<close> the bytes of
  the block being formed. Each byte is masked with the encryption of the register.
\<close>

definition aes_block_size :: nat where "aes_block_size = 16"

record cfb_state =
  cfb_reg :: bytes
  cfb_cur :: bytes

definition cfb_start :: "bytes \<Rightarrow> cfb_state" where
  "cfb_start iv = \<lparr>cfb_reg = iv, cfb_cur = []\<rparr>"

definition cfb_mask :: "(bytes \<Rightarrow> bytes) \<Rightarrow> cfb_state \<Rightarrow> byte" where
  "cfb_mask enc st = enc (cfb_reg st) ! length (cfb_cur st)"

definition cfb_feed :: "cfb_state \<Rightarrow> byte \<Rightarrow> cfb_state" where
  "cfb_feed st c =
     (let cur = cfb_cur st @ [c]
      in if length cur = aes_block_size then st\<lparr>cfb_reg := cur, cfb_cur := []\<rparr> else st\<lparr>cfb_cur := cur\<rparr>)"

fun cfb_encrypt :: "(bytes \<Rightarrow> bytes) \<Rightarrow> cfb_state \<Rightarrow> bytes \<Rightarrow> cfb_state \<times> bytes" where
  "cfb_encrypt enc st [] = (st, [])"
| "cfb_encrypt enc st (p # ps) =
     (let c = xor p (cfb_mask enc st)
      in case cfb_encrypt enc (cfb_feed st c) ps of (st', cs) \<Rightarrow> (st', c # cs))"

fun cfb_decrypt :: "(bytes \<Rightarrow> bytes) \<Rightarrow> cfb_state \<Rightarrow> bytes \<Rightarrow> cfb_state \<times> bytes" where
  "cfb_decrypt enc st [] = (st, [])"
| "cfb_decrypt enc st (c # cs) =
     (let p = xor c (cfb_mask enc st)
      in case cfb_decrypt enc (cfb_feed st c) cs of (st', ps) \<Rightarrow> (st', p # ps))"

lemma cfb_roundtrip: "cfb_decrypt enc st (snd (cfb_encrypt enc st ps)) = (fst (cfb_encrypt enc st ps), ps)"
  by (induction ps arbitrary: st) (simp_all add: Let_def xor.assoc split_beta)

lemma cfb_decrypt_append:
  "cfb_decrypt enc st (as @ bs) =
     (let (st1, ps) = cfb_decrypt enc st as; (st2, qs) = cfb_decrypt enc st1 bs in (st2, ps @ qs))"
  by (induction as arbitrary: st) (auto simp: Let_def split: prod.splits)

lemma length_cfb_decrypt [simp]: "length (snd (cfb_decrypt enc st bs)) = length bs"
  by (induction bs arbitrary: st) (simp_all add: Let_def split_beta)

lemma length_cfb_encrypt [simp]: "length (snd (cfb_encrypt enc st bs)) = length bs"
  by (induction bs arbitrary: st) (simp_all add: Let_def split_beta)

lemma cfb_encrypt_append:
  "cfb_encrypt enc st (as @ bs) =
     (let (st1, ps) = cfb_encrypt enc st as; (st2, qs) = cfb_encrypt enc st1 bs in (st2, ps @ qs))"
  by (induction as arbitrary: st) (auto simp: Let_def split: prod.splits)

subsection \<open>The wire v1 cipher reader and writer\<close>

text \<open>\<open>aes.NewCipher\<close> accepts keys of 16, 24 and 32 bytes.\<close>

definition aes_key_ok :: "bytes \<Rightarrow> bool" where
  "aes_key_ok key \<longleftrightarrow> length key \<in> {16, 24, 32}"

record 's v1_cipher_reader =
  vcr_source :: 's
  vcr_key :: bytes
  vcr_stream :: "cfb_state option"

definition new_v1_cipher_reader :: "'s \<Rightarrow> bytes \<Rightarrow> 's v1_cipher_reader" where
  "new_v1_cipher_reader s key = \<lparr>vcr_source = s, vcr_key = key, vcr_stream = None\<rparr>"

definition v1_cipher_reader_init ::
  "'s go_read \<Rightarrow> 's v1_cipher_reader \<Rightarrow> 's v1_cipher_reader \<times> go_error option" where
  "v1_cipher_reader_init rd r =
     (case read_full rd (vcr_source r) aes_block_size of
        (s', iv, Some e) \<Rightarrow> (r\<lparr>vcr_source := s'\<rparr>, Some (Wrapped e))
      | (s', iv, None) \<Rightarrow>
          (if aes_key_ok (vcr_key r)
           then (r\<lparr>vcr_source := s', vcr_stream := Some (cfb_start iv)\<rparr>, None)
           else (r\<lparr>vcr_source := s'\<rparr>, Some ErrKeyLength)))"

definition v1_cipher_decrypt_read ::
  "(bytes \<Rightarrow> bytes \<Rightarrow> bytes) \<Rightarrow> 's go_read \<Rightarrow> cfb_state \<Rightarrow> 's v1_cipher_reader go_read" where
  "v1_cipher_decrypt_read aes rd st r n =
     (case rd (vcr_source r) n of
        (s', bs, e) \<Rightarrow>
          (case cfb_decrypt (aes (vcr_key r)) st bs of
             (st', ps) \<Rightarrow> (r\<lparr>vcr_source := s', vcr_stream := Some st'\<rparr>, ps, e)))"

definition v1_cipher_read ::
  "(bytes \<Rightarrow> bytes \<Rightarrow> bytes) \<Rightarrow> 's go_read \<Rightarrow> 's v1_cipher_reader go_read" where
  "v1_cipher_read aes rd r n =
     (case vcr_stream r of
        Some st \<Rightarrow> v1_cipher_decrypt_read aes rd st r n
      | None \<Rightarrow>
          (case v1_cipher_reader_init rd r of
             (r', Some e) \<Rightarrow> (r', [], Some e)
           | (r', None) \<Rightarrow>
               (case vcr_stream r' of
                  Some st \<Rightarrow> v1_cipher_decrypt_read aes rd st r' n
                | None \<Rightarrow> (r', [], Some ErrKeyLength))))"

record 'w v1_cipher_writer =
  vcw_target :: 'w
  vcw_key :: bytes
  vcw_stream :: "cfb_state option"

definition new_v1_cipher_writer :: "'w \<Rightarrow> bytes \<Rightarrow> go_error + 'w v1_cipher_writer" where
  "new_v1_cipher_writer t key =
     (if length key \<noteq> aes_block_size then Inl ErrKeyLength
      else Inr \<lparr>vcw_target = t, vcw_key = key, vcw_stream = None\<rparr>)"

text \<open>\<open>iv\<close> is what \<open>rand.Read\<close> returns; the first write sends it ahead.\<close>

definition v1_cipher_writer_init ::
  "'w go_write \<Rightarrow> bytes \<Rightarrow> 'w v1_cipher_writer \<Rightarrow> 'w v1_cipher_writer \<times> go_error option" where
  "v1_cipher_writer_init wr iv w =
     (case wr (vcw_target w) iv of
        (t, Some e) \<Rightarrow> (w\<lparr>vcw_target := t\<rparr>, Some (Wrapped e))
      | (t, None) \<Rightarrow>
          (if aes_key_ok (vcw_key w) then (w\<lparr>vcw_target := t, vcw_stream := Some (cfb_start iv)\<rparr>, None)
           else (w\<lparr>vcw_target := t\<rparr>, Some ErrKeyLength)))"

definition v1_cipher_encrypt_write ::
  "(bytes \<Rightarrow> bytes \<Rightarrow> bytes) \<Rightarrow> 'w go_write \<Rightarrow> 'w v1_cipher_writer \<Rightarrow> bytes
   \<Rightarrow> 'w v1_cipher_writer \<times> go_error option" where
  "v1_cipher_encrypt_write aes wr w payload =
     (case vcw_stream w of
        None \<Rightarrow> (w, Some ErrKeyLength)
      | Some st \<Rightarrow>
          (case cfb_encrypt (aes (vcw_key w)) st payload of
             (st', cs) \<Rightarrow> (case wr (vcw_target w) cs of
                (t, e) \<Rightarrow> (w\<lparr>vcw_target := t, vcw_stream := Some st'\<rparr>, e))))"

definition v1_cipher_write ::
  "(bytes \<Rightarrow> bytes \<Rightarrow> bytes) \<Rightarrow> 'w go_write \<Rightarrow> bytes \<Rightarrow> 'w v1_cipher_writer \<Rightarrow> bytes
   \<Rightarrow> 'w v1_cipher_writer \<times> go_error option" where
  "v1_cipher_write aes wr iv w payload =
     (if vcw_stream w = None
      then case v1_cipher_writer_init wr iv w of
             (w', Some e) \<Rightarrow> (w', Some e)
           | (w', None) \<Rightarrow> v1_cipher_encrypt_write aes wr w' payload
      else v1_cipher_encrypt_write aes wr w payload)"

text \<open>The plain stream that a cipher reader stands for.\<close>

definition cfb_stream :: "(bytes \<Rightarrow> bytes) \<Rightarrow> cfb_state \<Rightarrow> stream \<Rightarrow> stream" where
  "cfb_stream enc st s = s\<lparr>st_data := snd (cfb_decrypt enc st (st_data s))\<rparr>"

definition v1_cipher_view ::
  "(bytes \<Rightarrow> bytes \<Rightarrow> bytes) \<Rightarrow> ('s \<Rightarrow> stream) \<Rightarrow> 's v1_cipher_reader \<Rightarrow> stream" where
  "v1_cipher_view aes so r =
     (let s = so (vcr_source r)
      in case vcr_stream r of
           Some st \<Rightarrow> cfb_stream (aes (vcr_key r)) st s
         | None \<Rightarrow>
             if length (st_data s) < aes_block_size
             then \<lparr>st_data = [], st_end = Wrapped (short_read_error (st_data s) (st_end s))\<rparr>
             else if \<not> aes_key_ok (vcr_key r) then \<lparr>st_data = [], st_end = ErrKeyLength\<rparr>
             else cfb_stream (aes (vcr_key r)) (cfb_start (take aes_block_size (st_data s)))
                    (s\<lparr>st_data := drop aes_block_size (st_data s)\<rparr>))"

context progress_reader
begin

lemma decrypt_read_ok:
  assumes "v1_cipher_decrypt_read aes rd st r n = (r', ps, None)" and "0 < n"
  shows "ps \<noteq> [] \<and> length ps \<le> n \<and>
    st_data (cfb_stream (aes (vcr_key r)) st (view (vcr_source r))) = ps @ st_data (v1_cipher_view aes view r') \<and>
    st_end (v1_cipher_view aes view r') = st_end (view (vcr_source r))"
proof -
  obtain s' bs e where r: "rd (vcr_source r) n = (s', bs, e)" by (metis prod.exhaust)
  obtain st' qs where d: "cfb_decrypt (aes (vcr_key r)) st bs = (st', qs)" by fastforce
  have e: "e = None" "qs = ps" "r' = r\<lparr>vcr_source := s', vcr_stream := Some st'\<rparr>"
    using assms r d by (auto simp: v1_cipher_decrypt_read_def)
  have len: "length ps = length bs"
    using length_cfb_decrypt [of "aes (vcr_key r)" st bs] d e by simp
  show ?thesis
    using rd_ok [OF r [unfolded e(1)] assms(2)] d e len
    by (cases bs) (auto simp: v1_cipher_view_def cfb_stream_def cfb_decrypt_append Let_def split: prod.splits)
qed

lemma decrypt_read_fail:
  assumes "v1_cipher_decrypt_read aes rd st r n = (r', ps, Some e)" and "0 < n"
  shows "length ps < n \<and> st_data (cfb_stream (aes (vcr_key r)) st (view (vcr_source r))) = ps \<and>
    e = st_end (view (vcr_source r))"
proof -
  obtain s' bs e0 where r: "rd (vcr_source r) n = (s', bs, e0)" by (metis prod.exhaust)
  obtain st' qs where d: "cfb_decrypt (aes (vcr_key r)) st bs = (st', qs)" by fastforce
  have e: "e0 = Some e" "qs = ps"
    using assms r d by (auto simp: v1_cipher_decrypt_read_def)
  have len: "length ps = length bs"
    using length_cfb_decrypt [of "aes (vcr_key r)" st bs] d e by simp
  show ?thesis
    using rd_fail [OF r [unfolded e(1)] assms(2)] d e len by (auto simp: cfb_stream_def)
qed

lemma cipher_init_ok:
  assumes "v1_cipher_reader_init rd r = (r', None)" and "vcr_stream r = None"
  shows "\<exists>st. vcr_stream r' = Some st \<and> vcr_key r' = vcr_key r \<and>
    v1_cipher_view aes view r = cfb_stream (aes (vcr_key r)) st (view (vcr_source r'))"
  using assms read_full_spec [of "vcr_source r" aes_block_size]
  by (auto simp: v1_cipher_reader_init_def v1_cipher_view_def Let_def split: prod.splits option.splits if_splits)

lemma cipher_init_fail:
  assumes "v1_cipher_reader_init rd r = (r', Some e)" and "vcr_stream r = None"
  shows "v1_cipher_view aes view r = \<lparr>st_data = [], st_end = e\<rparr>"
  using assms read_full_spec [of "vcr_source r" aes_block_size]
  by (auto simp: v1_cipher_reader_init_def v1_cipher_view_def Let_def split: prod.splits option.splits if_splits)

lemma v1_cipher_progress: "progress_reader (v1_cipher_read aes rd) (v1_cipher_view aes view)"
proof
  fix r r' :: "'s v1_cipher_reader" and n bs
  assume read: "v1_cipher_read aes rd r n = (r', bs, None)" and n: "0 < n"
  show "bs \<noteq> [] \<and> length bs \<le> n \<and>
      st_data (v1_cipher_view aes view r) = bs @ st_data (v1_cipher_view aes view r') \<and>
      st_end (v1_cipher_view aes view r') = st_end (v1_cipher_view aes view r)"
  proof (cases "vcr_stream r")
    case (Some st)
    then have view: "v1_cipher_view aes view r = cfb_stream (aes (vcr_key r)) st (view (vcr_source r))"
      by (simp add: v1_cipher_view_def Let_def)
    have "v1_cipher_decrypt_read aes rd st r n = (r', bs, None)"
      using read Some by (simp add: v1_cipher_read_def)
    from decrypt_read_ok [OF this n] view show ?thesis by (simp add: cfb_stream_def)
  next
    case None
    obtain r1 o1 where i: "v1_cipher_reader_init rd r = (r1, o1)" by fastforce
    have o1: "o1 = None" using read None i by (auto simp: v1_cipher_read_def split: option.splits)
    obtain st where st: "vcr_stream r1 = Some st" "vcr_key r1 = vcr_key r"
      "v1_cipher_view aes view r = cfb_stream (aes (vcr_key r)) st (view (vcr_source r1))"
      using cipher_init_ok [OF i [unfolded o1] None] by blast
    have "v1_cipher_decrypt_read aes rd st r1 n = (r', bs, None)"
      using read None i o1 st by (simp add: v1_cipher_read_def)
    from decrypt_read_ok [OF this n] st show ?thesis by (simp add: cfb_stream_def)
  qed
next
  fix r r' :: "'s v1_cipher_reader" and n bs e
  assume read: "v1_cipher_read aes rd r n = (r', bs, Some e)" and n: "0 < n"
  show "length bs < n \<and> st_data (v1_cipher_view aes view r) = bs \<and> e = st_end (v1_cipher_view aes view r)"
  proof (cases "vcr_stream r")
    case (Some st)
    then have view: "v1_cipher_view aes view r = cfb_stream (aes (vcr_key r)) st (view (vcr_source r))"
      by (simp add: v1_cipher_view_def Let_def)
    have "v1_cipher_decrypt_read aes rd st r n = (r', bs, Some e)"
      using read Some by (simp add: v1_cipher_read_def)
    from decrypt_read_fail [OF this n] view show ?thesis by (simp add: cfb_stream_def)
  next
    case None
    obtain r1 o1 where i: "v1_cipher_reader_init rd r = (r1, o1)" by fastforce
    show ?thesis
    proof (cases o1)
      case (Some x)
      then show ?thesis
        using cipher_init_fail [OF i [unfolded Some] None, of aes] read None i n
        by (simp add: v1_cipher_read_def)
    next
      case o1: None
      obtain st where st: "vcr_stream r1 = Some st" "vcr_key r1 = vcr_key r"
        "v1_cipher_view aes view r = cfb_stream (aes (vcr_key r)) st (view (vcr_source r1))"
        using cipher_init_ok [OF i [unfolded o1] None] by blast
      have "v1_cipher_decrypt_read aes rd st r1 n = (r', bs, Some e)"
        using read None i o1 st by (simp add: v1_cipher_read_def)
      from decrypt_read_fail [OF this n] st show ?thesis by (simp add: cfb_stream_def)
    qed
  qed
qed

end

interpretation v1_cipher: progress_reader "v1_cipher_read aes peek_read" "v1_cipher_view aes peek_view" for aes
  by (rule peek.v1_cipher_progress)

definition v1_cipher_read_full :: "(bytes \<Rightarrow> bytes \<Rightarrow> bytes) \<Rightarrow> peek_reader v1_cipher_reader read_full" where
  "v1_cipher_read_full aes r n = full_result (read_full (v1_cipher_read aes peek_read) r n)"

interpretation v1_cipher_source: byte_source "v1_cipher_read_full aes" "v1_cipher_view aes peek_view" for aes
  by unfold_locales (auto simp: v1_cipher_read_full_def dest: v1_cipher.full_ok v1_cipher.full_fail)

text \<open>Any sequence of writes gives the IV and one run of the cipher over all that was written.\<close>

fun v1_cipher_write_all ::
  "(bytes \<Rightarrow> bytes \<Rightarrow> bytes) \<Rightarrow> bytes \<Rightarrow> bytes v1_cipher_writer \<Rightarrow> bytes list \<Rightarrow> bytes v1_cipher_writer" where
  "v1_cipher_write_all aes iv w [] = w"
| "v1_cipher_write_all aes iv w (p # ps) =
     v1_cipher_write_all aes iv (fst (v1_cipher_write aes sink_write iv w p)) ps"

lemma v1_cipher_write_started:
  "vcw_stream w = Some st \<Longrightarrow>
   v1_cipher_write_all aes iv w ps =
     w\<lparr>vcw_target := vcw_target w @ snd (cfb_encrypt (aes (vcw_key w)) st (concat ps)),
       vcw_stream := Some (fst (cfb_encrypt (aes (vcw_key w)) st (concat ps)))\<rparr>"
  by (induction ps arbitrary: w st)
    (auto simp: v1_cipher_write_def v1_cipher_encrypt_write_def sink_write_def cfb_encrypt_append Let_def
      split: prod.splits)

lemma v1_cipher_write_fresh:
  assumes "vcw_stream w = None" and "aes_key_ok (vcw_key w)" and "ps \<noteq> []"
  shows "vcw_target (v1_cipher_write_all aes iv w ps) =
    vcw_target w @ iv @ snd (cfb_encrypt (aes (vcw_key w)) (cfb_start iv) (concat ps))"
proof (cases ps)
  case Nil
  with assms(3) show ?thesis by simp
next
  case (Cons p qs)
  let ?w = "fst (v1_cipher_write aes sink_write iv w p)"
  have w: "vcw_stream ?w = Some (fst (cfb_encrypt (aes (vcw_key w)) (cfb_start iv) p))"
    "vcw_target ?w = vcw_target w @ iv @ snd (cfb_encrypt (aes (vcw_key w)) (cfb_start iv) p)"
    "vcw_key ?w = vcw_key w"
    using assms
    by (simp_all add: v1_cipher_write_def v1_cipher_writer_init_def v1_cipher_encrypt_write_def
        sink_write_def split: prod.splits)
  show ?thesis
    using Cons w v1_cipher_write_started [OF w(1), of aes iv qs]
    by (simp add: cfb_encrypt_append Let_def split: prod.splits)
qed

text \<open>What the peer's reader stands for, on a connection that carries those bytes.\<close>

lemma v1_cipher_channel:
  assumes "aes_key_ok key" and "length iv = aes_block_size"
    and "st_data (so s) = iv @ snd (cfb_encrypt (aes key) (cfb_start iv) plain)"
  shows "v1_cipher_view aes so (new_v1_cipher_reader s key) = (so s)\<lparr>st_data := plain\<rparr>"
  using assms
  by (simp add: v1_cipher_view_def new_v1_cipher_reader_def cfb_stream_def cfb_roundtrip Let_def)

end
