(* ===== verification/Wire_Aead.thy ===== *)
theory Wire_Aead
  imports Wire_Crypto
begin

section \<open>The framed AEAD channel of wire v2 (\<open>crypto_v2.go\<close>)\<close>

text \<open>
  Transcript and key derivation, the frame nonce, the writer that cuts a byte stream into
  sealed frames and the reader that opens them. \<open>seal\<close> and \<open>op\<close> are \<open>Seal\<close> and \<open>Open\<close> of the
  AES-GCM value (key, nonce, text, additional data), \<open>hash\<close> is SHA-256, \<open>hkdf\<close> the key
  derivation; their nonce and tag sizes are those of GCM.
\<close>

definition v2CipherKeySize :: nat where "v2CipherKeySize = 32"
definition v2CipherMaxPayloadSize :: nat where "v2CipherMaxPayloadSize = 65536"
definition v2FrameHeaderSize :: nat where "v2FrameHeaderSize = 4"
definition gcm_nonce_size :: nat where "gcm_nonce_size = 12"
definition gcm_overhead :: nat where "gcm_overhead = 16"

lemmas aead_sizes =
  v2CipherMaxPayloadSize_def v2FrameHeaderSize_def gcm_nonce_size_def gcm_overhead_def

subsection \<open>Transcript and control keys\<close>

definition bytes_of :: "string \<Rightarrow> bytes" where
  "bytes_of s = map of_char s"

definition transcript_part :: "string \<Rightarrow> bytes \<Rightarrow> bytes" where
  "transcript_part label payload =
     [0] @ bytes_of label @ [0] @ be_bytes 8 (length payload mod 2 ^ 64) @ payload"

definition transcript_input :: "bytes \<Rightarrow> bytes \<Rightarrow> bytes" where
  "transcript_input client server =
     bytes_of ''frp wire v2 crypto transcript''
     @ transcript_part ''client hello'' client @ transcript_part ''server hello'' server"

definition v2_crypto_transcript :: "(bytes \<Rightarrow> bytes) \<Rightarrow> bytes \<Rightarrow> bytes \<Rightarrow> bytes" where
  "v2_crypto_transcript hash client server = hash (transcript_input client server)"

definition control_key_info :: "string \<Rightarrow> string \<Rightarrow> string" where
  "control_key_info algorithm direction =
     ''frp wire v2 control aead'' @ '' '' @ algorithm @ '' '' @ direction"

definition derive_v2_control_key ::
  "(bytes \<Rightarrow> bytes \<Rightarrow> string \<Rightarrow> nat \<Rightarrow> bytes option) \<Rightarrow> bytes \<Rightarrow> string \<Rightarrow> string \<Rightarrow> bytes
   \<Rightarrow> go_error + bytes" where
  "derive_v2_control_key hkdf token algorithm direction transcript =
     (case hkdf token transcript (control_key_info algorithm direction) v2CipherKeySize of
        None \<Rightarrow> Inl (Wrapped ErrKeyLength)
      | Some key \<Rightarrow> Inr key)"

lemma transcript_part_eqD:
  assumes "transcript_part l a @ x = transcript_part l b @ y"
    and "length a < 2 ^ 64" and "length b < 2 ^ 64"
  shows "a = b \<and> x = y"
proof -
  have eq: "be_bytes 8 (length a) @ a @ x = be_bytes 8 (length b) @ b @ y"
    using assms by (simp add: transcript_part_def del: be_bytes.simps)
  then have "be_bytes 8 (length a) = be_bytes 8 (length b)" and "a @ x = b @ y"
    by (simp_all add: append_eq_append_conv del: be_bytes.simps)
  moreover have "length a < 256 ^ 8" "length b < 256 ^ 8" using assms by simp_all
  ultimately have "length a = length b" by (metis be_nat_be_bytes)
  with \<open>a @ x = b @ y\<close> show ?thesis by simp
qed

lemma transcript_input_inj:
  assumes "transcript_input c s = transcript_input c' s'"
    and "length c < 2 ^ 64" and "length c' < 2 ^ 64" and "length s < 2 ^ 64" and "length s' < 2 ^ 64"
  shows "c = c' \<and> s = s'"
proof -
  have "transcript_part ''client hello'' c @ transcript_part ''server hello'' s =
      transcript_part ''client hello'' c' @ transcript_part ''server hello'' s'"
    using assms(1) by (simp add: transcript_input_def)
  from transcript_part_eqD [OF this assms(2,3)]
  have "c = c'" and "transcript_part ''server hello'' s @ [] = transcript_part ''server hello'' s' @ []"
    by auto
  with transcript_part_eqD [OF this(2) assms(4,5)] show ?thesis by simp
qed

subsection \<open>The frame nonce\<close>

fun inc_rev :: "bytes \<Rightarrow> bytes" where
  "inc_rev [] = []"
| "inc_rev (b # bs) = (if b + 1 \<noteq> 0 then (b + 1) # bs else (b + 1) # inc_rev bs)"

definition increment_v2_nonce :: "bytes \<Rightarrow> bytes" where
  "increment_v2_nonce nonce = rev (inc_rev (rev nonce))"

lemma length_increment [simp]: "length (increment_v2_nonce n) = length n"
proof -
  have "length (inc_rev bs) = length bs" for bs by (induction bs) auto
  then show ?thesis by (simp add: increment_v2_nonce_def)
qed

lemma unat_byte_inc: "unat (b + 1 :: byte) = (if b + 1 \<noteq> 0 then unat b + 1 else 0)"
  using unatSuc [of b] by (simp add: add.commute)

lemma byte_wrap: "(b + 1 :: byte) = 0 \<Longrightarrow> unat b = 255"
proof -
  assume "b + 1 = 0"
  then have "b = - 1" by (simp add: eq_neg_iff_add_eq_0)
  moreover have "(- 1 :: byte) = 255" by simp
  ultimately have "b = 255" by metis
  then show ?thesis by simp
qed

lemma be_nat_increment:
  "be_nat (increment_v2_nonce n) = (be_nat n + 1) mod 256 ^ length n"
proof (induction n rule: rev_induct)
  case Nil
  then show ?case by (simp add: increment_v2_nonce_def)
next
  case (snoc b bs)
  have bound: "be_nat bs < 256 ^ length bs" by (rule be_nat_bound)
  show ?case
  proof (cases "b + 1 = 0")
    case False
    have u: "unat (b + 1) = unat b + 1" using unat_byte_inc [of b] False by simp
    have ub: "unat (b + 1) < 256" by (rule unat_byte_less)
    have "be_nat bs * 256 + (unat b + 1) < 256 ^ length bs * 256"
      using bound u ub by linarith
    then show ?thesis using False u by (simp add: increment_v2_nonce_def mult.commute)
  next
    case True
    have "increment_v2_nonce (bs @ [b]) = increment_v2_nonce bs @ [0]"
      using True by (simp add: increment_v2_nonce_def)
    moreover have "be_nat (bs @ [b]) + 1 = (be_nat bs + 1) * 256" using byte_wrap [OF True] by simp
    moreover have "(be_nat bs + 1) * 256 mod (256 ^ length bs * 256) = (be_nat bs + 1) mod 256 ^ length bs * 256"
      by (rule mod_mult_mult2)
    ultimately show ?thesis using snoc by (simp add: mult.commute)
  qed
qed

text \<open>The nonce of the \<open>k\<close>-th frame of a direction.\<close>

fun nonce_after :: "nat \<Rightarrow> bytes \<Rightarrow> bytes" where
  "nonce_after 0 n = n"
| "nonce_after (Suc k) n = nonce_after k (increment_v2_nonce n)"

lemma nonce_after_be:
  "length (nonce_after k n) = length n \<and> be_nat (nonce_after k n) = (be_nat n + k) mod 256 ^ length n"
proof (induction k arbitrary: n)
  case 0
  then show ?case using be_nat_bound [of n] by simp
next
  case (Suc k)
  show ?case by (simp add: Suc be_nat_increment mod_add_left_eq)
qed

lemma nonce_after_inj:
  assumes "nonce_after i n = nonce_after j n" and "i < 256 ^ length n" and "j < 256 ^ length n"
  shows "i = j"
proof -
  have "(be_nat n + i) mod 256 ^ length n = (be_nat n + j) mod 256 ^ length n"
    using assms(1) nonce_after_be by metis
  then have "i mod 256 ^ length n = j mod 256 ^ length n"
    unfolding nat_mod_eq_iff by (auto simp: add.assoc)
  with assms(2,3) show ?thesis by simp
qed

subsection \<open>The writer\<close>

type_synonym aead_fn = "bytes \<Rightarrow> bytes \<Rightarrow> bytes \<Rightarrow> bytes \<Rightarrow> bytes"
type_synonym aead_open_fn = "bytes \<Rightarrow> bytes \<Rightarrow> bytes \<Rightarrow> bytes \<Rightarrow> bytes option"

record 'w v2_aead_writer =
  aw_target :: 'w
  aw_key :: bytes
  aw_stream_nonce :: bytes
  aw_nonce :: bytes
  aw_header_sent :: bool

definition new_v2_aead_writer :: "'w \<Rightarrow> bytes \<Rightarrow> bytes \<Rightarrow> go_error + 'w v2_aead_writer" where
  "new_v2_aead_writer t key nonce =
     (if length key \<noteq> v2CipherKeySize then Inl ErrKeyLength
      else Inr \<lparr>aw_target = t, aw_key = key, aw_stream_nonce = nonce, aw_nonce = nonce, aw_header_sent = False\<rparr>)"

definition aead_send_nonce :: "'w go_write \<Rightarrow> 'w v2_aead_writer \<Rightarrow> 'w v2_aead_writer \<times> go_error option" where
  "aead_send_nonce wr w =
     (if aw_header_sent w then (w, None)
      else case wr (aw_target w) (aw_stream_nonce w) of
             (t, Some e) \<Rightarrow> (w\<lparr>aw_target := t\<rparr>, Some (Wrapped e))
           | (t, None) \<Rightarrow> (w\<lparr>aw_target := t, aw_header_sent := True\<rparr>, None))"

definition aead_header :: "nat \<Rightarrow> bytes" where
  "aead_header n = be_bytes v2FrameHeaderSize ((n + gcm_overhead) mod 2 ^ 32)"

definition aead_write_frame ::
  "aead_fn \<Rightarrow> 'w go_write \<Rightarrow> 'w v2_aead_writer \<Rightarrow> bytes \<Rightarrow> 'w v2_aead_writer \<times> go_error option" where
  "aead_write_frame seal wr w plain =
     (case aead_send_nonce wr w of
        (w1, Some e) \<Rightarrow> (w1, Some e)
      | (w1, None) \<Rightarrow>
          (let header = aead_header (length plain);
               frame = header @ seal (aw_key w1) (aw_nonce w1) plain (aw_stream_nonce w1 @ header);
               w2 = w1\<lparr>aw_nonce := increment_v2_nonce (aw_nonce w1)\<rparr>
           in case wr (aw_target w2) frame of (t, e) \<Rightarrow> (w2\<lparr>aw_target := t\<rparr>, e)))"

function aead_write ::
  "aead_fn \<Rightarrow> 'w go_write \<Rightarrow> 'w v2_aead_writer \<Rightarrow> bytes \<Rightarrow> 'w v2_aead_writer \<times> nat \<times> go_error option" where
  "aead_write seal wr w payload =
     (if payload = [] then (w, 0, None)
      else case aead_write_frame seal wr w (take v2CipherMaxPayloadSize payload) of
             (w1, Some e) \<Rightarrow> (w1, 0, Some e)
           | (w1, None) \<Rightarrow>
               (case aead_write seal wr w1 (drop v2CipherMaxPayloadSize payload) of
                  (w2, n, e) \<Rightarrow> (w2, length (take v2CipherMaxPayloadSize payload) + n, e)))"
  by pat_completeness auto
termination
  by (relation "measure (\<lambda>(seal, wr, w, payload). length payload)")
    (auto simp: v2CipherMaxPayloadSize_def)

declare aead_write.simps [simp del]

subsection \<open>The reader\<close>

record 's v2_aead_reader =
  ar_source :: 's
  ar_key :: bytes
  ar_stream_nonce :: bytes
  ar_nonce :: "bytes option"
  ar_pending :: bytes
  ar_frames :: nat

definition new_v2_aead_reader :: "'s \<Rightarrow> bytes \<Rightarrow> go_error + 's v2_aead_reader" where
  "new_v2_aead_reader s key =
     (if length key \<noteq> v2CipherKeySize then Inl ErrKeyLength
      else Inr \<lparr>ar_source = s, ar_key = key, ar_stream_nonce = [], ar_nonce = None,
                ar_pending = [], ar_frames = 0\<rparr>)"

definition aead_read_nonce ::
  "'s read_full \<Rightarrow> 's v2_aead_reader \<Rightarrow> 's v2_aead_reader \<times> (go_error + bytes)" where
  "aead_read_nonce rf r =
     (case ar_nonce r of
        Some n \<Rightarrow> (r, Inr n)
      | None \<Rightarrow>
          (case rf (ar_source r) gcm_nonce_size of
             (s', Inl e) \<Rightarrow> (r\<lparr>ar_source := s'\<rparr>, Inl (Wrapped e))
           | (s', Inr n) \<Rightarrow> (r\<lparr>ar_source := s', ar_stream_nonce := n, ar_nonce := Some n\<rparr>, Inr n)))"

definition aead_length_ok :: "nat \<Rightarrow> bool" where
  "aead_length_ok declared \<longleftrightarrow>
     gcm_overhead \<le> declared \<and> declared \<le> v2CipherMaxPayloadSize + gcm_overhead"

definition aead_open_frame ::
  "aead_open_fn \<Rightarrow> 's read_full \<Rightarrow> 's v2_aead_reader \<Rightarrow> bytes \<Rightarrow> 's v2_aead_reader \<times> go_error option" where
  "aead_open_frame op rf r nonce =
     (case rf (ar_source r) v2FrameHeaderSize of
        (s1, Inl e) \<Rightarrow> (r\<lparr>ar_source := s1\<rparr>, Some (Wrapped e))
      | (s1, Inr header) \<Rightarrow>
          (if \<not> aead_length_ok (be_nat header) then (r\<lparr>ar_source := s1\<rparr>, Some ErrCipherLength)
           else case rf s1 (be_nat header) of
             (s2, Inl e) \<Rightarrow> (r\<lparr>ar_source := s2\<rparr>, Some (Wrapped e))
           | (s2, Inr ct) \<Rightarrow>
               (case op (ar_key r) nonce ct (ar_stream_nonce r @ header) of
                  None \<Rightarrow> (r\<lparr>ar_source := s2\<rparr>, Some (Wrapped ErrAuthentication))
                | Some plain \<Rightarrow>
                    (r\<lparr>ar_source := s2, ar_nonce := Some (increment_v2_nonce nonce),
                       ar_frames := Suc (ar_frames r), ar_pending := plain\<rparr>, None))))"

definition aead_read_frame ::
  "aead_open_fn \<Rightarrow> 's read_full \<Rightarrow> 's v2_aead_reader \<Rightarrow> 's v2_aead_reader \<times> go_error option" where
  "aead_read_frame op rf r =
     (case aead_read_nonce rf r of
        (r1, Inl e) \<Rightarrow> (r1, Some e)
      | (r1, Inr nonce) \<Rightarrow> aead_open_frame op rf r1 nonce)"

text \<open>
  \<open>Read\<close> opens frames until there is plain text: a frame may be empty. Each frame takes at
  least its header off the source, so that the number \<open>left\<close> of bytes still to come bounds
  the loop.
\<close>

fun aead_fill ::
  "aead_open_fn \<Rightarrow> 's read_full \<Rightarrow> nat \<Rightarrow> 's v2_aead_reader \<Rightarrow> 's v2_aead_reader \<times> go_error option" where
  "aead_fill op rf fuel r =
     (if ar_pending r \<noteq> [] then (r, None)
      else case fuel of
        0 \<Rightarrow> (r, Some IO_NoProgress)
      | Suc fuel' \<Rightarrow>
          (case aead_read_frame op rf r of
             (r1, Some e) \<Rightarrow> (r1, Some e)
           | (r1, None) \<Rightarrow> aead_fill op rf fuel' r1))"

declare aead_fill.simps [simp del]

definition aead_read ::
  "aead_open_fn \<Rightarrow> 's read_full \<Rightarrow> ('s \<Rightarrow> nat) \<Rightarrow> 's v2_aead_reader go_read" where
  "aead_read op rf left r n =
     (case aead_fill op rf (left (ar_source r)) r of
        (r1, Some e) \<Rightarrow> (r1, [], Some e)
      | (r1, None) \<Rightarrow> (r1\<lparr>ar_pending := drop n (ar_pending r1)\<rparr>, take n (ar_pending r1), None))"

subsection \<open>The plain stream behind a reader\<close>

lemma stream_read_full_length:
  "stream_read_full s n = (s', Inr bs) \<Longrightarrow>
   length (st_data s) = n + length (st_data s') \<and> length bs = n"
  by (auto simp: stream_read_full_def split: if_splits)

function aead_plain ::
  "aead_open_fn \<Rightarrow> bytes \<Rightarrow> bytes \<Rightarrow> bytes \<Rightarrow> stream \<Rightarrow> bytes \<times> go_error" where
  "aead_plain op key sn nonce s =
     (case stream_read_full s v2FrameHeaderSize of
        (s1, Inl e) \<Rightarrow> ([], Wrapped e)
      | (s1, Inr header) \<Rightarrow>
          (if \<not> aead_length_ok (be_nat header) then ([], ErrCipherLength)
           else case stream_read_full s1 (be_nat header) of
             (s2, Inl e) \<Rightarrow> ([], Wrapped e)
           | (s2, Inr ct) \<Rightarrow>
               (case op key nonce ct (sn @ header) of
                  None \<Rightarrow> ([], Wrapped ErrAuthentication)
                | Some plain \<Rightarrow>
                    (case aead_plain op key sn (increment_v2_nonce nonce) s2 of
                       (rest, e) \<Rightarrow> (plain @ rest, e)))))"
  by pat_completeness auto
termination
  by (relation "measure (\<lambda>(op, key, sn, nonce, s). length (st_data s))")
    (auto dest!: sym [of _ "stream_read_full _ _"] stream_read_full_length simp: v2FrameHeaderSize_def)

declare aead_plain.simps [simp del]

definition aead_plain_of ::
  "aead_open_fn \<Rightarrow> ('s \<Rightarrow> stream) \<Rightarrow> 's v2_aead_reader \<Rightarrow> bytes \<times> go_error" where
  "aead_plain_of op so r =
     (case ar_nonce r of
        Some n \<Rightarrow> aead_plain op (ar_key r) (ar_stream_nonce r) n (so (ar_source r))
      | None \<Rightarrow>
          (case stream_read_full (so (ar_source r)) gcm_nonce_size of
             (s1, Inl e) \<Rightarrow> ([], Wrapped e)
           | (s1, Inr n) \<Rightarrow> aead_plain op (ar_key r) n n s1))"

definition aead_view :: "aead_open_fn \<Rightarrow> ('s \<Rightarrow> stream) \<Rightarrow> 's v2_aead_reader \<Rightarrow> stream" where
  "aead_view op so r =
     \<lparr>st_data = ar_pending r @ fst (aead_plain_of op so r), st_end = snd (aead_plain_of op so r)\<rparr>"

context byte_source
begin

lemma aead_nonce_ok:
  assumes "aead_read_nonce rf r = (r', Inr n)"
  shows "ar_nonce r' = Some n \<and> aead_plain_of op stream_of r' = aead_plain_of op stream_of r \<and>
    ar_pending r' = ar_pending r \<and>
    length (st_data (stream_of (ar_source r'))) \<le> length (st_data (stream_of (ar_source r)))"
  using assms
  by (auto simp: aead_read_nonce_def aead_plain_of_def dest!: rf_ok
      dest: stream_read_full_length split: option.splits prod.splits sum.splits)

lemma aead_open_ok:
  assumes "aead_open_frame op rf r n = (r', None)" and "ar_nonce r = Some n"
  shows "ar_pending r' @ fst (aead_plain_of op stream_of r') = fst (aead_plain_of op stream_of r) \<and>
    snd (aead_plain_of op stream_of r') = snd (aead_plain_of op stream_of r)"
  using assms
  by (auto simp: aead_open_frame_def aead_plain_of_def
      aead_plain.simps [of op "ar_key r" "ar_stream_nonce r" n "stream_of (ar_source r)"]
      dest!: rf_ok split: option.splits prod.splits sum.splits if_splits)

lemma aead_open_shorter:
  assumes "aead_open_frame op rf r n = (r', None)"
  shows "length (st_data (stream_of (ar_source r'))) < length (st_data (stream_of (ar_source r)))"
  using assms
  by (auto simp: aead_open_frame_def v2FrameHeaderSize_def
      dest!: rf_ok stream_read_full_length split: option.splits prod.splits sum.splits if_splits)

lemma aead_open_fail:
  assumes "aead_open_frame op rf r n = (r', Some e)" and "ar_nonce r = Some n"
  shows "aead_plain_of op stream_of r = ([], e)"
  using assms
  by (auto simp: aead_open_frame_def aead_plain_of_def
      aead_plain.simps [of op "ar_key r" "ar_stream_nonce r" n "stream_of (ar_source r)"]
      dest!: rf_ok rf_failD split: option.splits prod.splits sum.splits if_splits)

lemma aead_frame_ok:
  assumes "aead_read_frame op rf r = (r', None)" and "ar_pending r = []"
  shows "aead_view op stream_of r' = aead_view op stream_of r \<and>
    length (st_data (stream_of (ar_source r'))) < length (st_data (stream_of (ar_source r)))"
proof -
  obtain r1 n where r1: "aead_read_nonce rf r = (r1, Inr n)" and o: "aead_open_frame op rf r1 n = (r', None)"
    using assms(1) by (auto simp: aead_read_frame_def split: prod.splits sum.splits)
  note a = aead_nonce_ok [OF r1, of op]
  have "ar_nonce r1 = Some n" using a by simp
  from aead_open_ok [OF o this] aead_open_shorter [OF o] a assms(2) show ?thesis by (simp add: aead_view_def)
qed

lemma aead_frame_fail:
  assumes "aead_read_frame op rf r = (r', Some e)" and "ar_pending r = []"
  shows "aead_view op stream_of r = \<lparr>st_data = [], st_end = e\<rparr>"
proof (cases "aead_read_nonce rf r")
  case (Pair r1 x)
  show ?thesis
  proof (cases x)
    case (Inl e')
    then show ?thesis
      using assms Pair
      by (auto simp: aead_read_frame_def aead_read_nonce_def aead_view_def aead_plain_of_def
          dest!: rf_failD split: option.splits prod.splits sum.splits)
  next
    case (Inr n)
    note a = aead_nonce_ok [OF Pair [unfolded Inr], of op]
    have "aead_open_frame op rf r1 n = (r', Some e)" "ar_nonce r1 = Some n"
      using assms Pair Inr a by (simp_all add: aead_read_frame_def)
    from aead_open_fail [OF this] a assms(2) show ?thesis by (simp add: aead_view_def)
  qed
qed

lemma aead_fill_spec:
  assumes "aead_fill op rf fuel r = (r', e)" and "length (st_data (stream_of (ar_source r))) < fuel"
  shows "case e of
      None \<Rightarrow> ar_pending r' \<noteq> [] \<and> aead_view op stream_of r' = aead_view op stream_of r
    | Some x \<Rightarrow> aead_view op stream_of r = \<lparr>st_data = [], st_end = x\<rparr>"
  using assms
proof (induction fuel arbitrary: r)
  case 0
  then show ?case by simp
next
  case (Suc fuel)
  show ?case
  proof (cases "ar_pending r = []")
    case False
    with Suc.prems show ?thesis by (auto simp: aead_fill.simps)
  next
    case True
    obtain r1 o1 where f: "aead_read_frame op rf r = (r1, o1)" by fastforce
    show ?thesis
    proof (cases o1)
      case None
      have v: "aead_view op stream_of r1 = aead_view op stream_of r"
        and l: "length (st_data (stream_of (ar_source r1))) < length (st_data (stream_of (ar_source r)))"
        using aead_frame_ok [OF f [unfolded None] True] by auto
      have "aead_fill op rf fuel r1 = (r', e)"
        using Suc.prems(1) True f None by (simp add: aead_fill.simps [of op rf "Suc fuel"])
      moreover have "length (st_data (stream_of (ar_source r1))) < fuel"
        using l Suc.prems(2) by linarith
      ultimately show ?thesis using Suc.IH v by metis
    next
      case (Some x)
      then show ?thesis
        using Suc.prems(1) True f aead_frame_fail [OF f [unfolded Some] True]
        by (auto simp: aead_fill.simps [of op rf "Suc fuel"])
    qed
  qed
qed

lemma aead_progress:
  assumes left: "\<And>s. length (st_data (stream_of s)) < left s"
  shows "progress_reader (aead_read op rf left) (aead_view op stream_of)"
proof
  fix r r' :: "'s v2_aead_reader" and n bs
  assume read: "aead_read op rf left r n = (r', bs, None)" and n: "0 < n"
  obtain r1 o1 where f: "aead_fill op rf (left (ar_source r)) r = (r1, o1)" by fastforce
  have o1: "o1 = None" using read f by (auto simp: aead_read_def split: option.splits)
  have v: "ar_pending r1 \<noteq> []" "aead_view op stream_of r1 = aead_view op stream_of r"
    using aead_fill_spec [OF f left] o1 by auto
  have r': "r' = r1\<lparr>ar_pending := drop n (ar_pending r1)\<rparr>" "bs = take n (ar_pending r1)"
    using read f o1 by (auto simp: aead_read_def)
  have p: "aead_plain_of op stream_of r' = aead_plain_of op stream_of r1"
    using r' by (simp add: aead_plain_of_def split: option.split)
  have "bs @ st_data (aead_view op stream_of r') = st_data (aead_view op stream_of r1)"
    using r' p by (simp add: aead_view_def)
  moreover have "st_end (aead_view op stream_of r') = st_end (aead_view op stream_of r1)"
    using p by (simp add: aead_view_def)
  moreover have "bs \<noteq> [] \<and> length bs \<le> n" using r'(2) v(1) n by simp
  ultimately show "bs \<noteq> [] \<and> length bs \<le> n \<and>
      st_data (aead_view op stream_of r) = bs @ st_data (aead_view op stream_of r') \<and>
      st_end (aead_view op stream_of r') = st_end (aead_view op stream_of r)"
    using v(2) by simp
next
  fix r r' :: "'s v2_aead_reader" and n bs e
  assume read: "aead_read op rf left r n = (r', bs, Some e)" and n: "0 < n"
  obtain r1 o1 where f: "aead_fill op rf (left (ar_source r)) r = (r1, o1)" by fastforce
  have "o1 = Some e \<and> bs = []" using read f by (auto simp: aead_read_def split: option.splits)
  with aead_fill_spec [OF f left] n
  show "length bs < n \<and> st_data (aead_view op stream_of r) = bs \<and> e = st_end (aead_view op stream_of r)"
    by auto
qed

end

text \<open>The reader of a control connection: over the pre-reader, whose bytes bound its loop.\<close>

definition peek_left :: "peek_reader \<Rightarrow> nat" where
  "peek_left r = Suc (length (st_data (peek_view r)))"

interpretation v2_aead: progress_reader
  "aead_read op peek_read_full peek_left" "aead_view op peek_view" for op
  by (rule peek_source.aead_progress) (simp add: peek_left_def)

definition v2_aead_read_full :: "aead_open_fn \<Rightarrow> peek_reader v2_aead_reader read_full" where
  "v2_aead_read_full op r n = full_result (read_full (aead_read op peek_read_full peek_left) r n)"

interpretation v2_aead_source: byte_source "v2_aead_read_full op" "aead_view op peek_view" for op
  by unfold_locales (auto simp: v2_aead_read_full_def dest: v2_aead.full_ok v2_aead.full_fail)

subsection \<open>What the writer sends\<close>

function sealed_frames :: "aead_fn \<Rightarrow> bytes \<Rightarrow> bytes \<Rightarrow> bytes \<Rightarrow> bytes \<Rightarrow> bytes \<times> bytes" where
  "sealed_frames seal key sn nonce payload =
     (if payload = [] then ([], nonce)
      else let chunk = take v2CipherMaxPayloadSize payload;
               header = aead_header (length chunk)
        in case sealed_frames seal key sn (increment_v2_nonce nonce) (drop v2CipherMaxPayloadSize payload) of
             (rest, nonce') \<Rightarrow> (header @ seal key nonce chunk (sn @ header) @ rest, nonce'))"
  by pat_completeness auto
termination
  by (relation "measure (\<lambda>(seal, key, sn, nonce, payload). length payload)")
    (auto simp: v2CipherMaxPayloadSize_def)

declare sealed_frames.simps [simp del]

lemma aead_write_frame_sink:
  "aead_write_frame seal sink_write w plain =
    (w\<lparr>aw_target := aw_target w @ (if aw_header_sent w then [] else aw_stream_nonce w)
         @ aead_header (length plain)
         @ seal (aw_key w) (aw_nonce w) plain (aw_stream_nonce w @ aead_header (length plain)),
       aw_header_sent := True, aw_nonce := increment_v2_nonce (aw_nonce w)\<rparr>, None)"
  by (cases w) (simp add: aead_write_frame_def aead_send_nonce_def sink_write_def Let_def)

lemma aead_write_sink:
  assumes "payload \<noteq> []"
  shows "aead_write seal sink_write w payload =
    (w\<lparr>aw_target := aw_target w @ (if aw_header_sent w then [] else aw_stream_nonce w)
         @ fst (sealed_frames seal (aw_key w) (aw_stream_nonce w) (aw_nonce w) payload),
       aw_header_sent := True,
       aw_nonce := snd (sealed_frames seal (aw_key w) (aw_stream_nonce w) (aw_nonce w) payload)\<rparr>,
     length payload, None)"
  using assms
proof (induction payload arbitrary: w rule: length_induct)
  case (1 payload)
  let ?d = "drop v2CipherMaxPayloadSize payload"
  show ?case
  proof (cases "?d = []")
    case True
    then show ?thesis
      using "1.prems"
      by (simp add: aead_write.simps [of seal sink_write w payload] aead_write_frame_sink
          aead_write.simps [of seal sink_write _ "[]"]
          sealed_frames.simps [of seal "aw_key w" "aw_stream_nonce w" "aw_nonce w" payload]
          sealed_frames.simps [of seal _ _ _ "[]"] Let_def split_beta)
  next
    case False
    have "length ?d < length payload" using "1.prems" by (simp add: v2CipherMaxPayloadSize_def)
    from "1.IH" [rule_format, OF this False] show ?thesis
      using "1.prems"
      by (simp add: aead_write.simps [of seal sink_write w payload] aead_write_frame_sink
          sealed_frames.simps [of seal "aw_key w" "aw_stream_nonce w" "aw_nonce w" payload]
          Let_def split_beta)
  qed
qed

subsection \<open>What was sealed is what is opened\<close>

definition aead_law :: "aead_fn \<Rightarrow> aead_open_fn \<Rightarrow> bool" where
  "aead_law seal op \<longleftrightarrow>
     (\<forall>key nonce plain aad.
        op key nonce (seal key nonce plain aad) aad = Some plain \<and>
        length (seal key nonce plain aad) = length plain + gcm_overhead)"

lemma be_nat_aead_header:
  "n \<le> v2CipherMaxPayloadSize \<Longrightarrow> be_nat (aead_header n) = n + gcm_overhead"
  by (simp add: aead_header_def aead_sizes del: be_bytes.simps)

lemma length_aead_header [simp]: "length (aead_header n) = v2FrameHeaderSize"
  by (simp add: aead_header_def del: be_bytes.simps)

lemma aead_plain_frame:
  assumes law: "aead_law seal op" and len: "length chunk \<le> v2CipherMaxPayloadSize"
    and data: "st_data s = aead_header (length chunk)
      @ seal key nonce chunk (sn @ aead_header (length chunk)) @ rest"
  shows "aead_plain op key sn nonce s =
    (case aead_plain op key sn (increment_v2_nonce nonce) (s\<lparr>st_data := rest\<rparr>) of (ps, e) \<Rightarrow> (chunk @ ps, e))"
proof -
  let ?h = "aead_header (length chunk)" and ?ct = "seal key nonce chunk (sn @ aead_header (length chunk))"
  have ct: "length ?ct = length chunk + gcm_overhead" "op key nonce ?ct (sn @ ?h) = Some chunk"
    using law by (simp_all add: aead_law_def)
  have h: "stream_read_full s v2FrameHeaderSize = (s\<lparr>st_data := ?ct @ rest\<rparr>, Inr ?h)"
    using data by (simp add: stream_read_full_def)
  have b: "stream_read_full (s\<lparr>st_data := ?ct @ rest\<rparr>) (length chunk + gcm_overhead) =
      (s\<lparr>st_data := rest\<rparr>, Inr ?ct)"
    using ct by (simp add: stream_read_full_def)
  have ok: "aead_length_ok (length chunk + gcm_overhead)"
    using len by (simp add: aead_length_ok_def)
  show ?thesis
    by (subst aead_plain.simps) (simp add: h b ok ct(2) be_nat_aead_header [OF len])
qed

lemma aead_plain_sealed:
  assumes law: "aead_law seal op"
    and data: "st_data s = fst (sealed_frames seal key sn nonce payload) @ rest"
  shows "aead_plain op key sn nonce s =
    (case aead_plain op key sn (snd (sealed_frames seal key sn nonce payload)) (s\<lparr>st_data := rest\<rparr>) of
       (ps, e) \<Rightarrow> (payload @ ps, e))"
  using data
proof (induction payload arbitrary: s nonce rule: length_induct)
  case (1 payload)
  show ?case
  proof (cases "payload = []")
    case True
    then have "s = s\<lparr>st_data := rest\<rparr>" using "1.prems" by (simp add: sealed_frames.simps)
    then show ?thesis using True by (simp add: sealed_frames.simps split_beta)
  next
    case False
    let ?c = "take v2CipherMaxPayloadSize payload" and ?d = "drop v2CipherMaxPayloadSize payload"
    let ?n = "increment_v2_nonce nonce"
    let ?r = "fst (sealed_frames seal key sn ?n ?d) @ rest"
    have sf: "sealed_frames seal key sn nonce payload =
      (aead_header (length ?c) @ seal key nonce ?c (sn @ aead_header (length ?c))
        @ fst (sealed_frames seal key sn ?n ?d), snd (sealed_frames seal key sn ?n ?d))"
      using False by (simp add: sealed_frames.simps [of seal key sn nonce payload] Let_def split_beta)
    have "length ?d < length payload" "st_data (s\<lparr>st_data := ?r\<rparr>) = ?r"
      using False by (simp_all add: v2CipherMaxPayloadSize_def)
    from "1.IH" [rule_format, OF this]
    have ih: "aead_plain op key sn ?n (s\<lparr>st_data := ?r\<rparr>) =
      (case aead_plain op key sn (snd (sealed_frames seal key sn ?n ?d)) (s\<lparr>st_data := rest\<rparr>) of
        (ps, e) \<Rightarrow> (?d @ ps, e))" by simp
    have "length ?c \<le> v2CipherMaxPayloadSize" by simp
    from aead_plain_frame [OF law this, where s = s and rest = ?r and key = key and nonce = nonce and sn = sn]
    have fr: "aead_plain op key sn nonce s =
      (case aead_plain op key sn ?n (s\<lparr>st_data := ?r\<rparr>) of (ps, e) \<Rightarrow> (?c @ ps, e))"
      using "1.prems" sf by simp
    show ?thesis unfolding fr ih sf by (simp add: split_beta)
  qed
qed

text \<open>A sequence of writes.\<close>

fun aead_write_all :: "aead_fn \<Rightarrow> bytes v2_aead_writer \<Rightarrow> bytes list \<Rightarrow> bytes v2_aead_writer" where
  "aead_write_all seal w [] = w"
| "aead_write_all seal w (p # ps) = aead_write_all seal (fst (aead_write seal sink_write w p)) ps"

lemma aead_plain_end:
  "st_data s = [] \<Longrightarrow> aead_plain op key sn nonce s = ([], Wrapped (st_end s))"
  by (subst aead_plain.simps)
    (simp add: stream_read_full_def v2FrameHeaderSize_def short_read_error_def)

lemma aead_write_all_started:
  assumes law: "aead_law seal op" and "aw_header_sent w"
  shows "\<exists>cs. aw_target (aead_write_all seal w ps) = aw_target w @ cs \<and>
    (\<forall>s. st_data s = cs \<longrightarrow>
      aead_plain op (aw_key w) (aw_stream_nonce w) (aw_nonce w) s = (concat ps, Wrapped (st_end s)))"
  using assms(2)
proof (induction ps arbitrary: w)
  case Nil
  then show ?case by (simp add: aead_plain_end)
next
  case (Cons p ps)
  show ?case
  proof (cases "p = []")
    case True
    then show ?thesis using Cons by (simp add: aead_write.simps)
  next
    case False
    let ?w = "fst (aead_write seal sink_write w p)"
    let ?sf = "sealed_frames seal (aw_key w) (aw_stream_nonce w) (aw_nonce w) p"
    have w: "aw_target ?w = aw_target w @ fst ?sf" "aw_header_sent ?w" "aw_nonce ?w = snd ?sf"
      "aw_key ?w = aw_key w" "aw_stream_nonce ?w = aw_stream_nonce w"
      using aead_write_sink [OF False, of seal w] Cons.prems by simp_all
    from Cons.IH [OF w(2)] obtain cs where cs:
      "aw_target (aead_write_all seal ?w ps) = aw_target ?w @ cs"
      "\<And>s. st_data s = cs \<Longrightarrow>
        aead_plain op (aw_key w) (aw_stream_nonce w) (snd ?sf) s = (concat ps, Wrapped (st_end s))"
      unfolding w by blast
    show ?thesis
    proof (intro exI conjI allI impI)
      show "aw_target (aead_write_all seal w (p # ps)) = aw_target w @ (fst ?sf @ cs)"
        using cs(1) w(1) by simp
      fix s :: stream assume d: "st_data s = fst ?sf @ cs"
      show "aead_plain op (aw_key w) (aw_stream_nonce w) (aw_nonce w) s =
          (concat (p # ps), Wrapped (st_end s))"
        using aead_plain_sealed [OF law d] cs(2) [of "s\<lparr>st_data := cs\<rparr>"] by simp
    qed
  qed
qed

lemma aead_write_all_skip:
  "aead_write_all seal w ps = aead_write_all seal w (filter (\<lambda>p. p \<noteq> []) ps)"
  by (induction ps arbitrary: w) (auto simp: aead_write.simps)

lemma concat_filter_nonempty: "concat (filter (\<lambda>p. p \<noteq> []) ps) = concat ps"
  by (induction ps) auto

lemma aead_channel:
  assumes law: "aead_law seal op" and "length nonce = gcm_nonce_size"
    and w: "new_v2_aead_writer [] key nonce = Inr w" and r: "new_v2_aead_reader s key = Inr r"
    and ne: "concat ps \<noteq> []"
    and data: "st_data (so s) = aw_target (aead_write_all seal w ps)"
  shows "aead_view op so r = \<lparr>st_data = concat ps, st_end = Wrapped (st_end (so s))\<rparr>"
proof -
  let ?ps = "filter (\<lambda>p. p \<noteq> []) ps"
  obtain p qs where pq: "?ps = p # qs" using ne by (metis concat.simps(1) concat_filter_nonempty neq_Nil_conv)
  have p: "p \<noteq> []" using pq by (metis (mono_tags, lifting) filter_eq_ConsD)
  let ?w = "fst (aead_write seal sink_write w p)"
  let ?sf = "sealed_frames seal key nonce nonce p"
  have wd: "aw_target w = []" "aw_key w = key" "aw_nonce w = nonce" "aw_stream_nonce w = nonce"
    "\<not> aw_header_sent w"
    using w by (auto simp: new_v2_aead_writer_def split: if_splits)
  have w': "aw_target ?w = nonce @ fst ?sf" "aw_header_sent ?w" "aw_nonce ?w = snd ?sf"
    "aw_key ?w = key" "aw_stream_nonce ?w = nonce"
    using aead_write_sink [OF p, of seal w] wd by simp_all
  from aead_write_all_started [OF law w'(2), of qs] obtain cs where cs:
    "aw_target (aead_write_all seal ?w qs) = aw_target ?w @ cs"
    "\<And>s. st_data s = cs \<Longrightarrow> aead_plain op key nonce (snd ?sf) s = (concat qs, Wrapped (st_end s))"
    unfolding w' by blast
  have d: "st_data (so s) = nonce @ fst ?sf @ cs"
    using data cs(1) w'(1) pq aead_write_all_skip [of seal w ps] by simp
  let ?s1 = "(so s)\<lparr>st_data := fst ?sf @ cs\<rparr>"
  have rd: "stream_read_full (so s) gcm_nonce_size = (?s1, Inr nonce)"
    using d assms(2) by (simp add: stream_read_full_def)
  have "st_data ?s1 = fst ?sf @ cs" by simp
  from aead_plain_sealed [OF law this]
  have "aead_plain op key nonce nonce ?s1 = (p @ concat qs, Wrapped (st_end (so s)))"
    using cs(2) [of "?s1\<lparr>st_data := cs\<rparr>"] by simp
  moreover have "concat ps = p @ concat qs"
    using pq concat_filter_nonempty [of ps] by simp
  moreover have "ar_source r = s" "ar_key r = key" "ar_nonce r = None" "ar_pending r = []"
    using r by (auto simp: new_v2_aead_reader_def split: if_splits)
  ultimately show ?thesis using rd by (simp add: aead_view_def aead_plain_of_def)
qed

end
