(* ===== verification/Json_Scan.thy ===== *)
theory Json_Scan
  imports Wire_Base
begin

section \<open>JSON validity (\<open>encoding/json\<close>) and \<open>validateJSONObject\<close>\<close>

text \<open>
  \<open>json.Unmarshal\<close> into a map of raw messages succeeds exactly when the text is valid JSON
  whose value is an object. The package decides validity with a byte-driven automaton; this
  theory models it: the current step, the stack of open objects and arrays (bounded by
  10000) and whether the top-level value is complete.
\<close>

datatype parse_state = PObjectKey | PObjectValue | PArrayValue

datatype jstep =
    BeginValueOrEmpty | BeginValue | BeginStringOrEmpty | BeginString
  | EndValue | EndTop | InString | InStringEsc | InStringEscU nat
  | NumNeg | Num1 | Num0 | NumDot | NumDot0 | NumE | NumESign | NumE0
  | Literal bytes

record json_scan =
  js_step :: jstep
  js_stack :: "parse_state list"
  js_end :: bool

definition max_nesting_depth :: nat where
  "max_nesting_depth = 10000"

definition json_space :: "byte \<Rightarrow> bool" where
  "json_space c \<longleftrightarrow> c = 32 \<or> c = 9 \<or> c = 13 \<or> c = 10"

definition json_digit :: "byte \<Rightarrow> bool" where
  "json_digit c \<longleftrightarrow> 48 \<le> c \<and> c \<le> 57"

definition json_hex :: "byte \<Rightarrow> bool" where
  "json_hex c \<longleftrightarrow> json_digit c \<or> (97 \<le> c \<and> c \<le> 102) \<or> (65 \<le> c \<and> c \<le> 70)"

definition go_to :: "json_scan \<Rightarrow> jstep \<Rightarrow> json_scan option" where
  "go_to s st = Some (s\<lparr>js_step := st\<rparr>)"

definition push_state :: "json_scan \<Rightarrow> jstep \<Rightarrow> parse_state \<Rightarrow> json_scan option" where
  "push_state s st p =
     (if Suc (length (js_stack s)) \<le> max_nesting_depth
      then Some (s\<lparr>js_step := st, js_stack := p # js_stack s\<rparr>) else None)"

definition pop_state :: "json_scan \<Rightarrow> json_scan" where
  "pop_state s =
     (let rest = tl (js_stack s)
      in if rest = [] then s\<lparr>js_step := EndTop, js_stack := rest, js_end := True\<rparr>
         else s\<lparr>js_step := EndValue, js_stack := rest\<rparr>)"

definition state_end_value :: "json_scan \<Rightarrow> byte \<Rightarrow> json_scan option" where
  "state_end_value s c =
     (case js_stack s of
        [] \<Rightarrow> (if json_space c then Some (s\<lparr>js_step := EndTop, js_end := True\<rparr>) else None)
      | p # ps \<Rightarrow>
          if json_space c then go_to s EndValue
          else case p of
            PObjectKey \<Rightarrow> (if c = 58 then Some (s\<lparr>js_step := BeginValue, js_stack := PObjectValue # ps\<rparr>) else None)
          | PObjectValue \<Rightarrow>
              (if c = 44 then Some (s\<lparr>js_step := BeginString, js_stack := PObjectKey # ps\<rparr>)
               else if c = 125 then Some (pop_state s) else None)
          | PArrayValue \<Rightarrow>
              (if c = 44 then go_to s BeginValue
               else if c = 93 then Some (pop_state s) else None))"

definition state_begin_value :: "json_scan \<Rightarrow> byte \<Rightarrow> json_scan option" where
  "state_begin_value s c =
     (if json_space c then Some s
      else if c = 123 then push_state s BeginStringOrEmpty PObjectKey
      else if c = 91 then push_state s BeginValueOrEmpty PArrayValue
      else if c = 34 then go_to s InString
      else if c = 45 then go_to s NumNeg
      else if c = 48 then go_to s Num0
      else if c = 116 then go_to s (Literal [114, 117, 101])
      else if c = 102 then go_to s (Literal [97, 108, 115, 101])
      else if c = 110 then go_to s (Literal [117, 108, 108])
      else if 49 \<le> c \<and> c \<le> 57 then go_to s Num1
      else None)"

definition state_begin_string :: "json_scan \<Rightarrow> byte \<Rightarrow> json_scan option" where
  "state_begin_string s c =
     (if json_space c then Some s else if c = 34 then go_to s InString else None)"

definition state_num0 :: "json_scan \<Rightarrow> byte \<Rightarrow> json_scan option" where
  "state_num0 s c =
     (if c = 46 then go_to s NumDot
      else if c = 101 \<or> c = 69 then go_to s NumE
      else state_end_value s c)"

fun json_step :: "json_scan \<Rightarrow> byte \<Rightarrow> json_scan option" where
  "json_step s c = (case js_step s of
     BeginValueOrEmpty \<Rightarrow>
       (if json_space c then Some s
        else if c = 93 then state_end_value s c else state_begin_value s c)
   | BeginValue \<Rightarrow> state_begin_value s c
   | BeginStringOrEmpty \<Rightarrow>
       (if json_space c then Some s
        else if c = 125 then state_end_value (s\<lparr>js_stack := PObjectValue # tl (js_stack s)\<rparr>) c
        else state_begin_string s c)
   | BeginString \<Rightarrow> state_begin_string s c
   | EndValue \<Rightarrow> state_end_value s c
   | EndTop \<Rightarrow> (if json_space c then Some s else None)
   | InString \<Rightarrow>
       (if c = 34 then go_to s EndValue
        else if c = 92 then go_to s InStringEsc
        else if c < 32 then None else Some s)
   | InStringEsc \<Rightarrow>
       (if c \<in> {98, 102, 110, 114, 116, 92, 47, 34} then go_to s InString
        else if c = 117 then go_to s (InStringEscU 0) else None)
   | InStringEscU n \<Rightarrow>
       (if json_hex c then go_to s (if n < 3 then InStringEscU (Suc n) else InString) else None)
   | NumNeg \<Rightarrow>
       (if c = 48 then go_to s Num0
        else if 49 \<le> c \<and> c \<le> 57 then go_to s Num1 else None)
   | Num1 \<Rightarrow> (if json_digit c then Some s else state_num0 s c)
   | Num0 \<Rightarrow> state_num0 s c
   | NumDot \<Rightarrow> (if json_digit c then go_to s NumDot0 else None)
   | NumDot0 \<Rightarrow>
       (if json_digit c then Some s
        else if c = 101 \<or> c = 69 then go_to s NumE else state_end_value s c)
   | NumE \<Rightarrow>
       (if c = 43 \<or> c = 45 then go_to s NumESign
        else if json_digit c then go_to s NumE0 else None)
   | NumESign \<Rightarrow> (if json_digit c then go_to s NumE0 else None)
   | NumE0 \<Rightarrow> (if json_digit c then Some s else state_end_value s c)
   | Literal [] \<Rightarrow> None
   | Literal (l # ls) \<Rightarrow>
       (if c = l then go_to s (if ls = [] then EndValue else Literal ls) else None))"

declare json_step.simps [simp del]

definition json_reset :: json_scan where
  "json_reset = \<lparr>js_step = BeginValue, js_stack = [], js_end = False\<rparr>"

fun json_run :: "json_scan \<Rightarrow> bytes \<Rightarrow> json_scan option" where
  "json_run s [] = Some s"
| "json_run s (c # cs) = (case json_step s c of None \<Rightarrow> None | Some s' \<Rightarrow> json_run s' cs)"

definition json_eof :: "json_scan \<Rightarrow> bool" where
  "json_eof s \<longleftrightarrow> js_end s \<or> (case json_step s 32 of None \<Rightarrow> False | Some s' \<Rightarrow> js_end s')"

definition json_valid :: "bytes \<Rightarrow> bool" where
  "json_valid bs \<longleftrightarrow> (case json_run json_reset bs of None \<Rightarrow> False | Some s \<Rightarrow> json_eof s)"

subsection \<open>\<open>validateJSONObject\<close> (\<open>v1.go\<close>)\<close>

definition validate_json_object :: "bytes \<Rightarrow> go_error option" where
  "validate_json_object payload =
     (if payload = [] then Some (ProtocolError CategoryJSONInvalid StageMessage)
      else let trimmed = trim_space payload
        in if trimmed = [] \<or> hd trimmed \<noteq> 123
           then Some (ProtocolError CategoryJSONInvalid StageMessage)
           else if json_valid trimmed then None
           else Some (ProtocolError CategoryJSONInvalid StageMessage))"

lemma validate_json_object_error:
  "validate_json_object p = Some e \<Longrightarrow> e = ProtocolError CategoryJSONInvalid StageMessage"
  by (auto simp: validate_json_object_def Let_def split: if_splits)

lemma validate_json_object_Nil [simp]:
  "validate_json_object [] = Some (ProtocolError CategoryJSONInvalid StageMessage)"
  by (simp add: validate_json_object_def)

lemma json_run_append:
  "json_run s (as @ bs) = (case json_run s as of None \<Rightarrow> None | Some s' \<Rightarrow> json_run s' bs)"
  by (induction as arbitrary: s) (auto split: option.splits)

subsection \<open>Nesting stays bounded\<close>

text \<open>No input makes the scanner hold more than the documented number of open values.\<close>

lemma length_tl_le: "length xs \<le> k \<Longrightarrow> length (tl xs) \<le> k"
  by simp

lemma state_end_value_stack:
  "state_end_value s c = Some s' \<Longrightarrow> length (js_stack s') \<le> length (js_stack s)"
  by (auto simp: state_end_value_def go_to_def pop_state_def Let_def
      split: list.splits if_splits parse_state.splits)

lemma state_begin_value_stack:
  "state_begin_value s c = Some s' \<Longrightarrow> length (js_stack s) \<le> max_nesting_depth \<Longrightarrow>
   length (js_stack s') \<le> max_nesting_depth"
  by (auto simp: state_begin_value_def go_to_def push_state_def split: if_splits)

lemma state_begin_string_stack:
  "state_begin_string s c = Some s' \<Longrightarrow> js_stack s' = js_stack s"
  by (auto simp: state_begin_string_def go_to_def split: if_splits)

lemma state_num0_stack:
  "state_num0 s c = Some s' \<Longrightarrow> length (js_stack s') \<le> length (js_stack s)"
  by (auto simp: state_num0_def go_to_def dest: state_end_value_stack split: if_splits)

lemma state_begin_string_or_empty_stack:
  "js_stack s \<noteq> [] \<Longrightarrow> length (js_stack (s\<lparr>js_stack := p # tl (js_stack s)\<rparr>)) = length (js_stack s)"
  by (cases "js_stack s") auto

definition json_ok :: "json_scan \<Rightarrow> bool" where
  "json_ok s \<longleftrightarrow> length (js_stack s) \<le> max_nesting_depth \<and>
     (js_step s = BeginStringOrEmpty \<longrightarrow> js_stack s \<noteq> [])"

lemma go_to_iff: "go_to s st = Some s' \<longleftrightarrow> s' = s\<lparr>js_step := st\<rparr>"
  by (auto simp: go_to_def)

lemma state_end_value_step:
  "state_end_value s c = Some s' \<Longrightarrow> js_step s' \<noteq> BeginStringOrEmpty"
  by (auto simp: state_end_value_def go_to_iff pop_state_def Let_def
      split: list.splits if_splits parse_state.splits)

lemma state_num0_step:
  "state_num0 s c = Some s' \<Longrightarrow> js_step s' \<noteq> BeginStringOrEmpty"
  by (auto simp: state_num0_def go_to_iff dest: state_end_value_step split: if_splits)

lemma state_begin_value_ok:
  assumes "state_begin_value s c = Some s'" and "json_ok s"
  shows "json_ok s'"
  using assms
  by (auto simp: state_begin_value_def go_to_iff push_state_def json_ok_def split: if_splits)

lemma state_end_value_ok:
  assumes "state_end_value s c = Some s'" and "length (js_stack s) \<le> max_nesting_depth"
  shows "json_ok s'"
  using state_end_value_stack [OF assms(1)] state_end_value_step [OF assms(1)] assms(2)
  by (simp add: json_ok_def)

lemma state_num0_ok:
  assumes "state_num0 s c = Some s'" and "length (js_stack s) \<le> max_nesting_depth"
  shows "json_ok s'"
  using state_num0_stack [OF assms(1)] state_num0_step [OF assms(1)] assms(2)
  by (simp add: json_ok_def)

lemma state_begin_string_ok:
  assumes "state_begin_string s c = Some s'" and "json_ok s"
  shows "json_ok s'"
  using assms by (auto simp: state_begin_string_def go_to_iff json_ok_def split: if_splits)

lemma json_ok_go: "json_ok s \<Longrightarrow> st \<noteq> BeginStringOrEmpty \<Longrightarrow> json_ok (s\<lparr>js_step := st\<rparr>)"
  by (simp add: json_ok_def)

lemma json_okD: "json_ok s \<Longrightarrow> length (js_stack s) \<le> max_nesting_depth"
  by (simp add: json_ok_def)

lemma json_step_ok:
  assumes step: "json_step s c = Some s'" and ok: "json_ok s"
  shows "json_ok s'"
proof (cases "js_step s")
  case BeginStringOrEmpty
  let ?t = "s\<lparr>js_stack := PObjectValue # tl (js_stack s)\<rparr>"
  have "length (js_stack ?t) \<le> max_nesting_depth"
    using ok BeginStringOrEmpty by (cases "js_stack s") (auto simp: json_ok_def)
  then show ?thesis
    using step ok BeginStringOrEmpty
    by (auto simp: json_step.simps intro: state_end_value_ok state_begin_string_ok split: if_splits)
qed (use step ok in \<open>auto simp: json_step.simps go_to_iff json_ok_go json_okD
      intro: state_begin_value_ok state_end_value_ok state_num0_ok state_begin_string_ok
      split: if_splits list.splits\<close>)

lemma json_run_ok: "json_run s bs = Some s' \<Longrightarrow> json_ok s \<Longrightarrow> json_ok s'"
  by (induction bs arbitrary: s) (auto split: option.splits dest: json_step_ok)

lemma json_reset_ok [simp]: "json_ok json_reset"
  by (simp add: json_ok_def json_reset_def max_nesting_depth_def)

end
