(* ===== verification/Buffer_Pool.thy ===== *)
theory Buffer_Pool
  imports Wire_Base
begin

section \<open>Bounded buffer pool (\<open>pool.go\<close>)\<close>

text \<open>
  \<open>BufferPool\<close>: a channel of free buffers (first in, first out, at most \<open>slots\<close> of them),
  a size limit and a count of buffers handed out. A buffer is a Go slice; what matters of it
  is which array it is (\<open>buf_id\<close>) and its capacity. \<open>bp_next\<close> numbers the arrays that
  \<open>make\<close> allocates. The operations are the sequential ones: each runs between two
  acquisitions of the pool's mutex.
\<close>

record buffer =
  buf_id :: nat
  buf_cap :: nat

record buffer_pool =
  bp_limit :: int
  bp_slots :: nat
  bp_free :: "buffer list"
  bp_outstanding :: nat
  bp_next :: nat

definition new_buffer_pool :: "int \<Rightarrow> int \<Rightarrow> go_error + buffer_pool" where
  "new_buffer_pool limit slots =
     (if limit \<le> 0 then Inl ErrInvalidLimit
      else if slots \<le> 0 then Inl ErrInvalidPoolSlots
      else Inr \<lparr>bp_limit = limit, bp_slots = nat slots, bp_free = [], bp_outstanding = 0, bp_next = 0\<rparr>)"

definition pool_make :: "buffer_pool \<Rightarrow> int \<Rightarrow> buffer_pool \<times> buffer" where
  "pool_make p n = (p\<lparr>bp_next := Suc (bp_next p)\<rparr>, \<lparr>buf_id = bp_next p, buf_cap = nat n\<rparr>)"

definition pool_offer :: "buffer_pool \<Rightarrow> buffer \<Rightarrow> buffer_pool" where
  "pool_offer p b = (if length (bp_free p) < bp_slots p then p\<lparr>bp_free := bp_free p @ [b]\<rparr> else p)"

definition pool_get :: "buffer_pool \<Rightarrow> int \<Rightarrow> buffer_pool \<times> (go_error + buffer)" where
  "pool_get p n =
     (if n < 0 \<or> n > bp_limit p then (p, Inl ErrBufferTooLarge)
      else let p1 = p\<lparr>bp_outstanding := Suc (bp_outstanding p)\<rparr>
        in case bp_free p1 of
             [] \<Rightarrow> (let (p2, b) = pool_make p1 n in (p2, Inr b))
           | b # fs \<Rightarrow>
               if n \<le> int (buf_cap b) then (p1\<lparr>bp_free := fs\<rparr>, Inr b)
               else (let (p2, b') = pool_make (pool_offer (p1\<lparr>bp_free := fs\<rparr>) b) n in (p2, Inr b')))"

definition pool_put :: "buffer_pool \<Rightarrow> buffer option \<Rightarrow> buffer_pool" where
  "pool_put p ob =
     (let p1 = (if 0 < bp_outstanding p then p\<lparr>bp_outstanding := bp_outstanding p - 1\<rparr> else p)
      in case ob of
           None \<Rightarrow> p1
         | Some b \<Rightarrow> if int (buf_cap b) > bp_limit p then p1 else pool_offer p1 b)"

lemmas pool_op_defs = pool_get_def pool_put_def pool_make_def pool_offer_def Let_def

subsection \<open>Invariant: bounded, and every buffer has one owner\<close>

text \<open>
  \<open>pool_inv p held\<close>: \<open>held\<close> are the buffers handed out and not yet returned. Free and
  held buffers are pairwise different arrays, all allocated by this pool and none larger
  than the limit; the free list fits the channel; the counter counts the held buffers.
\<close>

definition pool_inv :: "buffer_pool \<Rightarrow> buffer list \<Rightarrow> bool" where
  "pool_inv p held \<longleftrightarrow>
     0 < bp_limit p \<and> length (bp_free p) \<le> bp_slots p \<and>
     bp_outstanding p = length held \<and>
     distinct (map buf_id (bp_free p @ held)) \<and>
     (\<forall>b \<in> set (bp_free p) \<union> set held. buf_id b < bp_next p \<and> int (buf_cap b) \<le> bp_limit p)"

lemma pool_inv_new: "new_buffer_pool limit slots = Inr p \<Longrightarrow> pool_inv p []"
  by (auto simp: new_buffer_pool_def pool_inv_def split: if_splits)

lemma pool_get_limit:
  "snd (pool_get p n) = Inl ErrBufferTooLarge \<longleftrightarrow> n < 0 \<or> bp_limit p < n"
  by (auto simp: pool_op_defs split: list.splits)

lemma pool_get_error:
  "pool_get p n = (p', Inl e) \<Longrightarrow> p' = p \<and> e = ErrBufferTooLarge \<and> (n < 0 \<or> bp_limit p < n)"
  by (auto simp: pool_op_defs split: list.splits if_splits)

lemma pool_get_frame:
  "pool_get p n = (p', r) \<Longrightarrow> bp_limit p' = bp_limit p \<and> bp_slots p' = bp_slots p"
  by (auto simp: pool_op_defs split: list.splits if_splits)

lemma pool_get_cap:
  "pool_get p n = (p', Inr b) \<Longrightarrow> 0 \<le> n \<and> n \<le> bp_limit p \<and> n \<le> int (buf_cap b)"
  by (auto simp: pool_op_defs split: list.splits if_splits)

lemma pool_inv_fresh:
  assumes "pool_inv p held" and "n \<le> bp_limit p"
  shows "pool_inv (p\<lparr>bp_outstanding := Suc (bp_outstanding p), bp_next := Suc (bp_next p)\<rparr>)
           (\<lparr>buf_id = bp_next p, buf_cap = nat n\<rparr> # held)"
  using assms by (auto simp: pool_inv_def less_Suc_eq)

lemma pool_inv_reuse:
  assumes "pool_inv p held" and "bp_free p = c # fs"
  shows "pool_inv (p\<lparr>bp_free := fs, bp_outstanding := Suc (bp_outstanding p)\<rparr>) (c # held)"
  using assms by (auto simp: pool_inv_def)

lemma pool_inv_rotate:
  assumes "pool_inv p held" and "bp_free p = c # fs"
  shows "pool_inv (p\<lparr>bp_free := fs @ [c]\<rparr>) held"
  using assms by (auto simp: pool_inv_def)

lemma pool_inv_get:
  assumes inv: "pool_inv p held" and get: "pool_get p n = (p', Inr b)"
  shows "pool_inv p' (b # held)"
proof (cases "bp_free p")
  case Nil
  with get pool_inv_fresh [OF inv, of n] show ?thesis
    by (simp add: pool_op_defs split: if_splits)
next
  case (Cons c fs)
  have n: "n \<le> bp_limit p" using pool_get_cap [OF get] by simp
  have room: "length fs < bp_slots p" using inv Cons by (simp add: pool_inv_def)
  show ?thesis
    using get Cons room n pool_inv_reuse [OF inv Cons]
      pool_inv_fresh [OF pool_inv_rotate [OF inv Cons], of n]
    by (auto simp: pool_op_defs split: if_splits) (simp_all add: pool_inv_def)
qed

lemma pool_inv_put:
  assumes inv: "pool_inv p (hs @ b # held)"
  shows "pool_inv (pool_put p (Some b)) (hs @ held)"
  using inv by (auto simp: pool_op_defs pool_inv_def)

lemma pool_inv_put_hd [intro]:
  "pool_inv p (b # held) \<Longrightarrow> pool_inv (pool_put p (Some b)) held"
  using pool_inv_put [where hs = "[]"] by simp

lemma pool_put_outstanding:
  "bp_outstanding (pool_put p ob) = bp_outstanding p - 1"
  by (auto simp: pool_op_defs split: option.splits)

text \<open>A get followed by the put of its buffer leaves the count of held buffers as it was.\<close>

lemma pool_get_put:
  assumes "pool_inv p held" and "pool_get p n = (p', Inr b)"
  shows "pool_inv (pool_put p' (Some b)) held"
  using pool_inv_get [OF assms] by blast

end
