(* ===== verification/Wire_V1.thy ===== *)
theory Wire_V1
  imports Json_Scan Buffer_Pool
begin

section \<open>Wire v1 frames (\<open>v1.go\<close>)\<close>

text \<open>
  A v1 frame is a type byte, an 8-byte big-endian signed length and a JSON object. The
  theory models the encoder, the decoder of a complete byte slice and the reader that takes
  frames off an \<open>io.Reader\<close>, with the buffer pool the reader draws payloads from.
\<close>

definition V1HeaderSize :: nat where "V1HeaderSize = 9"
definition V1LengthFieldSize :: nat where "V1LengthFieldSize = 8"
definition DefaultV1PayloadLimit :: int where "DefaultV1PayloadLimit = 10240"

record frame =
  fr_type :: message_type
  fr_payload :: bytes
  fr_release :: "buffer option"

text \<open>Returning the payload buffer of a frame: nothing to do without a pool.\<close>

definition release_buffer :: "buffer_pool option \<Rightarrow> buffer option \<Rightarrow> buffer_pool option" where
  "release_buffer p ob =
     (case p of None \<Rightarrow> None
      | Some q \<Rightarrow> (case ob of None \<Rightarrow> Some q | Some b \<Rightarrow> Some (pool_put q (Some b))))"

definition frame_release :: "buffer_pool option \<Rightarrow> frame \<Rightarrow> buffer_pool option" where
  "frame_release p f = release_buffer p (fr_release f)"

definition acquire_payload :: "buffer_pool option \<Rightarrow> int \<Rightarrow> buffer_pool option \<times> (go_error + buffer option)" where
  "acquire_payload p n =
     (case p of
        None \<Rightarrow> (None, Inr None)
      | Some q \<Rightarrow> (case pool_get q n of
            (q', Inl e) \<Rightarrow> (Some q', Inl e)
          | (q', Inr b) \<Rightarrow> (Some q', Inr (Some b))))"

subsection \<open>Encoding and decoding a whole frame\<close>

definition encode_v1_frame_with_limit :: "frame \<Rightarrow> int \<Rightarrow> go_error + bytes" where
  "encode_v1_frame_with_limit f limit =
     (case message_type_by_v1 (mt_v1byte (fr_type f)) of
        None \<Rightarrow> Inl (ProtocolError CategoryTypeInvalid StageMessage)
      | Some _ \<Rightarrow>
          (case ensure_payload_within_limit (int (length (fr_payload f))) limit StageMessage of
             Some e \<Rightarrow> Inl e
           | None \<Rightarrow> Inr (mt_v1byte (fr_type f)
                          # be_bytes V1LengthFieldSize (length (fr_payload f)) @ fr_payload f)))"

definition encode_v1_frame :: "frame \<Rightarrow> go_error + bytes" where
  "encode_v1_frame f = encode_v1_frame_with_limit f DefaultV1PayloadLimit"

text \<open>\<open>int64(binary.BigEndian.Uint64(...))\<close>: the eight length bytes read as two's complement.\<close>

definition v1_declared :: "bytes \<Rightarrow> int" where
  "v1_declared bs = sint (word_of_nat (be_nat bs) :: 64 word)"

definition decode_v1_frame :: "bytes \<Rightarrow> int \<Rightarrow> go_error + frame" where
  "decode_v1_frame raw limit =
     (if length raw < V1HeaderSize then Inl (ProtocolError CategoryPayloadTruncated StageMessage)
      else case message_type_by_v1 (raw ! 0) of
        None \<Rightarrow> Inl (ProtocolError CategoryTypeInvalid StageMessage)
      | Some mt \<Rightarrow>
          (let declared = v1_declared (take V1LengthFieldSize (drop 1 raw))
           in if declared < 0 then Inl (ProtocolError CategoryLengthInvalid StageMessage)
              else case ensure_payload_within_limit declared limit StageMessage of
                Some e \<Rightarrow> Inl e
              | None \<Rightarrow>
                  (let body = drop V1HeaderSize raw
                   in if int (length body) < declared
                      then Inl (ProtocolError CategoryPayloadTruncated StageMessage)
                      else let payload = take (nat declared) body
                        in case validate_json_object payload of
                             Some e \<Rightarrow> Inl e
                           | None \<Rightarrow> Inr \<lparr>fr_type = mt, fr_payload = payload, fr_release = None\<rparr>)))"

subsection \<open>Reading frames off a stream\<close>

record 's v1_reader =
  v1r_source :: 's
  v1r_limit :: int

definition frame_header_error :: "go_error \<Rightarrow> go_error" where
  "frame_header_error e =
     (if e = IO_EOF then IO_EOF
      else if e = IO_UnexpectedEOF then ProtocolError CategoryPayloadTruncated StageMessage
      else ProtocolError CategoryTransportFailure StageMessage)"

definition payload_read_error :: "go_error \<Rightarrow> go_error" where
  "payload_read_error e =
     (if e = IO_EOF \<or> e = IO_UnexpectedEOF then ProtocolError CategoryPayloadTruncated StageMessage
      else ProtocolError CategoryTransportFailure StageMessage)"

definition v1_read_payload ::
  "'s read_full \<Rightarrow> 's v1_reader \<Rightarrow> buffer_pool option \<Rightarrow> message_type \<Rightarrow> int
   \<Rightarrow> 's v1_reader \<times> buffer_pool option \<times> (go_error + frame)" where
  "v1_read_payload rf rd p mt n =
     (case acquire_payload p n of
        (p1, Inl e) \<Rightarrow> (rd, p1, Inl e)
      | (p1, Inr ob) \<Rightarrow>
          (case rf (v1r_source rd) (nat n) of
             (s', Inl e) \<Rightarrow> (rd\<lparr>v1r_source := s'\<rparr>, release_buffer p1 ob, Inl (payload_read_error e))
           | (s', Inr payload) \<Rightarrow>
               (case validate_json_object payload of
                  Some e \<Rightarrow> (rd\<lparr>v1r_source := s'\<rparr>, release_buffer p1 ob, Inl e)
                | None \<Rightarrow> (rd\<lparr>v1r_source := s'\<rparr>, p1,
                            Inr \<lparr>fr_type = mt, fr_payload = payload, fr_release = ob\<rparr>))))"

definition v1_read_frame ::
  "'s read_full \<Rightarrow> 's v1_reader \<Rightarrow> buffer_pool option
   \<Rightarrow> 's v1_reader \<times> buffer_pool option \<times> (go_error + frame)" where
  "v1_read_frame rf rd p =
     (case rf (v1r_source rd) V1HeaderSize of
        (s', Inl e) \<Rightarrow> (rd\<lparr>v1r_source := s'\<rparr>, p, Inl (frame_header_error e))
      | (s', Inr header) \<Rightarrow>
          (let rd' = rd\<lparr>v1r_source := s'\<rparr>
           in case message_type_by_v1 (header ! 0) of
                None \<Rightarrow> (rd', p, Inl (ProtocolError CategoryTypeInvalid StageMessage))
              | Some mt \<Rightarrow>
                  (let declared = v1_declared (take V1LengthFieldSize (drop 1 header))
                   in if declared < 0 then (rd', p, Inl (ProtocolError CategoryLengthInvalid StageMessage))
                      else case ensure_payload_within_limit declared (v1r_limit rd') StageMessage of
                        Some e \<Rightarrow> (rd', p, Inl e)
                      | None \<Rightarrow> v1_read_payload rf rd' p mt declared)))"

subsection \<open>Length field\<close>

lemma v1_declared_be: "n < 2 ^ 63 \<Longrightarrow> v1_declared (be_bytes V1LengthFieldSize n) = int n"
proof -
  assume n: "n < 2 ^ 63"
  then have "n < 256 ^ 8" by simp
  then have "v1_declared (be_bytes V1LengthFieldSize n) = sint (word_of_nat n :: 64 word)"
    by (simp add: v1_declared_def V1LengthFieldSize_def del: be_bytes.simps)
  also have "\<dots> = int n" using n by (simp add: signed_of_nat signed_take_bit_int_eq_self)
  finally show ?thesis .
qed

lemma encode_v1_InrD:
  "encode_v1_frame_with_limit f limit = Inr raw \<Longrightarrow>
   int (length (fr_payload f)) \<le> limit \<and>
   raw = mt_v1byte (fr_type f) # be_bytes V1LengthFieldSize (length (fr_payload f)) @ fr_payload f"
  by (auto simp: encode_v1_frame_with_limit_def ensure_payload_None_iff split: option.splits)

lemma encode_v1_header:
  assumes "encode_v1_frame_with_limit f limit = Inr raw"
  shows "length raw = V1HeaderSize + length (fr_payload f)"
    and "raw ! 0 = mt_v1byte (fr_type f)"
    and "take V1LengthFieldSize (drop 1 (raw @ rest)) = be_bytes V1LengthFieldSize (length (fr_payload f))"
    and "drop V1HeaderSize (raw @ rest) = fr_payload f @ rest"
  using encode_v1_InrD [OF assms] by (simp_all add: V1HeaderSize_def V1LengthFieldSize_def)

subsection \<open>Any byte source behaves as its stream\<close>

definition v1_view :: "('s \<Rightarrow> stream) \<Rightarrow> 's v1_reader \<Rightarrow> stream v1_reader" where
  "v1_view so rd = \<lparr>v1r_source = so (v1r_source rd), v1r_limit = v1r_limit rd\<rparr>"

lemma v1_view_simps [simp]:
  "v1r_source (v1_view so rd) = so (v1r_source rd)"
  "v1r_limit (v1_view so rd) = v1r_limit rd"
  "v1_view so (rd\<lparr>v1r_source := s\<rparr>) = (v1_view so rd)\<lparr>v1r_source := so s\<rparr>"
  by (simp_all add: v1_view_def)

context byte_source
begin

lemma v1_read_payload_sim:
  "v1_read_payload rf rd p mt n = (rd', p', r) \<Longrightarrow>
   \<exists>x. v1_read_payload stream_read_full (v1_view stream_of rd) p mt n = (x, p', r) \<and>
       (\<not> isl r \<longrightarrow> x = v1_view stream_of rd')"
  by (auto simp: v1_read_payload_def dest!: rf_ok rf_failD split: prod.splits sum.splits option.splits)

lemma v1_read_frame_sim:
  "v1_read_frame rf rd p = (rd', p', r) \<Longrightarrow>
   \<exists>x. v1_read_frame stream_read_full (v1_view stream_of rd) p = (x, p', r) \<and>
       (\<not> isl r \<longrightarrow> x = v1_view stream_of rd')"
  by (auto simp: v1_read_frame_def Let_def dest!: rf_ok rf_failD v1_read_payload_sim
      split: prod.splits sum.splits option.splits if_splits)

end

subsection \<open>Reading frames off a stream of bytes\<close>

lemma stream_read_ok:
  "n \<le> length (st_data s) \<Longrightarrow>
   stream_read_full s n = (s\<lparr>st_data := drop n (st_data s)\<rparr>, Inr (take n (st_data s)))"
  by (simp add: stream_read_full_def)

lemma v1_read_payload_none:
  assumes "st_data (v1r_source rd) = payload @ rest"
    and "validate_json_object payload = None"
  shows "v1_read_payload stream_read_full rd None mt (int (length payload)) =
    (rd\<lparr>v1r_source := (v1r_source rd)\<lparr>st_data := rest\<rparr>\<rparr>, None,
     Inr \<lparr>fr_type = mt, fr_payload = payload, fr_release = None\<rparr>)"
  using assms by (simp add: v1_read_payload_def acquire_payload_def stream_read_ok)

lemma v1_read_encoded:
  assumes enc: "encode_v1_frame_with_limit f (v1r_limit rd) = Inr raw"
    and ty: "fr_type f \<in> set supported_message_types"
    and js: "validate_json_object (fr_payload f) = None"
    and lim: "v1r_limit rd < 2 ^ 63"
    and data: "st_data (v1r_source rd) = raw @ rest"
  shows "v1_read_frame stream_read_full rd None =
    (rd\<lparr>v1r_source := (v1r_source rd)\<lparr>st_data := rest\<rparr>\<rparr>, None, Inr (f\<lparr>fr_release := None\<rparr>))"
proof -
  let ?n = "length (fr_payload f)"
  have n: "?n < 2 ^ 63" and raw: "raw = mt_v1byte (fr_type f) # be_bytes V1LengthFieldSize ?n @ fr_payload f"
    and le: "int ?n \<le> v1r_limit rd"
    using encode_v1_InrD [OF enc] lim by auto
  let ?rd = "rd\<lparr>v1r_source := (v1r_source rd)\<lparr>st_data := fr_payload f @ rest\<rparr>\<rparr>"
  have hdr: "stream_read_full (v1r_source rd) V1HeaderSize =
      ((v1r_source rd)\<lparr>st_data := fr_payload f @ rest\<rparr>, Inr (mt_v1byte (fr_type f) # be_bytes V1LengthFieldSize ?n))"
    using data raw by (simp add: stream_read_ok V1HeaderSize_def V1LengthFieldSize_def)
  have "v1_read_payload stream_read_full ?rd None (fr_type f) (int ?n) =
      (?rd\<lparr>v1r_source := (v1r_source ?rd)\<lparr>st_data := rest\<rparr>\<rparr>, None,
       Inr \<lparr>fr_type = fr_type f, fr_payload = fr_payload f, fr_release = None\<rparr>)"
    by (rule v1_read_payload_none [OF _ js]) simp
  then show ?thesis
    using hdr ty le
    by (simp add: v1_read_frame_def v1_declared_be [OF n] ensure_payload_within_limit_def)
qed

text \<open>Reading a given number of frames, stopping at the first error.\<close>

fun v1_read_frames ::
  "'s read_full \<Rightarrow> nat \<Rightarrow> 's v1_reader \<Rightarrow> 's v1_reader \<times> (go_error + frame list)" where
  "v1_read_frames rf 0 rd = (rd, Inr [])"
| "v1_read_frames rf (Suc n) rd =
     (case v1_read_frame rf rd None of
        (rd1, _, Inl e) \<Rightarrow> (rd1, Inl e)
      | (rd1, _, Inr f) \<Rightarrow>
          (case v1_read_frames rf n rd1 of
             (rd2, Inl e) \<Rightarrow> (rd2, Inl e)
           | (rd2, Inr fs) \<Rightarrow> (rd2, Inr (f # fs))))"

context byte_source
begin

lemma v1_read_frames_sim:
  "v1_read_frames rf n rd = (rd', r) \<Longrightarrow>
   \<exists>x. v1_read_frames stream_read_full n (v1_view stream_of rd) = (x, r) \<and>
       (\<not> isl r \<longrightarrow> x = v1_view stream_of rd')"
proof (induction n arbitrary: rd rd' r)
  case 0
  then show ?case by auto
next
  case (Suc n)
  show ?case
    using Suc.prems
    by (auto dest!: v1_read_frame_sim Suc.IH split: prod.splits sum.splits)
qed

end

definition v1_sendable :: "int \<Rightarrow> frame \<Rightarrow> bool" where
  "v1_sendable limit f \<longleftrightarrow> fr_type f \<in> set supported_message_types \<and>
     int (length (fr_payload f)) \<le> limit \<and> validate_json_object (fr_payload f) = None \<and>
     fr_release f = None"

lemma v1_sendable_encodes:
  "v1_sendable limit f \<Longrightarrow> \<exists>raw. encode_v1_frame_with_limit f limit = Inr raw"
  by (auto simp: v1_sendable_def encode_v1_frame_with_limit_def ensure_payload_within_limit_def)

definition v1_wire :: "int \<Rightarrow> frame list \<Rightarrow> bytes" where
  "v1_wire limit fs = concat (map (\<lambda>f. projr (encode_v1_frame_with_limit f limit)) fs)"

lemma v1_read_frames_wire:
  assumes "\<forall>f \<in> set fs. v1_sendable (v1r_limit rd) f" and "v1r_limit rd < 2 ^ 63"
    and "st_data (v1r_source rd) = v1_wire (v1r_limit rd) fs @ rest"
  shows "v1_read_frames stream_read_full (length fs) rd =
    (rd\<lparr>v1r_source := (v1r_source rd)\<lparr>st_data := rest\<rparr>\<rparr>, Inr fs)"
  using assms
proof (induction fs arbitrary: rd)
  case Nil
  then show ?case by (cases rd) (simp add: v1_wire_def)
next
  case (Cons f fs)
  let ?rd = "rd\<lparr>v1r_source := (v1r_source rd)\<lparr>st_data := v1_wire (v1r_limit rd) fs @ rest\<rparr>\<rparr>"
  obtain raw where raw: "encode_v1_frame_with_limit f (v1r_limit rd) = Inr raw"
    using Cons.prems(1) v1_sendable_encodes by fastforce
  have "v1_read_frame stream_read_full rd None = (?rd, None, Inr (f\<lparr>fr_release := None\<rparr>))"
    by (rule v1_read_encoded [OF raw])
      (use Cons.prems raw in \<open>simp_all add: v1_sendable_def v1_wire_def\<close>)
  moreover have "f\<lparr>fr_release := None\<rparr> = f" using Cons.prems(1) by (simp add: v1_sendable_def)
  moreover have "v1_read_frames stream_read_full (length fs) ?rd =
      (?rd\<lparr>v1r_source := (v1r_source ?rd)\<lparr>st_data := rest\<rparr>\<rparr>, Inr fs)"
    by (rule Cons.IH) (use Cons.prems in simp_all)
  ultimately show ?case by simp
qed

subsection \<open>The reader and the decoder agree\<close>

lemma v1_header_split:
  "V1HeaderSize \<le> length raw \<Longrightarrow> take V1HeaderSize raw ! 0 = raw ! 0"
  "V1HeaderSize \<le> length raw \<Longrightarrow>
   take V1LengthFieldSize (drop (Suc 0) (take V1HeaderSize raw)) = take V1LengthFieldSize (drop (Suc 0) raw)"
  by (simp_all add: V1HeaderSize_def V1LengthFieldSize_def drop_take)

lemma v1_payload_decodes:
  assumes "st_end s = IO_EOF" and "0 \<le> n"
  shows "snd (snd (v1_read_payload stream_read_full \<lparr>v1r_source = s, v1r_limit = limit\<rparr> None mt n)) =
    (if int (length (st_data s)) < n then Inl (ProtocolError CategoryPayloadTruncated StageMessage)
     else case validate_json_object (take (nat n) (st_data s)) of
       Some e \<Rightarrow> Inl e
     | None \<Rightarrow> Inr \<lparr>fr_type = mt, fr_payload = take (nat n) (st_data s), fr_release = None\<rparr>)"
  using assms
  by (auto simp: v1_read_payload_def acquire_payload_def release_buffer_def stream_read_full_def
      short_read_error_def payload_read_error_def split: option.splits)

lemma v1_reader_decodes:
  assumes ne: "st_data s \<noteq> []" and e: "st_end s = IO_EOF"
  shows "snd (snd (v1_read_frame stream_read_full \<lparr>v1r_source = s, v1r_limit = limit\<rparr> None)) =
    decode_v1_frame (st_data s) limit"
proof (cases "V1HeaderSize \<le> length (st_data s)")
  case False
  then show ?thesis
    using assms
    by (simp add: v1_read_frame_def decode_v1_frame_def stream_read_full_def short_read_error_def
        frame_header_error_def)
next
  case True
  let ?s = "s\<lparr>st_data := drop V1HeaderSize (st_data s)\<rparr>"
  let ?d = "v1_declared (take V1LengthFieldSize (drop 1 (st_data s)))"
  have "stream_read_full s V1HeaderSize = (?s, Inr (take V1HeaderSize (st_data s)))"
    using True by (rule stream_read_ok)
  moreover have "st_end ?s = IO_EOF" using e by simp
  ultimately show ?thesis
    using True v1_payload_decodes [of ?s ?d limit]
    by (simp add: v1_read_frame_def decode_v1_frame_def v1_header_split Let_def split: option.split)
qed

subsection \<open>Buffers are never leaked\<close>

text \<open>
  Reading with a pool: on an error the set of held buffers is what it was; on success it has
  grown by the frame's buffer, and releasing the frame gives it back.
\<close>

definition pool_opt_inv :: "buffer_pool option \<Rightarrow> buffer list \<Rightarrow> bool" where
  "pool_opt_inv p held \<longleftrightarrow> (case p of None \<Rightarrow> True | Some q \<Rightarrow> pool_inv q held)"

lemma acquire_payload_inv:
  assumes "acquire_payload p n = (p', r)" and "pool_opt_inv p held"
  shows "case r of Inl e \<Rightarrow> p' = p \<and> e = ErrBufferTooLarge
    | Inr ob \<Rightarrow> (case ob of None \<Rightarrow> p = None \<and> p' = None | Some b \<Rightarrow> pool_opt_inv p' (b # held))"
  using assms
  by (auto simp: acquire_payload_def pool_opt_inv_def pool_inv_get
      dest!: pool_get_error split: option.splits prod.splits sum.splits)

lemma release_buffer_inv:
  "pool_opt_inv p (b # held) \<Longrightarrow> pool_opt_inv (release_buffer p (Some b)) held"
  by (auto simp: release_buffer_def pool_opt_inv_def split: option.splits)

lemma release_none [simp]: "release_buffer p None = p"
  by (simp add: release_buffer_def split: option.split)

definition read_result_inv :: "buffer_pool option \<Rightarrow> buffer list \<Rightarrow> go_error + frame \<Rightarrow> bool" where
  "read_result_inv p held r \<longleftrightarrow>
     (case r of
        Inl e \<Rightarrow> pool_opt_inv p held
      | Inr f \<Rightarrow> (case fr_release f of
            None \<Rightarrow> p = None
          | Some b \<Rightarrow> pool_opt_inv p (b # held)))"

lemma v1_read_payload_inv:
  assumes read: "v1_read_payload rf rd p mt n = (rd', p', r)" and inv: "pool_opt_inv p held"
  shows "read_result_inv p' held r"
proof -
  obtain p1 a where acq: "acquire_payload p n = (p1, a)" by fastforce
  note acq_inv = acquire_payload_inv [OF acq inv]
  show ?thesis
  proof (cases a)
    case (Inl e)
    with read acq acq_inv inv show ?thesis by (auto simp: v1_read_payload_def read_result_inv_def)
  next
    case (Inr ob)
    have rel: "pool_opt_inv (release_buffer p1 ob) held"
      using acq_inv Inr release_buffer_inv by (cases ob) (auto simp: pool_opt_inv_def)
    from read acq Inr acq_inv rel show ?thesis
      by (auto simp: v1_read_payload_def read_result_inv_def split: prod.splits sum.splits option.splits)
  qed
qed

lemma v1_read_frame_inv:
  assumes read: "v1_read_frame rf rd p = (rd', p', r)" and inv: "pool_opt_inv p held"
  shows "read_result_inv p' held r"
proof -
  have err: "read_result_inv p held (Inl e)" for e using inv by (simp add: read_result_inv_def)
  show ?thesis
    using read err v1_read_payload_inv [OF _ inv]
    by (auto simp: v1_read_frame_def Let_def split: prod.splits sum.splits option.splits if_splits)
qed

end
