(* ===== verification/Wire_V2.thy ===== *)
theory Wire_V2
  imports Wire_V1
begin

section \<open>Wire v2 frames (\<open>v2.go\<close>)\<close>

text \<open>
  A v2 frame is a 2-byte frame type, 2 bytes of flags (always zero), a 4-byte length and a
  payload; the payload of a message frame starts with the 2-byte message type. Encoder,
  decoder and stream reader, in the order of the file.
\<close>

definition V2HeaderSize :: nat where "V2HeaderSize = 8"
definition V2MessageTypeIDSize :: nat where "V2MessageTypeIDSize = 2"
definition DefaultV2PayloadLimit :: int where "DefaultV2PayloadLimit = 65536"

definition V2FrameTypeClientHello :: "16 word" where "V2FrameTypeClientHello = 1"
definition V2FrameTypeServerHello :: "16 word" where "V2FrameTypeServerHello = 2"
definition V2FrameTypeMessage :: "16 word" where "V2FrameTypeMessage = 16"

lemmas v2_frame_type_defs =
  V2FrameTypeClientHello_def V2FrameTypeServerHello_def V2FrameTypeMessage_def

definition V2Magic :: bytes where
  "V2Magic = [0x46, 0x52, 0x50, 0x00, 0x02, 0x0d, 0x0a]"

text \<open>The zero value of the Go struct, which stays in the type field of a hello frame.\<close>

definition zero_message_type :: message_type where
  "zero_message_type = \<lparr>mt_name = [], mt_v1byte = 0, mt_v2id = 0\<rparr>"

record message_frame =
  mf_type :: message_type
  mf_payload :: bytes

record v2_frame =
  v2f_type :: "16 word"
  v2f_flags :: "16 word"
  v2f_message :: message_frame
  v2f_release :: "buffer option"

definition v2_frame_release :: "buffer_pool option \<Rightarrow> v2_frame \<Rightarrow> buffer_pool option" where
  "v2_frame_release p f = release_buffer p (v2f_release f)"

definition is_defined_v2_frame_type :: "16 word \<Rightarrow> bool" where
  "is_defined_v2_frame_type t \<longleftrightarrow>
     t = V2FrameTypeClientHello \<or> t = V2FrameTypeServerHello \<or> t = V2FrameTypeMessage"

definition get_u16 :: "bytes \<Rightarrow> 16 word" where
  "get_u16 bs = word_of_nat (be_nat (take 2 bs))"

definition put_u16 :: "16 word \<Rightarrow> bytes" where
  "put_u16 w = be_bytes 2 (unat w)"

subsection \<open>Encoding\<close>

text \<open>The length is written as \<open>uint32(len(payload))\<close>: its value modulo \<open>2 ^ 32\<close>.\<close>

definition encode_v2_frame_with_limit :: "16 word \<Rightarrow> bytes \<Rightarrow> int \<Rightarrow> go_error + bytes" where
  "encode_v2_frame_with_limit ft payload limit =
     (if \<not> is_defined_v2_frame_type ft then Inl (ProtocolError CategoryFrameTypeInvalid StageMessage)
      else case ensure_payload_within_limit (int (length payload)) limit StageMessage of
        Some e \<Rightarrow> Inl e
      | None \<Rightarrow> Inr (put_u16 ft @ put_u16 0 @ be_bytes 4 (length payload mod 2 ^ 32) @ payload))"

definition encode_v2_frame :: "16 word \<Rightarrow> bytes \<Rightarrow> go_error + bytes" where
  "encode_v2_frame ft payload = encode_v2_frame_with_limit ft payload DefaultV2PayloadLimit"

definition encode_v2_message_frame :: "message_type \<Rightarrow> bytes \<Rightarrow> go_error + bytes" where
  "encode_v2_message_frame mt payload =
     (case message_type_by_v2 (mt_v2id mt) of
        None \<Rightarrow> Inl (ProtocolError CategoryTypeInvalid StageMessage)
      | Some _ \<Rightarrow>
          (case validate_json_object payload of
             Some e \<Rightarrow> Inl e
           | None \<Rightarrow> encode_v2_frame V2FrameTypeMessage (put_u16 (mt_v2id mt) @ payload)))"

subsection \<open>Decoding\<close>

definition decode_message_payload :: "bytes \<Rightarrow> go_error + message_frame" where
  "decode_message_payload payload =
     (if length payload < V2MessageTypeIDSize then Inl (ProtocolError CategoryTypeInvalid StageMessage)
      else case message_type_by_v2 (get_u16 payload) of
        None \<Rightarrow> Inl (ProtocolError CategoryTypeInvalid StageMessage)
      | Some mt \<Rightarrow>
          (let body = drop V2MessageTypeIDSize payload
           in case validate_json_object body of
                Some e \<Rightarrow> Inl e
              | None \<Rightarrow> Inr \<lparr>mf_type = mt, mf_payload = body\<rparr>))"

definition v2_declared :: "bytes \<Rightarrow> int" where
  "v2_declared header = int (be_nat (take 4 (drop 4 header)))"

definition decode_v2_frame :: "bytes \<Rightarrow> int \<Rightarrow> go_error + v2_frame" where
  "decode_v2_frame raw limit =
     (if length raw < V2HeaderSize then Inl (ProtocolError CategoryPayloadTruncated StageMessage)
      else if \<not> is_defined_v2_frame_type (get_u16 raw)
      then Inl (ProtocolError CategoryFrameTypeInvalid StageMessage)
      else if get_u16 (drop 2 raw) \<noteq> 0
      then Inl (ProtocolError CategoryFlagsUnsupported StageMessage)
      else case ensure_payload_within_limit (v2_declared raw) limit StageMessage of
        Some e \<Rightarrow> Inl e
      | None \<Rightarrow>
          (let body = drop V2HeaderSize raw
           in if int (length body) < v2_declared raw
              then Inl (ProtocolError CategoryPayloadTruncated StageMessage)
              else let payload = take (nat (v2_declared raw)) body
                in if get_u16 raw \<noteq> V2FrameTypeMessage
                   then Inr \<lparr>v2f_type = get_u16 raw, v2f_flags = get_u16 (drop 2 raw),
                             v2f_message = \<lparr>mf_type = zero_message_type, mf_payload = payload\<rparr>,
                             v2f_release = None\<rparr>
                   else case decode_message_payload payload of
                          Inl e \<Rightarrow> Inl e
                        | Inr m \<Rightarrow> Inr \<lparr>v2f_type = get_u16 raw, v2f_flags = get_u16 (drop 2 raw),
                                         v2f_message = m, v2f_release = None\<rparr>))"

subsection \<open>The stream reader\<close>

record 's v2_reader =
  v2r_source :: 's
  v2r_limit :: int

definition v2_set_limit :: "'s v2_reader \<Rightarrow> int \<Rightarrow> 's v2_reader" where
  "v2_set_limit rd limit = (if limit \<le> 0 \<or> limit \<ge> v2r_limit rd then rd else rd\<lparr>v2r_limit := limit\<rparr>)"

definition v2_header_error :: "go_error \<Rightarrow> go_error" where
  "v2_header_error e = (if e = IO_EOF then IO_EOF else ProtocolError CategoryPayloadTruncated StageMessage)"

definition v2_read_body ::
  "'s read_full \<Rightarrow> 's v2_reader \<Rightarrow> buffer_pool option \<Rightarrow> 16 word \<Rightarrow> 16 word \<Rightarrow> int
   \<Rightarrow> 's v2_reader \<times> buffer_pool option \<times> (go_error + v2_frame)" where
  "v2_read_body rf rd p ft flags n =
     (case acquire_payload p n of
        (p1, Inl e) \<Rightarrow> (rd, p1, Inl e)
      | (p1, Inr ob) \<Rightarrow>
          (case rf (v2r_source rd) (nat n) of
             (s', Inl e) \<Rightarrow> (rd\<lparr>v2r_source := s'\<rparr>, release_buffer p1 ob, Inl (payload_read_error e))
           | (s', Inr payload) \<Rightarrow>
               (let rd' = rd\<lparr>v2r_source := s'\<rparr>
                in if ft \<noteq> V2FrameTypeMessage
                   then (rd', p1, Inr \<lparr>v2f_type = ft, v2f_flags = flags,
                          v2f_message = \<lparr>mf_type = zero_message_type, mf_payload = payload\<rparr>,
                          v2f_release = ob\<rparr>)
                   else case decode_message_payload payload of
                          Inl e \<Rightarrow> (rd', release_buffer p1 ob, Inl e)
                        | Inr m \<Rightarrow> (rd', p1, Inr \<lparr>v2f_type = ft, v2f_flags = flags,
                                     v2f_message = m, v2f_release = ob\<rparr>))))"

definition v2_read_frame ::
  "'s read_full \<Rightarrow> 's v2_reader \<Rightarrow> buffer_pool option
   \<Rightarrow> 's v2_reader \<times> buffer_pool option \<times> (go_error + v2_frame)" where
  "v2_read_frame rf rd p =
     (case rf (v2r_source rd) V2HeaderSize of
        (s', Inl e) \<Rightarrow> (rd\<lparr>v2r_source := s'\<rparr>, p, Inl (v2_header_error e))
      | (s', Inr header) \<Rightarrow>
          (let rd' = rd\<lparr>v2r_source := s'\<rparr>
           in if \<not> is_defined_v2_frame_type (get_u16 header)
              then (rd', p, Inl (ProtocolError CategoryFrameTypeInvalid StageMessage))
              else if get_u16 (drop 2 header) \<noteq> 0
              then (rd', p, Inl (ProtocolError CategoryFlagsUnsupported StageMessage))
              else case ensure_payload_within_limit (v2_declared header) (v2r_limit rd') StageMessage of
                Some e \<Rightarrow> (rd', p, Inl e)
              | None \<Rightarrow> v2_read_body rf rd' p (get_u16 header) (get_u16 (drop 2 header)) (v2_declared header)))"

subsection \<open>Fields of an encoded frame\<close>

lemma length_put_u16 [simp]: "length (put_u16 w) = 2"
  by (simp add: put_u16_def del: be_bytes.simps)

lemma unat_u16_less: "unat (w :: 16 word) < 256 ^ 2"
  using unsigned_less [of w] by simp

lemma get_put_u16 [simp]: "get_u16 (put_u16 w @ bs) = w"
proof -
  have "be_nat (put_u16 w) = unat w"
    unfolding put_u16_def by (rule be_nat_be_bytes [OF unat_u16_less])
  then show ?thesis by (simp add: get_u16_def)
qed

lemma encode_v2_InrD:
  "encode_v2_frame_with_limit ft payload limit = Inr raw \<Longrightarrow>
   is_defined_v2_frame_type ft \<and> int (length payload) \<le> limit \<and>
   raw = put_u16 ft @ put_u16 0 @ be_bytes 4 (length payload mod 2 ^ 32) @ payload"
  by (auto simp: encode_v2_frame_with_limit_def ensure_payload_None_iff split: option.splits if_splits)

lemma drop_put_u16 [simp]: "drop 2 (put_u16 w @ bs) = bs"
  by (metis append_eq_conv_conj length_put_u16)

lemma v2_declared_encoded:
  assumes "length payload < 2 ^ 32"
  shows "v2_declared (put_u16 ft @ put_u16 fl @ be_bytes 4 (length payload mod 2 ^ 32) @ rest) =
    int (length payload)"
proof -
  have "drop 4 (put_u16 ft @ put_u16 fl @ be_bytes 4 (length payload mod 2 ^ 32) @ rest) =
      be_bytes 4 (length payload mod 2 ^ 32) @ rest"
    by (simp add: drop_append del: be_bytes.simps)
  moreover have "take 4 (be_bytes 4 (length payload mod 2 ^ 32) @ rest) = be_bytes 4 (length payload)"
    using assms by (simp add: take_append del: be_bytes.simps)
  moreover have "length payload < 256 ^ 4" using assms by simp
  ultimately show ?thesis
    by (simp only: v2_declared_def be_nat_be_bytes)
qed

lemma v2_header_split:
  "V2HeaderSize \<le> length raw \<Longrightarrow> get_u16 (take V2HeaderSize raw) = get_u16 raw"
  "V2HeaderSize \<le> length raw \<Longrightarrow> get_u16 (drop 2 (take V2HeaderSize raw)) = get_u16 (drop 2 raw)"
  "V2HeaderSize \<le> length raw \<Longrightarrow> v2_declared (take V2HeaderSize raw) = v2_declared raw"
  by (simp_all add: V2HeaderSize_def get_u16_def v2_declared_def drop_take min_def)

lemma v2_declared_nonneg [simp]: "0 \<le> v2_declared bs"
  by (simp add: v2_declared_def)

lemma v2_declared_less: "v2_declared bs < 2 ^ 32"
proof -
  have "be_nat (take 4 (drop 4 bs)) < 256 ^ length (take 4 (drop 4 bs))" by (rule be_nat_bound)
  also have "\<dots> \<le> 256 ^ 4" by (rule power_increasing) auto
  finally show ?thesis by (simp add: v2_declared_def)
qed

subsection \<open>Any byte source behaves as its stream\<close>

definition v2_view :: "('s \<Rightarrow> stream) \<Rightarrow> 's v2_reader \<Rightarrow> stream v2_reader" where
  "v2_view so rd = \<lparr>v2r_source = so (v2r_source rd), v2r_limit = v2r_limit rd\<rparr>"

lemma v2_view_simps [simp]:
  "v2r_source (v2_view so rd) = so (v2r_source rd)"
  "v2r_limit (v2_view so rd) = v2r_limit rd"
  "v2_view so (rd\<lparr>v2r_source := s\<rparr>) = (v2_view so rd)\<lparr>v2r_source := so s\<rparr>"
  by (simp_all add: v2_view_def)

context byte_source
begin

lemma v2_read_body_sim:
  "v2_read_body rf rd p ft fl n = (rd', p', r) \<Longrightarrow>
   \<exists>x. v2_read_body stream_read_full (v2_view stream_of rd) p ft fl n = (x, p', r) \<and>
       (\<not> isl r \<longrightarrow> x = v2_view stream_of rd')"
  by (auto simp: v2_read_body_def Let_def dest!: rf_ok rf_failD split: prod.splits sum.splits if_splits)

lemma v2_read_frame_sim:
  "v2_read_frame rf rd p = (rd', p', r) \<Longrightarrow>
   \<exists>x. v2_read_frame stream_read_full (v2_view stream_of rd) p = (x, p', r) \<and>
       (\<not> isl r \<longrightarrow> x = v2_view stream_of rd')"
  by (auto simp: v2_read_frame_def Let_def dest!: rf_ok rf_failD v2_read_body_sim
      split: prod.splits sum.splits option.splits if_splits)

end

subsection \<open>Round trips\<close>

lemma decode_message_payload_encoded:
  assumes "m \<in> set supported_message_types" and "validate_json_object payload = None"
  shows "decode_message_payload (put_u16 (mt_v2id m) @ payload) = Inr \<lparr>mf_type = m, mf_payload = payload\<rparr>"
  using assms by (simp add: decode_message_payload_def V2MessageTypeIDSize_def)

lemma encode_v2_message_InrD:
  assumes "encode_v2_message_frame mt payload = Inr raw"
  shows "validate_json_object payload = None \<and>
    encode_v2_frame_with_limit V2FrameTypeMessage (put_u16 (mt_v2id mt) @ payload) DefaultV2PayloadLimit = Inr raw"
  using assms by (auto simp: encode_v2_message_frame_def encode_v2_frame_def split: option.splits)

lemma v2_wire_parts:
  assumes enc: "encode_v2_frame_with_limit ft payload limit = Inr raw" and lim: "limit < 2 ^ 32"
  shows "length (raw @ rest) \<ge> V2HeaderSize"
    and "get_u16 (raw @ rest) = ft" and "get_u16 (drop 2 (raw @ rest)) = 0"
    and "v2_declared (raw @ rest) = int (length payload)"
    and "drop V2HeaderSize (raw @ rest) = payload @ rest"
proof -
  have raw: "raw = put_u16 ft @ put_u16 0 @ be_bytes 4 (length payload mod 2 ^ 32) @ payload"
    and le: "int (length payload) \<le> limit"
    using encode_v2_InrD [OF enc] by auto
  then have "int (length payload) < 2 ^ 32" using lim by linarith
  then have n: "length payload < 2 ^ 32" by simp
  show "length (raw @ rest) \<ge> V2HeaderSize" "get_u16 (raw @ rest) = ft"
    "get_u16 (drop 2 (raw @ rest)) = 0"
    "v2_declared (raw @ rest) = int (length payload)"
    using raw v2_declared_encoded [OF n, of ft 0 "payload @ rest"]
    by (simp_all add: V2HeaderSize_def del: be_bytes.simps)
  have "length (put_u16 ft @ put_u16 0 @ be_bytes 4 (length payload mod 2 ^ 32)) = 8"
    by (simp del: be_bytes.simps)
  then show "drop V2HeaderSize (raw @ rest) = payload @ rest"
    using raw unfolding V2HeaderSize_def by (metis append.assoc append_eq_conv_conj)
qed

lemma v2_decode_encoded:
  assumes "encode_v2_frame_with_limit ft payload limit = Inr raw" and "limit < 2 ^ 32"
    and "ft \<noteq> V2FrameTypeMessage"
  shows "decode_v2_frame (raw @ rest) limit =
    Inr \<lparr>v2f_type = ft, v2f_flags = 0,
         v2f_message = \<lparr>mf_type = zero_message_type, mf_payload = payload\<rparr>, v2f_release = None\<rparr>"
  using v2_wire_parts [OF assms(1,2), where rest = rest] encode_v2_InrD [OF assms(1)] assms(3)
  by (simp add: decode_v2_frame_def ensure_payload_within_limit_def)

lemma v2_decode_encoded_message:
  assumes enc: "encode_v2_message_frame m payload = Inr raw"
    and m: "m \<in> set supported_message_types"
  shows "decode_v2_frame (raw @ rest) DefaultV2PayloadLimit =
    Inr \<lparr>v2f_type = V2FrameTypeMessage, v2f_flags = 0,
         v2f_message = \<lparr>mf_type = m, mf_payload = payload\<rparr>, v2f_release = None\<rparr>"
proof -
  note e = encode_v2_message_InrD [OF enc]
  have "DefaultV2PayloadLimit < 2 ^ 32" by (simp add: DefaultV2PayloadLimit_def)
  from v2_wire_parts [OF conjunct2 [OF e] this, where rest = rest] show ?thesis
    using decode_message_payload_encoded [OF m conjunct1 [OF e]] encode_v2_InrD [OF conjunct2 [OF e]]
    by (simp add: decode_v2_frame_def ensure_payload_within_limit_def)
qed

lemma v2_read_encoded:
  assumes enc: "encode_v2_message_frame m payload = Inr raw"
    and m: "m \<in> set supported_message_types"
    and lim: "v2r_limit rd = DefaultV2PayloadLimit"
    and data: "st_data (v2r_source rd) = raw @ rest"
  shows "v2_read_frame stream_read_full rd None =
    (rd\<lparr>v2r_source := (v2r_source rd)\<lparr>st_data := rest\<rparr>\<rparr>, None,
     Inr \<lparr>v2f_type = V2FrameTypeMessage, v2f_flags = 0,
          v2f_message = \<lparr>mf_type = m, mf_payload = payload\<rparr>, v2f_release = None\<rparr>)"
proof -
  let ?body = "put_u16 (mt_v2id m) @ payload" and ?s = "v2r_source rd"
  note e = encode_v2_message_InrD [OF enc]
  have small: "DefaultV2PayloadLimit < 2 ^ 32" by (simp add: DefaultV2PayloadLimit_def)
  note w = v2_wire_parts [OF conjunct2 [OF e] small, where rest = rest]
  note le = encode_v2_InrD [OF conjunct2 [OF e]]
  let ?s1 = "?s\<lparr>st_data := ?body @ rest\<rparr>"
  have hdr: "stream_read_full ?s V2HeaderSize = (?s1, Inr (take V2HeaderSize (raw @ rest)))"
    using stream_read_ok [of V2HeaderSize ?s] w(1,5) data by simp
  have len: "length ?body = nat (int (length ?body))" by simp
  have body: "stream_read_full ?s1 (length ?body) = (?s\<lparr>st_data := rest\<rparr>, Inr ?body)"
    using stream_read_ok [of "length ?body" ?s1] by simp
  have "v2_read_body stream_read_full (rd\<lparr>v2r_source := ?s1\<rparr>) None V2FrameTypeMessage 0 (int (length ?body)) =
      (rd\<lparr>v2r_source := ?s\<lparr>st_data := rest\<rparr>\<rparr>, None,
       Inr \<lparr>v2f_type = V2FrameTypeMessage, v2f_flags = 0,
          v2f_message = \<lparr>mf_type = m, mf_payload = payload\<rparr>, v2f_release = None\<rparr>)"
    using body decode_message_payload_encoded [OF m conjunct1 [OF e]]
    by (simp add: v2_read_body_def acquire_payload_def Let_def del: length_append)
  then show ?thesis
    using hdr w(2-4) v2_header_split [OF w(1)] le lim
    by (simp add: v2_read_frame_def ensure_payload_within_limit_def Let_def del: length_append)
qed

subsection \<open>The reader and the decoder agree\<close>

lemma v2_body_decodes:
  assumes "st_end s = IO_EOF" and "0 \<le> n"
  shows "snd (snd (v2_read_body stream_read_full \<lparr>v2r_source = s, v2r_limit = limit\<rparr> None ft fl n)) =
    (if int (length (st_data s)) < n then Inl (ProtocolError CategoryPayloadTruncated StageMessage)
     else let payload = take (nat n) (st_data s)
       in if ft \<noteq> V2FrameTypeMessage
          then Inr \<lparr>v2f_type = ft, v2f_flags = fl,
                 v2f_message = \<lparr>mf_type = zero_message_type, mf_payload = payload\<rparr>, v2f_release = None\<rparr>
          else case decode_message_payload payload of
                 Inl e \<Rightarrow> Inl e
               | Inr m \<Rightarrow> Inr \<lparr>v2f_type = ft, v2f_flags = fl, v2f_message = m, v2f_release = None\<rparr>)"
  using assms
  by (auto simp: v2_read_body_def acquire_payload_def stream_read_full_def
      short_read_error_def payload_read_error_def Let_def split: sum.splits)

lemma v2_reader_decodes:
  assumes ne: "st_data s \<noteq> []" and e: "st_end s = IO_EOF"
  shows "snd (snd (v2_read_frame stream_read_full \<lparr>v2r_source = s, v2r_limit = limit\<rparr> None)) =
    decode_v2_frame (st_data s) limit"
proof (cases "V2HeaderSize \<le> length (st_data s)")
  case False
  then show ?thesis
    using assms
    by (simp add: v2_read_frame_def decode_v2_frame_def stream_read_full_def short_read_error_def
        v2_header_error_def)
next
  case True
  let ?s = "s\<lparr>st_data := drop V2HeaderSize (st_data s)\<rparr>"
  have "stream_read_full s V2HeaderSize = (?s, Inr (take V2HeaderSize (st_data s)))"
    using True by (rule stream_read_ok)
  moreover have "st_end ?s = IO_EOF" using e by simp
  ultimately show ?thesis
    using True v2_body_decodes [of ?s "v2_declared (st_data s)" limit]
    by (simp add: v2_read_frame_def decode_v2_frame_def v2_header_split Let_def
        split: option.split sum.split)
qed

subsection \<open>Limits and buffers\<close>

lemma v2_set_limit_le: "v2r_limit (v2_set_limit rd n) \<le> v2r_limit rd"
  by (simp add: v2_set_limit_def)

lemma v2_read_body_limit:
  "v2_read_body rf rd p ft fl n = (rd', p', r) \<Longrightarrow> v2r_limit rd' = v2r_limit rd"
  by (auto simp: v2_read_body_def Let_def split: prod.splits sum.splits if_splits)

lemma v2_read_frame_limit:
  "v2_read_frame rf rd p = (rd', p', r) \<Longrightarrow> v2r_limit rd' = v2r_limit rd"
  by (auto simp: v2_read_frame_def Let_def dest: v2_read_body_limit
      split: prod.splits sum.splits option.splits if_splits)

definition v2_result_inv :: "buffer_pool option \<Rightarrow> buffer list \<Rightarrow> go_error + v2_frame \<Rightarrow> bool" where
  "v2_result_inv p held r \<longleftrightarrow>
     (case r of
        Inl e \<Rightarrow> pool_opt_inv p held
      | Inr f \<Rightarrow> (case v2f_release f of
            None \<Rightarrow> p = None
          | Some b \<Rightarrow> pool_opt_inv p (b # held)))"

lemma v2_read_body_inv:
  assumes read: "v2_read_body rf rd p ft fl n = (rd', p', r)" and inv: "pool_opt_inv p held"
  shows "v2_result_inv p' held r"
proof -
  obtain p1 a where acq: "acquire_payload p n = (p1, a)" by fastforce
  note acq_inv = acquire_payload_inv [OF acq inv]
  show ?thesis
  proof (cases a)
    case (Inl e)
    with read acq acq_inv inv show ?thesis by (auto simp: v2_read_body_def v2_result_inv_def)
  next
    case (Inr ob)
    have rel: "pool_opt_inv (release_buffer p1 ob) held"
      using acq_inv Inr release_buffer_inv by (cases ob) (auto simp: pool_opt_inv_def)
    from read acq Inr acq_inv rel show ?thesis
      by (cases ob) (auto simp: v2_read_body_def v2_result_inv_def Let_def
          split: prod.splits sum.splits if_splits)
  qed
qed

lemma v2_read_frame_inv:
  assumes read: "v2_read_frame rf rd p = (rd', p', r)" and inv: "pool_opt_inv p held"
  shows "v2_result_inv p' held r"
proof -
  have err: "v2_result_inv p held (Inl e)" for e using inv by (simp add: v2_result_inv_def)
  show ?thesis
    using read err v2_read_body_inv [OF _ inv]
    by (auto simp: v2_read_frame_def Let_def split: prod.splits sum.splits option.splits if_splits)
qed

end
