(* ===== verification/Wire_Negotiate.thy ===== *)
theory Wire_Negotiate
  imports Wire_V2
begin

section \<open>Capability negotiation and transforms (\<open>negotiate.go\<close>, \<open>transform.go\<close>)\<close>

text \<open>
  The hello messages of wire v2, the choice of codec, cipher, compression and payload limit,
  and the state machine of encryption and compression. The JSON mapping of the hello structs
  is \<open>encoding/json\<close>: a parameter, a pair of functions between the struct and its bytes.
\<close>

definition CodecJSON :: string where "CodecJSON = ''json''"
definition CryptoNone :: string where "CryptoNone = ''none''"
definition CryptoStreamV1 :: string where "CryptoStreamV1 = ''jrp-stream-v1''"
definition V2CipherAlgorithmAES256GCM :: string where "V2CipherAlgorithmAES256GCM = ''aes-256-gcm''"
definition CompressionNone :: string where "CompressionNone = ''none''"

text \<open>\<open>Compression\<close> is a pointer in the source: absent is \<open>None\<close>.\<close>

record client_hello =
  ch_transport :: string
  ch_tls_mux :: string
  ch_codecs :: "string list"
  ch_crypto :: "string list"
  ch_random :: string
  ch_compression :: "string list option"
  ch_max_payload :: int

record capabilities =
  cap_codecs :: "string list"
  cap_crypto :: "string list"
  cap_compression :: "string list"
  cap_max_payload :: int

definition default_capabilities :: capabilities where
  "default_capabilities =
     \<lparr>cap_codecs = [CodecJSON],
      cap_crypto = [V2CipherAlgorithmAES256GCM, CryptoNone, CryptoStreamV1],
      cap_compression = [CompressionNone],
      cap_max_payload = DefaultV2PayloadLimit\<rparr>"

record negotiation_result =
  nr_codec :: string
  nr_crypto :: string
  nr_compression :: string
  nr_max_payload :: int

record server_hello =
  sh_codec :: string
  sh_crypto :: string
  sh_random :: string
  sh_compression :: "string option"
  sh_max_payload :: int

definition intersect_prefer_server :: "string list \<Rightarrow> string list \<Rightarrow> string option" where
  "intersect_prefer_server client server =
     (if client = [] \<or> server = [] then None else find (\<lambda>v. v \<in> set client) server)"

definition negotiate_payload_limit :: "int \<Rightarrow> int \<Rightarrow> int" where
  "negotiate_payload_limit client server =
     (let limit = (if 0 < client \<and> client < server then client else server)
      in if limit > DefaultV2PayloadLimit then DefaultV2PayloadLimit else limit)"

definition negotiate :: "client_hello \<Rightarrow> capabilities \<Rightarrow> go_error + negotiation_result" where
  "negotiate request server =
     (case intersect_prefer_server (ch_codecs request) (cap_codecs server) of
        None \<Rightarrow> Inl (ProtocolError CategoryCapabilityMismatch StageNegotiate)
      | Some codec \<Rightarrow>
          (case intersect_prefer_server (ch_crypto request) (cap_crypto server) of
             None \<Rightarrow> Inl (ProtocolError CategoryCapabilityMismatch StageNegotiate)
           | Some crypto \<Rightarrow>
               (let compression =
                  (case ch_compression request of
                     None \<Rightarrow> CompressionNone
                   | Some offer \<Rightarrow>
                       (case intersect_prefer_server offer (cap_compression server) of
                          Some sel \<Rightarrow> sel | None \<Rightarrow> CompressionNone))
                in Inr \<lparr>nr_codec = codec, nr_crypto = crypto, nr_compression = compression,
                        nr_max_payload = negotiate_payload_limit (ch_max_payload request) (cap_max_payload server)\<rparr>)))"

text \<open>\<open>random\<close> is the base64 text of the 32 bytes that \<open>rand.Read\<close> returned.\<close>

definition server_hello_of :: "string \<Rightarrow> negotiation_result \<Rightarrow> server_hello" where
  "server_hello_of random result =
     \<lparr>sh_codec = nr_codec result, sh_crypto = nr_crypto result, sh_random = random,
      sh_compression = (if nr_compression result \<noteq> [] \<and> nr_compression result \<noteq> CompressionNone
                        then Some (nr_compression result) else None),
      sh_max_payload = nr_max_payload result\<rparr>"

definition encode_hello_payload :: "('h \<Rightarrow> bytes option) \<Rightarrow> 'h \<Rightarrow> go_error + bytes" where
  "encode_hello_payload marshal h =
     (case marshal h of
        None \<Rightarrow> Inl (ProtocolError CategoryNegotiationFrameInvalid StageNegotiate)
      | Some bs \<Rightarrow> Inr bs)"

definition decode_hello_payload :: "(bytes \<Rightarrow> 'h option) \<Rightarrow> bytes \<Rightarrow> go_error + 'h" where
  "decode_hello_payload unmarshal bs =
     (case unmarshal bs of
        None \<Rightarrow> Inl (ProtocolError CategoryNegotiationFrameInvalid StageNegotiate)
      | Some h \<Rightarrow> Inr h)"

definition encode_server_hello ::
  "(server_hello \<Rightarrow> bytes option) \<Rightarrow> string \<Rightarrow> negotiation_result \<Rightarrow> go_error + bytes" where
  "encode_server_hello marshal random result = encode_hello_payload marshal (server_hello_of random result)"

definition decode_server_hello :: "(bytes \<Rightarrow> server_hello option) \<Rightarrow> bytes \<Rightarrow> go_error + negotiation_result" where
  "decode_server_hello unmarshal bs =
     (case decode_hello_payload unmarshal bs of
        Inl e \<Rightarrow> Inl e
      | Inr h \<Rightarrow>
          Inr \<lparr>nr_codec = sh_codec h, nr_crypto = sh_crypto h,
               nr_compression = (case sh_compression h of None \<Rightarrow> CompressionNone | Some c \<Rightarrow> c),
               nr_max_payload = sh_max_payload h\<rparr>)"

lemma intersect_SomeD:
  "intersect_prefer_server c s = Some v \<Longrightarrow>
   v \<in> set c \<and> v \<in> set s \<and> (\<exists>k < length s. s ! k = v \<and> (\<forall>j < k. s ! j \<notin> set c))"
  by (auto simp: intersect_prefer_server_def find_Some_iff split: if_splits)

lemma intersect_None_iff:
  "intersect_prefer_server c s = None \<longleftrightarrow> set c \<inter> set s = {}"
  by (auto simp: intersect_prefer_server_def find_None_iff)

text \<open>The choice depends on the server's order alone, not on how the client lists its offer.\<close>

lemma intersect_order_free:
  "set c = set c' \<Longrightarrow> intersect_prefer_server c s = intersect_prefer_server c' s"
  by (metis intersect_prefer_server_def set_empty)

lemma negotiate_limit_le:
  "negotiate_payload_limit c s \<le> s \<and> negotiate_payload_limit c s \<le> DefaultV2PayloadLimit \<and>
   (0 < c \<longrightarrow> negotiate_payload_limit c s \<le> c)"
  by (auto simp: negotiate_payload_limit_def Let_def)

lemma negotiate_limit_eq:
  "0 < c \<Longrightarrow> negotiate_payload_limit c s = min (min c s) DefaultV2PayloadLimit"
  "c \<le> 0 \<Longrightarrow> negotiate_payload_limit c s = min s DefaultV2PayloadLimit"
  by (auto simp: negotiate_payload_limit_def Let_def)

lemma negotiate_max_payload:
  "negotiate request server = Inr r \<Longrightarrow>
   nr_max_payload r = negotiate_payload_limit (ch_max_payload request) (cap_max_payload server)"
  by (auto simp: negotiate_def Let_def split: option.splits)

subsection \<open>Transform state (\<open>transform.go\<close>)\<close>

record transform_state =
  ts_encrypted :: bool
  ts_compressed :: bool
  ts_negotiated :: negotiation_result
  ts_key_assigned :: bool

definition transform_rejected :: go_error where
  "transform_rejected = ProtocolError CategoryTransformRejected StageMessage"

definition new_transform_state :: "negotiation_result \<Rightarrow> transform_state" where
  "new_transform_state r =
     \<lparr>ts_encrypted = False, ts_compressed = False, ts_negotiated = r, ts_key_assigned = False\<rparr>"

definition enable_encryption :: "bytes \<Rightarrow> transform_state \<Rightarrow> transform_state \<times> go_error option" where
  "enable_encryption key s =
     (if ts_encrypted s then (s, Some transform_rejected)
      else if nr_crypto (ts_negotiated s) = [] \<or> nr_crypto (ts_negotiated s) = CryptoNone
      then (s, Some transform_rejected)
      else if key = [] then (s, Some transform_rejected)
      else (s\<lparr>ts_encrypted := True, ts_key_assigned := True\<rparr>, None))"

definition enable_compression :: "transform_state \<Rightarrow> transform_state \<times> go_error option" where
  "enable_compression s =
     (if ts_compressed s then (s, Some transform_rejected)
      else if nr_compression (ts_negotiated s) = [] \<or> nr_compression (ts_negotiated s) = CompressionNone
      then (s, Some transform_rejected)
      else (s\<lparr>ts_compressed := True\<rparr>, None))"

definition rotate_key :: "transform_state \<Rightarrow> go_error option" where
  "rotate_key s = (if ts_key_assigned s then Some transform_rejected else Some transform_rejected)"

definition disable_encryption :: "transform_state \<Rightarrow> go_error option" where
  "disable_encryption s = Some transform_rejected"

definition write_application_payload :: "transform_state \<Rightarrow> go_error option" where
  "write_application_payload s = (if \<not> ts_encrypted s then Some transform_rejected else None)"

text \<open>The requests a connection can make of the state, and what a run of them does.\<close>

datatype transform_request =
    Enable_Encryption bytes | Enable_Compression | Rotate_Key | Disable_Encryption | Write_Payload

definition transform_step :: "transform_state \<Rightarrow> transform_request \<Rightarrow> transform_state \<times> go_error option" where
  "transform_step s q =
     (case q of
        Enable_Encryption key \<Rightarrow> enable_encryption key s
      | Enable_Compression \<Rightarrow> enable_compression s
      | Rotate_Key \<Rightarrow> (s, rotate_key s)
      | Disable_Encryption \<Rightarrow> (s, disable_encryption s)
      | Write_Payload \<Rightarrow> (s, write_application_payload s))"

fun transform_run :: "transform_state \<Rightarrow> transform_request list \<Rightarrow> transform_state \<times> go_error option list" where
  "transform_run s [] = (s, [])"
| "transform_run s (q # qs) =
     (let (s1, e) = transform_step s q; (s2, es) = transform_run s1 qs in (s2, e # es))"

lemmas transform_defs =
  transform_step_def enable_encryption_def enable_compression_def rotate_key_def
  disable_encryption_def write_application_payload_def transform_rejected_def

fun is_encrypt :: "transform_request \<Rightarrow> bool" where
  "is_encrypt (Enable_Encryption key) = True"
| "is_encrypt _ = False"

definition accepted :: "(transform_request \<Rightarrow> bool) \<Rightarrow> transform_request list \<Rightarrow> go_error option list \<Rightarrow> nat" where
  "accepted P qs es = length (filter (\<lambda>(q, e). P q \<and> e = None) (zip qs es))"

lemma transform_run_length: "transform_run s qs = (s', es) \<Longrightarrow> length es = length qs"
  by (induction qs arbitrary: s s' es) (auto simp: Let_def split: prod.splits)

lemma transform_step_flags:
  "transform_step s q = (s', e) \<Longrightarrow>
   (ts_encrypted s \<longrightarrow> ts_encrypted s') \<and> (ts_compressed s \<longrightarrow> ts_compressed s') \<and>
   ts_negotiated s' = ts_negotiated s"
  by (auto simp: transform_defs split: transform_request.splits if_splits)

lemma transform_encrypt_once:
  "transform_run s qs = (s', es) \<Longrightarrow>
   accepted is_encrypt qs es = (if \<not> ts_encrypted s \<and> ts_encrypted s' then 1 else 0)"
proof (induction qs arbitrary: s s' es)
  case Nil
  then show ?case by (auto simp: accepted_def)
next
  case (Cons q qs)
  obtain s1 e es1 where st: "transform_step s q = (s1, e)" and rn: "transform_run s1 qs = (s', es1)"
    and es: "es = e # es1"
    using Cons.prems by (auto simp: Let_def split: prod.splits)
  have "accepted is_encrypt (q # qs) es = (if is_encrypt q \<and> e = None then 1 else 0) + accepted is_encrypt qs es1"
    by (simp add: accepted_def es)
  moreover have "ts_encrypted s1 \<Longrightarrow> ts_encrypted s'"
    using rn by (induction qs arbitrary: s1 s' es1)
      (auto simp: Let_def dest: transform_step_flags split: prod.splits)
  ultimately show ?case
    using st Cons.IH [OF rn]
    by (cases q) (auto simp: transform_defs split: if_splits)
qed

end
