(* ===== verification/Wire_Guard.thy ===== *)
theory Wire_Guard
  imports Wire_Aead Wire_Negotiate
begin

section \<open>The connection guard (\<open>detect.go\<close>, \<open>guard.go\<close>, \<open>peer.go\<close>)\<close>

text \<open>
  One connection's wire state: the detected and locked version, the reader that the next
  frame comes from, and the single exit through which a rejected connection is reported and
  closed. The Go struct holds one pre-reader and readers on top of it; \<open>channel\<close> is that tower
  (plain, v1 cipher, v2 AEAD) with the pre-reader inside, so that a byte read through one is
  gone for the others. \<open>g_reader\<close> tells whether the guard still points to the pre-reader,
  \<open>g_v1\<close> and \<open>g_v2\<close> are the payload limits of the bound frame readers. The mutex makes each
  method one step.
\<close>

datatype version = VersionV1 | VersionV2

datatype channel =
    Chan_Plain peek_reader
  | Chan_V1 "peek_reader v1_cipher_reader"
  | Chan_V2 "peek_reader v2_aead_reader"

record wire_options =
  wo_max_version :: "version option"
  wo_v2_enabled :: bool
  wo_capabilities :: capabilities
  wo_sink :: bool

record close_event =
  ce_stage :: stage
  ce_category :: "error_category option"
  ce_version :: "version option"
  ce_peer :: string
  ce_succeeded :: bool

record connection_guard =
  g_options :: wire_options
  g_peer :: string
  g_pool :: "buffer_pool option"
  g_version :: "version option"
  g_locked :: bool
  g_closed :: bool
  g_chan :: channel
  g_reader :: bool
  g_v1 :: "int option"
  g_v2 :: "int option"
  g_client_hello :: bytes
  g_server_hello :: bytes
  g_events :: "close_event list"

text \<open>The library functions the guard's readers call: AES, GCM opening, SHA-256, JSON.\<close>

record crypto_fns =
  cf_aes :: "bytes \<Rightarrow> bytes \<Rightarrow> bytes"
  cf_open :: aead_open_fn
  cf_hash :: "bytes \<Rightarrow> bytes"
  cf_unmarshal :: "bytes \<Rightarrow> client_hello option"

subsection \<open>Peer digest\<close>

definition hex_digit :: "nat \<Rightarrow> char" where
  "hex_digit n = (if n < 10 then char_of (48 + n) else char_of (87 + n))"

definition hex_string :: "bytes \<Rightarrow> string" where
  "hex_string bs = concat (map (\<lambda>b. [hex_digit (unat b div 16), hex_digit (unat b mod 16)]) bs)"

text \<open>The address is \<open>None\<close> when there is no connection or it has no remote address.\<close>

definition peer_digest :: "(bytes \<Rightarrow> bytes) \<Rightarrow> bytes option \<Rightarrow> string" where
  "peer_digest sha addr =
     (case addr of None \<Rightarrow> ''unknown'' | Some a \<Rightarrow> hex_string (take 6 (sha a)))"

subsection \<open>The channel\<close>

fun chan_peeker :: "channel \<Rightarrow> peek_reader" where
  "chan_peeker (Chan_Plain p) = p"
| "chan_peeker (Chan_V1 r) = vcr_source r"
| "chan_peeker (Chan_V2 r) = ar_source r"

fun chan_set_peeker :: "channel \<Rightarrow> peek_reader \<Rightarrow> channel" where
  "chan_set_peeker (Chan_Plain _) p = Chan_Plain p"
| "chan_set_peeker (Chan_V1 r) p = Chan_V1 (r\<lparr>vcr_source := p\<rparr>)"
| "chan_set_peeker (Chan_V2 r) p = Chan_V2 (r\<lparr>ar_source := p\<rparr>)"

fun chan_read_full :: "crypto_fns \<Rightarrow> channel read_full" where
  "chan_read_full K (Chan_Plain p) n = map_prod Chan_Plain id (peek_read_full p n)"
| "chan_read_full K (Chan_V1 r) n = map_prod Chan_V1 id (v1_cipher_read_full (cf_aes K) r n)"
| "chan_read_full K (Chan_V2 r) n = map_prod Chan_V2 id (v2_aead_read_full (cf_open K) r n)"

fun chan_view :: "crypto_fns \<Rightarrow> channel \<Rightarrow> stream" where
  "chan_view K (Chan_Plain p) = peek_view p"
| "chan_view K (Chan_V1 r) = v1_cipher_view (cf_aes K) peek_view r"
| "chan_view K (Chan_V2 r) = aead_view (cf_open K) peek_view r"

text \<open>The frame readers see any of the three towers as one stream.\<close>

interpretation chan: byte_source "chan_read_full K" "chan_view K" for K
proof
  fix c c' n bs
  assume "chan_read_full K c n = (c', Inr bs)"
  then show "stream_read_full (chan_view K c) n = (chan_view K c', Inr bs)"
    by (cases c) (auto simp: map_prod_def split: prod.splits
        dest: peek_source.rf_ok v1_cipher_source.rf_ok v2_aead_source.rf_ok)
next
  fix c c' n e
  assume "chan_read_full K c n = (c', Inl e)"
  then show "snd (stream_read_full (chan_view K c) n) = Inl e"
    by (cases c) (auto simp: map_prod_def split: prod.splits
        dest: peek_source.rf_fail v1_cipher_source.rf_fail v2_aead_source.rf_fail)
qed

text \<open>Closing the connection: what was pre-read stays, the source delivers no more.\<close>

definition close_peeker :: "peek_reader \<Rightarrow> peek_reader" where
  "close_peeker p = p\<lparr>pk_source := (pk_source p)\<lparr>so_stream := \<lparr>st_data = [], st_end = IO_Failure\<rparr>\<rparr>\<rparr>"

subsection \<open>Version lock and the single exit\<close>

definition new_guard :: "wire_options \<Rightarrow> string \<Rightarrow> buffer_pool option \<Rightarrow> socket \<Rightarrow> connection_guard" where
  "new_guard opts peer pool sock =
     \<lparr>g_options = opts, g_peer = peer, g_pool = pool, g_version = None, g_locked = False,
      g_closed = False, g_chan = Chan_Plain (new_peek_reader sock), g_reader = False,
      g_v1 = None, g_v2 = None, g_client_hello = [], g_server_hello = [], g_events = []\<rparr>"

definition lock_version :: "version \<Rightarrow> connection_guard \<Rightarrow> connection_guard \<times> go_error option" where
  "lock_version v g =
     (if g_locked g \<and> g_version g \<noteq> Some v
      then (g, Some (ProtocolError CategoryVersionNotAccepted StageDetect))
      else (g\<lparr>g_version := Some v, g_locked := True\<rparr>, None))"

definition require_version :: "version \<Rightarrow> connection_guard \<Rightarrow> go_error option" where
  "require_version v g =
     (if \<not> g_locked g then Some (ProtocolError CategoryVersionNotAccepted StageDetect)
      else if g_version g \<noteq> Some v then Some (ProtocolError CategoryVersionNotAccepted StageDetect)
      else None)"

definition close_with_event :: "close_event \<Rightarrow> connection_guard \<Rightarrow> connection_guard" where
  "close_with_event ev g =
     (if g_closed g then g
      else g\<lparr>g_closed := True, g_reader := False,
             g_events := (if wo_sink (g_options g) then g_events g @ [ev\<lparr>ce_version := g_version g\<rparr>]
                          else g_events g),
             g_chan := chan_set_peeker (g_chan g) (close_peeker (chan_peeker (g_chan g)))\<rparr>)"

definition stage_or :: "go_error \<Rightarrow> stage \<Rightarrow> stage" where
  "stage_or e fallback = (case stage_of e of Some s \<Rightarrow> s | None \<Rightarrow> fallback)"

definition guard_reject :: "go_error \<Rightarrow> connection_guard \<Rightarrow> connection_guard" where
  "guard_reject e g =
     close_with_event \<lparr>ce_stage = stage_or e StageMessage, ce_category = category_of e,
                       ce_version = g_version g, ce_peer = g_peer g, ce_succeeded = False\<rparr> g"

definition guard_fail :: "go_error \<Rightarrow> connection_guard \<Rightarrow> connection_guard \<times> (go_error + 'a)" where
  "guard_fail e g = (guard_reject e g, Inl e)"

definition guard_close :: "connection_guard \<Rightarrow> connection_guard" where
  "guard_close g =
     close_with_event \<lparr>ce_stage = StageMessage, ce_category = None,
                       ce_version = g_version g, ce_peer = g_peer g, ce_succeeded = True\<rparr> g"

subsection \<open>Version detection (\<open>detect.go\<close>)\<close>

definition accept_v2 :: "peek_reader \<Rightarrow> connection_guard \<Rightarrow> connection_guard \<times> (go_error + version)" where
  "accept_v2 p g =
     (if \<not> wo_v2_enabled (g_options g)
      then guard_fail (ProtocolError CategoryVersionNotAccepted StageDetect) g
      else case lock_version VersionV2 g of
        (g1, Some e) \<Rightarrow> guard_fail e g1
      | (g1, None) \<Rightarrow>
          (g1\<lparr>g_chan := Chan_Plain (peek_consume p (int (length V2Magic)))\<rparr>, Inr VersionV2))"

definition accept_v1_fallback :: "peek_reader \<Rightarrow> connection_guard \<Rightarrow> connection_guard \<times> (go_error + version)" where
  "accept_v1_fallback p g =
     (if wo_max_version (g_options g) = Some VersionV2
      then guard_fail (ProtocolError CategoryVersionNotAccepted StageDetect) g
      else let g0 = g\<lparr>g_chan := Chan_Plain (peek_replay p)\<rparr>
        in case lock_version VersionV1 g0 of
             (g1, Some e) \<Rightarrow> guard_fail e g1
           | (g1, None) \<Rightarrow> (g1\<lparr>g_v1 := Some DefaultV1PayloadLimit\<rparr>, Inr VersionV1))"

definition detect_from_short_prefix ::
  "peek_reader \<Rightarrow> bytes \<Rightarrow> go_error \<Rightarrow> connection_guard \<Rightarrow> connection_guard \<times> (go_error + version)" where
  "detect_from_short_prefix p prefix cause g =
     (if prefix = []
      then (close_with_event \<lparr>ce_stage = StageDetect, ce_category = None, ce_version = None,
                              ce_peer = [], ce_succeeded = False\<rparr> g, Inl ErrEmptyConnection)
      else if cause = IO_UnexpectedEOF \<or> cause = IO_EOF
      then accept_v1_fallback p (g\<lparr>g_reader := True\<rparr>)
      else guard_fail (ProtocolError CategoryTransportFailure StageDetect) g)"

definition detect_version :: "socket \<Rightarrow> connection_guard \<Rightarrow> connection_guard \<times> (go_error + version)" where
  "detect_version source g =
     (case peek_peek (new_peek_reader source) (length V2Magic) of
        (p, prefix, e) \<Rightarrow>
          (let g0 = g\<lparr>g_chan := Chan_Plain p\<rparr>
           in case e of
                Some cause \<Rightarrow> detect_from_short_prefix p prefix cause g0
              | None \<Rightarrow>
                  (let g1 = g0\<lparr>g_reader := True\<rparr>
                   in if prefix = V2Magic then accept_v2 p g1 else accept_v1_fallback p g1)))"

subsection \<open>Reading frames (\<open>guard.go\<close>)\<close>

definition read_v1_frame ::
  "crypto_fns \<Rightarrow> int \<Rightarrow> connection_guard \<Rightarrow> connection_guard \<times> (go_error + frame)" where
  "read_v1_frame K limit g =
     (case v1_read_frame (chan_read_full K) \<lparr>v1r_source = g_chan g, v1r_limit = limit\<rparr> (g_pool g) of
        (rd, p, r) \<Rightarrow>
          (let g1 = g\<lparr>g_chan := v1r_source rd, g_pool := p\<rparr>
           in case r of
                Inl e \<Rightarrow> if is_eof e then (g1, Inl e) else guard_fail e g1
              | Inr f \<Rightarrow> (g1, Inr f)))"

definition read_v2_frame ::
  "crypto_fns \<Rightarrow> int \<Rightarrow> connection_guard \<Rightarrow> connection_guard \<times> (go_error + frame)" where
  "read_v2_frame K limit g =
     (case v2_read_frame (chan_read_full K) \<lparr>v2r_source = g_chan g, v2r_limit = limit\<rparr> (g_pool g) of
        (rd, p, r) \<Rightarrow>
          (let g1 = g\<lparr>g_chan := v2r_source rd, g_pool := p\<rparr>
           in case r of
                Inl e \<Rightarrow> if is_eof e then (g1, Inl e) else guard_fail e g1
              | Inr f \<Rightarrow>
                  if v2f_type f \<noteq> V2FrameTypeMessage
                  then guard_fail (ProtocolError CategoryFrameTypeInvalid StageMessage)
                         (g1\<lparr>g_pool := v2_frame_release p f\<rparr>)
                  else (g1, Inr \<lparr>fr_type = mf_type (v2f_message f),
                                 fr_payload = mf_payload (v2f_message f), fr_release = v2f_release f\<rparr>)))"

definition guard_read_frame :: "crypto_fns \<Rightarrow> connection_guard \<Rightarrow> connection_guard \<times> (go_error + frame)" where
  "guard_read_frame K g =
     (case g_version g of
        Some VersionV1 \<Rightarrow>
          (case g_v1 g of
             None \<Rightarrow> (g, Inl (ProtocolError CategoryTransportFailure StageMessage))
           | Some limit \<Rightarrow> read_v1_frame K limit g)
      | Some VersionV2 \<Rightarrow>
          (case g_v2 g of
             None \<Rightarrow> (g, Inl (ProtocolError CategoryTransportFailure StageMessage))
           | Some limit \<Rightarrow> read_v2_frame K limit g)
      | None \<Rightarrow> (g, Inl (ProtocolError CategoryVersionNotAccepted StageMessage)))"

subsection \<open>Negotiation (\<open>guard.go\<close>)\<close>

definition as_negotiation_error :: "go_error \<Rightarrow> go_error" where
  "as_negotiation_error e =
     (if category_of e = Some CategoryCapabilityMismatch then e
      else ProtocolError CategoryNegotiationFrameInvalid StageNegotiate)"

definition server_capabilities :: "connection_guard \<Rightarrow> capabilities" where
  "server_capabilities g =
     (if cap_codecs (wo_capabilities (g_options g)) = [] then default_capabilities
      else wo_capabilities (g_options g))"

definition decode_client_hello_frame :: "crypto_fns \<Rightarrow> v2_frame \<Rightarrow> go_error + client_hello" where
  "decode_client_hello_frame K f =
     (if v2f_type f \<noteq> V2FrameTypeClientHello
      then Inl (ProtocolError CategoryNegotiationFrameInvalid StageNegotiate)
      else decode_hello_payload (cf_unmarshal K) (mf_payload (v2f_message f)))"

text \<open>
  \<open>stream()\<close> falls back to the connection itself when the guard holds no pre-reader: its
  bytes are those of the source, without what was pre-read.
\<close>

definition guard_stream :: "connection_guard \<Rightarrow> peek_reader" where
  "guard_stream g =
     (if g_reader g then chan_peeker (g_chan g)
      else new_peek_reader (pk_source (chan_peeker (g_chan g))))"

definition guard_negotiate ::
  "crypto_fns \<Rightarrow> connection_guard \<Rightarrow> connection_guard \<times> (go_error + negotiation_result)" where
  "guard_negotiate K g =
     (case require_version VersionV2 g of
        Some e \<Rightarrow> guard_fail e g
      | None \<Rightarrow>
          (case v2_read_frame (chan_read_full K)
                  \<lparr>v2r_source = Chan_Plain (guard_stream g), v2r_limit = DefaultV2PayloadLimit\<rparr>
                  (g_pool g) of
             (rd, p, Inl e) \<Rightarrow>
               guard_fail (as_negotiation_error e) (g\<lparr>g_chan := v2r_source rd, g_pool := p\<rparr>)
           | (rd, p, Inr f) \<Rightarrow>
               (let g1 = g\<lparr>g_chan := v2r_source rd, g_client_hello := mf_payload (v2f_message f),
                           g_pool := v2_frame_release p f\<rparr>
                in case decode_client_hello_frame K f of
                     Inl e \<Rightarrow> guard_fail e g1
                   | Inr request \<Rightarrow>
                       (case negotiate request (server_capabilities g1) of
                          Inl e \<Rightarrow> guard_fail e g1
                        | Inr result \<Rightarrow>
                            (g1\<lparr>g_v2 := Some (v2r_limit (v2_set_limit rd (nr_max_payload result)))\<rparr>,
                             Inr result)))))"

subsection \<open>Switching to the encrypted channels (\<open>guard.go\<close>)\<close>

definition enable_v1_cipher :: "bytes \<Rightarrow> connection_guard \<Rightarrow> connection_guard \<times> go_error option" where
  "enable_v1_cipher key g =
     (case require_version VersionV1 g of
        Some e \<Rightarrow> (g, Some e)
      | None \<Rightarrow>
          (if \<not> g_reader g then (g, Some (ProtocolError CategoryTransportFailure StageMessage))
           else (g\<lparr>g_chan := Chan_V1 (new_v1_cipher_reader (chan_peeker (g_chan g)) key),
                   g_v1 := Some DefaultV1PayloadLimit\<rparr>, None)))"

definition record_v2_server_hello :: "bytes \<Rightarrow> connection_guard \<Rightarrow> connection_guard" where
  "record_v2_server_hello payload g = g\<lparr>g_server_hello := payload\<rparr>"

definition guard_v2_transcript :: "crypto_fns \<Rightarrow> connection_guard \<Rightarrow> bytes option" where
  "guard_v2_transcript K g =
     (if g_client_hello g = [] \<or> g_server_hello g = [] then None
      else Some (v2_crypto_transcript (cf_hash K) (g_client_hello g) (g_server_hello g)))"

definition v2_hello_digests :: "crypto_fns \<Rightarrow> connection_guard \<Rightarrow> (bytes \<times> bytes) option" where
  "v2_hello_digests K g =
     (if g_client_hello g = [] \<or> g_server_hello g = [] then None
      else Some (cf_hash K (g_client_hello g), cf_hash K (g_server_hello g)))"

definition peek_v2_first_frame_type ::
  "connection_guard \<Rightarrow> connection_guard \<times> (go_error + 16 word)" where
  "peek_v2_first_frame_type g =
     (if \<not> g_reader g then (g, Inl (ProtocolError CategoryTransportFailure StageDetect))
      else case peek_peek (chan_peeker (g_chan g)) V2HeaderSize of
        (p, header, e) \<Rightarrow>
          (let g1 = g\<lparr>g_chan := chan_set_peeker (g_chan g) p\<rparr>
           in case e of
                Some _ \<Rightarrow> (g1, Inl (ProtocolError CategoryPayloadTruncated StageDetect))
              | None \<Rightarrow> (g1, Inr (get_u16 header))))"

definition bind_v2_plain_reader :: "connection_guard \<Rightarrow> connection_guard \<times> go_error option" where
  "bind_v2_plain_reader g =
     (case require_version VersionV2 g of
        Some e \<Rightarrow> (g, Some e)
      | None \<Rightarrow>
          (if \<not> g_reader g then (g, Some (ProtocolError CategoryTransportFailure StageMessage))
           else (g\<lparr>g_chan := Chan_Plain (chan_peeker (g_chan g)), g_v2 := Some DefaultV2PayloadLimit\<rparr>, None)))"

definition enable_v2_cipher :: "bytes \<Rightarrow> connection_guard \<Rightarrow> connection_guard \<times> go_error option" where
  "enable_v2_cipher key g =
     (case require_version VersionV2 g of
        Some e \<Rightarrow> (g, Some e)
      | None \<Rightarrow>
          (if \<not> g_reader g then (g, Some (ProtocolError CategoryTransportFailure StageMessage))
           else case new_v2_aead_reader (chan_peeker (g_chan g)) key of
             Inl e \<Rightarrow> (g, Some e)
           | Inr r \<Rightarrow> (g\<lparr>g_chan := Chan_V2 r, g_v2 := Some DefaultV2PayloadLimit\<rparr>, None)))"

end
