(* ===== verification/Guard_Laws.thy ===== *)
theory Guard_Laws
  imports Wire_Guard
begin

section \<open>What the connection guard guarantees\<close>

text \<open>
  The methods of the guard as a step relation, its invariant (one version for life, one close
  event at most, limits never above the implementation's), the specification of version
  detection, and the sessions: what a peer sends is what the guard's reader delivers.
\<close>

subsection \<open>Steps and invariant\<close>

inductive guard_step :: "crypto_fns \<Rightarrow> connection_guard \<Rightarrow> connection_guard \<Rightarrow> bool" for K where
  gs_detect: "guard_step K g (fst (detect_version sock g))"
| gs_read: "guard_step K g (fst (guard_read_frame K g))"
| gs_negotiate: "guard_step K g (fst (guard_negotiate K g))"
| gs_v1_cipher: "guard_step K g (fst (enable_v1_cipher key g))"
| gs_v2_cipher: "guard_step K g (fst (enable_v2_cipher key g))"
| gs_plain: "guard_step K g (fst (bind_v2_plain_reader g))"
| gs_peek: "guard_step K g (fst (peek_v2_first_frame_type g))"
| gs_record: "guard_step K g (record_v2_server_hello payload g)"
| gs_close: "guard_step K g (guard_close g)"

inductive_cases guard_stepE: "guard_step K g g'"

definition guard_ok :: "connection_guard \<Rightarrow> bool" where
  "guard_ok g \<longleftrightarrow>
     (g_locked g \<longleftrightarrow> g_version g \<noteq> None) \<and>
     (g_v1 g \<noteq> None \<longrightarrow> g_version g = Some VersionV1) \<and>
     (g_v2 g \<noteq> None \<longrightarrow> g_version g = Some VersionV2) \<and>
     (\<forall>l. g_v1 g = Some l \<longrightarrow> l \<le> DefaultV1PayloadLimit) \<and>
     (\<forall>l. g_v2 g = Some l \<longrightarrow> l \<le> DefaultV2PayloadLimit) \<and>
     length (g_events g) = (if g_closed g \<and> wo_sink (g_options g) then 1 else 0)"

text \<open>What no method takes back.\<close>

definition guard_le :: "connection_guard \<Rightarrow> connection_guard \<Rightarrow> bool" where
  "guard_le g g' \<longleftrightarrow>
     g_options g' = g_options g \<and>
     (g_locked g \<longrightarrow> g_locked g' \<and> g_version g' = g_version g) \<and>
     (g_closed g \<longrightarrow> g_closed g' \<and> g_events g' = g_events g)"

lemma guard_le_refl [simp]: "guard_le g g"
  by (simp add: guard_le_def)

lemma guard_le_trans: "guard_le g g' \<Longrightarrow> guard_le g' g'' \<Longrightarrow> guard_le g g''"
  by (auto simp: guard_le_def)

definition guard_fine :: "connection_guard \<Rightarrow> connection_guard \<Rightarrow> bool" where
  "guard_fine g g' \<longleftrightarrow> (guard_ok g \<longrightarrow> guard_ok g' \<and> guard_le g g')"

lemma guard_fine_refl [simp]: "guard_fine g g"
  by (simp add: guard_fine_def)

lemma guard_fine_trans: "guard_fine g g' \<Longrightarrow> guard_fine g' g'' \<Longrightarrow> guard_fine g g''"
  by (auto simp: guard_fine_def intro: guard_le_trans)

text \<open>Fields the invariant does not look at.\<close>

lemma guard_fine_frame [simp]:
  "guard_fine g (g\<lparr>g_chan := c\<rparr>)" "guard_fine g (g\<lparr>g_pool := p\<rparr>)" "guard_fine g (g\<lparr>g_reader := b\<rparr>)"
  "guard_fine g (g\<lparr>g_client_hello := bs\<rparr>)" "guard_fine g (g\<lparr>g_server_hello := bs\<rparr>)"
  "guard_fine g (g\<lparr>g_chan := c, g_reader := b\<rparr>)" "guard_fine g (g\<lparr>g_chan := c, g_pool := p\<rparr>)"
  "guard_fine g (g\<lparr>g_pool := p, g_chan := c\<rparr>)"
  "guard_fine g (g\<lparr>g_chan := c, g_client_hello := bs, g_pool := p\<rparr>)"
  by (auto simp: guard_fine_def guard_ok_def guard_le_def)

lemma guard_fine_close [simp]: "guard_fine g (close_with_event ev g)"
  by (auto simp: guard_fine_def guard_ok_def guard_le_def close_with_event_def)

lemma guard_fine_reject [simp]: "guard_fine g (guard_reject e g)"
  by (simp add: guard_reject_def)

lemma guard_fine_fail: "guard_fail e g1 = (g', r) \<Longrightarrow> guard_fine g g1 \<Longrightarrow> guard_fine g g'"
  by (auto simp: guard_fail_def intro: guard_fine_trans)

lemma guard_closed_close [simp]: "g_closed (close_with_event ev g)"
  by (simp add: close_with_event_def)

lemma guard_closed_fail: "guard_fail e g = (g', r) \<Longrightarrow> g_closed g' \<and> r = Inl e"
  by (auto simp: guard_fail_def guard_reject_def)

lemma guard_fine_lock: "lock_version v g = (g', r) \<Longrightarrow> guard_fine g g'"
proof (cases "g_locked g")
  case True
  assume "lock_version v g = (g', r)"
  with True have "g' = g \<or> (g_version g = Some v \<and> g' = g\<lparr>g_version := Some v, g_locked := True\<rparr>)"
    by (auto simp: lock_version_def split: if_splits)
  with True show ?thesis by (elim disjE) (simp_all add: guard_fine_def guard_ok_def guard_le_def)
next
  case False
  assume "lock_version v g = (g', r)"
  with False have g': "g' = g\<lparr>g_version := Some v, g_locked := True\<rparr>" by (simp add: lock_version_def)
  show ?thesis unfolding guard_fine_def
  proof
    assume ok: "guard_ok g"
    with False have "g_v1 g = None" "g_v2 g = None" by (auto simp: guard_ok_def)
    with ok have "guard_ok g'" unfolding guard_ok_def g' by simp
    then show "guard_ok g' \<and> guard_le g g'" using False by (simp add: guard_le_def g')
  qed
qed

lemma lock_version_ok: "lock_version v g = (g', None) \<Longrightarrow> g_version g' = Some v \<and> g_locked g'"
  by (auto simp: lock_version_def split: if_splits)

lemma guard_fine_v1:
  "g_version g = Some VersionV1 \<Longrightarrow> l \<le> DefaultV1PayloadLimit \<Longrightarrow> guard_fine g (g\<lparr>g_v1 := Some l\<rparr>)"
  by (auto simp: guard_fine_def guard_ok_def guard_le_def)

lemma guard_fine_v2:
  "g_version g = Some VersionV2 \<Longrightarrow> l \<le> DefaultV2PayloadLimit \<Longrightarrow> guard_fine g (g\<lparr>g_v2 := Some l\<rparr>)"
  by (auto simp: guard_fine_def guard_ok_def guard_le_def)

lemma guard_fine_accept_v2: "accept_v2 p g = (g', r) \<Longrightarrow> guard_fine g g'"
  by (auto simp: accept_v2_def split: if_splits prod.splits option.splits
      dest: guard_fine_fail [OF _ guard_fine_refl] guard_fine_fail [OF _ guard_fine_lock]
      intro: guard_fine_trans [OF guard_fine_lock])

lemma guard_fine_accept_v1:
  assumes "accept_v1_fallback p g = (g', r)"
  shows "guard_fine g g'"
proof (cases "wo_max_version (g_options g) = Some VersionV2")
  case True
  with assms show ?thesis
    by (auto simp: accept_v1_fallback_def dest: guard_fine_fail [OF _ guard_fine_refl])
next
  case False
  let ?g0 = "g\<lparr>g_chan := Chan_Plain (peek_replay p)\<rparr>"
  obtain g1 e where lk: "lock_version VersionV1 ?g0 = (g1, e)" by fastforce
  have fine: "guard_fine g g1" by (rule guard_fine_trans [OF guard_fine_frame(1) guard_fine_lock [OF lk]])
  show ?thesis
  proof (cases e)
    case None
    then have "g' = g1\<lparr>g_v1 := Some DefaultV1PayloadLimit\<rparr>" "g_version g1 = Some VersionV1"
      using assms False lk by (auto simp: accept_v1_fallback_def lock_version_ok)
    with guard_fine_trans [OF fine guard_fine_v1] show ?thesis by simp
  next
    case (Some x)
    then have "guard_fail x g1 = (g', r)" using assms False lk by (simp add: accept_v1_fallback_def)
    from guard_fine_fail [OF this fine] show ?thesis .
  qed
qed

lemma guard_fine_short:
  "detect_from_short_prefix p prefix cause g = (g', r) \<Longrightarrow> guard_fine g g'"
  by (auto simp: detect_from_short_prefix_def split: if_splits
      dest: guard_fine_fail [OF _ guard_fine_refl]
      intro: guard_fine_trans [OF guard_fine_frame(3) guard_fine_accept_v1])

lemma guard_fine_detect:
  assumes det: "detect_version s g = (g', r)"
  shows "guard_fine g g'"
proof -
  obtain p prefix e where pk: "peek_peek (new_peek_reader s) (length V2Magic) = (p, prefix, e)"
    by (metis prod.exhaust)
  show ?thesis
  proof (cases e)
    case (Some cause)
    then have "detect_from_short_prefix p prefix cause (g\<lparr>g_chan := Chan_Plain p\<rparr>) = (g', r)"
      using det pk by (simp add: detect_version_def)
    from guard_fine_trans [OF guard_fine_frame(1) guard_fine_short [OF this]] show ?thesis .
  next
    case None
    let ?g1 = "g\<lparr>g_chan := Chan_Plain p, g_reader := True\<rparr>"
    have "accept_v2 p ?g1 = (g', r) \<or> accept_v1_fallback p ?g1 = (g', r)"
      using det pk None by (cases "prefix = V2Magic") (simp_all add: detect_version_def Let_def)
    then have "guard_fine ?g1 g'" using guard_fine_accept_v1 guard_fine_accept_v2 by blast
    from guard_fine_trans [OF guard_fine_frame(6) this] show ?thesis .
  qed
qed

lemma guard_fine_read_v1: "read_v1_frame K l g = (g', r) \<Longrightarrow> guard_fine g g'"
  by (auto simp: read_v1_frame_def Let_def split: prod.splits sum.splits if_splits
      dest: guard_fine_fail [OF _ guard_fine_frame(7)])

lemma guard_fine_read_v2: "read_v2_frame K l g = (g', r) \<Longrightarrow> guard_fine g g'"
  by (auto simp: read_v2_frame_def Let_def split: prod.splits sum.splits if_splits
      dest: guard_fine_fail [OF _ guard_fine_frame(7)] guard_fine_fail [OF _ guard_fine_frame(8)])

lemma guard_fine_read: "guard_read_frame K g = (g', r) \<Longrightarrow> guard_fine g g'"
  by (auto simp: guard_read_frame_def split: option.splits version.splits
      dest: guard_fine_read_v1 guard_fine_read_v2)

lemma require_version_None:
  "require_version v g = None \<longleftrightarrow> g_locked g \<and> g_version g = Some v"
  by (simp add: require_version_def)

lemma guard_fine_negotiate: "guard_negotiate K g = (g', r) \<Longrightarrow> guard_fine g g'"
proof (cases "require_version VersionV2 g")
  case (Some e)
  assume "guard_negotiate K g = (g', r)"
  with Some show ?thesis
    by (auto simp: guard_negotiate_def dest: guard_fine_fail [OF _ guard_fine_refl])
next
  case None
  assume neg: "guard_negotiate K g = (g', r)"
  obtain rd p x where fr: "v2_read_frame (chan_read_full K)
      \<lparr>v2r_source = Chan_Plain (guard_stream g), v2r_limit = DefaultV2PayloadLimit\<rparr> (g_pool g) = (rd, p, x)"
    by (metis prod.exhaust)
  have lim: "v2r_limit rd = DefaultV2PayloadLimit"
    using v2_read_frame_limit [OF fr] by simp
  show ?thesis
  proof (cases x)
    case (Inl e)
    with neg None fr show ?thesis
      by (auto simp: guard_negotiate_def dest: guard_fine_fail [OF _ guard_fine_frame(7)])
  next
    case (Inr f)
    let ?g1 = "g\<lparr>g_chan := v2r_source rd, g_client_hello := mf_payload (v2f_message f),
                 g_pool := v2_frame_release p f\<rparr>"
    have "g_version ?g1 = Some VersionV2" using None by (simp add: require_version_None)
    moreover have "v2r_limit (v2_set_limit rd n) \<le> DefaultV2PayloadLimit" for n
      using v2_set_limit_le [of rd n] lim by simp
    ultimately have v2: "guard_fine g (?g1\<lparr>g_v2 := Some (v2r_limit (v2_set_limit rd n))\<rparr>)" for n
      by (rule guard_fine_trans [OF guard_fine_frame(9) guard_fine_v2])
    show ?thesis
      using neg None fr Inr v2
      by (auto simp: guard_negotiate_def Let_def split: sum.splits
          dest: guard_fine_fail [OF _ guard_fine_frame(9)])
  qed
qed

lemma guard_fine_ciphers:
  "guard_fine g (fst (enable_v1_cipher key g))"
  "guard_fine g (fst (enable_v2_cipher key g))"
  "guard_fine g (fst (bind_v2_plain_reader g))"
  "guard_fine g (fst (peek_v2_first_frame_type g))"
  "guard_fine g (record_v2_server_hello payload g)"
  "guard_fine g (guard_close g)"
proof -
  show "guard_fine g (fst (enable_v1_cipher key g))"
    by (auto simp: enable_v1_cipher_def require_version_None guard_fine_def guard_ok_def guard_le_def
        split: option.splits)
  show "guard_fine g (fst (enable_v2_cipher key g))"
    by (auto simp: enable_v2_cipher_def require_version_None guard_fine_def guard_ok_def guard_le_def
        split: option.splits sum.splits)
  show "guard_fine g (fst (bind_v2_plain_reader g))"
    by (auto simp: bind_v2_plain_reader_def require_version_None guard_fine_def guard_ok_def guard_le_def
        split: option.splits)
  show "guard_fine g (fst (peek_v2_first_frame_type g))"
    by (auto simp: peek_v2_first_frame_type_def Let_def split: prod.splits option.splits)
qed (simp_all add: record_v2_server_hello_def guard_close_def)

lemma guard_step_fine: "guard_step K g g' \<Longrightarrow> guard_fine g g'"
proof (induction rule: guard_step.induct)
  case (gs_detect g sock)
  show ?case by (rule guard_fine_detect [OF prod.collapse [symmetric]])
next
  case (gs_read g)
  show ?case by (rule guard_fine_read [OF prod.collapse [symmetric]])
next
  case (gs_negotiate g)
  show ?case by (rule guard_fine_negotiate [OF prod.collapse [symmetric]])
qed (rule guard_fine_ciphers)+

lemma guard_steps_fine: "(guard_step K)\<^sup>*\<^sup>* g g' \<Longrightarrow> guard_fine g g'"
  by (induction rule: rtranclp_induct) (auto intro: guard_fine_trans guard_step_fine)

lemma guard_ok_new: "guard_ok (new_guard opts peer pool sock)"
  by (simp add: guard_ok_def new_guard_def)

subsection \<open>Every refusal closes the connection\<close>

lemma detect_refusal_closes:
  "detect_version s g = (g', Inl e) \<Longrightarrow> g_closed g'"
proof -
  have v1: "g_closed g2" if "accept_v1_fallback p g1 = (g2, Inl e)" for p g1 g2 and e :: go_error
    using that by (auto simp: accept_v1_fallback_def Let_def split: if_splits prod.splits option.splits
        dest: guard_closed_fail)
  have v2: "g_closed g2" if "accept_v2 p g1 = (g2, Inl e)" for p g1 g2 and e :: go_error
    using that by (auto simp: accept_v2_def split: if_splits prod.splits option.splits
        dest: guard_closed_fail)
  assume "detect_version s g = (g', Inl e)"
  then show ?thesis
    by (auto simp: detect_version_def detect_from_short_prefix_def Let_def
        split: prod.splits option.splits if_splits dest: v1 v2 guard_closed_fail)
qed

lemma negotiate_refusal_closes:
  "guard_negotiate K g = (g', Inl e) \<Longrightarrow> g_closed g'"
  by (auto simp: guard_negotiate_def Let_def split: option.splits prod.splits sum.splits
      dest: guard_closed_fail)

text \<open>A frame that cannot be read closes the connection, unless the stream simply ended.\<close>

lemma read_refusal_closes:
  assumes "guard_read_frame K g = (g', Inl e)" and "\<not> is_eof e"
    and "g_version g = Some VersionV1 \<and> g_v1 g \<noteq> None \<or> g_version g = Some VersionV2 \<and> g_v2 g \<noteq> None"
  shows "g_closed g'"
  using assms
  by (auto simp: guard_read_frame_def read_v1_frame_def read_v2_frame_def Let_def
      split: prod.splits sum.splits if_splits dest: guard_closed_fail)

subsection \<open>Version detection against its specification\<close>

text \<open>
  \<open>detect_spec\<close> says, of the bytes of a connection and the way it ends, which version it is
  and what stream remains to be read: all of it for v1, what follows the magic for v2.
\<close>

definition detect_spec :: "wire_options \<Rightarrow> stream \<Rightarrow> go_error + version \<times> stream" where
  "detect_spec opts s =
     (if st_data s = [] then Inl ErrEmptyConnection
      else if length V2Magic \<le> length (st_data s) \<and> take (length V2Magic) (st_data s) = V2Magic
      then (if wo_v2_enabled opts
            then Inr (VersionV2, s\<lparr>st_data := drop (length V2Magic) (st_data s)\<rparr>)
            else Inl (ProtocolError CategoryVersionNotAccepted StageDetect))
      else if length (st_data s) < length V2Magic \<and> st_end s \<noteq> IO_EOF \<and> st_end s \<noteq> IO_UnexpectedEOF
      then Inl (ProtocolError CategoryTransportFailure StageDetect)
      else if wo_max_version opts = Some VersionV2
      then Inl (ProtocolError CategoryVersionNotAccepted StageDetect)
      else Inr (VersionV1, s))"

definition detect_good ::
  "crypto_fns \<Rightarrow> connection_guard \<times> (go_error + version) \<Rightarrow> go_error + version \<times> stream \<Rightarrow> bool" where
  "detect_good K res want \<longleftrightarrow>
     (case want of
        Inl e \<Rightarrow> snd res = Inl e
      | Inr (v, s) \<Rightarrow> snd res = Inr v \<and> g_version (fst res) = Some v \<and> \<not> g_closed (fst res) \<and>
          g_reader (fst res) \<and> chan_view K (g_chan (fst res)) = s \<and>
          (\<exists>p. g_chan (fst res) = Chan_Plain p) \<and>
          g_v1 (fst res) = (if v = VersionV1 then Some DefaultV1PayloadLimit else None))"

lemma lock_fresh:
  "\<not> g_locked g \<Longrightarrow> lock_version v g = (g\<lparr>g_version := Some v, g_locked := True\<rparr>, None)"
  by (simp add: lock_version_def)

lemma accept_v1_good:
  assumes "\<not> g_locked g" "\<not> g_closed g" "g_reader g" "pk_offset p = 0" "g_options g = opts"
  shows "detect_good K (accept_v1_fallback p g)
    (if wo_max_version opts = Some VersionV2 then Inl (ProtocolError CategoryVersionNotAccepted StageDetect)
     else Inr (VersionV1, peek_view p))"
  using assms
  by (auto simp: detect_good_def accept_v1_fallback_def lock_fresh guard_fail_def Let_def peek_replay_view)

lemma accept_v2_good:
  assumes "\<not> g_locked g" "\<not> g_closed g" "g_reader g" "pk_offset p = 0" "g_options g = opts" "g_v1 g = None"
    and "length V2Magic \<le> length (pk_peeked p)"
  shows "detect_good K (accept_v2 p g)
    (if wo_v2_enabled opts
     then Inr (VersionV2, (peek_view p)\<lparr>st_data := drop (length V2Magic) (st_data (peek_view p))\<rparr>)
     else Inl (ProtocolError CategoryVersionNotAccepted StageDetect))"
  using assms
  by (auto simp: detect_good_def accept_v2_def lock_fresh guard_fail_def peek_consume_view)

lemma detect_version_spec:
  "detect_good K (detect_version sock (new_guard opts peer pool sock)) (detect_spec opts (so_stream sock))"
proof -
  let ?g = "new_guard opts peer pool sock" and ?n = "length V2Magic" and ?s = "so_stream sock"
  obtain p prefix e where pk: "peek_peek (new_peek_reader sock) ?n = (p, prefix, e)"
    by (metis prod.exhaust)
  have off: "pk_offset p = 0"
    by (rule peek_peek_offset [OF pk]) (simp add: new_peek_reader_def)
  note spec = peek_peek_view [OF pk peek_wf_ops(1)]
  have view: "peek_view p = ?s" using spec by simp
  have pend: "peek_pending (new_peek_reader sock) = []"
    by (simp add: peek_pending_def new_peek_reader_def)
  let ?g1 = "?g\<lparr>g_chan := Chan_Plain p, g_reader := True\<rparr>"
  have fresh: "\<not> g_locked ?g1" "\<not> g_closed ?g1" "g_reader ?g1" "g_options ?g1 = opts" "g_v1 ?g1 = None"
    by (simp_all add: new_guard_def)
  show ?thesis
  proof (cases e)
    case None
    have n: "?n \<le> length (st_data ?s)" and pre: "prefix = take ?n (st_data ?s)"
      using spec None by simp_all
    have ne: "st_data ?s \<noteq> []" using n by (auto simp: V2Magic_def)
    have len: "?n \<le> length (pk_peeked p)"
      using peek_peek_length [OF pk [unfolded None] peek_wf_ops(1)] off by (simp add: peek_pending_def)
    show ?thesis
    proof (cases "prefix = V2Magic")
      case True
      then have "detect_version sock ?g = accept_v2 p ?g1"
        using pk None by (simp add: detect_version_def Let_def)
      with accept_v2_good [OF fresh(1-3) off fresh(4,5) len, of K] show ?thesis
        using True pre n ne view by (cases "wo_v2_enabled opts") (simp_all add: detect_spec_def)
    next
      case False
      then have "detect_version sock ?g = accept_v1_fallback p ?g1"
        using pk None by (simp add: detect_version_def Let_def)
      with accept_v1_good [OF fresh(1-3) off fresh(4), of K] show ?thesis
        using False pre n ne view
        by (cases "wo_max_version opts = Some VersionV2") (simp_all add: detect_spec_def)
    qed
  next
    case (Some cause)
    have n: "length (st_data ?s) < ?n" and pre: "prefix = st_data ?s"
      and cause: "cause = short_read_error (st_data ?s) (st_end ?s)"
      using spec Some pend by simp_all
    have det: "detect_version sock ?g = detect_from_short_prefix p prefix cause (?g\<lparr>g_chan := Chan_Plain p\<rparr>)"
      using pk Some by (simp add: detect_version_def Let_def)
    show ?thesis
      using det n pre cause accept_v1_good [OF fresh(1-3) off fresh(4), of K] view
      by (auto simp: detect_from_short_prefix_def detect_spec_def detect_good_def short_read_error_def
          guard_fail_def split: if_splits)
  qed
qed

subsection \<open>Sessions\<close>

text \<open>Reading a given number of frames through the guard.\<close>

fun guard_read_frames :: "crypto_fns \<Rightarrow> nat \<Rightarrow> connection_guard \<Rightarrow> connection_guard \<times> (go_error + frame list)" where
  "guard_read_frames K 0 g = (g, Inr [])"
| "guard_read_frames K (Suc n) g =
     (case guard_read_frame K g of
        (g1, Inl e) \<Rightarrow> (g1, Inl e)
      | (g1, Inr f) \<Rightarrow>
          (case guard_read_frames K n g1 of
             (g2, Inl e) \<Rightarrow> (g2, Inl e)
           | (g2, Inr fs) \<Rightarrow> (g2, Inr (f # fs))))"

lemma guard_read_v1_wire:
  assumes g: "g_version g = Some VersionV1" "g_v1 g = Some limit" "g_pool g = None" and lim: "limit < 2 ^ 63"
    and ok: "v1_sendable limit f" and data: "st_data (chan_view K (g_chan g)) = v1_wire limit [f] @ rest"
  shows "\<exists>c. guard_read_frame K g = (g\<lparr>g_chan := c, g_pool := None\<rparr>, Inr f) \<and>
    chan_view K c = (chan_view K (g_chan g))\<lparr>st_data := rest\<rparr>"
proof -
  let ?rd = "\<lparr>v1r_source = g_chan g, v1r_limit = limit\<rparr>"
  let ?v = "v1_view (chan_view K) ?rd"
  obtain raw where raw: "encode_v1_frame_with_limit f limit = Inr raw"
    using v1_sendable_encodes [OF ok] by blast
  have want: "v1_read_frame stream_read_full ?v None =
      (?v\<lparr>v1r_source := (v1r_source ?v)\<lparr>st_data := rest\<rparr>\<rparr>, None, Inr (f\<lparr>fr_release := None\<rparr>))"
    by (rule v1_read_encoded [where raw = raw])
      (use raw ok lim data in \<open>simp_all add: v1_sendable_def v1_wire_def\<close>)
  have "f\<lparr>fr_release := None\<rparr> = f" using ok by (simp add: v1_sendable_def)
  moreover obtain rd p r where fr: "v1_read_frame (chan_read_full K) ?rd None = (rd, p, r)"
    by (metis prod.exhaust)
  ultimately have r: "p = None" "r = Inr f"
    "v1_view (chan_view K) rd = ?v\<lparr>v1r_source := (v1r_source ?v)\<lparr>st_data := rest\<rparr>\<rparr>"
    using chan.v1_read_frame_sim [OF fr] want by auto
  then have "chan_view K (v1r_source rd) = (chan_view K (g_chan g))\<lparr>st_data := rest\<rparr>"
    by (simp add: v1_view_def)
  with fr r g show ?thesis
    by (auto simp: guard_read_frame_def read_v1_frame_def Let_def)
qed

lemma guard_read_frames_v1:
  assumes "g_version g = Some VersionV1" "g_v1 g = Some limit" "g_pool g = None" "limit < 2 ^ 63"
    and "\<forall>f \<in> set fs. v1_sendable limit f"
    and "st_data (chan_view K (g_chan g)) = v1_wire limit fs @ rest"
  shows "snd (guard_read_frames K (length fs) g) = Inr fs"
  using assms
proof (induction fs arbitrary: g)
  case Nil
  then show ?case by simp
next
  case (Cons f fs)
  have "st_data (chan_view K (g_chan g)) = v1_wire limit [f] @ (v1_wire limit fs @ rest)"
    using Cons.prems(6) by (simp add: v1_wire_def)
  from guard_read_v1_wire [OF Cons.prems(1-4) _ this] Cons.prems(5)
  obtain c where c: "guard_read_frame K g = (g\<lparr>g_chan := c, g_pool := None\<rparr>, Inr f)"
    "chan_view K c = (chan_view K (g_chan g))\<lparr>st_data := v1_wire limit fs @ rest\<rparr>"
    by auto
  have "snd (guard_read_frames K (length fs) (g\<lparr>g_chan := c, g_pool := None\<rparr>)) = Inr fs"
    by (rule Cons.IH) (use Cons.prems c in simp_all)
  with c show ?case by (auto split: prod.splits)
qed

text \<open>No registered v1 type byte begins the v2 magic: a v1 session is never taken for v2.\<close>

lemma v1_type_not_magic: "m \<in> set supported_message_types \<Longrightarrow> mt_v1byte m \<noteq> hd V2Magic"
  by (auto simp: supported_message_types_def message_type_defs V2Magic_def)

lemma v1_wire_hd:
  assumes "fs \<noteq> []" and "\<forall>f \<in> set fs. v1_sendable limit f"
  shows "v1_wire limit fs \<noteq> [] \<and> hd (v1_wire limit fs @ rest) \<noteq> hd V2Magic"
proof -
  obtain f gs where fs: "fs = f # gs" using assms(1) by (cases fs) auto
  obtain raw where raw: "encode_v1_frame_with_limit f limit = Inr raw"
    using v1_sendable_encodes assms(2) fs by force
  have "hd raw = mt_v1byte (fr_type f) \<and> raw \<noteq> []" using encode_v1_InrD [OF raw] by auto
  moreover have "fr_type f \<in> set supported_message_types" using assms(2) fs by (simp add: v1_sendable_def)
  ultimately show ?thesis using v1_type_not_magic raw fs by (simp add: v1_wire_def)
qed

lemma detect_spec_v1:
  assumes "fs \<noteq> []" and "\<forall>f \<in> set fs. v1_sendable limit f"
    and "st_data s = v1_wire limit fs @ rest" and "st_end s = IO_EOF"
    and "wo_max_version opts \<noteq> Some VersionV2"
  shows "detect_spec opts s = Inr (VersionV1, s)"
proof -
  note hd = v1_wire_hd [OF assms(1,2), of rest]
  have "take (length V2Magic) (st_data s) \<noteq> V2Magic"
  proof
    assume a: "take (length V2Magic) (st_data s) = V2Magic"
    have "hd (take (length V2Magic) (st_data s)) = hd (st_data s)" by (simp add: V2Magic_def)
    with a hd assms(3) show False by metis
  qed
  with hd assms show ?thesis by (simp add: detect_spec_def)
qed

lemma v1_session:
  assumes "fs \<noteq> []" and "\<forall>f \<in> set fs. v1_sendable DefaultV1PayloadLimit f"
    and "st_data (so_stream sock) = v1_wire DefaultV1PayloadLimit fs @ rest"
    and "st_end (so_stream sock) = IO_EOF" and "wo_max_version opts \<noteq> Some VersionV2"
    and "detect_version sock (new_guard opts peer None sock) = (g, r)"
  shows "r = Inr VersionV1 \<and> snd (guard_read_frames K (length fs) g) = Inr fs"
proof -
  have good: "detect_good K (g, r) (Inr (VersionV1, so_stream sock))"
    using detect_version_spec [of K sock opts peer None] assms(6) detect_spec_v1 [OF assms(1-5)] by simp
  have "g_pool g = None"
  proof -
    have "g_pool (fst (detect_version sock (new_guard opts peer None sock))) = None"
      by (simp add: detect_version_def detect_from_short_prefix_def accept_v1_fallback_def accept_v2_def
          lock_version_def guard_fail_def guard_reject_def close_with_event_def new_guard_def Let_def
          split: prod.split option.split)
    then show ?thesis using assms(6) by simp
  qed
  with good assms(2,3) show ?thesis
    by (auto simp: detect_good_def DefaultV1PayloadLimit_def intro: guard_read_frames_v1)
qed

subsection \<open>The encrypted control channel of v2\<close>

lemma guard_read_v2_wire:
  assumes g: "g_version g = Some VersionV2" "g_v2 g = Some DefaultV2PayloadLimit" "g_pool g = None"
    and enc: "encode_v2_message_frame m payload = Inr raw" and m: "m \<in> set supported_message_types"
    and data: "st_data (chan_view K (g_chan g)) = raw @ rest"
  shows "\<exists>c. guard_read_frame K g =
      (g\<lparr>g_chan := c, g_pool := None\<rparr>, Inr \<lparr>fr_type = m, fr_payload = payload, fr_release = None\<rparr>) \<and>
    chan_view K c = (chan_view K (g_chan g))\<lparr>st_data := rest\<rparr>"
proof -
  let ?rd = "\<lparr>v2r_source = g_chan g, v2r_limit = DefaultV2PayloadLimit\<rparr>"
  let ?v = "v2_view (chan_view K) ?rd"
  have want: "v2_read_frame stream_read_full ?v None =
    (?v\<lparr>v2r_source := (v2r_source ?v)\<lparr>st_data := rest\<rparr>\<rparr>, None,
     Inr \<lparr>v2f_type = V2FrameTypeMessage, v2f_flags = 0,
          v2f_message = \<lparr>mf_type = m, mf_payload = payload\<rparr>, v2f_release = None\<rparr>)"
    by (rule v2_read_encoded [OF enc m]) (use data in simp_all)
  obtain rd p r where fr: "v2_read_frame (chan_read_full K) ?rd None = (rd, p, r)"
    by (metis prod.exhaust)
  have r: "p = None" "r = Inr \<lparr>v2f_type = V2FrameTypeMessage, v2f_flags = 0,
      v2f_message = \<lparr>mf_type = m, mf_payload = payload\<rparr>, v2f_release = None\<rparr>"
    "v2_view (chan_view K) rd = ?v\<lparr>v2r_source := (v2r_source ?v)\<lparr>st_data := rest\<rparr>\<rparr>"
    using chan.v2_read_frame_sim [OF fr] want by auto
  then have "chan_view K (v2r_source rd) = (chan_view K (g_chan g))\<lparr>st_data := rest\<rparr>"
    by (simp add: v2_view_def)
  with fr r g show ?thesis
    by (auto simp: guard_read_frame_def read_v2_frame_def Let_def)
qed

text \<open>A list of messages, encoded one after the other.\<close>

fun v2_wire :: "(message_type \<times> bytes) list \<Rightarrow> go_error + bytes" where
  "v2_wire [] = Inr []"
| "v2_wire ((m, payload) # ms) =
     (case encode_v2_message_frame m payload of
        Inl e \<Rightarrow> Inl e
      | Inr raw \<Rightarrow> (case v2_wire ms of Inl e \<Rightarrow> Inl e | Inr rest \<Rightarrow> Inr (raw @ rest)))"

lemma v2_wire_nonempty:
  assumes "v2_wire ms = Inr wire" and "ms \<noteq> []"
  shows "wire \<noteq> []"
proof -
  obtain m payload ms' where ms: "ms = (m, payload) # ms'" using assms(2) by (cases ms) auto
  obtain raw where raw: "encode_v2_message_frame m payload = Inr raw"
    using assms(1) ms by (cases "encode_v2_message_frame m payload") simp_all
  have "length raw \<ge> 2"
    using encode_v2_InrD [OF conjunct2 [OF encode_v2_message_InrD [OF raw]]] by simp
  then show ?thesis using assms(1) ms raw by (cases "v2_wire ms'") auto
qed

definition plain_frame :: "message_type \<times> bytes \<Rightarrow> frame" where
  "plain_frame mp = \<lparr>fr_type = fst mp, fr_payload = snd mp, fr_release = None\<rparr>"

lemma guard_read_frames_v2:
  assumes "g_version g = Some VersionV2" "g_v2 g = Some DefaultV2PayloadLimit" "g_pool g = None"
    and "v2_wire ms = Inr wire" and "fst ` set ms \<subseteq> set supported_message_types"
    and "st_data (chan_view K (g_chan g)) = wire"
  shows "snd (guard_read_frames K (length ms) g) = Inr (map plain_frame ms)"
  using assms
proof (induction ms arbitrary: g wire)
  case Nil
  then show ?case by simp
next
  case (Cons mp ms)
  obtain m payload where mp: "mp = (m, payload)" by fastforce
  obtain raw rest where raw: "encode_v2_message_frame m payload = Inr raw" and ms: "v2_wire ms = Inr rest"
    and w: "wire = raw @ rest"
    using Cons.prems(4) mp by (auto split: sum.splits)
  have m: "m \<in> set supported_message_types" using Cons.prems(5) mp by simp
  have data: "st_data (chan_view K (g_chan g)) = raw @ rest" using Cons.prems(6) w by simp
  from guard_read_v2_wire [OF Cons.prems(1-3) raw m data] obtain c where
    c: "guard_read_frame K g = (g\<lparr>g_chan := c, g_pool := None\<rparr>, Inr (plain_frame mp))"
    "chan_view K c = (chan_view K (g_chan g))\<lparr>st_data := rest\<rparr>"
    by (auto simp: plain_frame_def mp)
  have "snd (guard_read_frames K (length ms) (g\<lparr>g_chan := c, g_pool := None\<rparr>)) = Inr (map plain_frame ms)"
    by (rule Cons.IH [OF _ _ _ ms]) (use Cons.prems c in simp_all)
  with c show ?case by (auto split: prod.splits)
qed

text \<open>
  The whole way: the peer's writer cuts the encoded messages into sealed frames, in any
  number of writes; the guard, switched to the cipher, reads the messages back.
\<close>

lemma v2_control_session:
  assumes law: "aead_law seal (cf_open K)" and nonce: "length nonce = gcm_nonce_size"
    and w: "new_v2_aead_writer [] key nonce = Inr w"
    and ms: "v2_wire ms = Inr (concat writes)" "fst ` set ms \<subseteq> set supported_message_types" "ms \<noteq> []"
    and g: "enable_v2_cipher key g = (g', None)" "g_pool g = None"
    and data: "st_data (peek_view (chan_peeker (g_chan g))) = aw_target (aead_write_all seal w writes)"
  shows "snd (guard_read_frames K (length ms) g') = Inr (map plain_frame ms)"
proof -
  obtain r where r: "new_v2_aead_reader (chan_peeker (g_chan g)) key = Inr r"
    and g': "g' = g\<lparr>g_chan := Chan_V2 r, g_v2 := Some DefaultV2PayloadLimit\<rparr>"
    and ver: "g_version g = Some VersionV2"
    using g(1) by (auto simp: enable_v2_cipher_def require_version_None split: option.splits if_splits sum.splits)
  have "concat writes \<noteq> []" by (rule v2_wire_nonempty [OF ms(1,3)])
  from aead_channel [where so = peek_view, OF law nonce w r this data]
  have "st_data (chan_view K (g_chan g')) = concat writes" by (simp add: g')
  with ver g(2) ms(1,2) show ?thesis
    by (intro guard_read_frames_v2) (simp_all add: g')
qed

text \<open>
  The end of the stream on a frame boundary of the encrypted channel: the reader reports a
  wrapped end of file, which the frame reader does not recognise as one.
\<close>

lemma v2_cipher_clean_end:
  assumes "g_version g = Some VersionV2" "g_v2 g = Some limit"
    and "g_chan g = Chan_V2 r" "ar_pending r = []" "ar_nonce r = Some n"
    and "st_data (peek_view (ar_source r)) = []" "st_end (peek_view (ar_source r)) = IO_EOF"
  shows "snd (guard_read_frame K g) = Inl (ProtocolError CategoryPayloadTruncated StageMessage) \<and>
    g_closed (fst (guard_read_frame K g))"
proof -
  let ?rd = "\<lparr>v2r_source = g_chan g, v2r_limit = limit\<rparr>"
  have view: "chan_view K (g_chan g) = \<lparr>st_data = [], st_end = Wrapped IO_EOF\<rparr>"
    using assms by (simp add: aead_view_def aead_plain_of_def aead_plain_end)
  obtain rd p x where fr: "v2_read_frame (chan_read_full K) ?rd (g_pool g) = (rd, p, x)"
    by (metis prod.exhaust)
  obtain y where "v2_read_frame stream_read_full (v2_view (chan_view K) ?rd) (g_pool g) = (y, p, x)"
    using chan.v2_read_frame_sim [OF fr] by blast
  then have "x = Inl (ProtocolError CategoryPayloadTruncated StageMessage)"
    by (simp add: v2_read_frame_def v2_view_def view stream_read_full_def V2HeaderSize_def
        short_read_error_def v2_header_error_def)
  with fr assms(1,2) show ?thesis
    by (simp add: guard_read_frame_def read_v2_frame_def Let_def guard_fail_def guard_reject_def)
qed

subsection \<open>The negotiated limit\<close>

lemma guard_negotiate_InrD:
  assumes "guard_negotiate K g = (g', Inr result)"
  shows "\<exists>(rd :: channel v2_reader) request server. v2r_limit rd = DefaultV2PayloadLimit \<and> negotiate request server = Inr result \<and>
    server = server_capabilities g' \<and> g_v2 g' = Some (v2r_limit (v2_set_limit rd (nr_max_payload result)))"
proof -
  have ver: "require_version VersionV2 g = None"
    using assms by (cases "require_version VersionV2 g") (simp_all add: guard_negotiate_def guard_fail_def)
  let ?rd0 = "\<lparr>v2r_source = Chan_Plain (guard_stream g), v2r_limit = DefaultV2PayloadLimit\<rparr>"
  obtain rd p x where fr: "v2_read_frame (chan_read_full K) ?rd0 (g_pool g) = (rd, p, x)"
    by (metis prod.exhaust)
  obtain f where f: "x = Inr f"
    using assms ver fr by (cases x) (simp_all add: guard_negotiate_def guard_fail_def)
  let ?g1 = "g\<lparr>g_chan := v2r_source rd, g_client_hello := mf_payload (v2f_message f),
               g_pool := v2_frame_release p f\<rparr>"
  obtain request where rq: "decode_client_hello_frame K f = Inr request"
    using assms ver fr f
    by (cases "decode_client_hello_frame K f") (simp_all add: guard_negotiate_def guard_fail_def Let_def)
  have n: "negotiate request (server_capabilities ?g1) = Inr result"
    using assms ver fr f rq
    by (cases "negotiate request (server_capabilities ?g1)")
      (simp_all add: guard_negotiate_def guard_fail_def Let_def)
  have g': "g' = ?g1\<lparr>g_v2 := Some (v2r_limit (v2_set_limit rd (nr_max_payload result)))\<rparr>"
    using assms ver fr f rq n by (simp add: guard_negotiate_def Let_def)
  have "v2r_limit rd = DefaultV2PayloadLimit" using v2_read_frame_limit [OF fr] by simp
  moreover have "server_capabilities g' = server_capabilities ?g1" by (simp add: g' server_capabilities_def)
  moreover have "g_v2 g' = Some (v2r_limit (v2_set_limit rd (nr_max_payload result)))" by (simp add: g')
  ultimately show ?thesis
    using n by (intro exI [of _ rd] exI [of _ request] exI [of _ "server_capabilities g'"]) simp
qed

lemma negotiate_limit:
  assumes "guard_negotiate K g = (g', Inr result)" and "0 < nr_max_payload result"
  shows "g_v2 g' = Some (nr_max_payload result)"
proof -
  obtain rd :: "channel v2_reader" and request server where r: "v2r_limit rd = DefaultV2PayloadLimit" "negotiate request server = Inr result"
    "g_v2 g' = Some (v2r_limit (v2_set_limit rd (nr_max_payload result)))"
    using guard_negotiate_InrD [OF assms(1)] by blast
  have "nr_max_payload result \<le> DefaultV2PayloadLimit"
    using negotiate_max_payload [OF r(2)] negotiate_limit_le by metis
  with r assms(2) show ?thesis by (simp add: v2_set_limit_def)
qed

lemma enable_v2_cipher_limit:
  "enable_v2_cipher key g = (g', None) \<Longrightarrow> g_v2 g' = Some DefaultV2PayloadLimit"
  by (auto simp: enable_v2_cipher_def split: option.splits if_splits sum.splits)

end
