(* ===== verification/Wire_Properties.thy ===== *)
theory Wire_Properties
  imports Guard_Laws
begin

section \<open>Properties of the wire layer\<close>

text \<open>
  The properties that make \<open>core/internal/wire\<close> correct, each with a concrete instance. The
  sample values of the instances come first: a ping frame, a connection that delivers three
  bytes and then one at a time, library functions simple enough to compute with.
\<close>

definition sample_ping :: frame where
  "sample_ping = \<lparr>fr_type = MessageTypePing, fr_payload = [0x7b, 0x7d], fr_release = None\<rparr>"

definition sample_socket :: "bytes \<Rightarrow> socket" where
  "sample_socket bs = \<lparr>so_stream = \<lparr>st_data = bs, st_end = IO_EOF\<rparr>, so_chunks = [3, 1, 1]\<rparr>"

definition sample_options :: wire_options where
  "sample_options = \<lparr>wo_max_version = None, wo_v2_enabled = True,
     wo_capabilities = default_capabilities, wo_sink = True\<rparr>"

definition sample_seal :: aead_fn where
  "sample_seal key nonce plain aad = plain @ replicate gcm_overhead 0"

definition sample_open :: aead_open_fn where
  "sample_open key nonce ct aad = Some (take (length ct - gcm_overhead) ct)"

definition sample_hello :: client_hello where
  "sample_hello = \<lparr>ch_transport = [], ch_tls_mux = [], ch_codecs = [CodecJSON],
     ch_crypto = [''xchacha20-poly1305'', V2CipherAlgorithmAES256GCM], ch_random = [],
     ch_compression = None, ch_max_payload = 1000\<rparr>"

definition sample_crypto :: crypto_fns where
  "sample_crypto = \<lparr>cf_aes = (\<lambda>key block. block), cf_open = sample_open, cf_hash = (\<lambda>bs. bs),
     cf_unmarshal = (\<lambda>bs. Some sample_hello)\<rparr>"

lemma sample_aead_law: "aead_law sample_seal sample_open"
  by (simp add: aead_law_def sample_seal_def sample_open_def)

lemma sample_ping_sendable: "v1_sendable DefaultV1PayloadLimit sample_ping"
proof -
  have "validate_json_object [0x7b, 0x7d] = None" by code_simp
  then show ?thesis
    by (simp add: v1_sendable_def sample_ping_def supported_message_types_def DefaultV1PayloadLimit_def)
qed

subsection \<open>Sessions\<close>

text \<open>C2: a v1 peer's frames are delivered exactly, in order, after version detection: whatever
  the chunks the connection delivers, the pre-read magic is replayed and no byte is lost.\<close>

theorem v1_session_delivers:
  assumes "fs \<noteq> []" and "\<forall>f \<in> set fs. v1_sendable DefaultV1PayloadLimit f"
    and "st_data (so_stream sock) = v1_wire DefaultV1PayloadLimit fs @ rest"
    and "st_end (so_stream sock) = IO_EOF" and "wo_max_version opts \<noteq> Some VersionV2"
  shows "snd (detect_version sock (new_guard opts peer None sock)) = Inr VersionV1 \<and>
    snd (guard_read_frames K (length fs) (fst (detect_version sock (new_guard opts peer None sock)))) = Inr fs"
  using v1_session [OF assms prod.collapse [symmetric]] .

definition sample_v1_socket :: socket where
  "sample_v1_socket = sample_socket (v1_wire DefaultV1PayloadLimit [sample_ping, sample_ping])"

theorem v1_session_delivers_witness:
  "snd (detect_version sample_v1_socket (new_guard sample_options ''p'' None sample_v1_socket)) = Inr VersionV1 \<and>
   snd (guard_read_frames sample_crypto (length [sample_ping, sample_ping])
     (fst (detect_version sample_v1_socket (new_guard sample_options ''p'' None sample_v1_socket)))) =
   Inr [sample_ping, sample_ping]"
  by (rule v1_session_delivers)
    (simp_all add: sample_v1_socket_def sample_socket_def sample_options_def sample_ping_sendable)

text \<open>C3: on a v2 control connection switched to its cipher, the messages that the peer's AEAD
  writer sealed (in any number of writes) are delivered exactly and in order.\<close>

theorem v2_cipher_session_delivers:
  assumes "aead_law seal (cf_open K)" and "length nonce = gcm_nonce_size"
    and "new_v2_aead_writer [] key nonce = Inr w"
    and "v2_wire ms = Inr (concat writes)" and "fst ` set ms \<subseteq> set supported_message_types" and "ms \<noteq> []"
    and "enable_v2_cipher key g = (g', None)" and "g_pool g = None"
    and "st_data (peek_view (chan_peeker (g_chan g))) = aw_target (aead_write_all seal w writes)"
  shows "snd (guard_read_frames K (length ms) g') = Inr (map plain_frame ms)"
  using v2_control_session [OF assms(1-9)] .

definition sample_writer :: "bytes v2_aead_writer" where
  "sample_writer = \<lparr>aw_target = [], aw_key = replicate 32 7, aw_stream_nonce = replicate 12 0,
     aw_nonce = replicate 12 0, aw_header_sent = False\<rparr>"

definition sample_v2_wire :: bytes where
  "sample_v2_wire = [0, 16, 0, 0, 0, 0, 0, 4, 0, 11, 0x7b, 0x7d]"

definition sample_v2_guard :: connection_guard where
  "sample_v2_guard =
     (new_guard sample_options ''peer'' None
        (sample_socket (aw_target (aead_write_all sample_seal sample_writer
           [take 5 sample_v2_wire, drop 5 sample_v2_wire]))))
     \<lparr>g_version := Some VersionV2, g_locked := True, g_reader := True\<rparr>"

definition sample_message :: "message_type \<times> bytes" where
  "sample_message = (MessageTypePing, [0x7b, 0x7d])"

lemma sample_object_ok: "validate_json_object [0x7b, 0x7d] = None"
  by code_simp

lemma sample_v2_wire_ok: "v2_wire [sample_message] = Inr sample_v2_wire"
proof -
  have "message_type_by_v2 (mt_v2id MessageTypePing) = Some MessageTypePing"
    by (rule message_type_by_v2_self) (simp add: supported_message_types_def)
  moreover have "mt_v2id MessageTypePing = 11" by (simp add: MessageTypePing_def)
  ultimately show ?thesis
    by (simp add: sample_message_def encode_v2_message_frame_def sample_object_ok encode_v2_frame_def
        encode_v2_frame_with_limit_def is_defined_v2_frame_type_def ensure_payload_within_limit_def
        v2_frame_type_defs DefaultV2PayloadLimit_def put_u16_def be_bytes_numeral sample_v2_wire_def)
qed

theorem v2_cipher_session_delivers_witness:
  "snd (guard_read_frames sample_crypto 1 (fst (enable_v2_cipher (replicate 32 7) sample_v2_guard))) =
   Inr [\<lparr>fr_type = MessageTypePing, fr_payload = [0x7b, 0x7d], fr_release = None\<rparr>]"
proof -
  have "snd (guard_read_frames sample_crypto (length [sample_message])
      (fst (enable_v2_cipher (replicate 32 7) sample_v2_guard))) =
    Inr (map plain_frame [sample_message])"
  proof (rule v2_cipher_session_delivers)
    show "aead_law sample_seal (cf_open sample_crypto)" by (simp add: sample_crypto_def sample_aead_law)
    show "length (replicate 12 0 :: bytes) = gcm_nonce_size" by (simp add: gcm_nonce_size_def)
    show "new_v2_aead_writer [] (replicate 32 7) (replicate 12 0) = Inr sample_writer"
      by (simp add: new_v2_aead_writer_def v2CipherKeySize_def sample_writer_def)
    show "v2_wire [sample_message] =
        Inr (concat [take 5 sample_v2_wire, drop 5 sample_v2_wire])"
      using sample_v2_wire_ok by simp
    show "enable_v2_cipher (replicate 32 7) sample_v2_guard =
        (fst (enable_v2_cipher (replicate 32 7) sample_v2_guard), None)"
      by (simp add: enable_v2_cipher_def require_version_def sample_v2_guard_def new_v2_aead_reader_def
          v2CipherKeySize_def)
  qed (simp_all add: sample_message_def supported_message_types_def sample_v2_guard_def new_guard_def sample_socket_def)
  then show ?thesis by (simp add: plain_frame_def sample_message_def)
qed


text \<open>C23: over any sequence of calls the guard keeps its invariant, never changes a locked
  version and publishes at most one close event, which is final.\<close>

theorem guard_version_locked_once_closed_once:
  assumes "(guard_step K)\<^sup>*\<^sup>* (new_guard opts peer pool sock) g" and "(guard_step K)\<^sup>*\<^sup>* g g'"
  shows "guard_ok g' \<and> length (g_events g') \<le> 1 \<and>
    (g_locked g \<longrightarrow> g_version g' = g_version g) \<and> (g_closed g \<longrightarrow> g_closed g' \<and> g_events g' = g_events g)"
proof -
  have ok: "guard_ok g"
    using guard_steps_fine [OF assms(1)] guard_ok_new by (simp add: guard_fine_def)
  then have g': "guard_ok g'" "guard_le g g'"
    using guard_steps_fine [OF assms(2)] by (simp_all add: guard_fine_def)
  have "length (g_events g') \<le> 1" using g'(1) by (simp add: guard_ok_def)
  with g' show ?thesis by (auto simp: guard_le_def)
qed

theorem guard_version_locked_once_closed_once_witness:
  "let sock = sample_socket V2Magic;
       g0 = new_guard sample_options ''peer'' None sock;
       g1 = fst (detect_version sock g0)
   in guard_ok (guard_close g1) \<and> g_version (guard_close g1) = g_version g1"
proof -
  let ?s = "sample_socket V2Magic"
  let ?g0 = "new_guard sample_options ''peer'' None ?s"
  let ?g1 = "fst (detect_version ?s ?g0)"
  have "(guard_step sample_crypto)\<^sup>*\<^sup>* ?g0 ?g1" by (rule r_into_rtranclp) (rule gs_detect)
  moreover have "(guard_step sample_crypto)\<^sup>*\<^sup>* ?g1 (guard_close ?g1)"
    by (rule r_into_rtranclp) (rule gs_close)
  ultimately have step: "guard_ok (guard_close ?g1) \<and> length (g_events (guard_close ?g1)) \<le> 1 \<and>
      (g_locked ?g1 \<longrightarrow> g_version (guard_close ?g1) = g_version ?g1) \<and>
      (g_closed ?g1 \<longrightarrow> g_closed (guard_close ?g1) \<and> g_events (guard_close ?g1) = g_events ?g1)"
    by (rule guard_version_locked_once_closed_once)
  have "g_locked ?g1" by code_simp
  with step show ?thesis by (simp add: Let_def)
qed

text \<open>C29: a refused connection is a closed connection: version detection and negotiation never
  return an error and leave the connection open.\<close>

theorem refusal_closes:
  "(snd (detect_version sock g) = Inl e \<longrightarrow> g_closed (fst (detect_version sock g))) \<and>
   (snd (guard_negotiate K g) = Inl e \<longrightarrow> g_closed (fst (guard_negotiate K g)))"
  using detect_refusal_closes [of sock g "fst (detect_version sock g)" e]
    negotiate_refusal_closes [of K g "fst (guard_negotiate K g)" e]
  by (metis prod.collapse)

theorem refusal_closes_witness:
  "g_closed (fst (detect_version (sample_socket []) (new_guard sample_options ''p'' None (sample_socket []))))"
proof -
  have "snd (detect_version (sample_socket []) (new_guard sample_options ''p'' None (sample_socket []))) =
      Inl ErrEmptyConnection"
    by code_simp
  then show ?thesis using refusal_closes by blast
qed

subsection \<open>Frames and buffers\<close>


definition sample_stream :: stream where
  "sample_stream = \<lparr>st_data = sample_v2_wire, st_end = IO_EOF\<rparr>"



definition sample_pool :: buffer_pool where
  "sample_pool = \<lparr>bp_limit = 64, bp_slots = 2, bp_free = [\<lparr>buf_id = 0, buf_cap = 16\<rparr>],
     bp_outstanding = 0, bp_next = 1\<rparr>"


text \<open>A declared length above the limit is refused before any buffer is taken and before any
  byte of the payload is read.\<close>

theorem oversized_frame_not_allocated:
  assumes "V2HeaderSize \<le> length (st_data s)" and "limit < v2_declared (st_data s)"
    and "is_defined_v2_frame_type (get_u16 (st_data s))" and "get_u16 (drop 2 (st_data s)) = 0"
  shows "v2_read_frame stream_read_full \<lparr>v2r_source = s, v2r_limit = limit\<rparr> p =
    (\<lparr>v2r_source = s\<lparr>st_data := drop V2HeaderSize (st_data s)\<rparr>, v2r_limit = limit\<rparr>, p,
     Inl (ProtocolError CategoryLengthExceeded StageMessage))"
proof -
  have "0 \<le> v2_declared (st_data s)" by simp
  then have "ensure_payload_within_limit (v2_declared (st_data s)) limit StageMessage =
      Some (ProtocolError CategoryLengthExceeded StageMessage)"
    using assms(2) by (simp add: ensure_payload_within_limit_def not_less)
  then show ?thesis
    using assms stream_read_ok [OF assms(1)] v2_header_split [OF assms(1)]
    by (simp add: v2_read_frame_def Let_def)
qed

theorem oversized_frame_not_allocated_witness:
  "snd (v2_read_frame stream_read_full \<lparr>v2r_source = sample_stream, v2r_limit = 3\<rparr> (Some sample_pool)) =
   (Some sample_pool, Inl (ProtocolError CategoryLengthExceeded StageMessage))"
  using oversized_frame_not_allocated [of sample_stream 3 "Some sample_pool"]
  by (simp add: sample_stream_def sample_v2_wire_def V2HeaderSize_def v2_declared_def be_nat_def
      get_u16_def is_defined_v2_frame_type_def v2_frame_type_defs)

text \<open>A payload that passes the JSON check is an object, scanned to its end, and nowhere in it
  are more than 10000 objects and arrays open at once.\<close>

theorem validated_payload_bounded:
  assumes "validate_json_object payload = None" and "trim_space payload = pre @ post"
  shows "hd (trim_space payload) = 123 \<and>
    (\<exists>st. json_run json_reset pre = Some st \<and> length (js_stack st) \<le> max_nesting_depth)"
proof -
  have v: "json_valid (pre @ post)" "hd (trim_space payload) = 123"
    using assms by (auto simp: validate_json_object_def Let_def split: if_splits)
  then obtain st where st: "json_run json_reset pre = Some st"
    by (auto simp: json_valid_def json_run_append split: option.splits)
  have "json_ok st" using json_run_ok [OF st json_reset_ok] .
  with v st show ?thesis by (simp add: json_ok_def)
qed

theorem validated_payload_bounded_witness:
  "\<exists>st. json_run json_reset [0x7b] = Some st \<and> length (js_stack st) \<le> max_nesting_depth"
proof -
  have "trim_space [0x7b, 0x7d] = [0x7b] @ [0x7d]" by code_simp
  from validated_payload_bounded [OF sample_object_ok this] show ?thesis by simp
qed

text \<open>The pool stays bounded and gives every buffer to one owner: a get returns a buffer that
  is large enough, nobody else holds and is not free, and the put of it restores the count.\<close>

theorem pool_get_exclusive:
  assumes "pool_inv p held" and "pool_get p n = (p', Inr b)"
  shows "pool_inv p' (b # held) \<and> n \<le> int (buf_cap b) \<and> buf_id b \<notin> buf_id ` (set held \<union> set (bp_free p')) \<and>
    length (bp_free p') \<le> bp_slots p' \<and> pool_inv (pool_put p' (Some b)) held"
proof -
  have inv: "pool_inv p' (b # held)" by (rule pool_inv_get [OF assms])
  then have "buf_id b \<notin> buf_id ` (set held \<union> set (bp_free p'))" "length (bp_free p') \<le> bp_slots p'"
    by (auto simp: pool_inv_def)
  with inv pool_get_cap [OF assms(2)] pool_get_put [OF assms] show ?thesis by simp
qed

theorem pool_get_exclusive_witness:
  "pool_inv (pool_put (fst (pool_get sample_pool 10)) (Some \<lparr>buf_id = 0, buf_cap = 16\<rparr>)) []"
proof -
  have "pool_inv sample_pool []" by (simp add: pool_inv_def sample_pool_def)
  moreover have "pool_get sample_pool 10 = (fst (pool_get sample_pool 10), Inr \<lparr>buf_id = 0, buf_cap = 16\<rparr>)"
    by (simp add: pool_get_def sample_pool_def)
  ultimately show ?thesis using pool_get_exclusive by blast
qed

subsection \<open>Encryption\<close>

definition write_chunks :: "aead_fn \<Rightarrow> bytes v2_aead_writer \<Rightarrow> bytes list \<Rightarrow> bytes v2_aead_writer" where
  "write_chunks seal w ps = foldl (\<lambda>w p. fst (aead_write_frame seal sink_write w p)) w ps"

lemma write_chunks_nonce: "aw_nonce (write_chunks seal w ps) = nonce_after (length ps) (aw_nonce w)"
  by (induction ps arbitrary: w) (simp_all add: write_chunks_def aead_write_frame_sink)

text \<open>C37: the AEAD writer never uses a nonce twice for its first \<open>2 ^ 96\<close> frames, whatever the
  chunks it seals.\<close>

theorem aead_nonces_fresh:
  assumes "length (aw_nonce w) = gcm_nonce_size"
    and "length ps < length qs" and "length qs < 2 ^ 96"
  shows "aw_nonce (write_chunks seal w ps) \<noteq> aw_nonce (write_chunks seal w qs)"
proof
  assume "aw_nonce (write_chunks seal w ps) = aw_nonce (write_chunks seal w qs)"
  then have "nonce_after (length ps) (aw_nonce w) = nonce_after (length qs) (aw_nonce w)"
    by (simp add: write_chunks_nonce)
  moreover have "(256 :: nat) ^ length (aw_nonce w) = 2 ^ 96" using assms(1) by (simp add: gcm_nonce_size_def)
  then have "length ps < 256 ^ length (aw_nonce w)" "length qs < 256 ^ length (aw_nonce w)"
    using assms(2,3) by linarith+
  ultimately have "length ps = length qs" by (rule nonce_after_inj)
  with assms(2) show False by simp
qed

theorem aead_nonces_fresh_witness:
  "aw_nonce (write_chunks sample_seal sample_writer [[1]]) \<noteq>
   aw_nonce (write_chunks sample_seal sample_writer [[1], [2, 3]])"
  by (rule aead_nonces_fresh) (simp_all add: sample_writer_def gcm_nonce_size_def)

text \<open>The hashed transcript determines both hello payloads: no two different pairs of
  payloads are hashed as the same bytes.\<close>

theorem transcript_determines_hellos:
  assumes "transcript_input c s = transcript_input c' s'"
    and "length c < 2 ^ 64" and "length c' < 2 ^ 64" and "length s < 2 ^ 64" and "length s' < 2 ^ 64"
  shows "c = c' \<and> s = s'"
  by (rule transcript_input_inj [OF assms])

theorem transcript_determines_hellos_witness: "[1 :: byte, 2] = [1, 2] \<and> [3 :: byte] = [3]"
  by (rule transcript_determines_hellos [OF refl]) simp_all

text \<open>C38: bytes written through the v1 cipher writer, in any number of writes, are the bytes that
  the peer's cipher reader stands for, whatever block cipher is used.\<close>

theorem v1_cipher_roundtrip:
  assumes "new_v1_cipher_writer [] key = Inr w" and "length iv = aes_block_size" and "ps \<noteq> []"
    and "st_data (peek_view p) = vcw_target (v1_cipher_write_all aes iv w ps)"
    and "n \<le> length (concat ps)"
  shows "snd (v1_cipher_read_full aes (new_v1_cipher_reader p key) n) = Inr (take n (concat ps))"
proof -
  have w: "length key = aes_block_size" "w = \<lparr>vcw_target = [], vcw_key = key, vcw_stream = None\<rparr>"
    using assms(1) by (auto simp: new_v1_cipher_writer_def split: if_splits)
  then have key: "aes_key_ok key" by (simp add: aes_key_ok_def aes_block_size_def)
  have data: "st_data (peek_view p) = iv @ snd (cfb_encrypt (aes key) (cfb_start iv) (concat ps))"
    using assms(4) v1_cipher_write_fresh [of w ps aes iv] key assms(3) w(2) by simp
  note view = v1_cipher_channel [where so = peek_view and aes = aes, OF key assms(2) data]
  from assms(5) show ?thesis
    using v1_cipher_source.rf_enough [of n aes "new_v1_cipher_reader p key"] view by force
qed

theorem v1_cipher_roundtrip_witness:
  "snd (v1_cipher_read_full (\<lambda>key block. block)
     (new_v1_cipher_reader
       (new_peek_reader (sample_socket
         (vcw_target (v1_cipher_write_all (\<lambda>key block. block) (replicate 16 3)
           \<lparr>vcw_target = [], vcw_key = replicate 16 9, vcw_stream = None\<rparr> [[1, 2], [3]]))))
       (replicate 16 9)) 3) = Inr (take 3 (concat [[1, 2], [3]]))"
  by (rule v1_cipher_roundtrip [where iv = "replicate 16 3" and
        w = "\<lparr>vcw_target = [], vcw_key = replicate 16 9, vcw_stream = None\<rparr>"])
    (simp_all add: new_v1_cipher_writer_def aes_block_size_def sample_socket_def)

subsection \<open>Negotiation\<close>

text \<open>A negotiated result uses what both sides offer, the server's first choice whatever the
  client's order, and a payload limit no higher than either side's and the implementation's.\<close>

theorem negotiation_sound:
  assumes "negotiate request server = Inr r"
  shows "nr_codec r \<in> set (ch_codecs request) \<inter> set (cap_codecs server) \<and>
    nr_crypto r \<in> set (ch_crypto request) \<inter> set (cap_crypto server) \<and>
    (\<exists>k < length (cap_crypto server). cap_crypto server ! k = nr_crypto r \<and>
       (\<forall>j < k. cap_crypto server ! j \<notin> set (ch_crypto request))) \<and>
    nr_max_payload r \<le> cap_max_payload server \<and> nr_max_payload r \<le> DefaultV2PayloadLimit \<and>
    (0 < ch_max_payload request \<longrightarrow> nr_max_payload r \<le> ch_max_payload request)"
proof -
  obtain codec crypto where c:
    "intersect_prefer_server (ch_codecs request) (cap_codecs server) = Some codec"
    "intersect_prefer_server (ch_crypto request) (cap_crypto server) = Some crypto"
    "nr_codec r = codec" "nr_crypto r = crypto"
    using assms by (auto simp: negotiate_def Let_def split: option.splits)
  show ?thesis
    using intersect_SomeD [OF c(1)] intersect_SomeD [OF c(2)] c(3,4)
      negotiate_max_payload [OF assms] negotiate_limit_le by simp
qed

theorem negotiation_sound_witness:
  "\<exists>r. negotiate sample_hello default_capabilities = Inr r \<and> nr_max_payload r \<le> 1000"
proof -
  let ?r = "\<lparr>nr_codec = CodecJSON, nr_crypto = V2CipherAlgorithmAES256GCM,
             nr_compression = CompressionNone, nr_max_payload = 1000\<rparr>"
  have r: "negotiate sample_hello default_capabilities = Inr ?r" by code_simp
  have "0 < ch_max_payload sample_hello" "ch_max_payload sample_hello = 1000"
    by (simp_all add: sample_hello_def)
  with negotiation_sound [OF r] r show ?thesis by auto
qed

text \<open>After a successful negotiation the guard's reader enforces the agreed limit, but the
  switch to the encrypted channel puts the default limit back: the agreement is lost.\<close>

theorem negotiated_limit_lost_on_cipher:
  assumes "guard_negotiate K g = (g1, Inr result)" and "0 < nr_max_payload result"
    and "enable_v2_cipher key (record_v2_server_hello hello g1) = (g2, None)"
  shows "g_v2 g1 = Some (nr_max_payload result) \<and> g_v2 g2 = Some DefaultV2PayloadLimit"
  using negotiate_limit [OF assms(1,2)] enable_v2_cipher_limit [OF assms(3)] by simp

definition sample_hello_guard :: connection_guard where
  "sample_hello_guard =
     (new_guard sample_options ''peer'' None (sample_socket [0, 1, 0, 0, 0, 0, 0, 2, 0x7b, 0x7d]))
     \<lparr>g_version := Some VersionV2, g_locked := True, g_reader := True\<rparr>"

theorem negotiated_limit_lost_on_cipher_witness:
  "g_v2 (fst (guard_negotiate sample_crypto sample_hello_guard)) = Some 1000 \<and>
   g_v2 (fst (enable_v2_cipher (replicate 32 7)
     (record_v2_server_hello [1] (fst (guard_negotiate sample_crypto sample_hello_guard))))) =
   Some DefaultV2PayloadLimit"
proof -
  let ?g1 = "fst (guard_negotiate sample_crypto sample_hello_guard)"
  let ?r = "\<lparr>nr_codec = CodecJSON, nr_crypto = V2CipherAlgorithmAES256GCM,
             nr_compression = CompressionNone, nr_max_payload = 1000\<rparr>"
  let ?e = "enable_v2_cipher (replicate 32 7) (record_v2_server_hello [1] ?g1)"
  have n: "guard_negotiate sample_crypto sample_hello_guard = (?g1, Inr ?r)" by code_simp
  have e: "?e = (fst ?e, None)" by code_simp
  from negotiated_limit_lost_on_cipher [OF n _ e] show ?thesis by simp
qed

text \<open>An orderly end of the encrypted v2 channel on a frame boundary is reported as a
  truncated frame and closes the connection as a protocol violation.\<close>

theorem v2_cipher_end_is_truncation:
  assumes "g_version g = Some VersionV2" and "g_v2 g = Some limit"
    and "g_chan g = Chan_V2 r" and "ar_pending r = []" and "ar_nonce r = Some n"
    and "st_data (peek_view (ar_source r)) = []" and "st_end (peek_view (ar_source r)) = IO_EOF"
  shows "snd (guard_read_frame K g) = Inl (ProtocolError CategoryPayloadTruncated StageMessage) \<and>
    g_closed (fst (guard_read_frame K g))"
  by (rule v2_cipher_clean_end [OF assms])

definition sample_ended_reader :: "peek_reader v2_aead_reader" where
  "sample_ended_reader = \<lparr>ar_source = new_peek_reader (sample_socket []), ar_key = replicate 32 7,
     ar_stream_nonce = replicate 12 0, ar_nonce = Some (replicate 12 0), ar_pending = [], ar_frames = 3\<rparr>"

definition sample_ended_guard :: connection_guard where
  "sample_ended_guard =
     (new_guard sample_options ''peer'' None (sample_socket []))
     \<lparr>g_version := Some VersionV2, g_locked := True, g_reader := True, g_v2 := Some 65536,
      g_chan := Chan_V2 sample_ended_reader\<rparr>"

theorem v2_cipher_end_is_truncation_witness:
  "snd (guard_read_frame sample_crypto sample_ended_guard) =
   Inl (ProtocolError CategoryPayloadTruncated StageMessage)"
  by (rule v2_cipher_end_is_truncation [where r = sample_ended_reader, THEN conjunct1])
    (simp_all add: sample_ended_guard_def sample_ended_reader_def new_guard_def sample_socket_def)

text \<open>Of any run of requests on a transform state at most one enabling of encryption is
  accepted, and application payload is never accepted before it.\<close>

theorem transform_enabled_once:
  assumes "transform_run (new_transform_state r) qs = (s', es)"
  shows "accepted is_encrypt qs es \<le> 1 \<and> (accepted is_encrypt qs es = 1 \<longleftrightarrow> ts_encrypted s') \<and>
    (\<not> ts_encrypted s' \<longrightarrow> write_application_payload s' \<noteq> None)"
  using transform_encrypt_once [OF assms]
  by (auto simp: new_transform_state_def write_application_payload_def)

theorem transform_enabled_once_witness:
  "accepted is_encrypt [Write_Payload, Enable_Encryption [1], Enable_Encryption [2]]
     [Some transform_rejected, None, Some transform_rejected] \<le> 1"
proof -
  let ?r = "\<lparr>nr_codec = CodecJSON, nr_crypto = V2CipherAlgorithmAES256GCM,
             nr_compression = CompressionNone, nr_max_payload = 1000\<rparr>"
  have "snd (transform_run (new_transform_state ?r) [Write_Payload, Enable_Encryption [1], Enable_Encryption [2]])
    = [Some transform_rejected, None, Some transform_rejected]" by code_simp
  then show ?thesis using transform_enabled_once [of ?r _ _ "[Some transform_rejected, None, Some transform_rejected]"]
    by (metis prod.collapse)
qed

end
