(* ===== verification/Core_Config.thy ===== *)
theory Core_Config
  imports Prelude
begin

section \<open>Configuration values (\<open>core/config.go\<close>, \<open>build.go\<close>, \<open>limits.go\<close>, \<open>enum.go\<close>, \<open>error.go\<close>)\<close>

text \<open>
  The configuration that a host hands to the engines: the structs, the option functions, the
  defaults and the errors. Durations are nanoseconds, Go's \<open>int\<close> values integers. Copying a
  slice makes no difference between immutable values, so \<open>copySlice\<close> and the \<open>clone\<close>
  functions are the identity here. The Chinese message of a \<open>ConfigError\<close> is diagnostic text
  and left out; code and field path, the stable contract, are kept.
\<close>

subsection \<open>Enumerations\<close>

type_synonym transport = string
type_synonym wire_version = string

definition TransportTCP :: transport where "TransportTCP = ''tcp''"
definition TransportWebSocket :: transport where "TransportWebSocket = ''websocket''"
definition TransportWSS :: transport where "TransportWSS = ''wss''"
definition TransportKCP :: transport where "TransportKCP = ''kcp''"
definition TransportQUIC :: transport where "TransportQUIC = ''quic''"

definition supported_transports :: "transport list" where
  "supported_transports = [TransportTCP, TransportWebSocket, TransportWSS, TransportKCP, TransportQUIC]"

definition WireV1 :: wire_version where "WireV1 = ''v1''"

definition supported_wire_versions :: "wire_version list" where
  "supported_wire_versions = [WireV1]"

datatype proxy_type = ProxyTypeTCP | ProxyTypeUDP | ProxyTypeHTTP | ProxyTypeHTTPS

fun proxy_type_string :: "proxy_type \<Rightarrow> string" where
  "proxy_type_string ProxyTypeTCP = ''tcp''"
| "proxy_type_string ProxyTypeUDP = ''udp''"
| "proxy_type_string ProxyTypeHTTP = ''http''"
| "proxy_type_string ProxyTypeHTTPS = ''https''"

subsection \<open>Limits\<close>

definition second :: int where "second = 1000000000"

definition MaxProxyCount :: int where "MaxProxyCount = 2000"
definition MaxClientCredentialCount :: int where "MaxClientCredentialCount = 200"
definition MaxProxyNameLength :: int where "MaxProxyNameLength = 64"
definition DefaultHeartbeat :: int where "DefaultHeartbeat = 30 * second"
definition DefaultTimeout :: int where "DefaultTimeout = 10 * second"
definition DefaultDrainTimeout :: int where "DefaultDrainTimeout = 10 * second"
definition DefaultWorkConnPoolSize :: int where "DefaultWorkConnPoolSize = 8"
definition MaxWorkConnPoolSize :: int where "MaxWorkConnPoolSize = 16"
definition DefaultIdleWorkConnLimit :: int where "DefaultIdleWorkConnLimit = 2"
definition MaxIdleWorkConnLimit :: int where "MaxIdleWorkConnLimit = 16"
definition DefaultUDPSessionIdle :: int where "DefaultUDPSessionIdle = 60 * second"
definition DefaultUDPSessionLimit :: int where "DefaultUDPSessionLimit = 8"
definition MaxUDPSessionLimit :: int where "MaxUDPSessionLimit = 256"
definition DefaultUDPDatagramSize :: int where "DefaultUDPDatagramSize = 1400"
definition MaxUDPDatagramSize :: int where "MaxUDPDatagramSize = 65507"
definition MaxHTTPRouteCount :: int where "MaxHTTPRouteCount = 256"
definition MaxAllowTargetCount :: int where "MaxAllowTargetCount = 16"

lemmas limit_defs =
  MaxProxyCount_def MaxClientCredentialCount_def MaxProxyNameLength_def DefaultHeartbeat_def
  DefaultTimeout_def DefaultDrainTimeout_def DefaultWorkConnPoolSize_def MaxWorkConnPoolSize_def
  DefaultIdleWorkConnLimit_def MaxIdleWorkConnLimit_def DefaultUDPSessionIdle_def
  DefaultUDPSessionLimit_def MaxUDPSessionLimit_def DefaultUDPDatagramSize_def
  MaxUDPDatagramSize_def MaxHTTPRouteCount_def MaxAllowTargetCount_def second_def

subsection \<open>Errors\<close>

datatype error_code =
    CodeIncomplete | CodePortOutOfRange | CodeMissingAuth | CodeDuplicateProxyName
  | CodeInvalidAddress | CodeUnsupportedValue | CodeUnknownClient | CodePortConflict
  | CodeRouteConflict | CodeInvalidRoute | CodeInvalidDuration | CodeLimitExceeded | CodeInvalidName

record config_error =
  pe_code :: error_code
  pe_field :: string

definition new_config_error :: "error_code \<Rightarrow> string \<Rightarrow> config_error" where
  "new_config_error code field = \<lparr>pe_code = code, pe_field = field\<rparr>"

subsection \<open>Addresses (\<open>net/netip\<close>)\<close>

text \<open>
  \<open>netip.Addr\<close>: the zero value, an IPv4 address, or an IPv6 address with its zone. An address
  is unspecified when it equals \<open>0.0.0.0\<close> or \<open>::\<close> without a zone.
\<close>

datatype ip_addr = IP_Invalid | IP_V4 "32 word" | IP_V6 "128 word" string

record addr_port =
  ap_addr :: ip_addr
  ap_port :: "16 word"

fun addr_is_valid :: "ip_addr \<Rightarrow> bool" where
  "addr_is_valid IP_Invalid = False"
| "addr_is_valid _ = True"

fun addr_is_unspecified :: "ip_addr \<Rightarrow> bool" where
  "addr_is_unspecified IP_Invalid = False"
| "addr_is_unspecified (IP_V4 a) = (a = 0)"
| "addr_is_unspecified (IP_V6 a zone) = (a = 0 \<and> zone = [])"

subsection \<open>The structs\<close>

record tls_config =
  tls_server_name :: string
  tls_root_ca :: string
  tls_certificate :: string
  tls_private_key :: string
  tls_fingerprint :: string

record websocket_config =
  ws_path :: string
  ws_header :: string
  ws_max_payload :: int
  ws_tls :: tls_config

record kcp_config =
  kcp_mtu :: int
  kcp_send_window :: int
  kcp_receive_window :: int
  kcp_data_shards :: int
  kcp_parity_shards :: int
  kcp_no_delay :: bool
  kcp_interval :: int
  kcp_resend :: int
  kcp_no_congestion :: bool
  kcp_key :: string

record quic_config =
  qc_tls :: tls_config
  qc_alpn :: string
  qc_handshake_timeout :: int
  qc_max_idle_timeout :: int
  qc_keep_alive :: int
  qc_initial_stream_window :: "64 word"
  qc_max_stream_window :: "64 word"
  qc_initial_conn_window :: "64 word"
  qc_max_conn_window :: "64 word"
  qc_max_incoming_streams :: int

record transport_config =
  tc_websocket :: websocket_config
  tc_kcp :: kcp_config
  tc_quic :: quic_config

record server_endpoint =
  se_address :: addr_port
  se_transport :: transport
  se_wire :: wire_version
  se_config :: transport_config

record bind_endpoint =
  be_address :: addr_port
  be_transport :: transport
  be_config :: transport_config

text \<open>
  The four client proxy structs have the same three fields; the list they are in tells the type.
  So do the TCP, UDP and HTTPS bindings of the server; the HTTP binding has three fields more.
\<close>

record proxy_decl =
  pd_name :: string
  pd_local :: addr_port
  pd_remote_port :: int

record client_credential =
  cc_client_id :: string
  cc_token :: string
  cc_compat_token :: string

record proxy_binding =
  pb_name :: string
  pb_client :: string
  pb_port :: int
  pb_targets :: "addr_port list"

record http_binding = proxy_binding +
  hb_hosts :: "string list"
  hb_path :: string
  hb_capture_body :: bool

text \<open>A draft has the fields of the configuration it becomes: one record serves for both.\<close>

record client_config =
  ccf_client_id :: string
  ccf_endpoint :: server_endpoint
  ccf_token :: string
  ccf_tcp :: "proxy_decl list"
  ccf_udp :: "proxy_decl list"
  ccf_http :: "proxy_decl list"
  ccf_https :: "proxy_decl list"
  ccf_heartbeat :: int
  ccf_timeout :: int
  ccf_drain_timeout :: int
  ccf_has_endpoint :: bool
  ccf_pool_size :: int
  ccf_idle_limit :: int

record server_config =
  scf_listen :: bind_endpoint
  scf_wire :: wire_version
  scf_credentials :: "client_credential list"
  scf_tcp :: "proxy_binding list"
  scf_udp :: "proxy_binding list"
  scf_http :: "http_binding list"
  scf_https :: "proxy_binding list"
  scf_heartbeat :: int
  scf_timeout :: int
  scf_drain_timeout :: int
  scf_has_listen :: bool
  scf_idle_limit :: int
  scf_udp_idle :: int
  scf_udp_limit :: int
  scf_udp_size :: int

definition all_proxies :: "client_config \<Rightarrow> (proxy_type \<times> proxy_decl) list" where
  "all_proxies c =
     map (Pair ProxyTypeTCP) (ccf_tcp c) @ map (Pair ProxyTypeUDP) (ccf_udp c)
     @ map (Pair ProxyTypeHTTP) (ccf_http c) @ map (Pair ProxyTypeHTTPS) (ccf_https c)"

definition binding_view :: "'a proxy_binding_scheme \<Rightarrow> proxy_binding" where
  "binding_view b = \<lparr>pb_name = pb_name b, pb_client = pb_client b, pb_port = pb_port b, pb_targets = pb_targets b\<rparr>"

definition all_bindings :: "server_config \<Rightarrow> (proxy_type \<times> proxy_binding) list" where
  "all_bindings c =
     map (Pair ProxyTypeTCP) (scf_tcp c) @ map (Pair ProxyTypeUDP) (scf_udp c)
     @ map (\<lambda>b. (ProxyTypeHTTP, binding_view b)) (scf_http c) @ map (Pair ProxyTypeHTTPS) (scf_https c)"

definition proxy_count :: "client_config \<Rightarrow> int" where
  "proxy_count c =
     int (length (ccf_tcp c)) + int (length (ccf_udp c)) + int (length (ccf_http c)) + int (length (ccf_https c))"

definition binding_count :: "server_config \<Rightarrow> int" where
  "binding_count c =
     int (length (scf_tcp c)) + int (length (scf_udp c)) + int (length (scf_http c)) + int (length (scf_https c))"

subsection \<open>Zero values and options\<close>

definition zero_addr_port :: addr_port where
  "zero_addr_port = \<lparr>ap_addr = IP_Invalid, ap_port = 0\<rparr>"

definition zero_tls :: tls_config where
  "zero_tls = \<lparr>tls_server_name = [], tls_root_ca = [], tls_certificate = [], tls_private_key = [], tls_fingerprint = []\<rparr>"

definition zero_transport_config :: transport_config where
  "zero_transport_config =
     \<lparr>tc_websocket = \<lparr>ws_path = [], ws_header = [], ws_max_payload = 0, ws_tls = zero_tls\<rparr>,
      tc_kcp = \<lparr>kcp_mtu = 0, kcp_send_window = 0, kcp_receive_window = 0, kcp_data_shards = 0,
        kcp_parity_shards = 0, kcp_no_delay = False, kcp_interval = 0, kcp_resend = 0,
        kcp_no_congestion = False, kcp_key = []\<rparr>,
      tc_quic = \<lparr>qc_tls = zero_tls, qc_alpn = [], qc_handshake_timeout = 0, qc_max_idle_timeout = 0,
        qc_keep_alive = 0, qc_initial_stream_window = 0, qc_max_stream_window = 0,
        qc_initial_conn_window = 0, qc_max_conn_window = 0, qc_max_incoming_streams = 0\<rparr>\<rparr>"

definition zero_client_draft :: client_config where
  "zero_client_draft =
     \<lparr>ccf_client_id = [],
      ccf_endpoint = \<lparr>se_address = zero_addr_port, se_transport = [], se_wire = [], se_config = zero_transport_config\<rparr>,
      ccf_token = [], ccf_tcp = [], ccf_udp = [], ccf_http = [], ccf_https = [],
      ccf_heartbeat = 0, ccf_timeout = 0, ccf_drain_timeout = 0, ccf_has_endpoint = False,
      ccf_pool_size = 0, ccf_idle_limit = 0\<rparr>"

definition zero_server_draft :: server_config where
  "zero_server_draft =
     \<lparr>scf_listen = \<lparr>be_address = zero_addr_port, be_transport = [], be_config = zero_transport_config\<rparr>,
      scf_wire = [], scf_credentials = [], scf_tcp = [], scf_udp = [], scf_http = [], scf_https = [],
      scf_heartbeat = 0, scf_timeout = 0, scf_drain_timeout = 0, scf_has_listen = False,
      scf_idle_limit = 0, scf_udp_idle = 0, scf_udp_limit = 0, scf_udp_size = 0\<rparr>"

text \<open>One constructor per option function; an option only assigns or appends.\<close>

datatype client_option =
    WithClientID string | WithServerEndpoint server_endpoint | WithClientAuth string
  | WithTCPProxies "proxy_decl list" | WithUDPProxies "proxy_decl list"
  | WithHTTPProxies "proxy_decl list" | WithHTTPSProxies "proxy_decl list"
  | WithHeartbeat int | WithTimeout int | WithClientDrainTimeout int
  | WithWorkConnPoolSize int | WithIdleWorkConnLimit int

fun apply_client_option :: "client_option \<Rightarrow> client_config \<Rightarrow> client_config" where
  "apply_client_option (WithClientID i) d = d\<lparr>ccf_client_id := i\<rparr>"
| "apply_client_option (WithServerEndpoint e) d = d\<lparr>ccf_endpoint := e, ccf_has_endpoint := True\<rparr>"
| "apply_client_option (WithClientAuth t) d = d\<lparr>ccf_token := t\<rparr>"
| "apply_client_option (WithTCPProxies ps) d = d\<lparr>ccf_tcp := ccf_tcp d @ ps\<rparr>"
| "apply_client_option (WithUDPProxies ps) d = d\<lparr>ccf_udp := ccf_udp d @ ps\<rparr>"
| "apply_client_option (WithHTTPProxies ps) d = d\<lparr>ccf_http := ccf_http d @ ps\<rparr>"
| "apply_client_option (WithHTTPSProxies ps) d = d\<lparr>ccf_https := ccf_https d @ ps\<rparr>"
| "apply_client_option (WithHeartbeat t) d = d\<lparr>ccf_heartbeat := t\<rparr>"
| "apply_client_option (WithTimeout t) d = d\<lparr>ccf_timeout := t\<rparr>"
| "apply_client_option (WithClientDrainTimeout t) d = d\<lparr>ccf_drain_timeout := t\<rparr>"
| "apply_client_option (WithWorkConnPoolSize n) d = d\<lparr>ccf_pool_size := n\<rparr>"
| "apply_client_option (WithIdleWorkConnLimit n) d = d\<lparr>ccf_idle_limit := n\<rparr>"

datatype server_option =
    WithServerHeartbeat int | WithServerTimeout int | WithServerDrainTimeout int
  | WithServerIdleWorkConnLimit int | WithListen bind_endpoint | WithWire wire_version
  | WithClientCredentials "client_credential list"
  | WithTCPProxyBindings "proxy_binding list" | WithUDPProxyBindings "proxy_binding list"
  | WithHTTPProxyBindings "http_binding list" | WithHTTPSProxyBindings "proxy_binding list"
  | WithUDPSessionIdle int | WithUDPSessionLimit int | WithUDPDatagramSize int

fun apply_server_option :: "server_option \<Rightarrow> server_config \<Rightarrow> server_config" where
  "apply_server_option (WithServerHeartbeat t) d = d\<lparr>scf_heartbeat := t\<rparr>"
| "apply_server_option (WithServerTimeout t) d = d\<lparr>scf_timeout := t\<rparr>"
| "apply_server_option (WithServerDrainTimeout t) d = d\<lparr>scf_drain_timeout := t\<rparr>"
| "apply_server_option (WithServerIdleWorkConnLimit n) d = d\<lparr>scf_idle_limit := n\<rparr>"
| "apply_server_option (WithListen e) d = d\<lparr>scf_listen := e, scf_has_listen := True\<rparr>"
| "apply_server_option (WithWire w) d = d\<lparr>scf_wire := w\<rparr>"
| "apply_server_option (WithClientCredentials cs) d = d\<lparr>scf_credentials := scf_credentials d @ cs\<rparr>"
| "apply_server_option (WithTCPProxyBindings bs) d = d\<lparr>scf_tcp := scf_tcp d @ bs\<rparr>"
| "apply_server_option (WithUDPProxyBindings bs) d = d\<lparr>scf_udp := scf_udp d @ bs\<rparr>"
| "apply_server_option (WithHTTPProxyBindings bs) d = d\<lparr>scf_http := scf_http d @ bs\<rparr>"
| "apply_server_option (WithHTTPSProxyBindings bs) d = d\<lparr>scf_https := scf_https d @ bs\<rparr>"
| "apply_server_option (WithUDPSessionIdle t) d = d\<lparr>scf_udp_idle := t\<rparr>"
| "apply_server_option (WithUDPSessionLimit n) d = d\<lparr>scf_udp_limit := n\<rparr>"
| "apply_server_option (WithUDPDatagramSize n) d = d\<lparr>scf_udp_size := n\<rparr>"

definition default_value :: "int \<Rightarrow> int \<Rightarrow> int" where
  "default_value v fallback = (if v = 0 then fallback else v)"

definition client_with_defaults :: "client_config \<Rightarrow> client_config" where
  "client_with_defaults d =
     d\<lparr>ccf_heartbeat := default_value (ccf_heartbeat d) DefaultHeartbeat,
       ccf_timeout := default_value (ccf_timeout d) DefaultTimeout,
       ccf_drain_timeout := default_value (ccf_drain_timeout d) DefaultDrainTimeout,
       ccf_pool_size := default_value (ccf_pool_size d) DefaultWorkConnPoolSize,
       ccf_idle_limit := default_value (ccf_idle_limit d) DefaultIdleWorkConnLimit\<rparr>"

definition server_with_defaults :: "server_config \<Rightarrow> server_config" where
  "server_with_defaults d =
     d\<lparr>scf_heartbeat := default_value (scf_heartbeat d) DefaultHeartbeat,
       scf_timeout := default_value (scf_timeout d) DefaultTimeout,
       scf_drain_timeout := default_value (scf_drain_timeout d) DefaultDrainTimeout,
       scf_idle_limit := default_value (scf_idle_limit d) DefaultIdleWorkConnLimit,
       scf_udp_idle := default_value (scf_udp_idle d) DefaultUDPSessionIdle,
       scf_udp_limit := default_value (scf_udp_limit d) DefaultUDPSessionLimit,
       scf_udp_size := default_value (scf_udp_size d) DefaultUDPDatagramSize\<rparr>"

definition run_client_options :: "client_option list \<Rightarrow> client_config" where
  "run_client_options opts = client_with_defaults (fold apply_client_option opts zero_client_draft)"

definition run_server_options :: "server_option list \<Rightarrow> server_config" where
  "run_server_options opts = server_with_defaults (fold apply_server_option opts zero_server_draft)"

end
