(* ===== verification/Core_Validate.thy ===== *)
theory Core_Validate
  imports Core_Config Wire_Base
begin

section \<open>Configuration validation (\<open>core/validate.go\<close>, \<open>build.go\<close>)\<close>

text \<open>
  Every validator returns the list of its problems in the order the code appends them. Two
  things of the library are parameters: \<open>lower\<close> is \<open>strings.ToLower\<close>, whose table of letters
  is Unicode's, and \<open>order\<close> is the order in which Go ranges over a map, which the language
  leaves open.
\<close>

subsection \<open>Single fields\<close>

definition item_field :: "string \<Rightarrow> nat \<Rightarrow> string" where
  "item_field container index = container @ ''['' @ itoa (int index) @ ''].''"

definition incomplete_problem :: "string \<Rightarrow> config_error list" where
  "incomplete_problem field = [new_config_error CodeIncomplete field]"

definition validate_name :: "string \<Rightarrow> string \<Rightarrow> config_error list" where
  "validate_name field name =
     (if name = [] then [new_config_error CodeLimitExceeded field]
      else if int (length name) > MaxProxyNameLength then [new_config_error CodeLimitExceeded field]
      else if CHR '':'' \<in> set name then [new_config_error CodeInvalidName field]
      else [])"

definition max_port :: int where "max_port = 65535"

definition validate_port :: "string \<Rightarrow> int \<Rightarrow> config_error list" where
  "validate_port field port =
     (if 1 \<le> port \<and> port \<le> max_port then [] else [new_config_error CodePortOutOfRange field])"

definition validate_target_address :: "string \<Rightarrow> addr_port \<Rightarrow> config_error list" where
  "validate_target_address field a =
     (if \<not> addr_is_valid (ap_addr a) then [new_config_error CodeInvalidAddress field]
      else if addr_is_unspecified (ap_addr a) then [new_config_error CodeInvalidAddress field]
      else if ap_port a = 0 then [new_config_error CodeInvalidAddress field]
      else [])"

definition validate_listen_address :: "string \<Rightarrow> addr_port \<Rightarrow> config_error list" where
  "validate_listen_address field a =
     (if \<not> addr_is_valid (ap_addr a) then [new_config_error CodeInvalidAddress field]
      else validate_port field (uint (ap_port a)))"

definition validate_bound :: "string \<Rightarrow> int \<Rightarrow> int \<Rightarrow> config_error list" where
  "validate_bound field v limit =
     (if 1 \<le> v \<and> v \<le> limit then [] else [new_config_error CodeLimitExceeded field])"

definition validate_enum :: "string \<Rightarrow> string \<Rightarrow> string list \<Rightarrow> config_error list" where
  "validate_enum field v supported =
     (if v \<in> set supported then [] else [new_config_error CodeUnsupportedValue field])"

definition validate_limit :: "string \<Rightarrow> int \<Rightarrow> int \<Rightarrow> config_error list" where
  "validate_limit field n limit = (if n \<le> limit then [] else [new_config_error CodeLimitExceeded field])"

definition validate_duration :: "string \<Rightarrow> int \<Rightarrow> config_error list" where
  "validate_duration field v = (if 0 \<le> v then [] else [new_config_error CodeInvalidDuration field])"

definition validate_durations :: "int \<Rightarrow> int \<Rightarrow> int \<Rightarrow> config_error list" where
  "validate_durations heartbeat timeout drain =
     validate_duration ''heartbeat'' heartbeat @ validate_duration ''timeout'' timeout
     @ validate_duration ''drainTimeout'' drain"

definition validate_pool_limits :: "int \<Rightarrow> int \<Rightarrow> config_error list" where
  "validate_pool_limits pool idle =
     validate_bound ''workConnPoolSize'' pool MaxWorkConnPoolSize
     @ validate_bound ''idleWorkConnLimit'' idle MaxIdleWorkConnLimit"

definition validate_server_idle_limit :: "int \<Rightarrow> config_error list" where
  "validate_server_idle_limit idle = validate_bound ''idleWorkConnLimit'' idle MaxIdleWorkConnLimit"

definition validate_udp_parameters :: "int \<Rightarrow> int \<Rightarrow> int \<Rightarrow> config_error list" where
  "validate_udp_parameters idle limit sz =
     validate_duration ''udpSessionIdle'' idle @ validate_bound ''udpSessionLimit'' limit MaxUDPSessionLimit
     @ validate_bound ''udpDatagramSize'' sz MaxUDPDatagramSize"

definition validate_wire :: "wire_version \<Rightarrow> config_error list" where
  "validate_wire w = validate_enum ''wire'' w supported_wire_versions"

definition validate_transport_config :: "string \<Rightarrow> transport \<Rightarrow> transport_config \<Rightarrow> config_error list" where
  "validate_transport_config field tr c =
     (if ws_max_payload (tc_websocket c) < 0
      then [new_config_error CodeLimitExceeded (field @ ''.webSocket.maxPayloadBytes'')] else [])
     @ (if kcp_mtu (tc_kcp c) < 0 \<or> kcp_send_window (tc_kcp c) < 0 \<or> kcp_receive_window (tc_kcp c) < 0
          \<or> kcp_data_shards (tc_kcp c) < 0 \<or> kcp_parity_shards (tc_kcp c) < 0 \<or> kcp_resend (tc_kcp c) < 0
        then [new_config_error CodeLimitExceeded (field @ ''.kcp'')] else [])
     @ (if kcp_interval (tc_kcp c) < 0
        then [new_config_error CodeInvalidDuration (field @ ''.kcp.interval'')] else [])
     @ (if qc_handshake_timeout (tc_quic c) < 0 \<or> qc_max_idle_timeout (tc_quic c) < 0
          \<or> qc_keep_alive (tc_quic c) < 0
        then [new_config_error CodeInvalidDuration (field @ ''.quic'')] else [])
     @ (if qc_max_incoming_streams (tc_quic c) < 0
        then [new_config_error CodeLimitExceeded (field @ ''.quic.maxIncomingStreams'')] else [])
     @ (if tr = TransportWSS \<and> tls_certificate (ws_tls (tc_websocket c)) = []
          \<and> tls_private_key (ws_tls (tc_websocket c)) \<noteq> []
        then [new_config_error CodeIncomplete (field @ ''.webSocket.tls.certificatePEM'')] else [])
     @ (if tr = TransportQUIC \<and> tls_certificate (qc_tls (tc_quic c)) = []
          \<and> tls_private_key (qc_tls (tc_quic c)) \<noteq> []
        then [new_config_error CodeIncomplete (field @ ''.quic.tls.certificatePEM'')] else [])"

subsection \<open>Client side\<close>

definition validate_client_endpoint :: "client_config \<Rightarrow> config_error list" where
  "validate_client_endpoint c =
     (if \<not> ccf_has_endpoint c then incomplete_problem ''endpoint''
      else validate_target_address ''endpoint.address'' (se_address (ccf_endpoint c))
        @ validate_enum ''endpoint.transport'' (se_transport (ccf_endpoint c)) supported_transports
        @ validate_enum ''endpoint.wire'' (se_wire (ccf_endpoint c)) supported_wire_versions)"

definition validate_client_auth :: "client_config \<Rightarrow> config_error list" where
  "validate_client_auth c =
     (if ccf_client_id c = [] then [new_config_error CodeMissingAuth ''clientID''] else [])
     @ (if ccf_token c = [] then [new_config_error CodeMissingAuth ''auth.token''] else [])"

definition validate_proxy_decls :: "string \<Rightarrow> proxy_decl list \<Rightarrow> config_error list" where
  "validate_proxy_decls container ps =
     concat (map (\<lambda>(i, p).
       validate_name (item_field container i @ ''name'') (pd_name p)
       @ validate_target_address (item_field container i @ ''localAddr'') (pd_local p)
       @ validate_port (item_field container i @ ''remotePort'') (pd_remote_port p)) (enumerate 0 ps))"

text \<open>The names in declaration order with the field that a duplicate is reported at.\<close>

definition named_fields :: "string \<Rightarrow> string list \<Rightarrow> (string \<times> string) list" where
  "named_fields container names = map (\<lambda>(i, n). (item_field container i @ ''name'', n)) (enumerate 0 names)"

fun check_names :: "string list \<Rightarrow> (string \<times> string) list \<Rightarrow> config_error list" where
  "check_names seen [] = []"
| "check_names seen ((field, name) # rest) =
     (if name \<notin> set seen then check_names (name # seen) rest
      else new_config_error CodeDuplicateProxyName field # check_names seen rest)"

definition duplicate_proxy_names :: "client_config \<Rightarrow> config_error list" where
  "duplicate_proxy_names c =
     check_names [] (named_fields ''proxies'' (map pd_name (ccf_tcp c))
       @ named_fields ''udpProxies'' (map pd_name (ccf_udp c))
       @ named_fields ''httpProxies'' (map pd_name (ccf_http c))
       @ named_fields ''httpsProxies'' (map pd_name (ccf_https c)))"

definition validate_client_proxies :: "client_config \<Rightarrow> config_error list" where
  "validate_client_proxies c =
     validate_proxy_decls ''proxies'' (ccf_tcp c) @ validate_proxy_decls ''udpProxies'' (ccf_udp c)
     @ validate_proxy_decls ''httpProxies'' (ccf_http c) @ validate_proxy_decls ''httpsProxies'' (ccf_https c)
     @ duplicate_proxy_names c"

definition validate_client_config :: "client_config \<Rightarrow> config_error list" where
  "validate_client_config c =
     validate_client_endpoint c
     @ validate_transport_config ''endpoint.transportConfig'' (se_transport (ccf_endpoint c)) (se_config (ccf_endpoint c))
     @ validate_client_auth c
     @ validate_client_proxies c
     @ validate_limit ''proxies'' (proxy_count c) MaxProxyCount
     @ validate_durations (ccf_heartbeat c) (ccf_timeout c) (ccf_drain_timeout c)
     @ validate_pool_limits (ccf_pool_size c) (ccf_idle_limit c)"

subsection \<open>Server side: listening point, credentials, bindings\<close>

definition validate_listen :: "server_config \<Rightarrow> config_error list" where
  "validate_listen c =
     (if \<not> scf_has_listen c then incomplete_problem ''listen''
      else validate_listen_address ''listen.address'' (be_address (scf_listen c))
        @ validate_enum ''listen.transport'' (be_transport (scf_listen c)) supported_transports)"

definition validate_credentials :: "client_credential list \<Rightarrow> config_error list" where
  "validate_credentials cs =
     (if cs = [] then incomplete_problem ''credentials''
      else concat (map (\<lambda>(i, c).
        (if cc_client_id c = [] then [new_config_error CodeMissingAuth (item_field ''credentials'' i @ ''clientID'')] else [])
        @ (if cc_token c = [] then [new_config_error CodeMissingAuth (item_field ''credentials'' i @ ''token'')] else []))
        (enumerate 0 cs)))"

definition known_client_ids :: "client_credential list \<Rightarrow> string list" where
  "known_client_ids cs = filter (\<lambda>i. i \<noteq> []) (map cc_client_id cs)"

definition validate_binding_client :: "string \<Rightarrow> string \<Rightarrow> string list \<Rightarrow> config_error list" where
  "validate_binding_client field client known =
     (if client \<in> set known then [] else [new_config_error CodeUnknownClient field])"

definition validate_allowed_targets :: "string \<Rightarrow> addr_port list \<Rightarrow> config_error list" where
  "validate_allowed_targets field targets =
     (if targets = [] then [new_config_error CodeIncomplete field]
      else if int (length targets) > MaxAllowTargetCount then [new_config_error CodeLimitExceeded field]
      else concat (map (\<lambda>(i, t). validate_target_address (item_field field i) t) (enumerate 0 targets)))"

definition validate_hosts :: "string \<Rightarrow> string list \<Rightarrow> config_error list" where
  "validate_hosts field hosts =
     (if hosts = [] then [new_config_error CodeIncomplete field]
      else if int (length hosts) > MaxHTTPRouteCount then [new_config_error CodeLimitExceeded field]
      else concat (map (\<lambda>(i, h). if trim_string h = []
          then [new_config_error CodeInvalidRoute (item_field field i)] else []) (enumerate 0 hosts)))"

definition validate_http_path :: "string \<Rightarrow> string \<Rightarrow> config_error list" where
  "validate_http_path field path =
     (if path = [] then []
      else if hd path \<noteq> CHR ''/'' then [new_config_error CodeInvalidRoute field]
      else if CHR ''?'' \<in> set path \<or> CHR ''#'' \<in> set path then [new_config_error CodeInvalidRoute field]
      else [])"

definition validate_bindings ::
  "string \<Rightarrow> string list \<Rightarrow> proxy_binding list \<Rightarrow> config_error list" where
  "validate_bindings container known bs =
     concat (map (\<lambda>(i, b).
       validate_name (item_field container i @ ''name'') (pb_name b)
       @ validate_port (item_field container i @ ''remotePort'') (pb_port b)
       @ validate_allowed_targets (item_field container i @ ''allowedTargets'') (pb_targets b)
       @ validate_binding_client (item_field container i @ ''clientID'') (pb_client b) known) (enumerate 0 bs))"

definition validate_http_bindings :: "string list \<Rightarrow> http_binding list \<Rightarrow> config_error list" where
  "validate_http_bindings known bs =
     concat (map (\<lambda>(i, b).
       validate_name (item_field ''httpBindings'' i @ ''name'') (pb_name b)
       @ validate_port (item_field ''httpBindings'' i @ ''remotePort'') (pb_port b)
       @ validate_allowed_targets (item_field ''httpBindings'' i @ ''allowedTargets'') (pb_targets b)
       @ validate_hosts (item_field ''httpBindings'' i @ ''hosts'') (hb_hosts b)
       @ validate_http_path (item_field ''httpBindings'' i @ ''path'') (hb_path b)
       @ validate_binding_client (item_field ''httpBindings'' i @ ''clientID'') (pb_client b) known) (enumerate 0 bs))"

text \<open>Routes per entry port: one for each host name of each binding on the port.\<close>

definition route_count :: "http_binding list \<Rightarrow> int \<Rightarrow> int" where
  "route_count bs port = sum_list (map (\<lambda>b. int (length (hb_hosts b))) (filter (\<lambda>b. pb_port b = port) bs))"

definition validate_route_count_per_port :: "(int list \<Rightarrow> int list) \<Rightarrow> http_binding list \<Rightarrow> config_error list" where
  "validate_route_count_per_port order bs =
     concat (map (\<lambda>port. if route_count bs port > MaxHTTPRouteCount
       then [new_config_error CodeLimitExceeded (''httpBindings[remotePort='' @ itoa port @ '']'')] else [])
       (order (remdups (map pb_port bs))))"

subsection \<open>Conflicts\<close>

text \<open>The first declarer of each port, in the order HTTPS, TCP, UDP; port 0 is skipped.\<close>

definition record_port :: "(int \<rightharpoonup> string) \<Rightarrow> int \<times> string \<Rightarrow> (int \<rightharpoonup> string)" where
  "record_port m pn =
     (if fst pn = 0 then m
      else case m (fst pn) of None \<Rightarrow> m(fst pn \<mapsto> snd pn) | Some _ \<Rightarrow> m)"

definition port_name :: "proxy_binding \<Rightarrow> int \<times> string" where
  "port_name b = (pb_port b, pb_name b)"

definition exclusive_ports :: "server_config \<Rightarrow> (int \<rightharpoonup> string)" where
  "exclusive_ports c =
     foldl record_port Map.empty
       (map port_name (scf_https c) @ map port_name (scf_tcp c) @ map port_name (scf_udp c))"

fun check_ports :: "(int \<rightharpoonup> string) \<Rightarrow> (string \<times> int \<times> string) list \<Rightarrow> config_error list" where
  "check_ports seen [] = []"
| "check_ports seen ((field, port, name) # rest) =
     (if port = 0 then check_ports seen rest
      else case seen port of
        None \<Rightarrow> check_ports (seen(port \<mapsto> name)) rest
      | Some owner \<Rightarrow>
          if owner = name then check_ports seen rest
          else new_config_error CodePortConflict field # check_ports seen rest)"

definition port_fields :: "string \<Rightarrow> proxy_binding list \<Rightarrow> (string \<times> int \<times> string) list" where
  "port_fields container bs =
     map (\<lambda>(i, b). (item_field container i @ ''remotePort'', pb_port b, pb_name b)) (enumerate 0 bs)"

definition validate_port_conflicts :: "server_config \<Rightarrow> config_error list" where
  "validate_port_conflicts c =
     concat (map (\<lambda>(i, b). case exclusive_ports c (pb_port b) of
         Some owner \<Rightarrow> (if owner \<noteq> pb_name b
           then [new_config_error CodePortConflict (item_field ''httpBindings'' i @ ''remotePort'')] else [])
       | None \<Rightarrow> []) (enumerate 0 (scf_http c)))
     @ check_ports Map.empty
         (port_fields ''bindings'' (scf_tcp c) @ port_fields ''udpBindings'' (scf_udp c)
          @ port_fields ''httpsBindings'' (scf_https c))"

definition normalize_route_host :: "(string \<Rightarrow> string) \<Rightarrow> string \<Rightarrow> string" where
  "normalize_route_host lower h = lower (trim_string h)"

definition route_path :: "string \<Rightarrow> string" where
  "route_path path = (if path = [] then ''/'' else path)"

type_synonym route_key = "int \<times> string \<times> string"

definition binding_routes :: "(string \<Rightarrow> string) \<Rightarrow> http_binding \<Rightarrow> route_key list" where
  "binding_routes lower b =
     map (\<lambda>h. (pb_port b, normalize_route_host lower h, route_path (hb_path b))) (hb_hosts b)"

fun check_routes :: "route_key list \<Rightarrow> (string \<times> route_key) list \<Rightarrow> config_error list" where
  "check_routes seen [] = []"
| "check_routes seen ((field, key) # rest) =
     (if key \<in> set seen then new_config_error CodeRouteConflict field # check_routes seen rest
      else check_routes (key # seen) rest)"

definition validate_route_conflicts :: "(string \<Rightarrow> string) \<Rightarrow> http_binding list \<Rightarrow> config_error list" where
  "validate_route_conflicts lower bs =
     check_routes [] (concat (map (\<lambda>(i, b).
       map (Pair (item_field ''httpBindings'' i @ ''hosts'')) (binding_routes lower b)) (enumerate 0 bs)))"

definition duplicate_binding_names :: "server_config \<Rightarrow> config_error list" where
  "duplicate_binding_names c =
     check_names [] (named_fields ''bindings'' (map pb_name (scf_tcp c))
       @ named_fields ''udpBindings'' (map pb_name (scf_udp c))
       @ named_fields ''httpBindings'' (map pb_name (scf_http c))
       @ named_fields ''httpsBindings'' (map pb_name (scf_https c)))"

definition validate_server_bindings ::
  "(int list \<Rightarrow> int list) \<Rightarrow> (string \<Rightarrow> string) \<Rightarrow> server_config \<Rightarrow> config_error list" where
  "validate_server_bindings order lower c =
     (let known = known_client_ids (scf_credentials c)
      in validate_bindings ''bindings'' known (scf_tcp c)
         @ validate_bindings ''udpBindings'' known (scf_udp c)
         @ validate_http_bindings known (scf_http c)
         @ validate_route_count_per_port order (scf_http c)
         @ validate_bindings ''httpsBindings'' known (scf_https c)
         @ validate_port_conflicts c
         @ validate_route_conflicts lower (scf_http c)
         @ duplicate_binding_names c)"

definition validate_server_config ::
  "(int list \<Rightarrow> int list) \<Rightarrow> (string \<Rightarrow> string) \<Rightarrow> server_config \<Rightarrow> config_error list" where
  "validate_server_config order lower c =
     validate_listen c
     @ validate_transport_config ''listen.transportConfig'' (be_transport (scf_listen c)) (be_config (scf_listen c))
     @ validate_wire (scf_wire c)
     @ validate_credentials (scf_credentials c)
     @ validate_limit ''credentials'' (int (length (scf_credentials c))) MaxClientCredentialCount
     @ validate_server_bindings order lower c
     @ validate_limit ''bindings'' (binding_count c) MaxProxyCount
     @ validate_durations (scf_heartbeat c) (scf_timeout c) (scf_drain_timeout c)
     @ validate_server_idle_limit (scf_idle_limit c)
     @ validate_udp_parameters (scf_udp_idle c) (scf_udp_limit c) (scf_udp_size c)"

subsection \<open>Building a configuration (\<open>build.go\<close>)\<close>

definition new_client_config :: "client_option list \<Rightarrow> config_error list + client_config" where
  "new_client_config opts =
     (let c = run_client_options opts; problems = validate_client_config c
      in if problems = [] then Inr c else Inl problems)"

definition new_server_config ::
  "(int list \<Rightarrow> int list) \<Rightarrow> (string \<Rightarrow> string) \<Rightarrow> server_option list \<Rightarrow> config_error list + server_config" where
  "new_server_config order lower opts =
     (let c = run_server_options opts; problems = validate_server_config order lower c
      in if problems = [] then Inr c else Inl problems)"

end
