(* ===== verification/Config_Laws.thy ===== *)
theory Config_Laws
  imports Core_Validate
begin

section \<open>What an accepted configuration satisfies\<close>

text \<open>
  A declarative description of well-formed client and server configurations, without lists of
  problems, scans or field names, and the proof that the validators accept exactly these.
\<close>

subsection \<open>Single fields\<close>

definition name_ok :: "string \<Rightarrow> bool" where
  "name_ok n \<longleftrightarrow> n \<noteq> [] \<and> length n \<le> 64 \<and> CHR '':'' \<notin> set n"

definition port_ok :: "int \<Rightarrow> bool" where
  "port_ok p \<longleftrightarrow> 1 \<le> p \<and> p \<le> 65535"

definition target_ok :: "addr_port \<Rightarrow> bool" where
  "target_ok a \<longleftrightarrow> addr_is_valid (ap_addr a) \<and> \<not> addr_is_unspecified (ap_addr a) \<and> ap_port a \<noteq> 0"

definition transport_ok :: "transport \<Rightarrow> transport_config \<Rightarrow> bool" where
  "transport_ok tr c \<longleftrightarrow>
     0 \<le> ws_max_payload (tc_websocket c) \<and>
     (\<forall>f \<in> {kcp_mtu, kcp_send_window, kcp_receive_window, kcp_data_shards, kcp_parity_shards,
        kcp_resend, kcp_interval}. 0 \<le> f (tc_kcp c)) \<and>
     (\<forall>f \<in> {qc_handshake_timeout, qc_max_idle_timeout, qc_keep_alive, qc_max_incoming_streams}.
        0 \<le> f (tc_quic c)) \<and>
     (tr = TransportWSS \<longrightarrow> tls_private_key (ws_tls (tc_websocket c)) \<noteq> [] \<longrightarrow>
        tls_certificate (ws_tls (tc_websocket c)) \<noteq> []) \<and>
     (tr = TransportQUIC \<longrightarrow> tls_private_key (qc_tls (tc_quic c)) \<noteq> [] \<longrightarrow>
        tls_certificate (qc_tls (tc_quic c)) \<noteq> [])"

lemma validate_name_Nil [cfg_defs]: "validate_name f n = [] \<longleftrightarrow> name_ok n"
  by (auto simp: validate_name_def name_ok_def MaxProxyNameLength_def)

lemma validate_port_Nil [cfg_defs]: "validate_port f p = [] \<longleftrightarrow> port_ok p"
  by (simp add: validate_port_def port_ok_def max_port_def)

lemma validate_target_Nil [cfg_defs]: "validate_target_address f a = [] \<longleftrightarrow> target_ok a"
  by (simp add: validate_target_address_def target_ok_def)

lemma validate_listen_Nil [cfg_defs]:
  "validate_listen_address f a = [] \<longleftrightarrow> addr_is_valid (ap_addr a) \<and> port_ok (uint (ap_port a))"
  by (simp add: validate_listen_address_def validate_port_Nil)

lemma validate_bound_Nil [cfg_defs]: "validate_bound f v l = [] \<longleftrightarrow> 1 \<le> v \<and> v \<le> l"
  by (simp add: validate_bound_def)

lemma validate_enum_Nil [cfg_defs]: "validate_enum f v s = [] \<longleftrightarrow> v \<in> set s"
  by (simp add: validate_enum_def)

lemma validate_limit_Nil [cfg_defs]: "validate_limit f v l = [] \<longleftrightarrow> v \<le> l"
  by (simp add: validate_limit_def)

lemma validate_duration_Nil [cfg_defs]: "validate_duration f v = [] \<longleftrightarrow> 0 \<le> v"
  by (simp add: validate_duration_def)

lemma validate_transport_Nil [cfg_defs]: "validate_transport_config f tr c = [] \<longleftrightarrow> transport_ok tr c"
  by (auto simp: validate_transport_config_def transport_ok_def not_less)

lemma validate_client_known_Nil [cfg_defs]:
  "validate_binding_client f i known = [] \<longleftrightarrow> i \<in> set known"
  by (simp add: validate_binding_client_def)

text \<open>A concatenation over an enumerated list is empty when every piece is.\<close>

lemma concat_enumerate_Nil:
  assumes "\<And>i x. f (i, x) = [] \<longleftrightarrow> P x"
  shows "concat (map f (enumerate n xs)) = [] \<longleftrightarrow> (\<forall>x \<in> set xs. P x)"
  using assms by (induction xs arbitrary: n) auto

lemma concat_if_Nil: "concat (map (\<lambda>x. if P x then [f x] else []) xs) = [] \<longleftrightarrow> (\<forall>x \<in> set xs. \<not> P x)"
  by (induction xs) auto

definition targets_ok :: "addr_port list \<Rightarrow> bool" where
  "targets_ok ts \<longleftrightarrow> ts \<noteq> [] \<and> length ts \<le> 16 \<and> (\<forall>t \<in> set ts. target_ok t)"

lemma validate_targets_Nil [cfg_defs]: "validate_allowed_targets f ts = [] \<longleftrightarrow> targets_ok ts"
proof -
  have "concat (map (\<lambda>(i, t). validate_target_address (item_field f i) t) (enumerate 0 ts)) = [] \<longleftrightarrow>
      (\<forall>t \<in> set ts. target_ok t)"
    by (rule concat_enumerate_Nil) (simp add: validate_target_Nil)
  then show ?thesis
    by (simp add: validate_allowed_targets_def targets_ok_def MaxAllowTargetCount_def)
qed

definition hosts_ok :: "string list \<Rightarrow> bool" where
  "hosts_ok hs \<longleftrightarrow> hs \<noteq> [] \<and> length hs \<le> 256 \<and> (\<forall>h \<in> set hs. trim_string h \<noteq> [])"

lemma validate_hosts_Nil [cfg_defs]: "validate_hosts f hs = [] \<longleftrightarrow> hosts_ok hs"
proof -
  have "concat (map (\<lambda>(i, h). if trim_string h = [] then [new_config_error CodeInvalidRoute (item_field f i)]
      else []) (enumerate 0 hs)) = [] \<longleftrightarrow> (\<forall>h \<in> set hs. trim_string h \<noteq> [])"
    by (rule concat_enumerate_Nil) simp
  then show ?thesis by (simp add: validate_hosts_def hosts_ok_def MaxHTTPRouteCount_def)
qed

definition path_ok :: "string \<Rightarrow> bool" where
  "path_ok p \<longleftrightarrow> p = [] \<or> (hd p = CHR ''/'' \<and> CHR ''?'' \<notin> set p \<and> CHR ''#'' \<notin> set p)"

lemma validate_path_Nil [cfg_defs]: "validate_http_path f p = [] \<longleftrightarrow> path_ok p"
  by (simp add: validate_http_path_def path_ok_def)

subsection \<open>Scans for duplicates\<close>

lemma check_names_Nil:
  "check_names seen fs = [] \<longleftrightarrow> distinct (map snd fs) \<and> set (map snd fs) \<inter> set seen = {}"
  by (induction seen fs rule: check_names.induct) auto

lemma map_snd_named_fields [simp]: "map snd (named_fields c ns) = ns"
  by (simp add: named_fields_def comp_def split_beta map_snd_enumerate [unfolded comp_def])

lemma check_routes_Nil:
  "check_routes seen fs = [] \<longleftrightarrow> distinct (map snd fs) \<and> set (map snd fs) \<inter> set seen = {}"
  by (induction seen fs rule: check_routes.induct) auto

text \<open>
  The port scan is empty when no two declarers with different names have the same port. When
  the names are distinct and the ports non-zero that is: the ports are distinct.
\<close>

lemma check_ports_Nil:
  assumes "distinct (map (snd \<circ> snd) fs)" and "\<forall>f \<in> set fs. fst (snd f) \<noteq> 0"
    and "\<forall>n \<in> ran seen. n \<notin> set (map (snd \<circ> snd) fs)"
  shows "check_ports seen fs = [] \<longleftrightarrow>
    distinct (map (fst \<circ> snd) fs) \<and> set (map (fst \<circ> snd) fs) \<inter> dom seen = {}"
  using assms
proof (induction seen fs rule: check_ports.induct)
  case (1 seen)
  then show ?case by simp
next
  case (2 seen field port name rest)
  have port: "port \<noteq> 0" and name: "name \<notin> set (map (snd \<circ> snd) rest)"
    and d: "distinct (map (snd \<circ> snd) rest)" and nz: "\<forall>f \<in> set rest. fst (snd f) \<noteq> 0"
    and ran: "\<forall>n \<in> ran seen. n \<notin> set (map (snd \<circ> snd) rest)" "name \<notin> ran seen"
    using "2.prems" by (auto simp: comp_def)
  show ?case
  proof (cases "seen port")
    case None
    have "\<forall>n \<in> ran (seen(port \<mapsto> name)). n \<notin> set (map (snd \<circ> snd) rest)"
      using ran name None by (simp add: ran_map_upd)
    from "2.IH"(2) [OF port None d nz this] port None show ?thesis
      by (simp del: fun_upd_apply) blast
  next
    case (Some owner)
    then have "owner \<in> ran seen" by (auto simp: ran_def)
    with ran(2) have "owner \<noteq> name" by auto
    with Some port show ?thesis by auto
  qed
qed

lemma port_fields_snd [simp]:
  "map (snd \<circ> snd) (port_fields c bs) = map pb_name bs"
  "map (fst \<circ> snd) (port_fields c bs) = map pb_port bs"
proof -
  have "map (\<lambda>x. f (snd x)) (enumerate 0 bs) = map f (map snd (enumerate 0 bs))" for f :: "proxy_binding \<Rightarrow> 'x"
    by (simp only: map_map comp_def)
  then show "map (snd \<circ> snd) (port_fields c bs) = map pb_name bs"
    "map (fst \<circ> snd) (port_fields c bs) = map pb_port bs"
    by (simp_all add: port_fields_def comp_def split_beta)
qed

lemma exclusive_ports_dom:
  "dom (foldl record_port m ps) = dom m \<union> {p \<in> fst ` set ps. p \<noteq> 0}"
  by (induction ps arbitrary: m) (auto simp: record_port_def split: option.splits if_splits)

lemma exclusive_ports_ran:
  "foldl record_port m ps p = Some n \<Longrightarrow> m p = Some n \<or> n \<in> snd ` set ps"
proof (induction ps arbitrary: m)
  case Nil
  then show ?case by simp
next
  case (Cons x ps)
  then have "record_port m x p = Some n \<or> n \<in> snd ` set ps" by simp
  then show ?case by (auto simp: record_port_def split: option.splits if_splits)
qed

subsection \<open>Well-formed client configurations\<close>

definition proxy_ok :: "proxy_decl \<Rightarrow> bool" where
  "proxy_ok p \<longleftrightarrow> name_ok (pd_name p) \<and> target_ok (pd_local p) \<and> port_ok (pd_remote_port p)"

definition client_ok :: "client_config \<Rightarrow> bool" where
  "client_ok c \<longleftrightarrow>
     ccf_has_endpoint c \<and> target_ok (se_address (ccf_endpoint c)) \<and>
     se_transport (ccf_endpoint c) \<in> set supported_transports \<and> se_wire (ccf_endpoint c) = WireV1 \<and>
     transport_ok (se_transport (ccf_endpoint c)) (se_config (ccf_endpoint c)) \<and>
     ccf_client_id c \<noteq> [] \<and> ccf_token c \<noteq> [] \<and>
     (\<forall>(t, p) \<in> set (all_proxies c). proxy_ok p) \<and>
     distinct (map (pd_name \<circ> snd) (all_proxies c)) \<and>
     length (all_proxies c) \<le> 2000 \<and>
     0 \<le> ccf_heartbeat c \<and> 0 \<le> ccf_timeout c \<and> 0 \<le> ccf_drain_timeout c \<and>
     ccf_pool_size c \<in> {1..16} \<and> ccf_idle_limit c \<in> {1..16}"

lemma validate_proxy_decls_Nil [cfg_defs]:
  "validate_proxy_decls f ps = [] \<longleftrightarrow> (\<forall>p \<in> set ps. proxy_ok p)"
  unfolding validate_proxy_decls_def
  by (rule concat_enumerate_Nil) (simp add: cfg_defs proxy_ok_def)

lemma duplicate_proxy_names_Nil:
  "duplicate_proxy_names c = [] \<longleftrightarrow> distinct (map (pd_name \<circ> snd) (all_proxies c))"
  by (simp add: duplicate_proxy_names_def check_names_Nil all_proxies_def comp_def)

lemma all_proxies_ball:
  "(\<forall>(t, p) \<in> set (all_proxies c). P p) \<longleftrightarrow>
   (\<forall>p \<in> set (ccf_tcp c). P p) \<and> (\<forall>p \<in> set (ccf_udp c). P p) \<and>
   (\<forall>p \<in> set (ccf_http c). P p) \<and> (\<forall>p \<in> set (ccf_https c). P p)"
  by (auto simp: all_proxies_def)

lemma proxy_count_length: "proxy_count c = int (length (all_proxies c))"
  by (simp add: proxy_count_def all_proxies_def)

lemma validate_client_config_iff: "validate_client_config c = [] \<longleftrightarrow> client_ok c"
proof -
  have 1: "validate_client_endpoint c = [] \<longleftrightarrow> ccf_has_endpoint c \<and>
      target_ok (se_address (ccf_endpoint c)) \<and>
      se_transport (ccf_endpoint c) \<in> set supported_transports \<and> se_wire (ccf_endpoint c) = WireV1"
    by (simp add: validate_client_endpoint_def incomplete_problem_def cfg_defs supported_wire_versions_def)
  have 2: "validate_client_auth c = [] \<longleftrightarrow> ccf_client_id c \<noteq> [] \<and> ccf_token c \<noteq> []"
    by (simp add: validate_client_auth_def)
  have 3: "validate_client_proxies c = [] \<longleftrightarrow>
      (\<forall>(t, p) \<in> set (all_proxies c). proxy_ok p) \<and> distinct (map (pd_name \<circ> snd) (all_proxies c))"
    by (simp only: validate_client_proxies_def append_is_Nil_conv validate_proxy_decls_Nil
        duplicate_proxy_names_Nil all_proxies_ball conj_assoc)
  have 4: "validate_pool_limits (ccf_pool_size c) (ccf_idle_limit c) = [] \<longleftrightarrow>
      ccf_pool_size c \<in> {1..16} \<and> ccf_idle_limit c \<in> {1..16}"
    by (simp add: validate_pool_limits_def cfg_defs limit_defs)
  have 5: "validate_limit ''proxies'' (proxy_count c) MaxProxyCount = [] \<longleftrightarrow> length (all_proxies c) \<le> 2000"
    by (simp add: cfg_defs limit_defs proxy_count_length)
  have 6: "validate_durations h t d = [] \<longleftrightarrow> 0 \<le> h \<and> 0 \<le> t \<and> 0 \<le> d" for h t d
    by (simp add: validate_durations_def cfg_defs)
  show ?thesis
    unfolding validate_client_config_def append_is_Nil_conv 1 2 3 4 5 6 validate_transport_Nil client_ok_def
    by (simp only: conj_assoc)
qed

subsection \<open>Well-formed server configurations\<close>

definition binding_ok :: "string list \<Rightarrow> 'a proxy_binding_scheme \<Rightarrow> bool" where
  "binding_ok known b \<longleftrightarrow>
     name_ok (pb_name b) \<and> port_ok (pb_port b) \<and> targets_ok (pb_targets b) \<and> pb_client b \<in> set known"

text \<open>The bindings that own their entry port: all but the HTTP ones.\<close>

definition exclusive_bindings :: "server_config \<Rightarrow> proxy_binding list" where
  "exclusive_bindings c = scf_tcp c @ scf_udp c @ scf_https c"

definition bindings_ok :: "(string \<Rightarrow> string) \<Rightarrow> server_config \<Rightarrow> bool" where
  "bindings_ok lower c \<longleftrightarrow>
     (\<forall>(t, b) \<in> set (all_bindings c). binding_ok (known_client_ids (scf_credentials c)) b) \<and>
     (\<forall>b \<in> set (scf_http c). hosts_ok (hb_hosts b) \<and> path_ok (hb_path b)) \<and>
     (\<forall>b \<in> set (scf_http c). route_count (scf_http c) (pb_port b) \<le> 256) \<and>
     distinct (map (pb_name \<circ> snd) (all_bindings c)) \<and>
     distinct (map pb_port (exclusive_bindings c)) \<and>
     (\<forall>h \<in> set (scf_http c). \<forall>b \<in> set (exclusive_bindings c). pb_port h \<noteq> pb_port b) \<and>
     distinct (concat (map (binding_routes lower) (scf_http c)))"

definition credentials_ok :: "client_credential list \<Rightarrow> bool" where
  "credentials_ok cs \<longleftrightarrow>
     cs \<noteq> [] \<and> length cs \<le> 200 \<and> (\<forall>c \<in> set cs. cc_client_id c \<noteq> [] \<and> cc_token c \<noteq> [])"

definition server_ok :: "(string \<Rightarrow> string) \<Rightarrow> server_config \<Rightarrow> bool" where
  "server_ok lower c \<longleftrightarrow>
     scf_has_listen c \<and> addr_is_valid (ap_addr (be_address (scf_listen c))) \<and>
     port_ok (uint (ap_port (be_address (scf_listen c)))) \<and>
     be_transport (scf_listen c) \<in> set supported_transports \<and>
     transport_ok (be_transport (scf_listen c)) (be_config (scf_listen c)) \<and>
     scf_wire c = WireV1 \<and>
     credentials_ok (scf_credentials c) \<and>
     bindings_ok lower c \<and>
     length (all_bindings c) \<le> 2000 \<and>
     0 \<le> scf_heartbeat c \<and> 0 \<le> scf_timeout c \<and> 0 \<le> scf_drain_timeout c \<and>
     scf_idle_limit c \<in> {1..16} \<and>
     0 \<le> scf_udp_idle c \<and> scf_udp_limit c \<in> {1..256} \<and> scf_udp_size c \<in> {1..65507}"

lemma validate_bindings_Nil:
  "validate_bindings f known bs = [] \<longleftrightarrow> (\<forall>b \<in> set bs. binding_ok known b)"
  unfolding validate_bindings_def
  by (rule concat_enumerate_Nil) (simp add: cfg_defs binding_ok_def)

lemma validate_http_bindings_Nil:
  "validate_http_bindings known bs = [] \<longleftrightarrow>
   (\<forall>b \<in> set bs. binding_ok known b \<and> hosts_ok (hb_hosts b) \<and> path_ok (hb_path b))"
  unfolding validate_http_bindings_def
  by (rule concat_enumerate_Nil)
    (simp only: append_is_Nil_conv split_conv cfg_defs binding_ok_def conj_ac)

lemma validate_route_count_Nil:
  assumes "\<And>xs. set (order xs) = set xs"
  shows "validate_route_count_per_port order bs = [] \<longleftrightarrow> (\<forall>b \<in> set bs. route_count bs (pb_port b) \<le> 256)"
proof -
  have "validate_route_count_per_port order bs = [] \<longleftrightarrow>
      (\<forall>p \<in> set (order (remdups (map pb_port bs))). route_count bs p \<le> 256)"
    by (simp only: validate_route_count_per_port_def MaxHTTPRouteCount_def not_less concat_if_Nil)
  then show ?thesis by (simp only: assms set_remdups set_map ball_simps)
qed

lemma validate_routes_Nil:
  "validate_route_conflicts lower bs = [] \<longleftrightarrow> distinct (concat (map (binding_routes lower) bs))"
proof -
  have "map snd (concat (map (\<lambda>(i, b). map (Pair (f i)) (binding_routes lower b)) (enumerate n bs))) =
      concat (map (binding_routes lower) bs)" for n and f :: "nat \<Rightarrow> string"
    by (induction bs arbitrary: n) (simp_all add: comp_def)
  then show ?thesis
    by (simp add: validate_route_conflicts_def check_routes_Nil)
qed

lemma duplicate_binding_names_Nil:
  "duplicate_binding_names c = [] \<longleftrightarrow> distinct (map (pb_name \<circ> snd) (all_bindings c))"
  by (simp add: duplicate_binding_names_def check_names_Nil all_bindings_def comp_def binding_view_def)

lemma binding_ok_view [simp]: "binding_ok known (binding_view b) = binding_ok known b"
  by (simp add: binding_ok_def binding_view_def)

lemma all_bindings_ball:
  "(\<forall>(t, b) \<in> set (all_bindings c). binding_ok known b) \<longleftrightarrow>
   (\<forall>b \<in> set (scf_tcp c). binding_ok known b) \<and> (\<forall>b \<in> set (scf_udp c). binding_ok known b) \<and>
   (\<forall>b \<in> set (scf_http c). binding_ok known b) \<and> (\<forall>b \<in> set (scf_https c). binding_ok known b)"
  by (simp add: all_bindings_def ball_Un)

lemma names_exclusive_distinct:
  assumes "distinct (map (pb_name \<circ> snd) (all_bindings c))"
  shows "distinct (map pb_name (exclusive_bindings c))"
    and "h \<in> set (scf_http c) \<Longrightarrow> b \<in> set (exclusive_bindings c) \<Longrightarrow> pb_name h \<noteq> pb_name b"
proof -
  have eq: "map (pb_name \<circ> snd) (all_bindings c) =
      map pb_name (scf_tcp c) @ map pb_name (scf_udp c) @ map pb_name (scf_http c) @ map pb_name (scf_https c)"
    by (simp add: all_bindings_def comp_def binding_view_def)
  note d = assms [unfolded eq distinct_append set_append set_map]
  show "distinct (map pb_name (exclusive_bindings c))"
    unfolding exclusive_bindings_def map_append distinct_append set_append set_map using d
    by (simp only: Int_Un_distrib Un_empty)
  assume h: "h \<in> set (scf_http c)" and b: "b \<in> set (exclusive_bindings c)"
  have "pb_name h \<in> pb_name ` set (scf_http c)" using h by (rule imageI)
  moreover have "pb_name b \<in> pb_name ` set (scf_tcp c) \<union> pb_name ` set (scf_udp c) \<union> pb_name ` set (scf_https c)"
    using b unfolding exclusive_bindings_def set_append by blast
  ultimately show "pb_name h \<noteq> pb_name b" using d by (metis IntI Un_iff empty_iff)
qed

lemma validate_port_conflicts_Nil:
  assumes names: "distinct (map (pb_name \<circ> snd) (all_bindings c))"
    and ports: "\<forall>b \<in> set (exclusive_bindings c). pb_port b \<noteq> 0"
  shows "validate_port_conflicts c = [] \<longleftrightarrow>
    distinct (map pb_port (exclusive_bindings c)) \<and>
    (\<forall>h \<in> set (scf_http c). \<forall>b \<in> set (exclusive_bindings c). pb_port h \<noteq> pb_port b)"
proof -
  let ?fs = "port_fields ''bindings'' (scf_tcp c) @ port_fields ''udpBindings'' (scf_udp c)
    @ port_fields ''httpsBindings'' (scf_https c)"
  have fs: "map (snd \<circ> snd) ?fs = map pb_name (exclusive_bindings c)"
    "map (fst \<circ> snd) ?fs = map pb_port (exclusive_bindings c)"
    by (simp_all only: map_append port_fields_snd exclusive_bindings_def)
  have "\<forall>f \<in> set ?fs. fst (snd f) \<noteq> 0"
  proof
    fix f assume "f \<in> set ?fs"
    then have "(fst \<circ> snd) f \<in> (fst \<circ> snd) ` set ?fs" by (rule imageI)
    also have "\<dots> = pb_port ` set (exclusive_bindings c)" unfolding set_map [symmetric] fs ..
    finally show "fst (snd f) \<noteq> 0" using ports by auto
  qed
  then have scan: "check_ports Map.empty ?fs = [] \<longleftrightarrow> distinct (map pb_port (exclusive_bindings c))"
    using check_ports_Nil [of ?fs Map.empty] names_exclusive_distinct(1) [OF names] unfolding fs by simp
  let ?ps = "map port_name (scf_https c) @ map port_name (scf_tcp c) @ map port_name (scf_udp c)"
  have "fst ` set ?ps = pb_port ` set (exclusive_bindings c)"
    by (simp add: exclusive_bindings_def port_name_def image_Un image_image Un_ac)
  then have exclusive_dom: "dom (exclusive_ports c) = {p \<in> pb_port ` set (exclusive_bindings c). p \<noteq> 0}"
    by (simp only: exclusive_ports_def exclusive_ports_dom dom_empty Un_empty_left)
  have owner: "(case exclusive_ports c (pb_port h) of
      Some owner \<Rightarrow> (if owner \<noteq> pb_name h then [e] else []) | None \<Rightarrow> []) = [] \<longleftrightarrow>
    (\<forall>b \<in> set (exclusive_bindings c). pb_port h \<noteq> pb_port b)"
    if h: "h \<in> set (scf_http c)" for h and e :: config_error
  proof (cases "exclusive_ports c (pb_port h)")
    case None
    then have "pb_port h \<notin> dom (exclusive_ports c)" by auto
    then have "pb_port h \<notin> {p \<in> pb_port ` set (exclusive_bindings c). p \<noteq> 0}"
      unfolding exclusive_dom .
    with None ports show ?thesis by auto
  next
    case (Some n)
    then have "n \<in> snd ` set ?ps"
      using exclusive_ports_ran [of Map.empty ?ps "pb_port h" n] by (simp add: exclusive_ports_def)
    then have "\<exists>b \<in> set (exclusive_bindings c). n = pb_name b"
      by (auto simp: exclusive_bindings_def port_name_def)
    then have "n \<noteq> pb_name h" using names_exclusive_distinct(2) [OF names h] by metis
    moreover have "pb_port h \<in> dom (exclusive_ports c)" using Some by auto
    then have "\<exists>b \<in> set (exclusive_bindings c). pb_port h = pb_port b"
      unfolding exclusive_dom by auto
    ultimately show ?thesis using Some by auto
  qed
  have gen: "concat (map (\<lambda>(i, b). f i b) (enumerate n bs)) = [] \<longleftrightarrow> (\<forall>b \<in> set bs. P b)"
    if "\<And>i b. b \<in> set bs \<Longrightarrow> f i b = [] \<longleftrightarrow> P b"
    for f :: "nat \<Rightarrow> http_binding \<Rightarrow> config_error list" and n bs P
    using that by (induction bs arbitrary: n) auto
  show ?thesis
    unfolding validate_port_conflicts_def append_is_Nil_conv scan
    by (subst gen [OF owner]) auto
qed

lemma validate_server_bindings_iff:
  assumes order: "\<And>xs. set (order xs) = set xs"
  shows "validate_server_bindings order lower c = [] \<longleftrightarrow> bindings_ok lower c"
proof -
  let ?known = "known_client_ids (scf_credentials c)"
  let ?all = "\<forall>(t, b) \<in> set (all_bindings c). binding_ok ?known b"
  let ?names = "distinct (map (pb_name \<circ> snd) (all_bindings c))"
  have ports: "?all \<Longrightarrow> \<forall>b \<in> set (exclusive_bindings c). pb_port b \<noteq> 0"
    unfolding all_bindings_ball by (auto simp: exclusive_bindings_def binding_ok_def port_ok_def)
  show ?thesis
  proof (cases "?all \<and> ?names")
    case True
    note pc = validate_port_conflicts_Nil [OF conjunct2 [OF True] ports [OF conjunct1 [OF True]]]
    from True show ?thesis
      unfolding validate_server_bindings_def bindings_ok_def Let_def append_is_Nil_conv pc
        validate_bindings_Nil validate_http_bindings_Nil validate_route_count_Nil [OF order]
        validate_routes_Nil duplicate_binding_names_Nil all_bindings_ball
      by auto
  next
    case False
    then show ?thesis
      unfolding validate_server_bindings_def bindings_ok_def Let_def append_is_Nil_conv
        validate_bindings_Nil validate_http_bindings_Nil duplicate_binding_names_Nil all_bindings_ball
      by auto
  qed
qed

lemma validate_credentials_iff:
  "validate_credentials cs = [] \<and> validate_limit f (int (length cs)) MaxClientCredentialCount = [] \<longleftrightarrow>
   credentials_ok cs"
proof -
  have "concat (map (\<lambda>(i, c).
        (if cc_client_id c = [] then [new_config_error CodeMissingAuth (item_field ''credentials'' i @ ''clientID'')] else [])
        @ (if cc_token c = [] then [new_config_error CodeMissingAuth (item_field ''credentials'' i @ ''token'')] else []))
        (enumerate 0 cs)) = [] \<longleftrightarrow> (\<forall>c \<in> set cs. cc_client_id c \<noteq> [] \<and> cc_token c \<noteq> [])"
    by (rule concat_enumerate_Nil) simp
  then show ?thesis
    by (auto simp: validate_credentials_def incomplete_problem_def credentials_ok_def cfg_defs limit_defs)
qed

lemma binding_count_length: "binding_count c = int (length (all_bindings c))"
  by (simp add: binding_count_def all_bindings_def)

lemma validate_server_config_iff:
  assumes order: "\<And>xs. set (order xs) = set xs"
  shows "validate_server_config order lower c = [] \<longleftrightarrow> server_ok lower c"
proof -
  have 1: "validate_listen c = [] \<longleftrightarrow> scf_has_listen c \<and> addr_is_valid (ap_addr (be_address (scf_listen c))) \<and>
      port_ok (uint (ap_port (be_address (scf_listen c)))) \<and> be_transport (scf_listen c) \<in> set supported_transports"
    by (simp add: validate_listen_def incomplete_problem_def cfg_defs)
  have 2: "validate_wire (scf_wire c) = [] \<longleftrightarrow> scf_wire c = WireV1"
    by (simp add: validate_wire_def cfg_defs supported_wire_versions_def)
  have 3: "validate_server_idle_limit i = [] \<longleftrightarrow> i \<in> {1..16}" for i
    by (simp add: validate_server_idle_limit_def cfg_defs limit_defs)
  have 4: "validate_udp_parameters i l s = [] \<longleftrightarrow> 0 \<le> i \<and> l \<in> {1..256} \<and> s \<in> {1..65507}" for i l s
    by (simp add: validate_udp_parameters_def cfg_defs limit_defs)
  have 5: "validate_limit ''bindings'' (binding_count c) MaxProxyCount = [] \<longleftrightarrow> length (all_bindings c) \<le> 2000"
    by (simp add: cfg_defs limit_defs binding_count_length)
  have 6: "validate_durations h t d = [] \<longleftrightarrow> 0 \<le> h \<and> 0 \<le> t \<and> 0 \<le> d" for h t d
    by (simp add: validate_durations_def cfg_defs)
  note 7 = validate_credentials_iff [of "scf_credentials c" "''credentials''"]
  show ?thesis
    unfolding validate_server_config_def append_is_Nil_conv 1 2 3 4 5 6 validate_transport_Nil
      validate_server_bindings_iff [OF order] server_ok_def 7 [symmetric]
    by (simp only: conj_assoc)
qed

end
