(* ===== verification/Event_Hub.thy ===== *)
theory Event_Hub
  imports Prelude
begin

section \<open>Event subscriptions (\<open>core/event.go\<close>)\<close>

text \<open>
  A subscription is a bounded channel that never makes the publisher wait: when it is full,
  what happens depends on the level of the event. The host receives from the channel without
  taking the subscription's lock, so it can take events in the middle of an operation of the
  publisher; \<open>steal\<close> is how many it takes between the length test and the draining loop of
  \<open>evictOldestLocked\<close>. A panic is the value \<open>None\<close>. The time stamps of the events are not
  modelled: nothing inspects them.
\<close>

subsection \<open>Events\<close>

datatype level = LevelDiagnostic | LevelNormal | LevelCritical

datatype event =
    ResyncRequired nat
  | EngineStopped "string option"
  | ClientConnected string string
  | ProxyStatusChanged string string string
  | ApplyResultEvent nat string "string option"
  | PeerMigrated string string string string
  | DiagnosticEvent string

text \<open>\<open>DiagnosticEvent\<close> stands for the event types of a host that report the diagnostic level.\<close>

fun event_level :: "event \<Rightarrow> level" where
  "event_level (ResyncRequired _) = LevelCritical"
| "event_level (EngineStopped _) = LevelCritical"
| "event_level (ClientConnected _ _) = LevelNormal"
| "event_level (ProxyStatusChanged _ _ _) = LevelNormal"
| "event_level (ApplyResultEvent _ _ _) = LevelNormal"
| "event_level (PeerMigrated _ _ _ _) = LevelNormal"
| "event_level (DiagnosticEvent _) = LevelDiagnostic"

fun event_type :: "event \<Rightarrow> string" where
  "event_type (ResyncRequired _) = ''resync-required''"
| "event_type (EngineStopped _) = ''engine-stopped''"
| "event_type (ClientConnected _ _) = ''client-connected''"
| "event_type (ProxyStatusChanged _ _ _) = ''proxy-status-changed''"
| "event_type (ApplyResultEvent _ _ _) = ''apply-result''"
| "event_type (PeerMigrated _ _ _ _) = ''peer-migrated''"
| "event_type (DiagnosticEvent t) = t"

fun is_resync :: "event \<Rightarrow> bool" where
  "is_resync (ResyncRequired _) = True"
| "is_resync _ = False"

abbreviation critical :: "event \<Rightarrow> bool" where
  "critical e \<equiv> event_level e = LevelCritical"

subsection \<open>Subscription\<close>

definition default_event_capacity :: int where "default_event_capacity = 64"
definition max_event_capacity :: int where "max_event_capacity = 1024"

text \<open>\<open>sub_taken\<close> is what the host has received so far.\<close>

record subscription =
  sub_capacity :: nat
  sub_events :: "event list"
  sub_closed :: bool
  sub_dropped :: nat
  sub_pending :: bool
  sub_discarded :: nat
  sub_taken :: "event list"

definition new_subscription :: "int \<Rightarrow> subscription" where
  "new_subscription capacity =
     (let c1 = (if capacity \<le> 0 then default_event_capacity else capacity);
          c2 = (if c1 > max_event_capacity then max_event_capacity else c1)
      in \<lparr>sub_capacity = nat c2, sub_events = [], sub_closed = False, sub_dropped = 0,
          sub_pending = False, sub_discarded = 0, sub_taken = []\<rparr>)"

definition host_take :: "nat \<Rightarrow> subscription \<Rightarrow> subscription" where
  "host_take k s =
     s\<lparr>sub_events := drop k (sub_events s), sub_taken := sub_taken s @ take k (sub_events s)\<rparr>"

definition sub_full :: "subscription \<Rightarrow> bool" where
  "sub_full s \<longleftrightarrow> sub_capacity s \<le> length (sub_events s)"

text \<open>The non-blocking send: a full channel drops the event.\<close>

definition try_send :: "event \<Rightarrow> subscription \<Rightarrow> subscription" where
  "try_send e s = (if sub_full s then s else s\<lparr>sub_events := sub_events s @ [e]\<rparr>)"

text \<open>Taking the oldest event below the critical level out, or the oldest of all; \<open>flattened[1:]\<close>
  of an empty slice panics.\<close>

definition drop_oldest :: "event list \<Rightarrow> event list option" where
  "drop_oldest es =
     (if \<exists>e \<in> set es. \<not> critical e
      then Some (takeWhile critical es @ tl (dropWhile critical es))
      else if es = [] then None else Some (tl es))"

definition evict_oldest :: "nat \<Rightarrow> subscription \<Rightarrow> subscription option" where
  "evict_oldest steal s =
     (let s1 = host_take steal s
      in case drop_oldest (sub_events s1) of
           None \<Rightarrow> None
         | Some es \<Rightarrow> Some (s1\<lparr>sub_events := es\<rparr>))"

definition publish_resync :: "nat \<Rightarrow> subscription \<Rightarrow> subscription option" where
  "publish_resync steal s =
     (if sub_dropped s = 0 \<or> sub_pending s then Some s
      else let s1 = s\<lparr>sub_pending := True\<rparr>; e = ResyncRequired (sub_dropped s)
        in if sub_full s1
           then (case evict_oldest steal s1 of None \<Rightarrow> None | Some s2 \<Rightarrow> Some (try_send e s2))
           else Some (try_send e s1))"

definition sub_enqueue :: "nat \<Rightarrow> event \<Rightarrow> subscription \<Rightarrow> subscription option" where
  "sub_enqueue steal e s =
     (if sub_closed s then Some s
      else if sub_full s
      then (case event_level e of
          LevelDiagnostic \<Rightarrow> Some s
        | LevelNormal \<Rightarrow>
            publish_resync steal (s\<lparr>sub_dropped := Suc (sub_dropped s), sub_discarded := Suc (sub_discarded s)\<rparr>)
        | LevelCritical \<Rightarrow>
            (case evict_oldest steal s of
               None \<Rightarrow> None
             | Some s1 \<Rightarrow> publish_resync steal (try_send e (s1\<lparr>sub_discarded := Suc (sub_discarded s1)\<rparr>))))
      else publish_resync steal (try_send e s))"

definition sub_close :: "subscription \<Rightarrow> subscription" where
  "sub_close s = s\<lparr>sub_closed := True\<rparr>"

subsection \<open>Hub\<close>

type_synonym event_hub = "subscription list"

definition hub_subscribe :: "int \<Rightarrow> event_hub \<Rightarrow> event_hub" where
  "hub_subscribe capacity h = h @ [new_subscription capacity]"

fun hub_publish :: "event \<Rightarrow> event_hub \<Rightarrow> event_hub option" where
  "hub_publish e [] = Some []"
| "hub_publish e (s # h) =
     (case sub_enqueue 0 e s of
        None \<Rightarrow> None
      | Some s' \<Rightarrow> (case hub_publish e h of None \<Rightarrow> None | Some h' \<Rightarrow> Some (s' # h')))"

definition hub_stop_all :: "string option \<Rightarrow> event_hub \<Rightarrow> event_hub option" where
  "hub_stop_all final h = map_option (map sub_close) (hub_publish (EngineStopped final) h)"

subsection \<open>Invariant: bounded, and a drop is announced at once\<close>

definition sub_ok :: "subscription \<Rightarrow> bool" where
  "sub_ok s \<longleftrightarrow> 0 < sub_capacity s \<and> sub_capacity s \<le> 1024 \<and>
     length (sub_events s) \<le> sub_capacity s \<and> (sub_dropped s = 0 \<or> sub_pending s)"

lemma sub_ok_new: "sub_ok (new_subscription c)"
  by (auto simp: sub_ok_def new_subscription_def default_event_capacity_def max_event_capacity_def Let_def)

lemma sub_ok_take: "sub_ok s \<Longrightarrow> sub_ok (host_take k s)"
  by (auto simp: sub_ok_def host_take_def)

lemma sub_ok_close: "sub_ok s \<Longrightarrow> sub_ok (sub_close s)"
  by (simp add: sub_ok_def sub_close_def)

lemma split_at_normal:
  assumes "\<exists>e \<in> set es. \<not> critical e"
  shows "\<exists>x. \<not> critical x \<and> es = takeWhile critical es @ x # tl (dropWhile critical es)"
proof -
  have "dropWhile critical es \<noteq> []" using assms by (auto simp: dropWhile_eq_Nil_conv)
  then have "dropWhile critical es = hd (dropWhile critical es) # tl (dropWhile critical es)" by simp
  moreover have "\<not> critical (hd (dropWhile critical es))"
    by (rule hd_dropWhile) fact
  ultimately show ?thesis by (metis takeWhile_dropWhile_id)
qed

text \<open>An eviction makes exactly one place, and takes a critical event only if all are critical.\<close>

lemma drop_oldest_spec:
  assumes "drop_oldest es = Some es'"
  shows "\<exists>x as bs. es = as @ x # bs \<and> es' = as @ bs \<and> (critical x \<longrightarrow> (\<forall>e \<in> set es. critical e))"
proof (cases "\<exists>e \<in> set es. \<not> critical e")
  case True
  then obtain x where "\<not> critical x" "es = takeWhile critical es @ x # tl (dropWhile critical es)"
    using split_at_normal by blast
  moreover have "es' = takeWhile critical es @ tl (dropWhile critical es)"
    using assms True by (simp add: drop_oldest_def)
  ultimately show ?thesis by blast
next
  case False
  then have "es \<noteq> []" "es' = tl es" using assms by (auto simp: drop_oldest_def split: if_splits)
  then have "es = [] @ hd es # tl es" "es' = [] @ tl es" by simp_all
  with False show ?thesis by blast
qed

lemma drop_oldest_length: "drop_oldest es = Some es' \<Longrightarrow> Suc (length es') = length es"
  using drop_oldest_spec by fastforce

lemma drop_oldest_None: "drop_oldest es = None \<longleftrightarrow> es = []"
  by (auto simp: drop_oldest_def)

lemma evict_oldest_Some:
  assumes "evict_oldest k s = Some s'"
  shows "\<exists>es. drop_oldest (drop k (sub_events s)) = Some es \<and>
    s' = s\<lparr>sub_events := es, sub_taken := sub_taken s @ take k (sub_events s)\<rparr>"
  using assms by (auto simp: evict_oldest_def host_take_def Let_def split: option.splits)

lemma evict_oldest_room:
  assumes "evict_oldest k s = Some s'" and "length (sub_events s) \<le> sub_capacity s"
  shows "length (sub_events s') < sub_capacity s" and "sub_capacity s' = sub_capacity s"
    and "sub_dropped s' = sub_dropped s" and "sub_pending s' = sub_pending s"
    and "sub_closed s' = sub_closed s"
proof -
  obtain es where es: "drop_oldest (drop k (sub_events s)) = Some es"
    "s' = s\<lparr>sub_events := es, sub_taken := sub_taken s @ take k (sub_events s)\<rparr>"
    using evict_oldest_Some [OF assms(1)] by blast
  show "length (sub_events s') < sub_capacity s" using drop_oldest_length [OF es(1)] es(2) assms(2) by simp
qed (use evict_oldest_Some [OF assms(1)] in auto)

lemma sub_ok_resync:
  assumes "publish_resync k s = Some s'"
    and "0 < sub_capacity s" "sub_capacity s \<le> 1024" "length (sub_events s) \<le> sub_capacity s"
  shows "sub_ok s'"
proof (cases "sub_dropped s = 0 \<or> sub_pending s")
  case True
  with assms show ?thesis by (auto simp: publish_resync_def sub_ok_def)
next
  case False
  let ?s1 = "s\<lparr>sub_pending := True\<rparr>"
  show ?thesis
  proof (cases "sub_full ?s1")
    case True
    then obtain s2 where s2: "evict_oldest k ?s1 = Some s2" "s' = try_send (ResyncRequired (sub_dropped s)) s2"
      using False assms(1) by (auto simp: publish_resync_def Let_def split: option.splits)
    from evict_oldest_room [OF s2(1)] assms s2(2) show ?thesis
      by (auto simp: sub_ok_def try_send_def)
  next
    case full: False
    with False assms show ?thesis by (auto simp: publish_resync_def Let_def sub_ok_def try_send_def sub_full_def)
  qed
qed

lemma sub_ok_enqueue:
  assumes "sub_enqueue k e s = Some s'" and "sub_ok s"
  shows "sub_ok s'"
proof -
  have pre: "0 < sub_capacity s" "sub_capacity s \<le> 1024" "length (sub_events s) \<le> sub_capacity s"
    using assms(2) by (auto simp: sub_ok_def)
  have send: "0 < sub_capacity (try_send e s1) \<and> sub_capacity (try_send e s1) \<le> 1024 \<and>
      length (sub_events (try_send e s1)) \<le> sub_capacity (try_send e s1)"
    if "sub_capacity s1 = sub_capacity s" "length (sub_events s1) \<le> sub_capacity s" for s1
    using that pre by (auto simp: try_send_def sub_full_def)
  show ?thesis
  proof (cases "sub_closed s \<or> \<not> sub_full s")
    case True
    then show ?thesis
      using assms sub_ok_resync [of k "try_send e s" s'] send [of s] pre
      by (auto simp: sub_enqueue_def split: if_splits)
  next
    case False
    show ?thesis
    proof (cases "event_level e")
      case LevelDiagnostic
      with False assms show ?thesis by (simp add: sub_enqueue_def)
    next
      case LevelNormal
      with False assms pre show ?thesis
        by (auto simp: sub_enqueue_def dest: sub_ok_resync)
    next
      case LevelCritical
      then obtain s1 where s1: "evict_oldest k s = Some s1"
        "publish_resync k (try_send e (s1\<lparr>sub_discarded := Suc (sub_discarded s1)\<rparr>)) = Some s'"
        using False assms(1) by (auto simp: sub_enqueue_def split: option.splits)
      have "sub_capacity (s1\<lparr>sub_discarded := Suc (sub_discarded s1)\<rparr>) = sub_capacity s"
        "length (sub_events (s1\<lparr>sub_discarded := Suc (sub_discarded s1)\<rparr>)) \<le> sub_capacity s"
        using evict_oldest_room [OF s1(1) pre(3)] by simp_all
      from send [OF this] sub_ok_resync [OF s1(2)] show ?thesis by blast
    qed
  qed
qed

text \<open>Without the host taking events in between, a publish never panics.\<close>

lemma evict_full: "sub_ok s \<Longrightarrow> sub_full s \<Longrightarrow> evict_oldest 0 s \<noteq> None"
  by (auto simp: evict_oldest_def host_take_def sub_ok_def sub_full_def drop_oldest_None Let_def
      split: option.splits)

lemma publish_resync_total:
  assumes "0 < sub_capacity s"
  shows "publish_resync 0 s \<noteq> None"
  using assms
  by (auto simp: publish_resync_def evict_oldest_def host_take_def sub_full_def drop_oldest_None Let_def
      split: option.splits)

lemma sub_enqueue_total:
  assumes "sub_ok s"
  shows "sub_enqueue 0 e s \<noteq> None"
proof -
  have cap: "0 < sub_capacity s" using assms by (simp add: sub_ok_def)
  show ?thesis
  proof (cases "sub_full s \<and> critical e")
    case True
    then obtain s1 where s1: "evict_oldest 0 s = Some s1" using evict_full [OF assms] by blast
    have "length (sub_events s) \<le> sub_capacity s" using assms by (simp add: sub_ok_def)
    from evict_oldest_room(2) [OF s1 this] cap
    have "0 < sub_capacity (try_send e (s1\<lparr>sub_discarded := Suc (sub_discarded s1)\<rparr>))"
      by (simp add: try_send_def)
    from publish_resync_total [OF this] True s1 show ?thesis by (simp add: sub_enqueue_def)
  next
    case False
    then show ?thesis
      using cap publish_resync_total [of "try_send e s"]
        publish_resync_total [of "s\<lparr>sub_dropped := Suc (sub_dropped s), sub_discarded := Suc (sub_discarded s)\<rparr>"]
      by (auto simp: sub_enqueue_def try_send_def split: level.splits)
  qed
qed

subsection \<open>Runs of a subscription\<close>

datatype sub_action = Publish event | Take nat | Close

fun sub_step :: "sub_action \<Rightarrow> subscription \<Rightarrow> subscription option" where
  "sub_step (Publish e) s = sub_enqueue 0 e s"
| "sub_step (Take k) s = Some (host_take k s)"
| "sub_step Close s = Some (sub_close s)"

fun sub_run :: "sub_action list \<Rightarrow> subscription \<Rightarrow> subscription option" where
  "sub_run [] s = Some s"
| "sub_run (a # as) s = (case sub_step a s of None \<Rightarrow> None | Some s' \<Rightarrow> sub_run as s')"

lemma sub_step_ok: "sub_ok s \<Longrightarrow> \<exists>s'. sub_step a s = Some s' \<and> sub_ok s'"
proof (cases a)
  case (Publish e)
  assume "sub_ok s"
  with sub_enqueue_total [OF this, of e] Publish show ?thesis by (auto intro: sub_ok_enqueue)
qed (auto intro: sub_ok_take sub_ok_close)

lemma sub_run_ok: "sub_ok s \<Longrightarrow> \<exists>s'. sub_run as s = Some s' \<and> sub_ok s'"
proof (induction as arbitrary: s)
  case Nil
  then show ?case by simp
next
  case (Cons a as)
  obtain s1 where "sub_step a s = Some s1" "sub_ok s1" using sub_step_ok [OF Cons.prems] by blast
  then show ?case using Cons.IH [of s1] by simp
qed

subsection \<open>The resynchronisation notice\<close>

definition resyncs :: "subscription \<Rightarrow> nat" where
  "resyncs s = length (filter is_resync (sub_taken s @ sub_events s))"

text \<open>Once a notice is pending nothing ever clears it: later drops are never announced.\<close>

lemma publish_resync_pending: "sub_pending s \<Longrightarrow> publish_resync k s = Some s"
  by (simp add: publish_resync_def)

lemma drop_oldest_filter:
  assumes "drop_oldest es = Some es'"
  shows "length (filter P es') \<le> length (filter P es)"
proof -
  obtain x as bs where "es = as @ x # bs" "es' = as @ bs" using drop_oldest_spec [OF assms] by blast
  then show ?thesis by simp
qed

lemma evict_oldest_resyncs:
  assumes "evict_oldest k s = Some s'"
  shows "resyncs s' \<le> resyncs s"
proof -
  obtain es where es: "drop_oldest (drop k (sub_events s)) = Some es"
    "s' = s\<lparr>sub_events := es, sub_taken := sub_taken s @ take k (sub_events s)\<rparr>"
    using evict_oldest_Some [OF assms] by blast
  have "length (filter is_resync (sub_events s)) =
      length (filter is_resync (take k (sub_events s))) + length (filter is_resync (drop k (sub_events s)))"
    by (metis append_take_drop_id filter_append length_append)
  with drop_oldest_filter [OF es(1), of is_resync] es(2) show ?thesis by (simp add: resyncs_def)
qed

lemma try_send_resyncs: "resyncs (try_send e s) \<le> resyncs s + (if is_resync e then 1 else 0)"
  by (auto simp: resyncs_def try_send_def)

lemma try_send_pending [simp]: "sub_pending (try_send e s) = sub_pending s"
  by (simp add: try_send_def)

definition resync_ok :: "subscription \<Rightarrow> bool" where
  "resync_ok s \<longleftrightarrow> resyncs s \<le> (if sub_pending s then 1 else 0)"

lemma resync_ok_resync:
  assumes "publish_resync k s = Some s'" and "resync_ok s"
  shows "resync_ok s' \<and> (sub_pending s \<longrightarrow> s' = s)"
proof (cases "sub_dropped s = 0 \<or> sub_pending s")
  case True
  with assms show ?thesis by (auto simp: publish_resync_def)
next
  case False
  let ?s1 = "s\<lparr>sub_pending := True\<rparr>" and ?e = "ResyncRequired (sub_dropped s)"
  have zero: "resyncs ?s1 = 0" using False assms(2) by (simp add: resync_ok_def resyncs_def)
  obtain s2 where s2: "s' = try_send ?e s2" "resyncs s2 \<le> resyncs ?s1" "sub_pending s2"
  proof (cases "sub_full ?s1")
    case True
    then obtain s2 where "evict_oldest k ?s1 = Some s2" "s' = try_send ?e s2"
      using False assms(1) by (auto simp: publish_resync_def Let_def split: option.splits)
    with evict_oldest_resyncs evict_oldest_Some that show thesis by fastforce
  next
    case full: False
    then have "s' = try_send ?e ?s1" using False assms(1) by (simp add: publish_resync_def Let_def)
    with that show thesis by simp
  qed
  have "resyncs s' \<le> 1" using try_send_resyncs [of ?e s2] s2 zero by simp
  with s2 False show ?thesis by (simp add: resync_ok_def)
qed

lemma resync_ok_enqueue:
  assumes "sub_enqueue k e s = Some s'" and "resync_ok s" and "\<not> is_resync e"
  shows "resync_ok s'"
proof -
  have send: "resync_ok (try_send e s1)" if "resync_ok s1" for s1
    using that try_send_resyncs [of e s1] assms(3) by (simp add: resync_ok_def)
  have evict: "resync_ok (s1\<lparr>sub_discarded := n\<rparr>)" if "evict_oldest k s = Some s1" for s1 n
  proof -
    have "resyncs s1 \<le> resyncs s" "sub_pending s1 = sub_pending s"
      using evict_oldest_resyncs [OF that] evict_oldest_Some [OF that] by auto
    with assms(2) show ?thesis by (simp add: resync_ok_def resyncs_def)
  qed
  have count: "resync_ok (s\<lparr>sub_dropped := m, sub_discarded := n\<rparr>)" for m n
    using assms(2) by (simp add: resync_ok_def resyncs_def)
  show ?thesis
    using assms send evict count resync_ok_resync
    by (auto simp: sub_enqueue_def split: if_splits level.splits option.splits)
qed

lemma resync_ok_step:
  assumes "sub_step a s = Some s'" and "resync_ok s" and "\<forall>e. a = Publish e \<longrightarrow> \<not> is_resync e"
  shows "resync_ok s'"
proof (cases a)
  case (Publish e)
  with assms resync_ok_enqueue show ?thesis by auto
next
  case (Take k)
  have "resyncs (host_take k s) = resyncs s"
    by (simp only: resyncs_def host_take_def) (simp flip: filter_append length_append)
  moreover have "sub_pending (host_take k s) = sub_pending s" by (simp add: host_take_def)
  moreover have "s' = host_take k s" using assms(1) Take by simp
  ultimately show ?thesis using assms(2) by (simp add: resync_ok_def)
next
  case Close
  with assms show ?thesis by (auto simp: sub_close_def resync_ok_def resyncs_def)
qed

lemma resync_ok_run:
  assumes "sub_run as s = Some s'" and "resync_ok s" and "\<forall>e. Publish e \<in> set as \<longrightarrow> \<not> is_resync e"
  shows "resync_ok s'"
  using assms
proof (induction as arbitrary: s)
  case Nil
  then show ?case by simp
next
  case (Cons a as)
  then obtain s1 where s1: "sub_step a s = Some s1" "sub_run as s1 = Some s'" by (auto split: option.splits)
  have "resync_ok s1" by (rule resync_ok_step [OF s1(1) Cons.prems(2)]) (use Cons.prems(3) in auto)
  with Cons.IH [OF s1(2)] Cons.prems(3) show ?case by auto
qed

lemma resync_ok_new: "resync_ok (new_subscription c)"
  by (simp add: resync_ok_def resyncs_def new_subscription_def Let_def)

subsection \<open>Critical events\<close>

text \<open>Publishing a critical event on an open subscription puts it last in the channel.\<close>

lemma critical_delivered:
  assumes "sub_enqueue 0 e s = Some s'" and "sub_ok s" and "\<not> sub_closed s" and "critical e"
  shows "\<exists>es. sub_events s' = es @ [e] \<and> set es \<subseteq> set (sub_events s)"
proof (cases "sub_full s")
  case False
  then have "sub_events (try_send e s) = sub_events s @ [e]" by (simp add: try_send_def)
  moreover have "publish_resync 0 (try_send e s) = Some (try_send e s)"
    using assms(2) by (auto simp: publish_resync_def sub_ok_def try_send_def)
  ultimately show ?thesis using assms False by (auto simp: sub_enqueue_def)
next
  case True
  then obtain s1 where s1: "evict_oldest 0 s = Some s1" using evict_full [OF assms(2)] by blast
  let ?s2 = "s1\<lparr>sub_discarded := Suc (sub_discarded s1)\<rparr>"
  have len: "length (sub_events s) \<le> sub_capacity s" using assms(2) by (simp add: sub_ok_def)
  note room = evict_oldest_room [OF s1 len]
  have sub: "set (sub_events s1) \<subseteq> set (sub_events s)"
  proof -
    obtain es where "drop_oldest (sub_events s) = Some es" "sub_events s1 = es"
      using evict_oldest_Some [OF s1] by auto
    with drop_oldest_spec show ?thesis by fastforce
  qed
  have ev: "sub_events (try_send e ?s2) = sub_events s1 @ [e]"
    using room by (simp add: try_send_def sub_full_def)
  have "publish_resync 0 (try_send e ?s2) = Some (try_send e ?s2)"
    using assms(2) room by (auto simp: publish_resync_def sub_ok_def try_send_def)
  then have "s' = try_send e ?s2" using assms True s1 by (simp add: sub_enqueue_def)
  with ev sub show ?thesis by auto
qed

end
