(* ===== verification/Core_Properties.thy ===== *)
theory Core_Properties
  imports Config_Laws Event_Hub
begin

section \<open>Properties of the configuration and of the event subscriptions\<close>

text \<open>Sample values for the instances: a client and a server configuration with one TCP and two
  HTTP proxies that share an entry port, and a full subscription.\<close>

definition sample_target :: addr_port where
  "sample_target = \<lparr>ap_addr = IP_V4 0x7f000001, ap_port = 8080\<rparr>"

definition sample_server_options :: "server_option list" where
  "sample_server_options =
     [WithListen \<lparr>be_address = \<lparr>ap_addr = IP_V4 0, ap_port = 7000\<rparr>, be_transport = TransportTCP,
        be_config = zero_transport_config\<rparr>,
      WithWire WireV1,
      WithClientCredentials [\<lparr>cc_client_id = ''c'', cc_token = ''secret'', cc_compat_token = []\<rparr>],
      WithTCPProxyBindings [\<lparr>pb_name = ''ssh'', pb_client = ''c'', pb_port = 2222, pb_targets = [sample_target]\<rparr>],
      WithHTTPProxyBindings
        [\<lparr>pb_name = ''web'', pb_client = ''c'', pb_port = 80, pb_targets = [sample_target],
           hb_hosts = [''a.test''], hb_path = [], hb_capture_body = False\<rparr>,
         \<lparr>pb_name = ''api'', pb_client = ''c'', pb_port = 80, pb_targets = [sample_target],
           hb_hosts = [''a.test''], hb_path = ''/api'', hb_capture_body = False\<rparr>]]"

definition sample_server :: server_config where
  "sample_server = run_server_options sample_server_options"

lemma sample_server_built:
  "new_server_config (\<lambda>xs. xs) (\<lambda>s. s) sample_server_options = Inr sample_server"
proof -
  have "validate_server_config (\<lambda>xs. xs) (\<lambda>s. s) (run_server_options sample_server_options) = []"
    by code_simp
  then show ?thesis by (simp add: new_server_config_def sample_server_def Let_def)
qed

subsection \<open>Configurations\<close>

text \<open>Building a client configuration succeeds exactly when the drafted configuration, with
  the defaults filled in, is well-formed, and otherwise returns the complete list of problems.\<close>

theorem client_config_accepted_iff:
  "(new_client_config opts = Inr c \<longleftrightarrow> c = run_client_options opts \<and> client_ok c) \<and>
   (new_client_config opts = Inl ps \<longleftrightarrow>
      ps = validate_client_config (run_client_options opts) \<and> \<not> client_ok (run_client_options opts))"
  by (auto simp: new_client_config_def Let_def simp flip: validate_client_config_iff)

text \<open>C6: building a server configuration succeeds exactly when the drafted configuration is
  well-formed, whatever the order in which the map of HTTP ports is traversed.\<close>

theorem server_config_accepted_iff:
  assumes "\<And>xs. set (order xs) = set xs"
  shows "new_server_config order lower opts = Inr c \<longleftrightarrow> c = run_server_options opts \<and> server_ok lower c"
  using validate_server_config_iff [of order lower, OF assms]
  by (auto simp: new_server_config_def Let_def)

theorem server_config_accepted_iff_witness: "server_ok (\<lambda>s. s) sample_server"
  using server_config_accepted_iff [of "\<lambda>xs. xs" "\<lambda>s. s" sample_server_options sample_server]
    sample_server_built by simp

text \<open>C34: in a configuration that was built, no two bindings have the same name, an entry port is
  shared by HTTP bindings only, two routes on a port never have the same host and path, and every
  binding belongs to a client with a credential.\<close>

theorem built_server_bindings_disjoint:
  assumes "\<And>xs. set (order xs) = set xs" and "new_server_config order lower opts = Inr c"
  shows "distinct (map (pb_name \<circ> snd) (all_bindings c)) \<and>
    distinct (map (pb_port \<circ> snd) (filter (\<lambda>(t, b). t \<noteq> ProxyTypeHTTP) (all_bindings c))) \<and>
    (\<forall>(t, b) \<in> set (all_bindings c). \<forall>(t', b') \<in> set (all_bindings c).
       t = ProxyTypeHTTP \<longrightarrow> t' \<noteq> ProxyTypeHTTP \<longrightarrow> pb_port b \<noteq> pb_port b') \<and>
    distinct (concat (map (binding_routes lower) (scf_http c))) \<and>
    (\<forall>(t, b) \<in> set (all_bindings c). \<exists>cred \<in> set (scf_credentials c).
       cc_client_id cred = pb_client b \<and> cc_token cred \<noteq> [])"
proof -
  have "validate_server_config order lower c = []"
    using assms(2) by (auto simp: new_server_config_def Let_def split: if_splits)
  then have ok: "server_ok lower c" using validate_server_config_iff [OF assms(1)] by blast
  then have b: "bindings_ok lower c" and cr: "credentials_ok (scf_credentials c)"
    by (simp_all add: server_ok_def)
  have excl: "map snd (filter (\<lambda>(t, b). t \<noteq> ProxyTypeHTTP) (all_bindings c)) = exclusive_bindings c"
    by (simp add: all_bindings_def exclusive_bindings_def filter_map comp_def)
  have "distinct (map pb_port (exclusive_bindings c))" using b by (simp add: bindings_ok_def)
  then have "distinct (map (pb_port \<circ> snd) (filter (\<lambda>(t, b). t \<noteq> ProxyTypeHTTP) (all_bindings c)))"
    unfolding excl [symmetric] by simp
  moreover have "pb_port b \<noteq> pb_port b'"
    if "(ProxyTypeHTTP, b) \<in> set (all_bindings c)" "(t', b') \<in> set (all_bindings c)" "t' \<noteq> ProxyTypeHTTP" for b t' b'
  proof -
    have "b \<in> binding_view ` set (scf_http c)" using that(1) by (auto simp: all_bindings_def)
    then obtain h where "h \<in> set (scf_http c)" "pb_port b = pb_port h"
      by (auto simp: binding_view_def)
    moreover have "b' \<in> set (exclusive_bindings c)"
      using that(2,3) by (auto simp: all_bindings_def exclusive_bindings_def)
    ultimately show ?thesis using b by (simp add: bindings_ok_def)
  qed
  moreover have "\<exists>cred \<in> set (scf_credentials c). cc_client_id cred = pb_client b \<and> cc_token cred \<noteq> []"
    if "(t, b) \<in> set (all_bindings c)" for t b
  proof -
    have "pb_client b \<in> set (known_client_ids (scf_credentials c))"
      using that \<open>bindings_ok lower c\<close> by (auto simp: bindings_ok_def binding_ok_def)
    with cr show ?thesis by (auto simp: known_client_ids_def credentials_ok_def)
  qed
  ultimately show ?thesis using b by (auto simp: bindings_ok_def)
qed

theorem built_server_bindings_disjoint_witness:
  "distinct (concat (map (binding_routes (\<lambda>s. s)) (scf_http sample_server)))"
  using built_server_bindings_disjoint [of "\<lambda>xs. xs" "\<lambda>s. s" sample_server_options sample_server]
    sample_server_built by simp

subsection \<open>Subscriptions\<close>

text \<open>Whatever is published, received and closed in whatever order, a subscription never holds
  more events than its capacity, which is between 1 and 1024, and publishing does not panic.\<close>

theorem subscription_bounded:
  "\<exists>s. sub_run as (new_subscription capacity) = Some s \<and>
     length (sub_events s) \<le> sub_capacity s \<and> 0 < sub_capacity s \<and> sub_capacity s \<le> 1024"
  using sub_run_ok [OF sub_ok_new [of capacity], of as] by (auto simp: sub_ok_def)

text \<open>A critical event published on an open subscription is the last event of its channel
  afterwards, however full the channel was; only events already in it can have been dropped.\<close>

theorem critical_event_kept:
  assumes "sub_run as (new_subscription capacity) = Some s" and "\<not> sub_closed s" and "critical e"
  shows "\<exists>s' es. sub_enqueue 0 e s = Some s' \<and> sub_events s' = es @ [e] \<and> set es \<subseteq> set (sub_events s)"
proof -
  have ok: "sub_ok s" using sub_run_ok [OF sub_ok_new [of capacity], of as] assms(1) by auto
  obtain s' where s': "sub_enqueue 0 e s = Some s'" using sub_enqueue_total [OF ok] by blast
  with critical_delivered [OF s' ok assms(2,3)] show ?thesis by blast
qed

definition sample_run :: "sub_action list" where
  "sample_run = [Publish (ClientConnected ''c'' ''p''), Publish (ClientConnected ''d'' ''p'')]"

definition sample_full :: subscription where
  "sample_full = \<lparr>sub_capacity = 1, sub_events = [ResyncRequired 1], sub_closed = False,
     sub_dropped = 1, sub_pending = True, sub_discarded = 1, sub_taken = []\<rparr>"

lemma sample_run_full: "sub_run sample_run (new_subscription 1) = Some sample_full"
  by code_simp

theorem critical_event_kept_witness:
  "\<exists>s' es. sub_enqueue 0 (EngineStopped None) sample_full = Some s' \<and> sub_events s' = es @ [EngineStopped None]"
proof -
  have "\<not> sub_closed sample_full" "critical (EngineStopped None)" by (simp_all add: sample_full_def)
  from critical_event_kept [OF sample_run_full this] show ?thesis by blast
qed

text \<open>A subscription announces a loss of events at most once in its whole life: nothing
  clears the pending mark, so the losses after the first announcement are silent.\<close>

theorem resync_announced_once:
  assumes "sub_run as (new_subscription capacity) = Some s"
    and "\<forall>e. Publish e \<in> set as \<longrightarrow> \<not> is_resync e"
  shows "length (filter is_resync (sub_taken s @ sub_events s)) \<le> 1"
  using resync_ok_run [OF assms(1) resync_ok_new assms(2)]
  by (auto simp: resync_ok_def resyncs_def split: if_splits)

theorem resync_announced_once_witness: "length (filter is_resync (sub_events sample_full)) \<le> 1"
  using resync_announced_once [OF sample_run_full]
  by (simp add: sample_run_def sample_full_def)

text \<open>If the host drains a full channel between the publisher's length test and its draining
  loop, publishing a critical event takes the first element of an empty slice and panics.\<close>

theorem drained_channel_panics:
  assumes "\<not> sub_closed s" and "sub_full s" and "critical e" and "length (sub_events s) \<le> steal"
  shows "sub_enqueue steal e s = None"
  using assms by (simp add: sub_enqueue_def evict_oldest_def host_take_def drop_oldest_def Let_def)

theorem drained_channel_panics_witness: "sub_enqueue 1 (EngineStopped None) sample_full = None"
  using drained_channel_panics [of sample_full "EngineStopped None" 1]
  by (simp add: sample_full_def sub_full_def)

lemma hub_publish_map:
  "list_all sub_ok h \<Longrightarrow>
   \<exists>h'. hub_publish e h = Some h' \<and> list_all2 (\<lambda>s s'. sub_enqueue 0 e s = Some s') h h'"
proof (induction h)
  case Nil
  then show ?case by simp
next
  case (Cons s h)
  then obtain s' where "sub_enqueue 0 e s = Some s'" using sub_enqueue_total [of s e] by auto
  with Cons show ?case by auto
qed

lemma hub_publish_closed:
  "list_all sub_closed h \<Longrightarrow> hub_publish e h = Some h"
  by (induction h) (simp_all add: sub_enqueue_def)

text \<open>Stopping the hub leaves every open subscription closed with the final event as the last
  of its channel, and nothing published afterwards changes a subscription.\<close>

theorem stop_delivers_final_event:
  assumes "list_all sub_ok h" and "list_all (\<lambda>s. \<not> sub_closed s) h"
  shows "\<exists>h'. hub_stop_all final h = Some h' \<and> length h' = length h \<and>
    list_all (\<lambda>s. sub_closed s \<and> sub_events s \<noteq> [] \<and> last (sub_events s) = EngineStopped final) h' \<and>
    (\<forall>e. hub_publish e h' = Some h')"
proof -
  let ?e = "EngineStopped final"
  obtain h1 where h1: "hub_publish ?e h = Some h1" "list_all2 (\<lambda>s s'. sub_enqueue 0 ?e s = Some s') h h1"
    using hub_publish_map [OF assms(1)] by blast
  from h1(2) assms have "list_all (\<lambda>s. sub_events s \<noteq> [] \<and> last (sub_events s) = ?e) h1"
  proof (induction rule: list_all2_induct)
    case Nil
    then show ?case by simp
  next
    case (Cons s h s' h')
    then show ?case using critical_delivered [of ?e s s'] by auto
  qed
  then have "list_all (\<lambda>s. sub_closed s \<and> sub_events s \<noteq> [] \<and> last (sub_events s) = ?e) (map sub_close h1)"
    by (simp add: list_all_iff sub_close_def)
  moreover have "hub_publish e (map sub_close h1) = Some (map sub_close h1)" for e
    by (rule hub_publish_closed) (simp add: list_all_iff sub_close_def)
  ultimately show ?thesis
    using h1 by (auto simp: hub_stop_all_def list_all2_lengthD)
qed

theorem stop_delivers_final_event_witness:
  "\<exists>h'. hub_stop_all None [sample_full] = Some h' \<and> last (sub_events (hd h')) = EngineStopped None"
proof -
  have "list_all sub_ok [sample_full]" "list_all (\<lambda>s. \<not> sub_closed s) [sample_full]"
    by (simp_all add: sample_full_def sub_ok_def)
  from stop_delivers_final_event [OF this, of None] show ?thesis
    by (auto simp: length_Suc_conv)
qed

end
