(* ===== verification/Go_Map.thy ===== *)
theory Go_Map
  imports Prelude "HOL-Library.AList" "HOL-Library.Multiset"
begin

section \<open>Maps of the program\<close>

text \<open>
  A \<open>map[K]V\<close> is an association list with distinct keys, so that it can be traversed; the
  traversal order of the program is arbitrary, and no definition lets it be seen where the
  program does not. A missing key reads as the zero value.
\<close>

type_synonym ('k, 'v) gomap = "('k \<times> 'v) list"

definition gm_get :: "'v \<Rightarrow> 'k \<Rightarrow> ('k, 'v) gomap \<Rightarrow> 'v" where
  "gm_get zero k m = (case map_of m k of None \<Rightarrow> zero | Some v \<Rightarrow> v)"

abbreviation gm_set :: "'k \<Rightarrow> 'v \<Rightarrow> ('k, 'v) gomap \<Rightarrow> ('k, 'v) gomap" where
  "gm_set \<equiv> AList.update"

abbreviation gm_delete :: "'k \<Rightarrow> ('k, 'v) gomap \<Rightarrow> ('k, 'v) gomap" where
  "gm_delete \<equiv> AList.delete"

definition gm_ok :: "('k, 'v) gomap \<Rightarrow> bool" where
  "gm_ok m \<longleftrightarrow> distinct (map fst m)"

text \<open>A queue per key: an empty queue is stored as no entry.\<close>

definition gm_store :: "'k \<Rightarrow> 'v list \<Rightarrow> ('k, 'v list) gomap \<Rightarrow> ('k, 'v list) gomap" where
  "gm_store k q m = (if q = [] then gm_delete k m else gm_set k q m)"

definition gm_values :: "('k, 'v list) gomap \<Rightarrow> 'v list" where
  "gm_values m = concat (map snd m)"

lemma gm_ok_Nil [simp]: "gm_ok []"
  by (simp add: gm_ok_def)

lemma gm_ok_set [simp]: "gm_ok m \<Longrightarrow> gm_ok (gm_set k v m)"
  by (simp add: gm_ok_def distinct_update)

lemma gm_ok_delete [simp]: "gm_ok m \<Longrightarrow> gm_ok (gm_delete k m)"
  by (simp add: gm_ok_def distinct_delete)

lemma gm_ok_store [simp]: "gm_ok m \<Longrightarrow> gm_ok (gm_store k q m)"
  by (simp add: gm_store_def)

lemma gm_get_Nil [simp]: "gm_get z k [] = z"
  by (simp add: gm_get_def)

lemma gm_get_set [simp]: "gm_get z j (gm_set k v m) = (if j = k then v else gm_get z j m)"
  by (simp add: gm_get_def update_conv')

lemma gm_get_delete [simp]: "gm_get z j (gm_delete k m) = (if j = k then z else gm_get z j m)"
  by (simp add: gm_get_def delete_conv')

lemma gm_get_store [simp]: "gm_get [] j (gm_store k q m) = (if j = k then q else gm_get [] j m)"
  by (simp add: gm_store_def)

lemma gm_values_Nil [simp]: "gm_values [] = []"
  by (simp add: gm_values_def)

lemma gm_absent: "k \<notin> fst ` set m \<Longrightarrow> gm_delete k m = m \<and> gm_get z k m = z"
  by (induction m) (auto simp: gm_get_def AList.delete_eq)

lemma gm_values_delete:
  "gm_ok m \<Longrightarrow> mset (gm_values m) = mset (gm_get [] k m) + mset (gm_values (gm_delete k m))"
proof (induction m)
  case Nil
  then show ?case by simp
next
  case (Cons kv m)
  obtain j v where kv: "kv = (j, v)" by (cases kv)
  have ok: "gm_ok m" "j \<notin> fst ` set m" using Cons.prems kv by (auto simp: gm_ok_def)
  show ?case
  proof (cases "j = k")
    case True
    with ok kv gm_absent [of k m] show ?thesis
      by (simp add: gm_values_def gm_get_def AList.delete_eq)
  next
    case False
    with Cons.IH [OF ok(1)] kv show ?thesis
      by (auto simp: gm_values_def gm_get_def AList.delete_eq)
  qed
qed

lemma gm_values_set_absent:
  "k \<notin> fst ` set m \<Longrightarrow> mset (gm_values (gm_set k q m)) = mset q + mset (gm_values m)"
  by (induction m) (auto simp: gm_values_def)

lemma gm_values_set:
  assumes "gm_ok m"
  shows "mset (gm_values (gm_set k q m)) = mset q + mset (gm_values (gm_delete k m))"
  using assms
proof (induction m)
  case Nil
  then show ?case by (simp add: gm_values_def)
next
  case (Cons kv m)
  obtain j v where kv: "kv = (j, v)" by (cases kv)
  have ok: "gm_ok m" "j \<notin> fst ` set m" using Cons.prems kv by (auto simp: gm_ok_def)
  show ?case
    using Cons.IH [OF ok(1)] kv ok(2) gm_absent [of j m]
    by (auto simp: gm_values_def AList.delete_eq)
qed

lemma gm_values_store:
  assumes "gm_ok m"
  shows "mset (gm_values (gm_store k q m)) + mset (gm_get [] k m) = mset q + mset (gm_values m)"
  using gm_values_set [OF assms, of k q] gm_values_delete [OF assms, of k]
  by (auto simp: gm_store_def)

text \<open>No entry is an empty queue.\<close>

definition gm_tight :: "('k, 'v list) gomap \<Rightarrow> bool" where
  "gm_tight m \<longleftrightarrow> gm_ok m \<and> (\<forall>kv \<in> set m. snd kv \<noteq> [])"

lemma gm_tight_Nil [simp]: "gm_tight []"
  by (simp add: gm_tight_def)

lemma set_gm_delete: "set (gm_delete k m) \<subseteq> set m"
  by (induction m) (auto simp: AList.delete_eq)

lemma set_gm_set: "set (gm_set k v m) \<subseteq> insert (k, v) (set m)"
  by (induction m) auto

lemma gm_tight_store [simp]: "gm_tight m \<Longrightarrow> gm_tight (gm_store k q m)"
  using set_gm_delete [of k m] set_gm_set [of k q m]
  by (auto simp: gm_tight_def gm_store_def)

lemma gm_tight_ok [simp]: "gm_tight m \<Longrightarrow> gm_ok m"
  by (simp add: gm_tight_def)

end
