(* ===== verification/Work_Pool.thy ===== *)
theory Work_Pool
  imports Go_Map
begin

section \<open>Work connection pool and staging (\<open>core/internal/transport/pool.go\<close>, \<open>staged.go\<close>)\<close>

text \<open>
  A connection is its identity. The mutex of each object makes its operations atomic; the effect
  of an operation on connections is in its result: the connections it closes.
\<close>

type_synonym conn = nat

subsection \<open>Capacity accounting\<close>

record work_pool =
  wp_limit :: int
  wp_in_use :: "(string, int) gomap"
  wp_full_events :: "64 word"
  wp_closed :: bool

record pool_slot =
  sl_proxy :: string
  sl_released :: bool

datatype acquire_error = ContextDone | PoolClosed | ErrPoolFull

definition new_work_pool :: "int \<Rightarrow> work_pool" where
  "new_work_pool limit = \<lparr>wp_limit = limit, wp_in_use = [], wp_full_events = 0, wp_closed = False\<rparr>"

definition pool_in_use :: "string \<Rightarrow> work_pool \<Rightarrow> int" where
  "pool_in_use proxy p = gm_get 0 proxy (wp_in_use p)"

text \<open>The flag is whether the caller's context has ended.\<close>

definition pool_acquire :: "bool \<Rightarrow> string \<Rightarrow> work_pool \<Rightarrow> work_pool \<times> (acquire_error + pool_slot)" where
  "pool_acquire ended proxy p =
     (if ended then (p, Inl ContextDone)
      else if wp_closed p then (p, Inl PoolClosed)
      else if wp_limit p \<le> pool_in_use proxy p
      then (p\<lparr>wp_full_events := wp_full_events p + 1\<rparr>, Inl ErrPoolFull)
      else (p\<lparr>wp_in_use := gm_set proxy (pool_in_use proxy p + 1) (wp_in_use p)\<rparr>,
            Inr \<lparr>sl_proxy = proxy, sl_released = False\<rparr>))"

definition pool_release :: "string \<Rightarrow> work_pool \<Rightarrow> work_pool" where
  "pool_release proxy p =
     (if pool_in_use proxy p \<le> 0 then p
      else let n = pool_in_use proxy p - 1
        in p\<lparr>wp_in_use := (if n = 0 then gm_delete proxy (wp_in_use p) else gm_set proxy n (wp_in_use p))\<rparr>)"

text \<open>The \<open>sync.Once\<close> of a slot.\<close>

definition slot_release :: "pool_slot \<Rightarrow> work_pool \<Rightarrow> pool_slot \<times> work_pool" where
  "slot_release s p =
     (if sl_released s then (s, p) else (s\<lparr>sl_released := True\<rparr>, pool_release (sl_proxy s) p))"

definition pool_close :: "work_pool \<Rightarrow> work_pool" where
  "pool_close p = p\<lparr>wp_closed := True\<rparr>"

subsection \<open>The pool and the slots it handed out\<close>

datatype pool_op = AcquireSlot bool string | ReleaseSlot nat | ClosePool

fun pool_op_step :: "pool_op \<Rightarrow> work_pool \<times> pool_slot list \<Rightarrow> work_pool \<times> pool_slot list" where
  "pool_op_step (AcquireSlot ended proxy) (p, ss) =
     (case pool_acquire ended proxy p of
        (p', Inl _) \<Rightarrow> (p', ss)
      | (p', Inr s) \<Rightarrow> (p', ss @ [s]))"
| "pool_op_step (ReleaseSlot i) (p, ss) =
     (if i < length ss then (case slot_release (ss ! i) p of (s, p') \<Rightarrow> (p', ss[i := s])) else (p, ss))"
| "pool_op_step ClosePool (p, ss) = (pool_close p, ss)"

definition held_slots :: "string \<Rightarrow> pool_slot list \<Rightarrow> nat" where
  "held_slots proxy ss = length (filter (\<lambda>s. sl_proxy s = proxy \<and> \<not> sl_released s) ss)"

definition pool_exact :: "work_pool \<times> pool_slot list \<Rightarrow> bool" where
  "pool_exact = (\<lambda>(p, ss). gm_ok (wp_in_use p) \<and>
     (\<forall>proxy. pool_in_use proxy p = int (held_slots proxy ss)) \<and>
     (\<forall>proxy. held_slots proxy ss = 0 \<or> pool_in_use proxy p \<le> wp_limit p))"

lemma held_slots_snoc:
  "held_slots q (ss @ [s]) = held_slots q ss + (if sl_proxy s = q \<and> \<not> sl_released s then 1 else 0)"
  by (simp add: held_slots_def)

lemma held_slots_update:
  assumes "i < length ss" and "\<not> sl_released (ss ! i)"
  shows "held_slots q ss = held_slots q (ss[i := (ss ! i)\<lparr>sl_released := True\<rparr>])
    + (if sl_proxy (ss ! i) = q then 1 else 0)"
  using assms
proof (induction ss arbitrary: i)
  case Nil
  then show ?case by simp
next
  case (Cons s ss)
  then show ?case by (cases i) (auto simp: held_slots_def)
qed

lemma pool_exact_acquire:
  assumes "pool_exact (p, ss)"
  shows "pool_exact (pool_op_step (AcquireSlot ended proxy) (p, ss))"
  using assms
  by (auto simp: pool_exact_def pool_acquire_def pool_in_use_def held_slots_snoc)

lemma pool_exact_release:
  assumes "pool_exact (p, ss)"
  shows "pool_exact (pool_op_step (ReleaseSlot i) (p, ss))"
proof (cases "i < length ss \<and> \<not> sl_released (ss ! i)")
  case False
  with assms show ?thesis by (auto simp: slot_release_def list_update_id)
next
  case True
  let ?q = "sl_proxy (ss ! i)" and ?ss = "ss[i := (ss ! i)\<lparr>sl_released := True\<rparr>]"
  have held: "held_slots q ss = held_slots q ?ss + (if ?q = q then 1 else 0)" for q
    using held_slots_update [of i ss q] True by simp
  have eq: "pool_op_step (ReleaseSlot i) (p, ss) = (pool_release ?q p, ?ss)"
    using True by (simp add: slot_release_def)
  have "0 < pool_in_use ?q p" using assms held [of ?q] by (simp add: pool_exact_def)
  then have use: "pool_in_use q (pool_release ?q p) = pool_in_use q p - (if ?q = q then 1 else 0)" for q
    by (auto simp: pool_release_def pool_in_use_def Let_def)
  have lim: "wp_limit (pool_release ?q p) = wp_limit p" "gm_ok (wp_in_use (pool_release ?q p))"
    using assms by (auto simp: pool_release_def Let_def pool_exact_def)
  show ?thesis
    unfolding eq pool_exact_def prod.case use lim(1)
  proof (intro conjI allI)
    show "gm_ok (wp_in_use (pool_release ?q p))" by (rule lim(2))
  next
    fix q
    have "pool_in_use q p = int (held_slots q ss)" using assms by (simp add: pool_exact_def)
    with held [of q] show "pool_in_use q p - (if ?q = q then 1 else 0) = int (held_slots q ?ss)" by auto
  next
    fix q
    have "held_slots q ss = 0 \<or> pool_in_use q p \<le> wp_limit p"
      using assms unfolding pool_exact_def prod.case by blast
    with held [of q] show "held_slots q ?ss = 0 \<or> pool_in_use q p - (if ?q = q then 1 else 0) \<le> wp_limit p"
      by auto
  qed
qed

lemma pool_exact_step:
  assumes "pool_exact s"
  shows "pool_exact (pool_op_step op s)"
proof -
  obtain p ss where s: "s = (p, ss)" by (cases s)
  show ?thesis
  proof (cases op)
    case (AcquireSlot ended proxy)
    with assms s pool_exact_acquire show ?thesis by simp
  next
    case (ReleaseSlot i)
    with assms s pool_exact_release show ?thesis by blast
  next
    case ClosePool
    with assms s show ?thesis by (auto simp: pool_exact_def pool_close_def pool_in_use_def)
  qed
qed

lemma pool_exact_fold: "pool_exact s \<Longrightarrow> pool_exact (fold pool_op_step ops s)"
  by (induction ops arbitrary: s) (simp_all only: fold.simps id_apply comp_apply pool_exact_step)

lemma pool_exact_run: "pool_exact (fold pool_op_step ops (new_work_pool limit, []))"
  by (rule pool_exact_fold) (simp add: pool_exact_def new_work_pool_def pool_in_use_def held_slots_def)

lemma pool_step_limit [simp]: "wp_limit (fst (pool_op_step op s)) = wp_limit (fst s)"
  by (cases s; cases op)
    (auto simp: pool_acquire_def slot_release_def pool_release_def pool_close_def Let_def)

lemma pool_run_limit [simp]: "wp_limit (fst (fold pool_op_step ops s)) = wp_limit (fst s)"
  by (induction ops arbitrary: s) simp_all

end
