(* ===== verification/Work_Staging.thy ===== *)
theory Work_Staging
  imports Work_Pool
begin

section \<open>Staged work connections (\<open>core/internal/transport/staged.go\<close>)\<close>

text \<open>
  Per proxy a queue of idle work connections. A push beyond the limit closes the oldest ones; a
  negative limit would index an empty queue, which is a panic (\<open>None\<close>).
\<close>

subsection \<open>Interface: a bounded queue per key\<close>

text \<open>
  What the broker relies on: a push appends and closes from the front just enough to stay within
  the limit, a pop takes the front, and other keys are not touched.
\<close>

locale fifo_store =
  fixes ok :: "'s \<Rightarrow> bool" and limit :: "'s \<Rightarrow> nat" and queue :: "'s \<Rightarrow> 'k \<Rightarrow> 'c list"
    and push :: "'k \<Rightarrow> 'c \<Rightarrow> 's \<Rightarrow> ('s \<times> 'c list) option"
    and pop :: "'k \<Rightarrow> 's \<Rightarrow> 's \<times> 'c option"
  assumes push_ok: "ok s \<Longrightarrow> \<exists>s' cl. push k c s = Some (s', cl) \<and> ok s' \<and> limit s' = limit s \<and>
      queue s' = (queue s)(k := drop (Suc (length (queue s k)) - limit s) (queue s k @ [c])) \<and>
      cl = take (Suc (length (queue s k)) - limit s) (queue s k @ [c])"
    and pop_ok: "ok s \<Longrightarrow> \<exists>s' r. pop k s = (s', r) \<and> ok s' \<and> limit s' = limit s \<and>
      queue s' = (queue s)(k := tl (queue s k)) \<and>
      r = (if queue s k = [] then None else Some (hd (queue s k)))"
begin

lemma push_some: "ok s \<Longrightarrow> push k c s \<noteq> None"
  using push_ok by fastforce

lemma push_queue:
  assumes "ok s" and "push k c s = Some (s', cl)"
  shows "ok s'" and "limit s' = limit s" and "cl @ queue s' k = queue s k @ [c]"
    and "j \<noteq> k \<Longrightarrow> queue s' j = queue s j" and "length (queue s' k) \<le> limit s"
  using push_ok [OF assms(1), of k c] assms(2) by (auto simp del: take_append drop_append)

lemma pop_queue:
  assumes "ok s" and "pop k s = (s', r)"
  shows "ok s'" and "limit s' = limit s" and "j \<noteq> k \<Longrightarrow> queue s' j = queue s j"
    and "queue s k = (case r of None \<Rightarrow> [] | Some c \<Rightarrow> [c]) @ queue s' k"
    and "r = None \<longleftrightarrow> queue s k = []" and "length (queue s' k) \<le> length (queue s k)"
  using pop_ok [OF assms(1), of k] assms(2) by (auto split: option.splits)

text \<open>Any history of one key: what has left, in the order it left, and what is still queued are
  what was there and what was pushed, in the order it was pushed.\<close>

fun history :: "'k \<Rightarrow> 'c option list \<Rightarrow> 's \<Rightarrow> ('s \<times> 'c list) option" where
  "history k [] s = Some (s, [])"
| "history k (None # ops) s =
     (case pop k s of (s', r) \<Rightarrow>
        (case history k ops s' of None \<Rightarrow> None
         | Some (s'', out) \<Rightarrow> Some (s'', (case r of None \<Rightarrow> [] | Some c \<Rightarrow> [c]) @ out)))"
| "history k (Some c # ops) s =
     (case push k c s of None \<Rightarrow> None
      | Some (s', cl) \<Rightarrow> (case history k ops s' of None \<Rightarrow> None
         | Some (s'', out) \<Rightarrow> Some (s'', cl @ out)))"

lemma history_fifo:
  assumes "ok s"
  shows "\<exists>s' out. history k ops s = Some (s', out) \<and> ok s' \<and>
    out @ queue s' k = queue s k @ concat (map (\<lambda>x. case x of None \<Rightarrow> [] | Some c \<Rightarrow> [c]) ops)"
  using assms
proof (induction ops arbitrary: s)
  case Nil
  then show ?case by simp
next
  case (Cons op ops)
  show ?case
  proof (cases op)
    case None
    obtain s1 r where p: "pop k s = (s1, r)" by (cases "pop k s")
    note q = pop_queue [OF Cons.prems p]
    from Cons.IH [OF q(1)] q(4) p None show ?thesis by (auto split: option.splits)
  next
    case (Some c)
    then obtain s1 cl where p: "push k c s = Some (s1, cl)" using push_some [OF Cons.prems] by fastforce
    note q = push_queue [OF Cons.prems p]
    from Cons.IH [OF q(1)] obtain s' out where
      "history k ops s1 = Some (s', out)" "ok s'"
      "out @ queue s' k = queue s1 k @ concat (map (\<lambda>x. case x of None \<Rightarrow> [] | Some c \<Rightarrow> [c]) ops)"
      by blast
    moreover from this(3) q(3) have "(cl @ out) @ queue s' k =
        queue s k @ c # concat (map (\<lambda>x. case x of None \<Rightarrow> [] | Some c \<Rightarrow> [c]) ops)"
      by (metis append.assoc append_Cons append_Nil)
    ultimately show ?thesis using p Some by auto
  qed
qed

end

subsection \<open>The staging of the transport layer\<close>

record staged_works =
  sw_limit :: int
  sw_staged :: "(string, conn list) gomap"
  sw_closed :: bool

definition new_staged_works :: "int \<Rightarrow> staged_works" where
  "new_staged_works limit = \<lparr>sw_limit = limit, sw_staged = [], sw_closed = False\<rparr>"

text \<open>The loop that closes the head of the queue while it is longer than the limit: the closed
  connections and the rest.\<close>

fun reclaim :: "int \<Rightarrow> conn list \<Rightarrow> (conn list \<times> conn list) option" where
  "reclaim limit [] = (if limit < 0 then None else Some ([], []))"
| "reclaim limit (c # q) =
     (if limit < int (length (c # q))
      then map_option (\<lambda>(cl, rest). (c # cl, rest)) (reclaim limit q)
      else Some ([], c # q))"

definition staged_push :: "string \<Rightarrow> conn \<Rightarrow> staged_works \<Rightarrow> (staged_works \<times> conn list) option" where
  "staged_push proxy c s =
     (if sw_closed s then Some (s, [])
      else (case reclaim (sw_limit s) (gm_get [] proxy (sw_staged s) @ [c]) of
          None \<Rightarrow> None
        | Some (cl, q) \<Rightarrow> Some (s\<lparr>sw_staged := gm_store proxy q (sw_staged s)\<rparr>, cl)))"

definition staged_take :: "string \<Rightarrow> staged_works \<Rightarrow> staged_works \<times> conn option" where
  "staged_take proxy s =
     (case gm_get [] proxy (sw_staged s) of
        [] \<Rightarrow> (s, None)
      | c # q \<Rightarrow> (s\<lparr>sw_staged := gm_store proxy q (sw_staged s)\<rparr>, Some c))"

definition staged_len :: "string \<Rightarrow> staged_works \<Rightarrow> nat" where
  "staged_len proxy s = length (gm_get [] proxy (sw_staged s))"

text \<open>The closed connections are the second component.\<close>

definition staged_close :: "staged_works \<Rightarrow> staged_works \<times> conn list" where
  "staged_close s =
     (if sw_closed s then (s, [])
      else (s\<lparr>sw_closed := True, sw_staged := []\<rparr>, gm_values (sw_staged s)))"

lemma reclaim_spec:
  "0 \<le> limit \<Longrightarrow>
   reclaim limit q = Some (take (length q - nat limit) q, drop (length q - nat limit) q)"
proof (induction q)
  case Nil
  then show ?case by simp
next
  case (Cons c q)
  show ?case
  proof (cases "limit < int (length (c # q))")
    case True
    then have "length (c # q) - nat limit = Suc (length q - nat limit)" using Cons.prems by simp
    with True Cons show ?thesis by simp
  next
    case False
    then have "length (c # q) - nat limit = 0" using Cons.prems by simp
    with False show ?thesis by simp
  qed
qed

text \<open>Closing the set empties it and nothing is staged in a closed set.\<close>

definition staged_ok :: "staged_works \<Rightarrow> bool" where
  "staged_ok s \<longleftrightarrow> \<not> sw_closed s \<and> 0 \<le> sw_limit s \<and> gm_tight (sw_staged s)"

abbreviation staged_queue :: "staged_works \<Rightarrow> string \<Rightarrow> conn list" where
  "staged_queue s proxy \<equiv> gm_get [] proxy (sw_staged s)"

interpretation stg: fifo_store staged_ok "\<lambda>s. nat (sw_limit s)" staged_queue staged_push staged_take
proof unfold_locales
  fix s k c
  assume ok: "staged_ok s"
  let ?q = "staged_queue s k @ [c]"
  have "reclaim (sw_limit s) ?q =
      Some (take (length ?q - nat (sw_limit s)) ?q, drop (length ?q - nat (sw_limit s)) ?q)"
    by (rule reclaim_spec) (use ok in \<open>simp add: staged_ok_def\<close>)
  with ok show "\<exists>s' cl. staged_push k c s = Some (s', cl) \<and> staged_ok s' \<and> nat (sw_limit s') = nat (sw_limit s) \<and>
      staged_queue s' = (staged_queue s)(k := drop (Suc (length (staged_queue s k)) - nat (sw_limit s)) ?q) \<and>
      cl = take (Suc (length (staged_queue s k)) - nat (sw_limit s)) ?q"
    by (auto simp: staged_push_def staged_ok_def fun_eq_iff)
next
  fix s k
  assume "staged_ok s"
  then show "\<exists>s' r. staged_take k s = (s', r) \<and> staged_ok s' \<and> nat (sw_limit s') = nat (sw_limit s) \<and>
      staged_queue s' = (staged_queue s)(k := tl (staged_queue s k)) \<and>
      r = (if staged_queue s k = [] then None else Some (hd (staged_queue s k)))"
    by (auto simp: staged_take_def staged_ok_def fun_eq_iff split: list.splits)
qed

subsection \<open>Conservation of connections\<close>

lemma staged_push_mset:
  assumes "staged_ok s" and "staged_push k c s = Some (s', cl)"
  shows "mset (gm_values (sw_staged s')) + mset cl = add_mset c (mset (gm_values (sw_staged s)))"
proof -
  let ?new = "mset (gm_values (sw_staged s'))" and ?old = "mset (gm_values (sw_staged s))"
  let ?q = "mset (staged_queue s k)" and ?q' = "mset (staged_queue s' k)"
  have 1: "?new + ?q = ?q' + ?old"
    using assms gm_values_store [of "sw_staged s" k]
    by (auto simp: staged_push_def staged_ok_def split: option.splits)
  have 2: "mset cl + ?q' = add_mset c ?q"
    using arg_cong [OF stg.push_queue(3) [OF assms], of mset] by simp
  have "?new + mset cl + ?q = (?new + ?q) + mset cl" by (simp add: ac_simps)
  also have "\<dots> = (mset cl + ?q') + ?old" unfolding 1 by (simp add: ac_simps)
  also have "\<dots> = add_mset c ?old + ?q" unfolding 2 by simp
  finally show ?thesis by simp
qed

lemma staged_take_mset:
  assumes "staged_ok s" and "staged_take k s = (s', r)"
  shows "mset (gm_values (sw_staged s)) =
    mset (gm_values (sw_staged s')) + (case r of None \<Rightarrow> {#} | Some c \<Rightarrow> {#c#})"
proof (cases "staged_queue s k")
  case Nil
  with assms(2) show ?thesis by (auto simp: staged_take_def)
next
  case (Cons c q)
  have "gm_ok (sw_staged s)" using assms(1) by (simp add: staged_ok_def)
  from gm_values_store [OF this, of k q] Cons assms(2) show ?thesis by (auto simp: staged_take_def)
qed

lemma staged_ok_new: "0 \<le> limit \<Longrightarrow> staged_ok (new_staged_works limit)"
  by (simp add: staged_ok_def new_staged_works_def)

lemma staged_take_closed: "sw_closed (fst (staged_take k s)) = sw_closed s"
  by (simp add: staged_take_def split: list.splits)

end
