(* ===== verification/Work_Broker.thy ===== *)
theory Work_Broker
  imports Work_Staging
begin

section \<open>Pairing guests with work connections (\<open>core/server/work.go\<close>)\<close>

text \<open>
  Guests and work connections arrive in any order; whichever comes first waits for the other.
  Work connections wait in the staging of the transport layer, guests in a bounded queue of the
  broker. Every operation runs under the broker's lock.
\<close>

definition max_pending_guest :: nat where "max_pending_guest = 64"
definition max_pair_retries :: nat where "max_pair_retries = 32"

datatype park_outcome = ParkPaired | ParkStaged | ParkRejected | ParkCapacityFull

record staged_guest =
  sg_conn :: conn
  sg_pending :: bytes

record pairing =
  pr_guest :: conn
  pr_work :: conn
  pr_pending :: bytes

record work_broker =
  wb_guests :: "(string, staged_guest list) gomap"
  wb_works :: staged_works
  wb_closed :: bool
  wb_rejected :: "64 word"

definition new_work_broker :: "int \<Rightarrow> work_broker" where
  "new_work_broker idle_limit =
     \<lparr>wb_guests = [], wb_works = new_staged_works idle_limit, wb_closed = False, wb_rejected = 0\<rparr>"

abbreviation guest_queue :: "work_broker \<Rightarrow> string \<Rightarrow> staged_guest list" where
  "guest_queue b name \<equiv> gm_get [] name (wb_guests b)"

abbreviation work_queue :: "work_broker \<Rightarrow> string \<Rightarrow> conn list" where
  "work_queue b name \<equiv> staged_queue (wb_works b) name"

text \<open>A pairing that is not made is the zero value in the program; here it is \<open>None\<close>.\<close>

definition park_guest ::
  "string \<Rightarrow> conn \<Rightarrow> bytes \<Rightarrow> work_broker \<Rightarrow> work_broker \<times> park_outcome \<times> pairing option" where
  "park_guest name guest pending b =
     (if wb_closed b then (b, ParkRejected, None)
      else case staged_take name (wb_works b) of
        (ws, Some work) \<Rightarrow>
          (b\<lparr>wb_works := ws\<rparr>, ParkPaired, Some \<lparr>pr_guest = guest, pr_work = work, pr_pending = pending\<rparr>)
      | (ws, None) \<Rightarrow>
          if max_pending_guest \<le> length (guest_queue b name)
          then (b\<lparr>wb_works := ws, wb_rejected := wb_rejected b + 1\<rparr>, ParkCapacityFull, None)
          else (b\<lparr>wb_works := ws,
                  wb_guests := gm_set name
                    (guest_queue b name @ [\<lparr>sg_conn = guest, sg_pending = pending\<rparr>]) (wb_guests b)\<rparr>,
                ParkStaged, None))"

text \<open>The guests of a proxy are closed and returned.\<close>

definition drop_guests :: "string \<Rightarrow> work_broker \<Rightarrow> work_broker \<times> conn list" where
  "drop_guests name b =
     (if guest_queue b name = [] then (b, [])
      else (b\<lparr>wb_guests := gm_delete name (wb_guests b)\<rparr>, map sg_conn (guest_queue b name)))"

text \<open>Accepting a work connection: the connections the staging closes, whether it was accepted,
  and the pairing. \<open>None\<close> is the panic of the staging.\<close>

definition park :: "string \<Rightarrow> conn \<Rightarrow> work_broker \<Rightarrow> (work_broker \<times> conn list \<times> bool \<times> pairing option) option" where
  "park name work b =
     (if wb_closed b then Some (b, [], False, None)
      else case guest_queue b name of
        g # gs \<Rightarrow>
          Some (b\<lparr>wb_guests := gm_store name gs (wb_guests b)\<rparr>, [], True,
                Some \<lparr>pr_guest = sg_conn g, pr_work = work, pr_pending = sg_pending g\<rparr>)
      | [] \<Rightarrow>
          (case staged_push name work (wb_works b) of
             None \<Rightarrow> None
           | Some (ws, closed) \<Rightarrow> Some (b\<lparr>wb_works := ws\<rparr>, closed, True, None)))"

definition take_staged :: "string \<Rightarrow> work_broker \<Rightarrow> work_broker \<times> conn option" where
  "take_staged name b =
     (case staged_take name (wb_works b) of (ws, r) \<Rightarrow> (b\<lparr>wb_works := ws\<rparr>, r))"

definition staged_work_conns :: "string \<Rightarrow> work_broker \<Rightarrow> nat" where
  "staged_work_conns name b = staged_len name (wb_works b)"

text \<open>Only the idle work connections are closed; the guests stay.\<close>

definition close_staged_works :: "work_broker \<Rightarrow> work_broker \<times> conn list" where
  "close_staged_works b = (case staged_close (wb_works b) of (ws, closed) \<Rightarrow> (b\<lparr>wb_works := ws\<rparr>, closed))"

definition close_staged :: "work_broker \<Rightarrow> work_broker \<times> conn list" where
  "close_staged b =
     (if wb_closed b then (b, [])
      else case staged_close (wb_works b) of
        (ws, closed) \<Rightarrow>
          (b\<lparr>wb_closed := True, wb_guests := [], wb_works := ws\<rparr>,
           map sg_conn (gm_values (wb_guests b)) @ closed))"

definition has_staged_guest :: "string \<Rightarrow> work_broker \<Rightarrow> bool" where
  "has_staged_guest name b \<longleftrightarrow> guest_queue b name \<noteq> []"

record staging_summary =
  ss_src_addr :: string
  ss_src_port :: "16 word"
  ss_dst_addr :: string
  ss_dst_port :: "16 word"

text \<open>The addresses of a connection are what \<open>netip.ParseAddrPort\<close> makes of them, if it can.\<close>

definition staging_summary_for ::
  "(conn \<Rightarrow> (string \<times> 16 word) option) \<Rightarrow> (conn \<Rightarrow> (string \<times> 16 word) option) \<Rightarrow>
   string \<Rightarrow> work_broker \<Rightarrow> staging_summary \<times> bool" where
  "staging_summary_for remote local name b =
     (case guest_queue b name of
        [] \<Rightarrow> (\<lparr>ss_src_addr = [], ss_src_port = 0, ss_dst_addr = [], ss_dst_port = 0\<rparr>, False)
      | g # _ \<Rightarrow>
          (let r = (case remote (sg_conn g) of None \<Rightarrow> ([], 0) | Some ap \<Rightarrow> ap);
               l = (case local (sg_conn g) of None \<Rightarrow> ([], 0) | Some ap \<Rightarrow> ap)
           in (\<lparr>ss_src_addr = fst r, ss_src_port = snd r, ss_dst_addr = fst l, ss_dst_port = snd l\<rparr>, True)))"

subsection \<open>Invariant\<close>

text \<open>An open broker never holds both guests and work connections of the same proxy, and holds a
  bounded number of each.\<close>

definition broker_ok :: "work_broker \<Rightarrow> bool" where
  "broker_ok b \<longleftrightarrow>
     (wb_closed b \<longrightarrow> wb_guests b = [] \<and> gm_values (sw_staged (wb_works b)) = []) \<and>
     (\<not> wb_closed b \<longrightarrow> staged_ok (wb_works b)) \<and>
     gm_tight (wb_guests b) \<and>
     (\<forall>name. guest_queue b name = [] \<or> work_queue b name = []) \<and>
     (\<forall>name. length (guest_queue b name) \<le> max_pending_guest)"

lemma broker_ok_new: "0 \<le> limit \<Longrightarrow> broker_ok (new_work_broker limit)"
  by (simp add: broker_ok_def new_work_broker_def staged_ok_new)

lemma broker_ok_openI:
  assumes "\<not> wb_closed b" and "staged_ok (wb_works b)" and "gm_tight (wb_guests b)"
    and "\<And>n. guest_queue b n = [] \<or> work_queue b n = []" and "\<And>n. length (guest_queue b n) \<le> 64"
  shows "broker_ok b"
  using assms by (simp add: broker_ok_def max_pending_guest_def)

lemma broker_ok_openD:
  assumes "broker_ok b" and "\<not> wb_closed b"
  shows "staged_ok (wb_works b)" and "gm_tight (wb_guests b)"
    and "guest_queue b n = [] \<or> work_queue b n = []" and "length (guest_queue b n) \<le> 64"
  using assms by (simp_all add: broker_ok_def max_pending_guest_def)

lemma gm_tight_set [simp]: "gm_tight m \<Longrightarrow> q \<noteq> [] \<Longrightarrow> gm_tight (gm_set k q m)"
  using gm_tight_store [of m k q] by (simp add: gm_store_def)

lemma gm_tight_delete [simp]: "gm_tight m \<Longrightarrow> gm_tight (gm_delete k m)"
  using gm_tight_store [of m k "[]"] by (simp add: gm_store_def)

subsection \<open>Specification: one queue of either kind per proxy\<close>

datatype waiting = Guests "staged_guest list" | Works "conn list"

text \<open>The abstraction of an open broker; a proxy for which nothing waits is \<open>Works []\<close>.\<close>

definition abs_broker :: "work_broker \<Rightarrow> string \<Rightarrow> waiting" where
  "abs_broker b name = (if guest_queue b name = [] then Works (work_queue b name) else Guests (guest_queue b name))"

fun spec_guest :: "staged_guest \<Rightarrow> waiting \<Rightarrow> waiting \<times> park_outcome \<times> (staged_guest \<times> conn) option" where
  "spec_guest g (Works (w # ws)) = (Works ws, ParkPaired, Some (g, w))"
| "spec_guest g (Works []) = (Guests [g], ParkStaged, None)"
| "spec_guest g (Guests gs) =
     (if length gs < 64 then (Guests (gs @ [g]), ParkStaged, None) else (Guests gs, ParkCapacityFull, None))"

fun spec_work :: "nat \<Rightarrow> conn \<Rightarrow> waiting \<Rightarrow> waiting \<times> conn list \<times> (staged_guest \<times> conn) option" where
  "spec_work limit w (Guests (g # gs)) = ((if gs = [] then Works [] else Guests gs), [], Some (g, w))"
| "spec_work limit w (Guests []) = (Works [], [], None)"
| "spec_work limit w (Works ws) =
     (let n = Suc (length ws) - limit in (Works (drop n (ws @ [w])), take n (ws @ [w]), None))"

definition pair_of :: "pairing \<Rightarrow> staged_guest \<times> conn" where
  "pair_of p = (\<lparr>sg_conn = pr_guest p, sg_pending = pr_pending p\<rparr>, pr_work p)"

definition idle_limit :: "work_broker \<Rightarrow> nat" where
  "idle_limit b = nat (sw_limit (wb_works b))"

lemma take_queue:
  assumes "broker_ok b" and "\<not> wb_closed b" and "staged_take name (wb_works b) = (ws, r)"
  shows "staged_ok ws" and "nat (sw_limit ws) = idle_limit b"
    and "staged_queue ws n = (if n = name then tl (work_queue b name) else work_queue b n)"
    and "r = (if work_queue b name = [] then None else Some (hd (work_queue b name)))"
proof -
  obtain ws' r' where x: "staged_take name (wb_works b) = (ws', r')" "staged_ok ws'"
    "nat (sw_limit ws') = nat (sw_limit (wb_works b))"
    "staged_queue ws' = (work_queue b)(name := tl (work_queue b name))"
    "r' = (if work_queue b name = [] then None else Some (hd (work_queue b name)))"
    using stg.pop_ok [OF broker_ok_openD(1) [OF assms(1,2)], of name] by blast
  have e: "ws' = ws" "r' = r" using x(1) assms(3) by auto
  show "staged_ok ws" "nat (sw_limit ws) = idle_limit b"
    "r = (if work_queue b name = [] then None else Some (hd (work_queue b name)))"
    using x(2,3,5) e by (auto simp: idle_limit_def)
  show "staged_queue ws n = (if n = name then tl (work_queue b name) else work_queue b n)"
    using fun_cong [OF x(4), of n] e by simp
qed

lemma park_guest_refines:
  assumes ok: "broker_ok b" and op: "\<not> wb_closed b" and r: "park_guest name guest pending b = (b', out, pr)"
  shows "broker_ok b' \<and> \<not> wb_closed b' \<and> idle_limit b' = idle_limit b \<and>
    spec_guest \<lparr>sg_conn = guest, sg_pending = pending\<rparr> (abs_broker b name) =
      (abs_broker b' name, out, map_option pair_of pr) \<and>
    (\<forall>other. other \<noteq> name \<longrightarrow> abs_broker b' other = abs_broker b other)"
proof -
  obtain ws w where t: "staged_take name (wb_works b) = (ws, w)" by (cases "staged_take name (wb_works b)")
  note q = take_queue [OF ok op t] and inv = broker_ok_openD [OF ok op]
  show ?thesis
  proof (cases "work_queue b name")
    case (Cons c cs)
    then have g: "guest_queue b name = []" using inv(3) [of name] by auto
    have b': "b' = b\<lparr>wb_works := ws\<rparr>" "out = ParkPaired"
      "pr = Some \<lparr>pr_guest = guest, pr_work = c, pr_pending = pending\<rparr>"
      using r op t q(4) Cons by (auto simp: park_guest_def)
    have "broker_ok b'"
      by (rule broker_ok_openI) (use b' op inv q(1,3) g in auto)
    then show ?thesis
      using b' g q(2,3) Cons op by (auto simp: abs_broker_def pair_of_def idle_limit_def)
  next
    case Nil
    then have ws: "staged_queue ws n = work_queue b n" "w = None" for n using q(3,4) by simp_all
    show ?thesis
    proof (cases "64 \<le> length (guest_queue b name)")
      case True
      then have b': "b' = b\<lparr>wb_works := ws, wb_rejected := wb_rejected b + 1\<rparr>" "out = ParkCapacityFull" "pr = None"
        using r op t ws by (auto simp: park_guest_def max_pending_guest_def)
      have "broker_ok b'"
        by (rule broker_ok_openI) (use b' op inv q(1) ws in auto)
      moreover have "guest_queue b name \<noteq> []" using True by auto
      ultimately show ?thesis
        using b' ws True op q(2) by (auto simp: abs_broker_def idle_limit_def)
    next
      case False
      let ?g = "\<lparr>sg_conn = guest, sg_pending = pending\<rparr>"
      have b': "b' = b\<lparr>wb_works := ws, wb_guests := gm_set name (guest_queue b name @ [?g]) (wb_guests b)\<rparr>"
        "out = ParkStaged" "pr = None"
        using r op t ws False by (auto simp: park_guest_def max_pending_guest_def)
      have "broker_ok b'"
        by (rule broker_ok_openI) (use b' op inv q(1) ws False Nil in auto)
      then show ?thesis
        using b' ws False op q(2) Nil by (auto simp: abs_broker_def idle_limit_def)
    qed
  qed
qed

lemma park_refines:
  assumes ok: "broker_ok b" and op: "\<not> wb_closed b"
  shows "\<exists>b' cl pr. park name work b = Some (b', cl, True, pr) \<and> broker_ok b' \<and> \<not> wb_closed b' \<and>
    idle_limit b' = idle_limit b \<and>
    spec_work (idle_limit b) work (abs_broker b name) = (abs_broker b' name, cl, map_option pair_of pr) \<and>
    (\<forall>other. other \<noteq> name \<longrightarrow> abs_broker b' other = abs_broker b other)"
proof (cases "guest_queue b name")
  case (Cons g gs)
  note inv = broker_ok_openD [OF ok op]
  let ?b = "b\<lparr>wb_guests := gm_store name gs (wb_guests b)\<rparr>"
  have "length gs \<le> 64" "work_queue b name = []" using inv(3,4) [of name] Cons by auto
  then have "broker_ok ?b"
    by (intro broker_ok_openI) (use op inv in auto)
  then show ?thesis
    using op Cons \<open>work_queue b name = []\<close>
    by (auto simp: park_def abs_broker_def pair_of_def idle_limit_def)
next
  case Nil
  have st: "staged_ok (wb_works b)" using ok op by (simp add: broker_ok_def)
  obtain ws cl where p: "staged_push name work (wb_works b) = Some (ws, cl)" "staged_ok ws"
    "nat (sw_limit ws) = idle_limit b"
    "\<And>n. staged_queue ws n = (if n = name
       then drop (Suc (length (work_queue b name)) - idle_limit b) (work_queue b name @ [work]) else work_queue b n)"
    "cl = take (Suc (length (work_queue b name)) - idle_limit b) (work_queue b name @ [work])"
  proof -
    obtain ws cl where x: "staged_push name work (wb_works b) = Some (ws, cl)" "staged_ok ws"
      "nat (sw_limit ws) = idle_limit b"
      "staged_queue ws = (work_queue b)(name := drop (Suc (length (work_queue b name)) - idle_limit b) (work_queue b name @ [work]))"
      "cl = take (Suc (length (work_queue b name)) - idle_limit b) (work_queue b name @ [work])"
      using stg.push_ok [OF st, of name work] unfolding idle_limit_def by blast
    show thesis by (rule that [OF x(1-3) _ x(5)]) (use fun_cong [OF x(4)] in simp)
  qed
  have "broker_ok (b\<lparr>wb_works := ws\<rparr>)"
    by (rule broker_ok_openI) (use op broker_ok_openD [OF ok op] p(2,4) Nil in auto)
  then show ?thesis
    using op p Nil by (auto simp: park_def abs_broker_def idle_limit_def Let_def simp del: take_append drop_append)
qed

end
