(* ===== verification/Broker_Laws.thy ===== *)
theory Broker_Laws
  imports Work_Broker
begin

section \<open>Histories of a broker\<close>

text \<open>
  A history is the sequence of operations that goroutines perform under the broker's lock, with a
  log of where every connection went: it is paired, taken for a UDP session, closed by the broker
  or given back to the caller, who must close it.
\<close>

datatype broker_op =
    ParkGuest string conn bytes | Park string conn | DropGuests string | TakeStaged string
  | CloseStagedWorks | CloseStaged

record broker_log =
  bl_in :: "conn list"
  bl_paired :: "pairing list"
  bl_taken :: "conn list"
  bl_closed :: "conn list"
  bl_returned :: "conn list"

definition empty_log :: broker_log where
  "empty_log = \<lparr>bl_in = [], bl_paired = [], bl_taken = [], bl_closed = [], bl_returned = []\<rparr>"

definition opt_list :: "'a option \<Rightarrow> 'a list" where
  "opt_list r = (case r of None \<Rightarrow> [] | Some x \<Rightarrow> [x])"

fun broker_step :: "broker_op \<Rightarrow> work_broker \<times> broker_log \<Rightarrow> (work_broker \<times> broker_log) option" where
  "broker_step (ParkGuest name c pending) (b, l) =
     (case park_guest name c pending b of (b', out, pr) \<Rightarrow>
        Some (b', l\<lparr>bl_in := c # bl_in l, bl_paired := opt_list pr @ bl_paired l,
          bl_returned := (if out \<in> {ParkRejected, ParkCapacityFull} then [c] else []) @ bl_returned l\<rparr>))"
| "broker_step (Park name c) (b, l) =
     (case park name c b of
        None \<Rightarrow> None
      | Some (b', closed, accepted, pr) \<Rightarrow>
        Some (b', l\<lparr>bl_in := c # bl_in l, bl_paired := opt_list pr @ bl_paired l, bl_closed := closed @ bl_closed l,
          bl_returned := (if accepted then [] else [c]) @ bl_returned l\<rparr>))"
| "broker_step (DropGuests name) (b, l) =
     (case drop_guests name b of (b', closed) \<Rightarrow> Some (b', l\<lparr>bl_closed := closed @ bl_closed l\<rparr>))"
| "broker_step (TakeStaged name) (b, l) =
     (case take_staged name b of (b', r) \<Rightarrow> Some (b', l\<lparr>bl_taken := opt_list r @ bl_taken l\<rparr>))"
| "broker_step CloseStagedWorks (b, l) =
     (case close_staged_works b of (b', closed) \<Rightarrow> Some (b', l\<lparr>bl_closed := closed @ bl_closed l\<rparr>))"
| "broker_step CloseStaged (b, l) =
     (case close_staged b of (b', closed) \<Rightarrow> Some (b', l\<lparr>bl_closed := closed @ bl_closed l\<rparr>))"

fun broker_run :: "broker_op list \<Rightarrow> work_broker \<times> broker_log \<Rightarrow> (work_broker \<times> broker_log) option" where
  "broker_run [] s = Some s"
| "broker_run (op # ops) s = (case broker_step op s of None \<Rightarrow> None | Some s' \<Rightarrow> broker_run ops s')"

subsection \<open>Where the connections are\<close>

definition broker_held :: "work_broker \<Rightarrow> conn multiset" where
  "broker_held b = image_mset sg_conn (mset (gm_values (wb_guests b))) + mset (gm_values (sw_staged (wb_works b)))"

definition log_out :: "broker_log \<Rightarrow> conn multiset" where
  "log_out l = mset (map pr_guest (bl_paired l)) + mset (map pr_work (bl_paired l)) + mset (bl_taken l)
     + mset (bl_closed l) + mset (bl_returned l)"

definition balanced :: "work_broker \<times> broker_log \<Rightarrow> bool" where
  "balanced = (\<lambda>(b, l). mset (bl_in l) = broker_held b + log_out l)"

lemma guests_store:
  "gm_ok m \<Longrightarrow> mset (gm_values (gm_store k q m)) + mset (gm_get [] k m) = mset q + mset (gm_values m)"
  by (rule gm_values_store)

lemma closed_held: "broker_ok b \<Longrightarrow> wb_closed b \<Longrightarrow> broker_held b = {#}"
  by (simp add: broker_ok_def broker_held_def)

lemma park_guest_held:
  assumes ok: "broker_ok b" and r: "park_guest name c pending b = (b', out, pr)"
  shows "broker_held b' + mset (map pr_guest (opt_list pr)) + mset (map pr_work (opt_list pr))
      + mset (if out \<in> {ParkRejected, ParkCapacityFull} then [c] else []) = add_mset c (broker_held b)"
proof (cases "wb_closed b")
  case True
  with r show ?thesis by (auto simp: park_guest_def opt_list_def)
next
  case False
  note inv = broker_ok_openD [OF ok False]
  obtain ws w where t: "staged_take name (wb_works b) = (ws, w)" by (cases "staged_take name (wb_works b)")
  note m = staged_take_mset [OF inv(1) t]
  show ?thesis
  proof (cases w)
    case (Some work)
    then show ?thesis using r t False m by (auto simp: park_guest_def opt_list_def broker_held_def)
  next
    case None
    have store: "mset (gm_values (gm_set name (guest_queue b name @ [g]) (wb_guests b))) =
        add_mset g (mset (gm_values (wb_guests b)))" for g
      using guests_store [OF gm_tight_ok [OF inv(2)], of name "guest_queue b name @ [g]"]
      by (simp add: gm_store_def)
    show ?thesis using r t False m None store
      by (auto simp: park_guest_def opt_list_def broker_held_def split: if_splits)
  qed
qed

lemma park_held:
  assumes ok: "broker_ok b" and r: "park name c b = Some (b', cl, acc, pr)"
  shows "broker_held b' + mset (map pr_guest (opt_list pr)) + mset (map pr_work (opt_list pr)) + mset cl
      + mset (if acc then [] else [c]) = add_mset c (broker_held b)"
proof (cases "wb_closed b")
  case True
  with r show ?thesis by (auto simp: park_def opt_list_def)
next
  case False
  note inv = broker_ok_openD [OF ok False]
  show ?thesis
  proof (cases "guest_queue b name")
    case Nil
    then obtain ws where p: "staged_push name c (wb_works b) = Some (ws, cl)" "b' = b\<lparr>wb_works := ws\<rparr>" "acc" "pr = None"
      using r False by (auto simp: park_def split: option.splits)
    from staged_push_mset [OF inv(1) p(1)] p show ?thesis by (simp add: broker_held_def opt_list_def)
  next
    case (Cons g gs)
    then have "mset (gm_values (wb_guests b)) = add_mset g (mset (gm_values (gm_store name gs (wb_guests b))))"
      using guests_store [OF gm_tight_ok [OF inv(2)], of name gs] by simp
    then show ?thesis using r False Cons by (auto simp: park_def opt_list_def broker_held_def)
  qed
qed

lemma drop_guests_held:
  assumes ok: "broker_ok b" and r: "drop_guests name b = (b', cl)"
  shows "broker_held b' + mset cl = broker_held b"
proof -
  have "gm_ok (wb_guests b)" using ok by (simp add: broker_ok_def)
  from gm_values_delete [OF this, of name] r show ?thesis
    by (auto simp: drop_guests_def broker_held_def split: if_splits)
qed

lemma take_staged_open:
  assumes ok: "broker_ok b" and op: "\<not> wb_closed b" and r: "take_staged name b = (b', w)"
  shows "broker_ok b'" and "broker_held b' + mset (opt_list w) = broker_held b"
proof -
  note inv = broker_ok_openD [OF ok op]
  obtain ws where t: "staged_take name (wb_works b) = (ws, w)" and b': "b' = b\<lparr>wb_works := ws\<rparr>"
    using r by (auto simp: take_staged_def split: prod.splits)
  note q = take_queue [OF ok op t]
  have "tl (work_queue b name) = [] \<or> guest_queue b name = []" using inv(3) [of name] by auto
  then show "broker_ok b'"
    by (intro broker_ok_openI) (use b' op inv q(1,3) in auto)
  from staged_take_mset [OF inv(1) t] b' show "broker_held b' + mset (opt_list w) = broker_held b"
    by (simp add: broker_held_def opt_list_def split: option.splits)
qed

lemma take_staged_shut:
  assumes ok: "broker_ok b" and cl: "wb_closed b" and r: "take_staged name b = (b', w)"
  shows "broker_ok b'" and "broker_held b' + mset (opt_list w) = broker_held b"
proof -
  have none: "gm_values (sw_staged (wb_works b)) = []" using ok cl by (simp add: broker_ok_def)
  have "work_queue b name = []"
  proof (rule ccontr)
    assume "work_queue b name \<noteq> []"
    then have "map_of (sw_staged (wb_works b)) name = Some (work_queue b name)"
      by (auto simp: gm_get_def split: option.splits)
    then have "(name, work_queue b name) \<in> set (sw_staged (wb_works b))" by (rule map_of_SomeD)
    with none \<open>work_queue b name \<noteq> []\<close> show False by (auto simp: gm_values_def)
  qed
  then have "b' = b" "w = None" using r by (auto simp: take_staged_def staged_take_def)
  with ok show "broker_ok b'" "broker_held b' + mset (opt_list w) = broker_held b"
    by (simp_all add: opt_list_def)
qed

lemma close_staged_held:
  assumes ok: "broker_ok b" and r: "close_staged b = (b', cl)"
  shows "broker_ok b'" and "broker_held b' + mset cl = broker_held b"
proof -
  have "\<not> wb_closed b \<Longrightarrow> \<not> sw_closed (wb_works b)" using ok by (simp add: broker_ok_def staged_ok_def)
  with ok r show "broker_ok b'" "broker_held b' + mset cl = broker_held b"
    by (auto simp: close_staged_def staged_close_def broker_ok_def broker_held_def split: if_splits)
qed

lemma broker_ok_park_guest:
  assumes "broker_ok b" and "park_guest name c pending b = (b', out, pr)"
  shows "broker_ok b'"
proof (cases "wb_closed b")
  case True
  with assms show ?thesis by (simp add: park_guest_def)
next
  case False
  with park_guest_refines [OF assms(1) False assms(2)] show ?thesis by blast
qed

lemma broker_ok_park:
  assumes "broker_ok b"
  shows "\<exists>b' cl acc pr. park name c b = Some (b', cl, acc, pr) \<and> broker_ok b'"
proof (cases "wb_closed b")
  case True
  then have "park name c b = Some (b, [], False, None)" by (simp add: park_def)
  with assms show ?thesis by blast
next
  case False
  with park_refines [OF assms False, of name c] show ?thesis by blast
qed

lemma broker_ok_drop: "broker_ok b \<Longrightarrow> broker_ok (fst (drop_guests name b))"
  by (auto simp: drop_guests_def broker_ok_def)

text \<open>One step keeps the invariant and the balance, unless it closes only the works.\<close>

lemma balanced_move:
  assumes bal: "balanced (b, l)" and held: "broker_held b' + out = broker_held b + arr"
    and arr: "mset (bl_in l') = arr + mset (bl_in l)" and out: "log_out l' = out + log_out l"
  shows "balanced (b', l')"
proof -
  have "mset (bl_in l') = (broker_held b + arr) + log_out l"
    using bal arr by (simp add: balanced_def ac_simps)
  also have "\<dots> = broker_held b' + log_out l'" unfolding held [symmetric] out by (simp add: add.assoc)
  finally show ?thesis by (simp add: balanced_def)
qed

lemma broker_step_ok:
  assumes ok: "broker_ok b" and bal: "balanced (b, l)" and op: "op \<noteq> CloseStagedWorks"
  shows "\<exists>b' l'. broker_step op (b, l) = Some (b', l') \<and> broker_ok b' \<and> balanced (b', l')"
proof (cases op)
  case (ParkGuest name c pending)
  obtain b' out pr where r: "park_guest name c pending b = (b', out, pr)" by (metis prod_cases3)
  let ?l = "l\<lparr>bl_in := c # bl_in l, bl_paired := opt_list pr @ bl_paired l,
    bl_returned := (if out \<in> {ParkRejected, ParkCapacityFull} then [c] else []) @ bl_returned l\<rparr>"
  have "balanced (b', ?l)"
    by (rule balanced_move [OF bal, where arr = "{#c#}" and out = "mset (map pr_guest (opt_list pr))
        + mset (map pr_work (opt_list pr)) + mset (if out \<in> {ParkRejected, ParkCapacityFull} then [c] else [])"])
      (use park_guest_held [OF ok r] in \<open>simp_all add: log_out_def ac_simps\<close>)
  with broker_ok_park_guest [OF ok r] ParkGuest r show ?thesis by simp
next
  case (Park name c)
  obtain b' cl acc pr where r: "park name c b = Some (b', cl, acc, pr)" "broker_ok b'"
    using broker_ok_park [OF ok] by blast
  let ?l = "l\<lparr>bl_in := c # bl_in l, bl_paired := opt_list pr @ bl_paired l, bl_closed := cl @ bl_closed l,
    bl_returned := (if acc then [] else [c]) @ bl_returned l\<rparr>"
  have "balanced (b', ?l)"
    by (rule balanced_move [OF bal, where arr = "{#c#}" and out = "mset (map pr_guest (opt_list pr))
        + mset (map pr_work (opt_list pr)) + mset cl + mset (if acc then [] else [c])"])
      (use park_held [OF ok r(1)] in \<open>simp_all add: log_out_def ac_simps\<close>)
  with Park r show ?thesis by simp
next
  case (DropGuests name)
  obtain b' cl where r: "drop_guests name b = (b', cl)" by (cases "drop_guests name b")
  have "balanced (b', l\<lparr>bl_closed := cl @ bl_closed l\<rparr>)"
    by (rule balanced_move [OF bal, where arr = "{#}" and out = "mset cl"])
      (use drop_guests_held [OF ok r] in \<open>simp_all add: log_out_def ac_simps\<close>)
  with broker_ok_drop [OF ok, of name] DropGuests r show ?thesis by simp
next
  case (TakeStaged name)
  obtain b' w where r: "take_staged name b = (b', w)" by (cases "take_staged name b")
  have ok': "broker_ok b' \<and> broker_held b' + mset (opt_list w) = broker_held b"
    using take_staged_open [OF ok _ r] take_staged_shut [OF ok _ r] by blast
  have "balanced (b', l\<lparr>bl_taken := opt_list w @ bl_taken l\<rparr>)"
    by (rule balanced_move [OF bal, where arr = "{#}" and out = "mset (opt_list w)"])
      (use ok' in \<open>simp_all add: log_out_def ac_simps\<close>)
  with ok' TakeStaged r show ?thesis by simp
next
  case CloseStaged
  obtain b' cl where r: "close_staged b = (b', cl)" by (cases "close_staged b")
  have "balanced (b', l\<lparr>bl_closed := cl @ bl_closed l\<rparr>)"
    by (rule balanced_move [OF bal, where arr = "{#}" and out = "mset cl"])
      (use close_staged_held [OF ok r] in \<open>simp_all add: log_out_def ac_simps\<close>)
  with close_staged_held(1) [OF ok r] CloseStaged r show ?thesis by simp
qed (use op in simp)

lemma broker_run_ok:
  assumes "broker_ok b" and "balanced (b, l)" and "CloseStagedWorks \<notin> set ops"
  shows "\<exists>b' l'. broker_run ops (b, l) = Some (b', l') \<and> broker_ok b' \<and> balanced (b', l')"
  using assms
proof (induction ops arbitrary: b l)
  case Nil
  then show ?case by simp
next
  case (Cons op ops)
  then obtain b1 l1 where "broker_step op (b, l) = Some (b1, l1)" "broker_ok b1" "balanced (b1, l1)"
    using broker_step_ok [of b l op] by auto
  with Cons.IH [of b1 l1] Cons.prems(3) show ?case by auto
qed

lemma balanced_new: "balanced (new_work_broker limit, empty_log)"
  by (simp add: balanced_def broker_held_def new_work_broker_def new_staged_works_def empty_log_def log_out_def)

text \<open>After only the works were closed, an accepted work connection is dropped: it is neither held
  nor closed nor given back.\<close>

lemma park_after_close_works:
  assumes "\<not> wb_closed b" and "guest_queue b name = []"
  shows "park name c (fst (close_staged_works b)) = Some (fst (close_staged_works b), [], True, None)"
proof -
  have "sw_closed (wb_works (fst (close_staged_works b)))" "wb_guests (fst (close_staged_works b)) = wb_guests b"
    "wb_closed (fst (close_staged_works b)) = wb_closed b"
    by (simp_all add: close_staged_works_def staged_close_def)
  with assms show ?thesis by (simp add: park_def staged_push_def)
qed

end
