(* ===== verification/Server_Pairing.thy ===== *)
theory Server_Pairing
  imports Broker_Laws
begin

section \<open>Serving a guest (\<open>work.go\<close>: \<open>pairing.start\<close>; \<open>engine.go\<close>: \<open>pairGuest\<close>)\<close>

text \<open>
  The state of one generation that pairing touches: the broker, the tracked connections, the
  wait group, and what happened to the outside: connections closed and bytes written to work
  connections. Whether a waiting work connection is still usable is decided by the network: the
  result of the probing read and of the first write are parameters.
\<close>

datatype probe_read = DeadlineFails | GotByte | ReadNothing | TimedOut | ReadFails

definition work_conn_alive :: "probe_read \<Rightarrow> bool" where
  "work_conn_alive r = (case r of
      DeadlineFails \<Rightarrow> False | GotByte \<Rightarrow> True | ReadNothing \<Rightarrow> True | TimedOut \<Rightarrow> True | ReadFails \<Rightarrow> False)"

record pair_env =
  pe_probe :: "conn \<Rightarrow> probe_read"
  pe_write :: "conn \<Rightarrow> bytes \<Rightarrow> bool"

record gen_state =
  gs_broker :: work_broker
  gs_conns :: "conn set"
  gs_wg :: int
  gs_closed :: "conn list"
  gs_sent :: "(conn \<times> bytes) list"

definition gen_track :: "conn \<Rightarrow> gen_state \<Rightarrow> gen_state" where
  "gen_track c s = s\<lparr>gs_conns := insert c (gs_conns s)\<rparr>"

definition gen_untrack :: "conn \<Rightarrow> gen_state \<Rightarrow> gen_state" where
  "gen_untrack c s = s\<lparr>gs_conns := gs_conns s - {c}\<rparr>"

definition gen_close :: "conn \<Rightarrow> gen_state \<Rightarrow> gen_state" where
  "gen_close c s = s\<lparr>gs_closed := gs_closed s @ [c]\<rparr>"

definition gen_add :: "int \<Rightarrow> gen_state \<Rightarrow> gen_state" where
  "gen_add n s = s\<lparr>gs_wg := gs_wg s + n\<rparr>"

definition pair_start :: "pair_env \<Rightarrow> pairing \<Rightarrow> gen_state \<Rightarrow> gen_state \<times> bool" where
  "pair_start env p s =
     (if \<not> work_conn_alive (pe_probe env (pr_work p)) then (gen_close (pr_work p) s, False)
      else if pr_pending p \<noteq> [] \<and> \<not> pe_write env (pr_work p) (pr_pending p)
      then (gen_close (pr_work p) s, False)
      else let s1 = (if pr_pending p = [] then s else s\<lparr>gs_sent := gs_sent s @ [(pr_work p, pr_pending p)]\<rparr>)
        in (gen_add 1 (gen_track (pr_work p) (gen_track (pr_guest p) s1)), True))"

text \<open>The deferred calls at the end of a bridge: \<open>untrackBoth\<close> is called with \<open>track\<close>.\<close>

definition untrack_both :: "(conn \<Rightarrow> gen_state \<Rightarrow> gen_state) \<Rightarrow> conn \<Rightarrow> conn \<Rightarrow> gen_state \<Rightarrow> gen_state" where
  "untrack_both untrack guest work s = untrack work (untrack guest s)"

definition bridge_end :: "pairing \<Rightarrow> gen_state \<Rightarrow> gen_state" where
  "bridge_end p s = gen_add (- 1) (untrack_both gen_track (pr_guest p) (pr_work p) s)"

fun pair_guest_loop ::
  "nat \<Rightarrow> pair_env \<Rightarrow> string \<Rightarrow> conn \<Rightarrow> bytes \<Rightarrow> gen_state \<Rightarrow> gen_state \<times> park_outcome" where
  "pair_guest_loop 0 env name guest pending s = (s, ParkRejected)"
| "pair_guest_loop (Suc n) env name guest pending s =
     (case park_guest name guest pending (gs_broker s) of
        (b, ParkPaired, Some p) \<Rightarrow>
          (case pair_start env p (gen_untrack guest (s\<lparr>gs_broker := b\<rparr>)) of
             (s', True) \<Rightarrow> (s', ParkPaired)
           | (s', False) \<Rightarrow> pair_guest_loop n env name guest pending (gen_track guest s'))
      | (b, out, _) \<Rightarrow> (s\<lparr>gs_broker := b\<rparr>, out))"

definition pair_guest :: "pair_env \<Rightarrow> string \<Rightarrow> conn \<Rightarrow> bytes \<Rightarrow> gen_state \<Rightarrow> gen_state \<times> park_outcome" where
  "pair_guest = pair_guest_loop max_pair_retries"

subsection \<open>What a guest gets\<close>

definition usable :: "pair_env \<Rightarrow> bytes \<Rightarrow> conn \<Rightarrow> bool" where
  "usable env pending w \<longleftrightarrow>
     work_conn_alive (pe_probe env w) \<and> (pending = [] \<or> pe_write env w pending)"

lemma pair_start_usable:
  "usable env (pr_pending p) (pr_work p) \<Longrightarrow> \<exists>s'. pair_start env p s = (s', True) \<and>
     gs_conns s' = gs_conns s \<union> {pr_guest p, pr_work p} \<and> gs_closed s' = gs_closed s \<and>
     gs_broker s' = gs_broker s \<and> gs_wg s' = gs_wg s + 1 \<and>
     gs_sent s' = gs_sent s @ (if pr_pending p = [] then [] else [(pr_work p, pr_pending p)])"
  by (auto simp: usable_def pair_start_def gen_track_def gen_add_def Let_def)

lemma pair_start_unusable:
  "\<not> usable env (pr_pending p) (pr_work p) \<Longrightarrow> pair_start env p s = (gen_close (pr_work p) s, False)"
  by (auto simp: usable_def pair_start_def)

text \<open>A guest is served by the first usable work connection; the ones before it are closed. With
  none usable it waits, or is refused when the queue is full. The bound on the retries is never
  met when the broker can hold fewer work connections than that.\<close>

lemma park_guest_paired:
  assumes ok: "broker_ok b" and op: "\<not> wb_closed b" and q: "work_queue b name = w # ws"
  shows "\<exists>b'. park_guest name guest pending b =
      (b', ParkPaired, Some \<lparr>pr_guest = guest, pr_work = w, pr_pending = pending\<rparr>) \<and>
    broker_ok b' \<and> \<not> wb_closed b' \<and> work_queue b' name = ws \<and> guest_queue b' name = []"
proof -
  obtain b' out pr where r: "park_guest name guest pending b = (b', out, pr)" by (metis prod_cases3)
  have g: "guest_queue b name = []" using broker_ok_openD(3) [OF ok op, of name] q by auto
  obtain st v where t: "staged_take name (wb_works b) = (st, v)" by (cases "staged_take name (wb_works b)")
  note k = take_queue [OF ok op t]
  have "b' = b\<lparr>wb_works := st\<rparr>" "out = ParkPaired"
    "pr = Some \<lparr>pr_guest = guest, pr_work = w, pr_pending = pending\<rparr>"
    using r op t k(4) q by (auto simp: park_guest_def)
  with park_guest_refines [OF ok op r] g q k(3) [of name] r show ?thesis by auto
qed

lemma park_guest_waits:
  assumes ok: "broker_ok b" and op: "\<not> wb_closed b" and q: "work_queue b name = []"
  shows "\<exists>b' out. park_guest name guest pending b = (b', out, None) \<and> broker_ok b' \<and> \<not> wb_closed b' \<and>
    out = (if length (guest_queue b name) < 64 then ParkStaged else ParkCapacityFull) \<and>
    guest_queue b' name = guest_queue b name @
      (if length (guest_queue b name) < 64 then [\<lparr>sg_conn = guest, sg_pending = pending\<rparr>] else []) \<and>
    work_queue b' name = []"
proof -
  obtain b' out pr where r: "park_guest name guest pending b = (b', out, pr)" by (metis prod_cases3)
  obtain st v where t: "staged_take name (wb_works b) = (st, v)" by (cases "staged_take name (wb_works b)")
  note k = take_queue [OF ok op t]
  have "v = None" using k(4) q by simp
  with park_guest_refines [OF ok op r] r op t k(3) [of name] q show ?thesis
    by (auto simp: park_guest_def max_pending_guest_def split: if_splits)
qed

definition guest_served :: "pair_env \<Rightarrow> string \<Rightarrow> bytes \<Rightarrow> gen_state \<Rightarrow> gen_state \<Rightarrow> park_outcome \<Rightarrow> bool" where
  "guest_served env name pending s s' out \<longleftrightarrow>
     (let bad = (\<lambda>w. \<not> usable env pending w); ws = work_queue (gs_broker s) name in
      case dropWhile bad ws of
        w # rest \<Rightarrow> out = ParkPaired \<and> work_queue (gs_broker s') name = rest \<and>
          gs_closed s' = gs_closed s @ takeWhile bad ws \<and>
          gs_conns s' = gs_conns s \<union> {w} \<and> gs_wg s' = gs_wg s + 1 \<and>
          gs_sent s' = gs_sent s @ (if pending = [] then [] else [(w, pending)])
      | [] \<Rightarrow> out = (if length (guest_queue (gs_broker s) name) < 64 then ParkStaged else ParkCapacityFull) \<and>
          gs_closed s' = gs_closed s @ ws \<and> work_queue (gs_broker s') name = [] \<and>
          gs_conns s' = gs_conns s \<and> gs_wg s' = gs_wg s \<and> gs_sent s' = gs_sent s)"

lemma guest_served_skip:
  assumes "guest_served env name pending s2 s' out" and "work_queue (gs_broker s) name = w # work_queue (gs_broker s2) name"
    and "\<not> usable env pending w" and "gs_closed s2 = gs_closed s @ [w]" and "gs_conns s2 = gs_conns s"
    and "gs_wg s2 = gs_wg s" and "gs_sent s2 = gs_sent s"
    and "guest_queue (gs_broker s) name = []" and "guest_queue (gs_broker s2) name = []"
  shows "guest_served env name pending s s' out"
proof (cases "dropWhile (\<lambda>w. \<not> usable env pending w) (work_queue (gs_broker s2) name)")
  case Nil
  with assms show ?thesis by (simp add: guest_served_def Let_def del: dropWhile_eq_Nil_conv)
next
  case (Cons v vs)
  with assms show ?thesis by (simp add: guest_served_def Let_def)
qed

lemma pair_guest_loop_spec:
  assumes "broker_ok (gs_broker s)" and "\<not> wb_closed (gs_broker s)"
    and "guest \<in> gs_conns s" and "length (work_queue (gs_broker s) name) < n"
  shows "\<exists>s' out. pair_guest_loop n env name guest pending s = (s', out) \<and>
    broker_ok (gs_broker s') \<and> \<not> wb_closed (gs_broker s') \<and> guest_served env name pending s s' out"
  using assms
proof (induction n arbitrary: s)
  case 0
  then show ?case by simp
next
  case (Suc n)
  let ?b = "gs_broker s"
  show ?case
  proof (cases "work_queue ?b name")
    case Nil
    then obtain b' out where r: "park_guest name guest pending ?b = (b', out, None)" "broker_ok b'" "\<not> wb_closed b'"
      "out = (if length (guest_queue ?b name) < 64 then ParkStaged else ParkCapacityFull)" "work_queue b' name = []"
      using park_guest_waits [OF Suc.prems(1,2) Nil, of guest pending] by blast
    then have "pair_guest_loop (Suc n) env name guest pending s = (s\<lparr>gs_broker := b'\<rparr>, out)"
      by (simp split: park_outcome.splits)
    with r Nil show ?thesis by (simp add: guest_served_def)
  next
    case (Cons w ws)
    let ?p = "\<lparr>pr_guest = guest, pr_work = w, pr_pending = pending\<rparr>"
    obtain b' where r: "park_guest name guest pending ?b = (b', ParkPaired, Some ?p)" "broker_ok b'"
      "\<not> wb_closed b'" "work_queue b' name = ws" "guest_queue b' name = []"
      using park_guest_paired [OF Suc.prems(1,2) Cons, of guest pending] by blast
    let ?s1 = "gen_untrack guest (s\<lparr>gs_broker := b'\<rparr>)"
    have g: "guest_queue ?b name = []" using broker_ok_openD(3) [OF Suc.prems(1,2), of name] Cons by auto
    show ?thesis
    proof (cases "usable env pending w")
      case True
      then obtain s' where s': "pair_start env ?p ?s1 = (s', True)"
        "gs_conns s' = gs_conns ?s1 \<union> {guest, w}" "gs_closed s' = gs_closed ?s1" "gs_broker s' = gs_broker ?s1"
        "gs_wg s' = gs_wg ?s1 + 1" "gs_sent s' = gs_sent ?s1 @ (if pending = [] then [] else [(w, pending)])"
        using pair_start_usable [of env ?p ?s1] by auto
      have "pair_guest_loop (Suc n) env name guest pending s = (s', ParkPaired)" using r s' by simp
      moreover have "guest_served env name pending s s' ParkPaired"
        using s' r(4) True Cons Suc.prems(3) by (auto simp: guest_served_def gen_untrack_def)
      moreover have "gs_broker s' = b'" using s'(4) by (simp add: gen_untrack_def)
      ultimately show ?thesis using r(2,3) by blast
    next
      case False
      let ?s2 = "gen_track guest (gen_close w ?s1)"
      have loop: "pair_guest_loop (Suc n) env name guest pending s = pair_guest_loop n env name guest pending ?s2"
        using r pair_start_unusable [of env ?p ?s1] False by simp
      have s2: "gs_broker ?s2 = b'" "gs_conns ?s2 = gs_conns s" "gs_wg ?s2 = gs_wg s"
        "gs_closed ?s2 = gs_closed s @ [w]" "gs_sent ?s2 = gs_sent s" "guest \<in> gs_conns ?s2"
        using Suc.prems(3) by (auto simp: gen_track_def gen_close_def gen_untrack_def)
      have "length (work_queue (gs_broker ?s2) name) < n" using s2(1) r(4) Suc.prems(4) Cons by simp
      then obtain s' out where ih: "pair_guest_loop n env name guest pending ?s2 = (s', out)"
        "broker_ok (gs_broker s')" "\<not> wb_closed (gs_broker s')" "guest_served env name pending ?s2 s' out"
        using Suc.IH [of ?s2] r(2,3) s2(1,6) by (metis (no_types))
      have "guest_served env name pending s s' out"
        by (rule guest_served_skip [OF ih(4)]) (use s2 r(4,5) Cons False g in simp_all)
      with ih loop show ?thesis by auto
    qed
  qed
qed

text \<open>The end of a bridge leaves both connections in the set of active ones.\<close>

lemma bridge_end_tracked: "{pr_guest p, pr_work p} \<subseteq> gs_conns (bridge_end p s)"
  by (simp add: bridge_end_def untrack_both_def gen_track_def gen_add_def)

end
