(* ===== verification/Server_Sessions.thy ===== *)
theory Server_Sessions
  imports Go_Map Work_Pool Wire_Guard
begin

section \<open>Control sessions (\<open>core/server/engine.go\<close>)\<close>

text \<open>
  The tables of the engine about control connections: which connections are open, which client
  each belongs to, the active connection of a client, and for clients of the official kind the
  writing end of the session and the index of run identifiers. Each function runs under the
  engine's lock.
\<close>

record official_session =
  os_run_id :: string
  os_conn :: conn
  os_version :: version

record sessions =
  sn_conns :: "conn set"
  sn_clients :: "(conn, string) gomap"
  sn_official :: "(string, official_session) gomap"
  sn_run_ids :: "(string, string) gomap"
  sn_control :: "(string, conn) gomap"

definition no_sessions :: sessions where
  "no_sessions = \<lparr>sn_conns = {}, sn_clients = [], sn_official = [], sn_run_ids = [], sn_control = []\<rparr>"

definition track_control :: "conn \<Rightarrow> sessions \<Rightarrow> sessions" where
  "track_control c s = s\<lparr>sn_conns := insert c (sn_conns s)\<rparr>"

definition untrack_control :: "conn \<Rightarrow> sessions \<Rightarrow> sessions" where
  "untrack_control c s =
     (let s1 = (case map_of (sn_clients s) c of
          None \<Rightarrow> s
        | Some client \<Rightarrow>
            (let s2 = (if map_of (sn_control s) client = Some c
                  then s\<lparr>sn_control := gm_delete client (sn_control s)\<rparr> else s)
             in case map_of (sn_official s2) client of
                  None \<Rightarrow> s2
                | Some sess \<Rightarrow>
                    if os_conn sess = c
                    then s2\<lparr>sn_run_ids := gm_delete (os_run_id sess) (sn_run_ids s2),
                            sn_official := gm_delete client (sn_official s2)\<rparr>
                    else s2))
      in s1\<lparr>sn_conns := sn_conns s1 - {c}, sn_clients := gm_delete c (sn_clients s1)\<rparr>)"

text \<open>The replaced connection, if any, is returned.\<close>

definition bind_control_client :: "conn \<Rightarrow> string \<Rightarrow> sessions \<Rightarrow> sessions \<times> conn option" where
  "bind_control_client c client s =
     (s\<lparr>sn_clients := gm_set c client (sn_clients s), sn_control := gm_set client c (sn_control s)\<rparr>,
      map_of (sn_control s) client)"

definition has_active_control_session :: "string \<Rightarrow> sessions \<Rightarrow> bool" where
  "has_active_control_session client s \<longleftrightarrow> map_of (sn_control s) client \<noteq> None"

definition register_official_session :: "string \<Rightarrow> conn \<Rightarrow> version \<Rightarrow> string \<Rightarrow> sessions \<Rightarrow> sessions" where
  "register_official_session client c ver run_id s =
     (let s1 = (case map_of (sn_official s) client of
          None \<Rightarrow> s
        | Some previous \<Rightarrow>
            if os_run_id previous \<noteq> run_id \<and> map_of (sn_run_ids s) (os_run_id previous) = Some client
            then s\<lparr>sn_run_ids := gm_delete (os_run_id previous) (sn_run_ids s)\<rparr> else s);
          s2 = s1\<lparr>sn_official := gm_set client \<lparr>os_run_id = run_id, os_conn = c, os_version = ver\<rparr> (sn_official s1)\<rparr>
      in if run_id = [] then s2 else s2\<lparr>sn_run_ids := gm_set run_id client (sn_run_ids s2)\<rparr>)"

definition session_by_run_id :: "string \<Rightarrow> sessions \<Rightarrow> (string \<times> official_session) option" where
  "session_by_run_id run_id s =
     (case map_of (sn_run_ids s) run_id of
        None \<Rightarrow> None
      | Some client \<Rightarrow>
          (case map_of (sn_official s) client of None \<Rightarrow> None | Some sess \<Rightarrow> Some (client, sess)))"

text \<open>The connection a work connection is requested on, if the client is of the official kind.\<close>

definition request_work_conn :: "string \<Rightarrow> sessions \<Rightarrow> conn option" where
  "request_work_conn client s = map_option os_conn (map_of (sn_official s) client)"

subsection \<open>Interleaved sessions\<close>

text \<open>
  Every control connection is served by its own goroutine: it is tracked, after a login its
  official session is registered (official clients only), then it is bound to its client, and when
  it ends it is untracked. The steps of different connections interleave freely.
\<close>

datatype phase = Tracked | Registered string string | Bound string | Gone

type_synonym session_state = "sessions \<times> (conn \<Rightarrow> phase option)"

inductive session_step :: "session_state \<Rightarrow> session_state \<Rightarrow> bool" where
  connect: "ph c = None \<Longrightarrow> session_step (s, ph) (track_control c s, ph(c \<mapsto> Tracked))"
| register: "ph c = Some Tracked \<Longrightarrow>
    session_step (s, ph) (register_official_session client c ver run_id s, ph(c \<mapsto> Registered client run_id))"
| bind_official: "ph c = Some (Registered client run_id) \<Longrightarrow>
    session_step (s, ph) (fst (bind_control_client c client s), ph(c \<mapsto> Bound client))"
| bind_plain: "ph c = Some Tracked \<Longrightarrow>
    session_step (s, ph) (fst (bind_control_client c client s), ph(c \<mapsto> Bound client))"
| leave_tracked: "ph c = Some Tracked \<Longrightarrow> session_step (s, ph) (untrack_control c s, ph(c \<mapsto> Gone))"
| leave_bound: "ph c = Some (Bound client) \<Longrightarrow> session_step (s, ph) (untrack_control c s, ph(c \<mapsto> Gone))"

inductive_cases session_stepE: "session_step (s, ph) (s', ph')"

definition session_inv :: "session_state \<Rightarrow> bool" where
  "session_inv = (\<lambda>(s, ph).
     gm_ok (sn_clients s) \<and> gm_ok (sn_official s) \<and> gm_ok (sn_run_ids s) \<and> gm_ok (sn_control s) \<and>
     (\<forall>c. c \<in> sn_conns s \<longleftrightarrow> ph c \<noteq> None \<and> ph c \<noteq> Some Gone) \<and>
     (\<forall>c client. map_of (sn_clients s) c = Some client \<longleftrightarrow> ph c = Some (Bound client)) \<and>
     (\<forall>client c. map_of (sn_control s) client = Some c \<longrightarrow> ph c = Some (Bound client)) \<and>
     (\<forall>client sess. map_of (sn_official s) client = Some sess \<longrightarrow>
        ph (os_conn sess) = Some (Bound client) \<or> ph (os_conn sess) = Some (Registered client (os_run_id sess))) \<and>
     (\<forall>r client. map_of (sn_run_ids s) r = Some client \<longrightarrow>
        (\<exists>sess. map_of (sn_official s) client = Some sess \<and> os_run_id sess = r)))"

lemma session_inv_start: "session_inv (no_sessions, \<lambda>c. None)"
  by (simp add: session_inv_def no_sessions_def)

lemma session_invD:
  assumes "session_inv (s, ph)"
  shows "gm_ok (sn_clients s)" and "gm_ok (sn_official s)" and "gm_ok (sn_run_ids s)" and "gm_ok (sn_control s)"
    and "\<And>c. c \<in> sn_conns s \<longleftrightarrow> ph c \<noteq> None \<and> ph c \<noteq> Some Gone"
    and "\<And>c client. map_of (sn_clients s) c = Some client \<longleftrightarrow> ph c = Some (Bound client)"
    and "\<And>client c. map_of (sn_control s) client = Some c \<Longrightarrow> ph c = Some (Bound client)"
    and "\<And>client sess. map_of (sn_official s) client = Some sess \<Longrightarrow>
      ph (os_conn sess) = Some (Bound client) \<or> ph (os_conn sess) = Some (Registered client (os_run_id sess))"
    and "\<And>r client. map_of (sn_run_ids s) r = Some client \<Longrightarrow>
      \<exists>sess. map_of (sn_official s) client = Some sess \<and> os_run_id sess = r"
  using assms by (auto simp: session_inv_def)

lemma inv_connect:
  assumes "session_inv (s, ph)" and "ph c = None"
  shows "session_inv (track_control c s, ph(c \<mapsto> Tracked))"
proof -
  note inv = session_invD [OF assms(1)]
  have "os_conn sess \<noteq> c" if "map_of (sn_official s) cl = Some sess" for cl sess
    using inv(8) [OF that] assms(2) by auto
  with inv assms(2) show ?thesis unfolding session_inv_def prod.case by (auto simp: track_control_def)
qed

lemma inv_bind:
  assumes "session_inv (s, ph)" and "ph c = Some Tracked \<or> (\<exists>r. ph c = Some (Registered client r))"
  shows "session_inv (fst (bind_control_client c client s), ph(c \<mapsto> Bound client))"
  unfolding session_inv_def prod.case
proof (intro conjI allI impI)
  note inv = session_invD [OF assms(1)]
  let ?s = "fst (bind_control_client c client s)"
  show "gm_ok (sn_clients ?s)" "gm_ok (sn_official ?s)" "gm_ok (sn_run_ids ?s)" "gm_ok (sn_control ?s)"
    using inv(1-4) by (simp_all add: bind_control_client_def)
  show "d \<in> sn_conns ?s \<longleftrightarrow> (ph(c \<mapsto> Bound client)) d \<noteq> None \<and> (ph(c \<mapsto> Bound client)) d \<noteq> Some Gone" for d
    using inv(5) [of d] assms(2) by (auto simp: bind_control_client_def)
  show "map_of (sn_clients ?s) d = Some cl \<longleftrightarrow> (ph(c \<mapsto> Bound client)) d = Some (Bound cl)" for d cl
    using inv(6) [of d cl] by (auto simp: bind_control_client_def update_conv')
  show "(ph(c \<mapsto> Bound client)) d = Some (Bound cl)" if "map_of (sn_control ?s) cl = Some d" for cl d
    using that inv(7) [of cl d] assms(2) by (auto simp: bind_control_client_def update_conv' split: if_splits)
  show "(ph(c \<mapsto> Bound client)) (os_conn sess) = Some (Bound cl) \<or>
      (ph(c \<mapsto> Bound client)) (os_conn sess) = Some (Registered cl (os_run_id sess))"
    if "map_of (sn_official ?s) cl = Some sess" for cl sess
    using that inv(8) [of cl sess] assms(2) by (auto simp: bind_control_client_def)
  show "\<exists>sess. map_of (sn_official ?s) cl = Some sess \<and> os_run_id sess = r"
    if "map_of (sn_run_ids ?s) r = Some cl" for r cl
    using that inv(9) [of r cl] by (simp add: bind_control_client_def)
qed

lemma register_fields:
  "sn_conns (register_official_session client c ver r s) = sn_conns s"
  "sn_clients (register_official_session client c ver r s) = sn_clients s"
  "sn_control (register_official_session client c ver r s) = sn_control s"
  "sn_official (register_official_session client c ver r s) =
     gm_set client \<lparr>os_run_id = r, os_conn = c, os_version = ver\<rparr> (sn_official s)"
  by (simp_all add: register_official_session_def Let_def split: option.splits)

lemma register_run_ids:
  "map_of (sn_run_ids (register_official_session client c ver r s)) q =
     (if q = r \<and> r \<noteq> [] then Some client
      else case map_of (sn_official s) client of
          None \<Rightarrow> map_of (sn_run_ids s) q
        | Some previous \<Rightarrow>
            if q = os_run_id previous \<and> q \<noteq> r \<and> map_of (sn_run_ids s) q = Some client then None
            else map_of (sn_run_ids s) q)"
  by (auto simp: register_official_session_def Let_def update_conv' delete_conv' split: option.splits)

lemma inv_register:
  assumes "session_inv (s, ph)" and "ph c = Some Tracked"
  shows "session_inv (register_official_session client c ver r s, ph(c \<mapsto> Registered client r))"
  unfolding session_inv_def prod.case register_fields
proof (intro conjI allI impI)
  note inv = session_invD [OF assms(1)]
  let ?ph = "ph(c \<mapsto> Registered client r)" and ?new = "\<lparr>os_run_id = r, os_conn = c, os_version = ver\<rparr>"
  let ?s = "register_official_session client c ver r s"
  show "gm_ok (sn_clients s)" "gm_ok (gm_set client ?new (sn_official s))" "gm_ok (sn_control s)"
    using inv(1-4) by simp_all
  show "gm_ok (sn_run_ids ?s)"
    using inv(3) by (simp add: register_official_session_def Let_def split: option.splits)
  show "d \<in> sn_conns s \<longleftrightarrow> ?ph d \<noteq> None \<and> ?ph d \<noteq> Some Gone" for d
    using inv(5) [of d] assms(2) by auto
  show "map_of (sn_clients s) d = Some cl \<longleftrightarrow> ?ph d = Some (Bound cl)" for d cl
    using inv(6) [of d cl] assms(2) by auto
  show "?ph d = Some (Bound cl)" if "map_of (sn_control s) cl = Some d" for cl d
    using that inv(7) [of cl d] assms(2) by auto
  show "?ph (os_conn sess) = Some (Bound cl) \<or> ?ph (os_conn sess) = Some (Registered cl (os_run_id sess))"
    if "map_of (gm_set client ?new (sn_official s)) cl = Some sess" for cl sess
    using that inv(8) [of cl sess] assms(2) by (auto simp: update_conv' split: if_splits)
  show "\<exists>sess. map_of (gm_set client ?new (sn_official s)) cl = Some sess \<and> os_run_id sess = q"
    if q: "map_of (sn_run_ids ?s) q = Some cl" for q cl
  proof (cases "q = r \<and> r \<noteq> []")
    case True
    with q show ?thesis by (auto simp: register_run_ids update_conv')
  next
    case False
    then have old: "map_of (sn_run_ids s) q = Some cl" using q
      by (auto simp: register_run_ids split: option.splits if_splits)
    then obtain sess where sess: "map_of (sn_official s) cl = Some sess" "os_run_id sess = q" using inv(9) by blast
    have "cl \<noteq> client \<or> q = r"
      using q old sess False by (auto simp: register_run_ids split: if_splits)
    then show ?thesis
    proof
      assume "cl \<noteq> client"
      with sess show ?thesis by (auto simp: update_conv')
    next
      assume "q = r"
      with sess show ?thesis by (auto simp: update_conv')
    qed
  qed
qed

text \<open>What ending a connection leaves in the tables.\<close>

lemma untrack_fields:
  shows "sn_conns (untrack_control c s) = sn_conns s - {c}"
    and "map_of (sn_clients (untrack_control c s)) d = (if d = c then None else map_of (sn_clients s) d)"
  by (simp_all add: untrack_control_def Let_def delete_conv' split: option.splits)

lemma untrack_control_table:
  "map_of (sn_control (untrack_control c s)) cl =
     (if map_of (sn_clients s) c = Some cl \<and> map_of (sn_control s) cl = Some c then None
      else map_of (sn_control s) cl)"
  by (auto simp: untrack_control_def Let_def delete_conv' split: option.splits)

lemma untrack_official:
  "map_of (sn_official (untrack_control c s)) cl =
     (case map_of (sn_official s) cl of
        None \<Rightarrow> None
      | Some sess \<Rightarrow> if map_of (sn_clients s) c = Some cl \<and> os_conn sess = c then None else Some sess)"
  by (auto simp: untrack_control_def Let_def delete_conv' split: option.splits)

lemma untrack_run_ids:
  "map_of (sn_run_ids (untrack_control c s)) r =
     (case map_of (sn_clients s) c of
        None \<Rightarrow> map_of (sn_run_ids s) r
      | Some cl \<Rightarrow>
          (case map_of (sn_official s) cl of
             None \<Rightarrow> map_of (sn_run_ids s) r
           | Some sess \<Rightarrow>
               if os_conn sess = c \<and> os_run_id sess = r then None else map_of (sn_run_ids s) r))"
  by (auto simp: untrack_control_def Let_def delete_conv' split: option.splits)

lemma inv_leave:
  assumes "session_inv (s, ph)" and "ph c = Some Tracked \<or> (\<exists>client. ph c = Some (Bound client))"
  shows "session_inv (untrack_control c s, ph(c \<mapsto> Gone))"
  unfolding session_inv_def prod.case untrack_fields
proof (intro conjI allI impI)
  note inv = session_invD [OF assms(1)]
  let ?ph = "ph(c \<mapsto> Gone)" and ?s = "untrack_control c s"
  show "gm_ok (sn_clients ?s)" "gm_ok (sn_official ?s)" "gm_ok (sn_run_ids ?s)" "gm_ok (sn_control ?s)"
    using inv(1-4) by (simp_all add: untrack_control_def Let_def split: option.splits)
  show "d \<in> sn_conns s - {c} \<longleftrightarrow> ?ph d \<noteq> None \<and> ?ph d \<noteq> Some Gone" for d
    using inv(5) [of d] by auto
  show "(if d = c then None else map_of (sn_clients s) d) = Some cl \<longleftrightarrow> ?ph d = Some (Bound cl)" for d cl
    using inv(6) [of d cl] by auto
  show "?ph d = Some (Bound cl)" if "map_of (sn_control ?s) cl = Some d" for cl d
  proof -
    have old: "map_of (sn_control s) cl = Some d" using that by (auto simp: untrack_control_table split: if_splits)
    then have "ph d = Some (Bound cl)" by (rule inv(7))
    moreover have "d \<noteq> c"
      using that old calculation inv(6) [of c cl] by (auto simp: untrack_control_table)
    ultimately show ?thesis by simp
  qed
  show "?ph (os_conn sess) = Some (Bound cl) \<or> ?ph (os_conn sess) = Some (Registered cl (os_run_id sess))"
    if t: "map_of (sn_official ?s) cl = Some sess" for cl sess
  proof -
    have old: "map_of (sn_official s) cl = Some sess"
      using t by (auto simp: untrack_official split: option.splits if_splits)
    have "os_conn sess \<noteq> c"
    proof
      assume e: "os_conn sess = c"
      with inv(8) [OF old] assms(2) have "ph c = Some (Bound cl)" by auto
      then have "map_of (sn_clients s) c = Some cl" using inv(6) by blast
      with t old e show False by (simp add: untrack_official)
    qed
    with inv(8) [OF old] show ?thesis by simp
  qed
  show "\<exists>sess. map_of (sn_official ?s) cl = Some sess \<and> os_run_id sess = r"
    if t: "map_of (sn_run_ids ?s) r = Some cl" for r cl
  proof -
    have old: "map_of (sn_run_ids s) r = Some cl"
      using t by (auto simp: untrack_run_ids split: option.splits if_splits)
    then obtain sess where sess: "map_of (sn_official s) cl = Some sess" "os_run_id sess = r" using inv(9) by blast
    have "\<not> (map_of (sn_clients s) c = Some cl \<and> os_conn sess = c)"
      using t sess by (auto simp: untrack_run_ids)
    with sess show ?thesis by (simp add: untrack_official)
  qed
qed

lemma session_step_inv: "session_step st st' \<Longrightarrow> session_inv st \<Longrightarrow> session_inv st'"
  by (induction rule: session_step.induct)
    (blast intro: inv_connect inv_register inv_bind inv_leave)+

lemma session_run_inv: "session_step\<^sup>*\<^sup>* st st' \<Longrightarrow> session_inv st \<Longrightarrow> session_inv st'"
  by (induction rule: rtranclp_induct) (auto intro: session_step_inv)

subsection \<open>Takeover\<close>

text \<open>When a replaced connection ends, the tables of the connection that replaced it are kept.\<close>

lemma takeover_kept:
  assumes "map_of (sn_clients s) old = Some client" and "map_of (sn_control s) client = Some new"
    and "map_of (sn_official s) client = Some sess" and "os_conn sess = new" and "old \<noteq> new"
  shows "map_of (sn_control (untrack_control old s)) client = Some new \<and>
    map_of (sn_official (untrack_control old s)) client = Some sess \<and>
    sn_run_ids (untrack_control old s) = sn_run_ids s"
  using assms
  by (auto simp: untrack_control_def Let_def delete_conv')

text \<open>
  Registration and binding are two separate locked sections. When two logins of one client
  interleave between them, the one bound last is active but the other's registration is the one
  that is kept, and it goes when the replaced connection ends.
\<close>

definition raced_sessions :: "string \<Rightarrow> string \<Rightarrow> string \<Rightarrow> sessions" where
  "raced_sessions client r r' =
     untrack_control 1 (fst (bind_control_client 0 client (fst (bind_control_client 1 client
       (register_official_session client 1 VersionV1 r' (register_official_session client 0 VersionV1 r
         (track_control 1 (track_control 0 no_sessions))))))))"

definition raced_phases :: "string \<Rightarrow> conn \<Rightarrow> phase option" where
  "raced_phases client = (\<lambda>c. None)(0 \<mapsto> Bound client, 1 \<mapsto> Gone)"

lemma raced_reachable:
  "session_step\<^sup>*\<^sup>* (no_sessions, \<lambda>c. None) (raced_sessions client r r', raced_phases client)"
proof -
  let ?p0 = "\<lambda>c :: conn. None :: phase option"
  let ?p1 = "?p0(0 \<mapsto> Tracked)" let ?s1 = "track_control 0 no_sessions"
  let ?p2 = "?p1(1 \<mapsto> Tracked)" let ?s2 = "track_control 1 ?s1"
  let ?p3 = "?p2(0 \<mapsto> Registered client r)" let ?s3 = "register_official_session client 0 VersionV1 r ?s2"
  let ?p4 = "?p3(1 \<mapsto> Registered client r')" let ?s4 = "register_official_session client 1 VersionV1 r' ?s3"
  let ?p5 = "?p4(1 \<mapsto> Bound client)" let ?s5 = "fst (bind_control_client 1 client ?s4)"
  let ?p6 = "?p5(0 \<mapsto> Bound client)" let ?s6 = "fst (bind_control_client 0 client ?s5)"
  let ?p7 = "?p6(1 \<mapsto> Gone)" let ?s7 = "untrack_control 1 ?s6"
  have 1: "session_step (no_sessions, ?p0) (?s1, ?p1)" by (rule connect) simp
  have 2: "session_step (?s1, ?p1) (?s2, ?p2)" by (rule connect) simp
  have 3: "session_step (?s2, ?p2) (?s3, ?p3)" by (rule register) simp
  have 4: "session_step (?s3, ?p3) (?s4, ?p4)" by (rule register) simp
  have 5: "session_step (?s4, ?p4) (?s5, ?p5)" by (rule bind_official [where run_id = r']) simp
  have 6: "session_step (?s5, ?p5) (?s6, ?p6)" by (rule bind_official [where run_id = r]) simp
  have 7: "session_step (?s6, ?p6) (?s7, ?p7)" by (rule leave_bound [where client = client]) simp
  have "session_step\<^sup>*\<^sup>* (no_sessions, ?p0) (?s7, ?p7)"
    using 1 2 3 4 5 6 7 by (meson converse_rtranclp_into_rtranclp rtranclp.rtrancl_refl)
  moreover have "?p7 = raced_phases client" by (auto simp: raced_phases_def)
  ultimately show ?thesis by (simp add: raced_sessions_def)
qed

lemma raced_result:
  "map_of (sn_control (raced_sessions client r r')) client = Some 0"
  "map_of (sn_official (raced_sessions client r r')) client = None"
  by (simp_all add: raced_sessions_def untrack_control_table untrack_official register_fields
      bind_control_client_def update_conv' track_control_def no_sessions_def)

text \<open>Two clients with the same run identifier share its index entry: the second takes it over,
  and when it ends the first can no longer be found by it.\<close>

lemma shared_run_id:
  assumes "r \<noteq> []" and "client \<noteq> client'" and "map_of (sn_official s) client = Some sess" and "os_run_id sess = r"
    and "map_of (sn_official s) client' = None" and "map_of (sn_clients s) c' = None"
  shows "session_by_run_id r (register_official_session client' c' ver r s) =
      Some (client', \<lparr>os_run_id = r, os_conn = c', os_version = ver\<rparr>)"
    and "session_by_run_id r (untrack_control c' (fst (bind_control_client c' client'
      (register_official_session client' c' ver r s)))) = None"
  using assms
  by (simp_all add: session_by_run_id_def register_run_ids register_fields untrack_run_ids
      bind_control_client_def update_conv')

end
