(* ===== verification/Server_Login.thy ===== *)
theory Server_Login
  imports Core_Config Wire_Guard
begin

section \<open>Login (\<open>core/server/login.go\<close>, \<open>engine.go\<close>)\<close>

text \<open>
  Credentials are compared as SHA-256 digests, or for official clients as the MD5 material of
  token and time stamp. The hash functions, the JSON decoder, the address parser and the random
  run identifier are parameters. Strings of the code are byte strings.
\<close>

subsection \<open>Time window and replay cache\<close>

definition int64_min :: int where "int64_min = - (2 ^ 63)"
definition int64_max :: int where "int64_max = 2 ^ 63 - 1"

text \<open>\<open>time.Since\<close> saturates; the negation of a 64-bit integer wraps at its minimum.\<close>

definition time_since :: "int \<Rightarrow> int \<Rightarrow> int" where
  "time_since now t = (if now - t < int64_min then int64_min else if int64_max < now - t then int64_max else now - t)"

definition neg64 :: "int \<Rightarrow> int" where
  "neg64 d = (if d = int64_min then int64_min else - d)"

definition default_login_time_window :: int where "default_login_time_window = 120 * second"
definition default_replay_cache_size :: int where "default_replay_cache_size = 64"

type_synonym run_key = "string \<times> int"

record login_chain =
  lc_window :: int
  lc_recent :: "run_key set"
  lc_order :: "run_key list"
  lc_max :: int

definition new_login_chain :: "int \<Rightarrow> int \<Rightarrow> login_chain" where
  "new_login_chain window cap =
     \<lparr>lc_window = (if window \<le> 0 then default_login_time_window else window), lc_recent = {}, lc_order = [],
      lc_max = (if cap \<le> 0 then default_replay_cache_size else cap)\<rparr>"

text \<open>The clock in nanoseconds, the material in milliseconds; true is acceptance.\<close>

definition check_time_window :: "int \<Rightarrow> int \<Rightarrow> login_chain \<Rightarrow> bool" where
  "check_time_window now millis chain =
     (let skew = time_since now (millis * 1000000); skew1 = (if skew < 0 then neg64 skew else skew)
      in \<not> lc_window chain < skew1)"

text \<open>The eviction reads the first element of the order; of an empty order that is a panic.\<close>

definition check_replay :: "string \<Rightarrow> int \<Rightarrow> login_chain \<Rightarrow> (login_chain \<times> bool) option" where
  "check_replay run_id millis chain =
     (let key = (run_id, millis) in
      if key \<in> lc_recent chain then Some (chain, False)
      else if lc_max chain \<le> int (card (lc_recent chain))
      then (case lc_order chain of
          [] \<Rightarrow> None
        | k # ks \<Rightarrow> Some (chain\<lparr>lc_recent := insert key (lc_recent chain - {k}), lc_order := ks @ [key]\<rparr>, True))
      else Some (chain\<lparr>lc_recent := insert key (lc_recent chain), lc_order := lc_order chain @ [key]\<rparr>, True))"

subsection \<open>Credentials\<close>

record auth_fns =
  af_sha256 :: "bytes \<Rightarrow> bytes"
  af_md5 :: "bytes \<Rightarrow> bytes"

definition digest_token :: "auth_fns \<Rightarrow> string \<Rightarrow> string" where
  "digest_token A token = hex_string (af_sha256 A (bytes_of token))"

definition digest_equal :: "string \<Rightarrow> string \<Rightarrow> bool" where
  "digest_equal provided stored \<longleftrightarrow> provided = stored"

definition official_privilege_key :: "auth_fns \<Rightarrow> string \<Rightarrow> int \<Rightarrow> string" where
  "official_privilege_key A token timestamp = hex_string (af_md5 A (bytes_of (token @ itoa timestamp)))"

fun match_credentials ::
  "auth_fns \<Rightarrow> string \<Rightarrow> string \<Rightarrow> int \<Rightarrow> client_credential list \<Rightarrow> bool \<times> bool" where
  "match_credentials A client material timestamp [] = (False, False)"
| "match_credentials A client material timestamp (c # cs) =
     (if cc_client_id c \<noteq> client then match_credentials A client material timestamp cs
      else if cc_token c \<noteq> [] \<and> digest_equal (digest_token A material) (cc_token c) then (True, False)
      else if cc_compat_token c \<noteq> [] \<and>
          digest_equal (official_privilege_key A (cc_compat_token c) timestamp) material then (True, True)
      else match_credentials A client material timestamp cs)"

definition credentials_match ::
  "auth_fns \<Rightarrow> client_credential list \<Rightarrow> string \<Rightarrow> string \<Rightarrow> int \<Rightarrow> bool \<times> bool" where
  "credentials_match A creds client material timestamp =
     (if client = [] \<or> material = [] then (False, False)
      else match_credentials A client material timestamp creds)"

definition compat_token :: "client_credential list \<Rightarrow> string \<Rightarrow> string option" where
  "compat_token creds client =
     map_option cc_compat_token (find (\<lambda>c. cc_client_id c = client \<and> cc_compat_token c \<noteq> []) creds)"

subsection \<open>Handling a login\<close>

record login_payload =
  lp_client_id :: string
  lp_token :: string
  lp_run_id :: string
  lp_timestamp :: int

datatype login_failure = LoginBadPayload | LoginDenied | LoginWriteFailed

record login_response =
  lr_run_id :: string
  lr_failure :: "login_failure option"

text \<open>The response that is written, and the result: whether the official chain matched, and the
  run identifier. \<open>write_ok\<close> is whether the write of the response succeeds.\<close>

definition handle_login ::
  "auth_fns \<Rightarrow> (bytes \<Rightarrow> login_payload option) \<Rightarrow> string \<Rightarrow> bool \<Rightarrow> client_credential list \<Rightarrow> bytes \<Rightarrow>
   login_response \<times> (login_failure + bool \<times> string)" where
  "handle_login A unmarshal fresh write_ok creds payload =
     (case unmarshal payload of
        None \<Rightarrow> (\<lparr>lr_run_id = [], lr_failure = Some LoginBadPayload\<rparr>, Inl LoginBadPayload)
      | Some request \<Rightarrow>
          (case credentials_match A creds (lp_client_id request) (lp_token request) (lp_timestamp request) of
             (False, _) \<Rightarrow> (\<lparr>lr_run_id = [], lr_failure = Some LoginDenied\<rparr>, Inl LoginDenied)
           | (True, official) \<Rightarrow>
               (let run_id = (if lp_run_id request = [] then fresh else lp_run_id request);
                    resp = \<lparr>lr_run_id = run_id, lr_failure = None\<rparr>
                in if write_ok then (resp, Inr (official, run_id)) else (resp, Inl LoginWriteFailed))))"

subsection \<open>Declarations of work connections\<close>

record work_conn_request =
  wr_client_id :: string
  wr_token :: string
  wr_privilege_key :: string
  wr_timestamp :: int
  wr_run_id :: string
  wr_proxy :: string
  wr_target :: string

record work_declaration =
  wd_client_id :: string
  wd_token :: string
  wd_timestamp :: int
  wd_proxy :: string
  wd_target :: addr_port
  wd_official :: bool
  wd_run_id :: string

datatype declaration_error = DeclUndecodable | DeclNoAuth | DeclNoProxy | DeclBadTarget

definition parse_work_declaration ::
  "(bytes \<Rightarrow> work_conn_request option) \<Rightarrow> (string \<Rightarrow> addr_port option) \<Rightarrow> bytes \<Rightarrow>
   declaration_error + work_declaration" where
  "parse_work_declaration unmarshal parse_addr payload =
     (case unmarshal payload of
        None \<Rightarrow> Inl DeclUndecodable
      | Some r \<Rightarrow>
          if wr_client_id r = [] \<and> wr_run_id r \<noteq> []
          then Inr \<lparr>wd_client_id = [], wd_token = wr_privilege_key r, wd_timestamp = wr_timestamp r, wd_proxy = [],
            wd_target = zero_addr_port, wd_official = True, wd_run_id = wr_run_id r\<rparr>
          else if wr_client_id r = [] \<or> wr_token r = [] then Inl DeclNoAuth
          else if wr_proxy r = [] then Inl DeclNoProxy
          else (case parse_addr (wr_target r) of
              None \<Rightarrow> Inl DeclBadTarget
            | Some target \<Rightarrow> Inr \<lparr>wd_client_id = wr_client_id r, wd_token = wr_token r, wd_timestamp = wr_timestamp r,
                wd_proxy = wr_proxy r, wd_target = target, wd_official = False, wd_run_id = []\<rparr>))"

subsection \<open>Laws\<close>

lemma match_credentials_iff:
  "fst (match_credentials A client material timestamp cs) \<longleftrightarrow>
   (\<exists>c \<in> set cs. cc_client_id c = client \<and>
      (cc_token c \<noteq> [] \<and> cc_token c = digest_token A material \<or>
       cc_compat_token c \<noteq> [] \<and> official_privilege_key A (cc_compat_token c) timestamp = material))"
  by (induction cs) (auto simp: digest_equal_def)

lemma match_credentials_official:
  "snd (match_credentials A client material timestamp cs) \<Longrightarrow> compat_token cs client \<noteq> None"
  by (induction cs) (auto simp: compat_token_def split: if_splits)

text \<open>Within the range of a duration the window is the distance of the clocks; a time stamp so far in
  the future that the difference saturates is accepted.\<close>

lemma check_time_window_near:
  assumes "int64_min < now - millis * 1000000" and "now - millis * 1000000 \<le> int64_max"
  shows "check_time_window now millis chain \<longleftrightarrow> \<bar>now - millis * 1000000\<bar> \<le> lc_window chain"
  using assms by (auto simp: check_time_window_def time_since_def neg64_def Let_def)

lemma check_time_window_far:
  assumes "now - millis * 1000000 \<le> int64_min" and "0 \<le> lc_window chain"
  shows "check_time_window now millis chain"
proof -
  have "time_since now (millis * 1000000) = int64_min"
    using assms(1) by (auto simp: time_since_def int64_min_def int64_max_def)
  with assms(2) show ?thesis by (simp add: check_time_window_def neg64_def int64_min_def)
qed

text \<open>The cache holds the keys accepted last, in their order.\<close>

definition chain_inv :: "run_key list \<Rightarrow> login_chain \<Rightarrow> bool" where
  "chain_inv taken chain \<longleftrightarrow> 1 \<le> lc_max chain \<and> distinct (lc_order chain) \<and>
     lc_recent chain = set (lc_order chain) \<and>
     lc_order chain = drop (length taken - nat (lc_max chain)) taken"

lemma chain_inv_new: "chain_inv [] (new_login_chain window cap)"
  by (simp add: chain_inv_def new_login_chain_def default_replay_cache_size_def)

lemma check_replay_step:
  assumes "chain_inv taken chain"
  shows "\<exists>chain' ok. check_replay run_id millis chain = Some (chain', ok) \<and>
    (ok \<longleftrightarrow> (run_id, millis) \<notin> set (drop (length taken - nat (lc_max chain)) taken)) \<and>
    chain_inv (if ok then taken @ [(run_id, millis)] else taken) chain' \<and> lc_max chain' = lc_max chain"
proof -
  let ?key = "(run_id, millis)" and ?last = "drop (length taken - nat (lc_max chain)) taken"
  have order: "lc_recent chain = set (lc_order chain)" "distinct (lc_order chain)" "1 \<le> lc_max chain"
    "lc_order chain = ?last"
    using assms unfolding chain_inv_def by blast+
  have card: "card (lc_recent chain) = length (lc_order chain)" using order(1,2) by (simp add: distinct_card)
  show ?thesis
  proof (cases "?key \<in> lc_recent chain")
    case True
    then have "check_replay run_id millis chain = Some (chain, False)" by (simp add: check_replay_def Let_def)
    moreover have "?key \<in> set ?last" using True order(1,4) by metis
    ultimately show ?thesis using assms by auto
  next
    case new: False
    then have fresh: "?key \<notin> set ?last" "?key \<notin> set (lc_order chain)" using order(1,4) by metis+
    show ?thesis
    proof (cases "lc_max chain \<le> int (length (lc_order chain))")
      case True
      then obtain k ks where k: "lc_order chain = k # ks" using order(3) by (cases "lc_order chain") auto
      let ?c = "chain\<lparr>lc_recent := insert ?key (lc_recent chain - {k}), lc_order := ks @ [?key]\<rparr>"
      have r: "check_replay run_id millis chain = Some (?c, True)"
        using new True k card by (simp add: check_replay_def Let_def)
      have "length (lc_order chain) \<le> length taken" unfolding order(4) by simp
      then have len: "nat (lc_max chain) \<le> length taken" using True by simp
      have "ks = tl ?last" using order(4) k by (metis list.sel(3))
      also have "\<dots> = drop (Suc (length taken) - nat (lc_max chain)) taken"
        using len by (simp add: tl_drop drop_Suc Suc_diff_le)
      finally have ks: "ks = drop (Suc (length taken) - nat (lc_max chain)) taken" .
      have "chain_inv (taken @ [?key]) ?c"
        unfolding chain_inv_def using order(1-3) k fresh(2) ks len by auto
      with r fresh(1) show ?thesis by auto
    next
      case False
      let ?c = "chain\<lparr>lc_recent := insert ?key (lc_recent chain), lc_order := lc_order chain @ [?key]\<rparr>"
      have r: "check_replay run_id millis chain = Some (?c, True)"
        using new False card by (simp add: check_replay_def Let_def)
      have "length (lc_order chain) = length taken - (length taken - nat (lc_max chain))"
        unfolding order(4) by simp
      then have short: "length taken < nat (lc_max chain)" using False order(3) by linarith
      then have "lc_order chain = taken" using order(4) by simp
      then have "chain_inv (taken @ [?key]) ?c"
        unfolding chain_inv_def using order(1-3) fresh(2) short by auto
      with r fresh(1) show ?thesis by auto
    qed
  qed
qed

end
