(* ===== verification/Http_Router.thy ===== *)
theory Http_Router
  imports Core_Config "HOL-Library.Sublist"
begin

section \<open>HTTP routing (\<open>core/internal/proxy/http.go\<close>)\<close>

text \<open>
  A routing table is built from the routes of one entry port: every route is normalised, no two
  may have the same host and path, and the table is sorted by falling length of the path, so that
  the first match is the longest one. \<open>lower\<close> is \<open>strings.ToLower\<close>.
\<close>

record http_route =
  hr_proxy :: string
  hr_host :: string
  hr_path :: string

datatype route_error = RouteInvalid | RouteConflict

definition normalize_route :: "(string \<Rightarrow> string) \<Rightarrow> http_route \<Rightarrow> route_error + http_route" where
  "normalize_route lower r =
     (if hr_proxy r = [] then Inl RouteInvalid
      else if hr_host r = [] then Inl RouteInvalid
      else if hr_path r = [] then Inr \<lparr>hr_proxy = hr_proxy r, hr_host = lower (hr_host r), hr_path = ''/''\<rparr>
      else if hd (hr_path r) \<noteq> CHR ''/'' then Inl RouteInvalid
      else Inr \<lparr>hr_proxy = hr_proxy r, hr_host = lower (hr_host r), hr_path = hr_path r\<rparr>)"

fun normalize_routes :: "(string \<Rightarrow> string) \<Rightarrow> http_route list \<Rightarrow> route_error + http_route list" where
  "normalize_routes lower [] = Inr []"
| "normalize_routes lower (r # rs) =
     (case normalize_route lower r of
        Inl e \<Rightarrow> Inl e
      | Inr r' \<Rightarrow> (case normalize_routes lower rs of Inl e \<Rightarrow> Inl e | Inr rs' \<Rightarrow> Inr (r' # rs')))"

definition conflict_key :: "http_route \<Rightarrow> string" where
  "conflict_key r = hr_host r @ [CHR 0x00] @ hr_path r"

fun detect_route_conflict :: "string set \<Rightarrow> http_route list \<Rightarrow> bool" where
  "detect_route_conflict seen [] = False"
| "detect_route_conflict seen (r # rs) =
     (conflict_key r \<in> seen \<or> detect_route_conflict (insert (conflict_key r) seen) rs)"

text \<open>\<open>sort.SliceStable\<close> by falling length of the path.\<close>

definition sort_routes :: "http_route list \<Rightarrow> http_route list" where
  "sort_routes = sort_key (\<lambda>r. - int (length (hr_path r)))"

definition new_http_router :: "(string \<Rightarrow> string) \<Rightarrow> http_route list \<Rightarrow> route_error + http_route list" where
  "new_http_router lower rs =
     (case normalize_routes lower rs of
        Inl e \<Rightarrow> Inl e
      | Inr ns \<Rightarrow> if detect_route_conflict {} ns then Inl RouteConflict else Inr (sort_routes ns))"

definition matches_path_prefix :: "string \<Rightarrow> string \<Rightarrow> bool" where
  "matches_path_prefix path pre =
     (if pre = ''/'' then True
      else if \<not> prefix pre path then False
      else length path = length pre \<or> path ! length pre = CHR ''/'')"

fun select_loop :: "string \<Rightarrow> string \<Rightarrow> http_route list \<Rightarrow> string option" where
  "select_loop host path [] = None"
| "select_loop host path (r # rs) =
     (if hr_host r \<noteq> host then select_loop host path rs
      else if matches_path_prefix path (hr_path r) then Some (hr_proxy r)
      else select_loop host path rs)"

definition select_route :: "(string \<Rightarrow> string) \<Rightarrow> http_route list \<Rightarrow> string \<Rightarrow> string \<Rightarrow> string option" where
  "select_route lower table host path =
     select_loop (lower host) (if path = [] then ''/'' else path) table"

subsection \<open>The table\<close>

lemma normalize_route_path:
  "normalize_route lower r = Inr n \<Longrightarrow> hr_path n \<noteq> [] \<and> hd (hr_path n) = CHR ''/'' \<and>
   hr_host n = lower (hr_host r) \<and> hr_proxy n = hr_proxy r \<and> hr_path n = (if hr_path r = [] then ''/'' else hr_path r)"
  by (auto simp: normalize_route_def split: if_splits)

lemma normalize_routes_Inr:
  "normalize_routes lower rs = Inr ns \<longleftrightarrow> map (normalize_route lower) rs = map Inr ns"
proof (induction rs arbitrary: ns)
  case Nil
  then show ?case by auto
next
  case (Cons r rs)
  show ?case
  proof (cases "normalize_route lower r")
    case (Inl e)
    then show ?thesis by (cases ns) auto
  next
    case (Inr n)
    then show ?thesis using Cons.IH by (cases ns; cases "normalize_routes lower rs") auto
  qed
qed

lemma detect_route_conflict_iff:
  "\<not> detect_route_conflict seen rs \<longleftrightarrow>
   distinct (map conflict_key rs) \<and> conflict_key ` set rs \<inter> seen = {}"
  by (induction seen rs rule: detect_route_conflict.induct) auto

lemma table_distinct:
  assumes "\<not> detect_route_conflict {} ns" and "r \<in> set ns" and "r' \<in> set ns"
    and "hr_host r = hr_host r'" and "hr_path r = hr_path r'"
  shows "r = r'"
proof -
  have "inj_on conflict_key (set ns)"
    using assms(1) by (simp add: detect_route_conflict_iff distinct_map)
  moreover have "conflict_key r = conflict_key r'" using assms(4,5) by (simp add: conflict_key_def)
  ultimately show ?thesis using assms(2,3) by (simp add: inj_on_def)
qed

lemma set_sort_routes [simp]: "set (sort_routes rs) = set rs"
  by (simp add: sort_routes_def)

lemma sorted_sort_routes: "sorted_wrt (\<lambda>a b. length (hr_path b) \<le> length (hr_path a)) (sort_routes rs)"
proof -
  have "sorted (map (\<lambda>r. - int (length (hr_path r))) (sort_routes rs))" by (simp add: sort_routes_def)
  then show ?thesis by (simp add: sorted_wrt_map)
qed

subsection \<open>Selection\<close>

definition route_matches :: "string \<Rightarrow> string \<Rightarrow> http_route \<Rightarrow> bool" where
  "route_matches host path r \<longleftrightarrow> hr_host r = host \<and> matches_path_prefix path (hr_path r)"

lemma select_loop_find: "select_loop host path t = map_option hr_proxy (find (route_matches host path) t)"
  by (induction t) (auto simp: route_matches_def)

lemma find_sorted_best:
  assumes "sorted_wrt (\<lambda>a b. m b \<le> (m a :: nat)) t" and "find P t = Some r" and "s \<in> set t" and "P s"
  shows "m s \<le> m r"
  using assms by (induction t) (auto split: if_splits)

text \<open>Two matching prefixes of the same length are equal.\<close>

lemma same_length_prefix:
  assumes "matches_path_prefix path p" and "matches_path_prefix path q" and "length p = length q"
    and "p \<noteq> []" and "hd p = CHR ''/''" and "q \<noteq> []" and "hd q = CHR ''/''"
  shows "p = q"
proof (cases "length p = 1")
  case True
  then have "length q = 1" using assms(3) by simp
  with True assms(4-7) show ?thesis by (cases p; cases q) auto
next
  case False
  then have "prefix p path" "prefix q path"
    using assms(1,2,3) by (auto simp: matches_path_prefix_def split: if_splits)
  with assms(3) show ?thesis by (metis prefix_order.eq_iff prefix_length_prefix le_refl)
qed

text \<open>The selected proxy is that of the longest matching route, which is unique.\<close>

lemma select_route_longest:
  assumes "new_http_router lower rs = Inr t"
  shows "select_route lower t host path = Some p \<longleftrightarrow>
    (\<exists>r \<in> set t. hr_proxy r = p \<and> route_matches (lower host) (if path = [] then ''/'' else path) r \<and>
      (\<forall>s \<in> set t. route_matches (lower host) (if path = [] then ''/'' else path) s \<longrightarrow>
         s = r \<or> length (hr_path s) < length (hr_path r)))"
    (is "?l = ?r")
proof -
  let ?path = "if path = [] then ''/'' else path" and ?host = "lower host"
  obtain ns where ns: "normalize_routes lower rs = Inr ns" "\<not> detect_route_conflict {} ns" "t = sort_routes ns"
    using assms by (auto simp: new_http_router_def split: sum.splits if_splits)
  have slash: "hr_path r \<noteq> [] \<and> hd (hr_path r) = CHR ''/''" if "r \<in> set ns" for r
  proof -
    have "Inr r \<in> set (map (normalize_route lower) rs)"
      using ns(1) that by (simp add: normalize_routes_Inr)
    then obtain r0 where "normalize_route lower r0 = Inr r" by auto
    then show ?thesis using normalize_route_path by blast
  qed
  have uniq: "s = r" if "r \<in> set t" "s \<in> set t" "route_matches ?host ?path r" "route_matches ?host ?path s"
    "length (hr_path s) = length (hr_path r)" for r s
  proof -
    have "hr_path s = hr_path r"
      using same_length_prefix [of ?path "hr_path s" "hr_path r"] that slash ns(3) by (auto simp: route_matches_def)
    with table_distinct [OF ns(2)] that ns(3) show ?thesis by (auto simp: route_matches_def)
  qed
  have best: "length (hr_path s) \<le> length (hr_path r)"
    if "find (route_matches ?host ?path) t = Some r" "s \<in> set t" "route_matches ?host ?path s" for r s
    using find_sorted_best [of "\<lambda>r. length (hr_path r)" t] sorted_sort_routes that ns(3) by blast
  show ?thesis
  proof
    assume ?l
    then obtain r where r: "find (route_matches ?host ?path) t = Some r" "hr_proxy r = p"
      by (auto simp: select_route_def select_loop_find)
    note fd = find_SomeD [OF r(1)]
    have "s = r \<or> length (hr_path s) < length (hr_path r)" if "s \<in> set t" "route_matches ?host ?path s" for s
      using best [OF r(1) that] uniq [of r s] fd that by fastforce
    with fd r(2) show ?r by blast
  next
    assume ?r
    then obtain r where r: "r \<in> set t" "hr_proxy r = p" "route_matches ?host ?path r"
      "\<And>s. s \<in> set t \<Longrightarrow> route_matches ?host ?path s \<Longrightarrow> s = r \<or> length (hr_path s) < length (hr_path r)"
      by blast
    obtain r' where r': "find (route_matches ?host ?path) t = Some r'"
      using r(1,3) find_None_iff [of "route_matches ?host ?path" t] by fastforce
    have "r' = r" using r(4) [of r'] find_SomeD [OF r'] best [OF r' r(1,3)] by auto
    with r' r(2) show ?l by (simp add: select_route_def select_loop_find)
  qed
qed

text \<open>The order in which the routes are listed does not matter.\<close>

lemma new_http_router_set:
  assumes "new_http_router lower rs = Inr t" and "new_http_router lower rs' = Inr t'" and "set rs = set rs'"
  shows "set t = set t'"
proof -
  obtain ns where ns: "map (normalize_route lower) rs = map Inr ns" "t = sort_routes ns"
    using assms(1) by (auto simp: new_http_router_def normalize_routes_Inr split: sum.splits if_splits)
  obtain ns' where ns': "map (normalize_route lower) rs' = map Inr ns'" "t' = sort_routes ns'"
    using assms(2) by (auto simp: new_http_router_def normalize_routes_Inr split: sum.splits if_splits)
  have "Inr ` set ns = normalize_route lower ` set rs" using arg_cong [OF ns(1), of set] by simp
  moreover have "Inr ` set ns' = normalize_route lower ` set rs'" using arg_cong [OF ns'(1), of set] by simp
  ultimately have "(Inr :: http_route \<Rightarrow> route_error + http_route) ` set ns = Inr ` set ns'" using assms(3) by simp
  then have "set ns = set ns'" by (rule inj_image_eq_iff [THEN iffD1, rotated]) simp
  with ns ns' show ?thesis by simp
qed

end
