(* ===== verification/Proxy_Registry.thy ===== *)
theory Proxy_Registry
  imports Http_Router Config_Laws Go_Map
begin

section \<open>Proxy registry and route tables (\<open>registry.go\<close>; \<open>engine.go\<close>: \<open>publishRegistry\<close>)\<close>

text \<open>
  The registry answers at run time which client owns a proxy and which targets it may reach. It is
  replaced as a whole, so the view is a value.
\<close>

record registry_binding =
  rb_name :: string
  rb_owner :: string
  rb_targets :: "addr_port list"
  rb_unrestricted :: bool

type_synonym registry = "(string, registry_binding) gomap"

definition binding_target_allowed :: "registry_binding \<Rightarrow> addr_port \<Rightarrow> bool" where
  "binding_target_allowed b target =
     (if \<not> addr_is_valid (ap_addr target) then False
      else if rb_unrestricted b then True
      else target \<in> set (rb_targets b))"

definition registry_binding_of :: "string \<Rightarrow> registry \<Rightarrow> registry_binding option" where
  "registry_binding_of name reg = map_of reg name"

definition target_allowed :: "registry \<Rightarrow> string \<Rightarrow> addr_port \<Rightarrow> bool" where
  "target_allowed reg name target =
     (case registry_binding_of name reg of None \<Rightarrow> False | Some b \<Rightarrow> binding_target_allowed b target)"

definition proxy_belongs_to :: "registry \<Rightarrow> string \<Rightarrow> string \<Rightarrow> bool" where
  "proxy_belongs_to reg name client =
     (case registry_binding_of name reg of None \<Rightarrow> False | Some b \<Rightarrow> rb_owner b \<noteq> [] \<and> rb_owner b = client)"

definition proxy_owner :: "registry \<Rightarrow> string \<Rightarrow> string" where
  "proxy_owner reg name = (case registry_binding_of name reg of None \<Rightarrow> [] | Some b \<Rightarrow> rb_owner b)"

subsection \<open>From a configuration\<close>

definition publish_registry :: "server_config \<Rightarrow> registry" where
  "publish_registry c =
     fold (\<lambda>(t, b) reg. gm_set (pb_name b)
         \<lparr>rb_name = pb_name b, rb_owner = pb_client b, rb_targets = pb_targets b, rb_unrestricted = False\<rparr> reg)
       (all_bindings c) []"

definition binding_http_routes :: "http_binding \<Rightarrow> http_route list" where
  "binding_http_routes b = map (\<lambda>h. \<lparr>hr_proxy = pb_name b, hr_host = h, hr_path = hb_path b\<rparr>) (hb_hosts b)"

text \<open>The routes of the bindings, grouped by entry port.\<close>

fun group_routes :: "(int \<times> http_route list) list \<Rightarrow> (int, http_route list) gomap \<Rightarrow> (int, http_route list) gomap" where
  "group_routes [] g = g"
| "group_routes ((port, rs) # items) g =
     group_routes items (if rs = [] then g else gm_set port (gm_get [] port g @ rs) g)"

definition config_route_items :: "server_config \<Rightarrow> (int \<times> http_route list) list" where
  "config_route_items c = map (\<lambda>b. (pb_port b, binding_http_routes b)) (scf_http c)"

text \<open>A port whose table cannot be built gets none.\<close>

definition build_routers ::
  "(string \<Rightarrow> string) \<Rightarrow> (int, http_route list) gomap \<Rightarrow> (int, http_route list) gomap" where
  "build_routers lower grouped =
     concat (map (\<lambda>(port, rs). case new_http_router lower rs of Inl _ \<Rightarrow> [] | Inr t \<Rightarrow> [(port, t)]) grouped)"

definition publish_http_routes :: "(string \<Rightarrow> string) \<Rightarrow> server_config \<Rightarrow> (int, http_route list) gomap" where
  "publish_http_routes lower c = build_routers lower (group_routes (config_route_items c) [])"

definition select_http_proxy ::
  "(string \<Rightarrow> string) \<Rightarrow> (int, http_route list) gomap \<Rightarrow> int \<Rightarrow> string \<Rightarrow> string \<Rightarrow> string option" where
  "select_http_proxy lower routes port host path =
     (case map_of routes port of None \<Rightarrow> None | Some t \<Rightarrow> select_route lower t host path)"

subsection \<open>Laws\<close>

lemma map_of_publish:
  "map_of (fold (\<lambda>(t, b) reg. gm_set (pb_name b) (f b) reg) bs reg) n =
   (case find (\<lambda>(t, b). pb_name b = n) (rev bs) of None \<Rightarrow> map_of reg n | Some (t, b) \<Rightarrow> Some (f b))"
proof (induction bs arbitrary: reg rule: rev_induct)
  case Nil
  then show ?case by simp
next
  case (snoc x bs)
  then show ?case by (cases x) (simp add: update_conv')
qed

lemma publish_registry_spec:
  assumes "distinct (map (pb_name \<circ> snd) (all_bindings c))" and "(t, b) \<in> set (all_bindings c)"
  shows "registry_binding_of (pb_name b) (publish_registry c) =
    Some \<lparr>rb_name = pb_name b, rb_owner = pb_client b, rb_targets = pb_targets b, rb_unrestricted = False\<rparr>"
proof -
  have "find (\<lambda>(t', b'). pb_name b' = pb_name b) (rev (all_bindings c)) = Some (t, b)"
  proof (rule find_unique)
    fix y
    assume y: "y \<in> set (rev (all_bindings c))" "case y of (t', b') \<Rightarrow> pb_name b' = pb_name b"
    from assms(1) have "inj_on (pb_name \<circ> snd) (set (all_bindings c))" by (simp add: distinct_map)
    moreover have "(pb_name \<circ> snd) y = (pb_name \<circ> snd) (t, b)" using y(2) by (cases y) simp
    ultimately show "y = (t, b)" using y(1) assms(2) by (simp only: inj_on_def set_rev)
  qed (use assms(2) in auto)
  then show ?thesis
    by (simp add: registry_binding_of_def publish_registry_def
        map_of_publish [where f = "\<lambda>b. \<lparr>rb_name = pb_name b, rb_owner = pb_client b, rb_targets = pb_targets b, rb_unrestricted = False\<rparr>"])
qed

lemma gm_get_group:
  "gm_get [] port (group_routes items g) = gm_get [] port g @ concat (map snd (filter (\<lambda>i. fst i = port) items))"
  by (induction items g rule: group_routes.induct) auto

lemma gm_ok_group [simp]: "gm_ok g \<Longrightarrow> gm_ok (group_routes items g)"
  by (induction items g rule: group_routes.induct) auto

lemma gm_tight_group: "gm_tight g \<Longrightarrow> gm_tight (group_routes items g)"
proof (induction items g rule: group_routes.induct)
  case (1 g)
  then show ?case by simp
next
  case (2 port rs items g)
  have "gm_tight (gm_set port (gm_get [] port g @ rs) g)" if "rs \<noteq> []"
    using gm_tight_store [OF "2.prems", of port "gm_get [] port g @ rs"] that by (simp add: gm_store_def)
  with 2 show ?case by simp
qed

lemma build_routers_keys: "fst ` set (build_routers lower g) \<subseteq> fst ` set g"
  by (force simp: build_routers_def split: sum.splits)

lemma map_of_build:
  assumes "gm_ok g"
  shows "map_of (build_routers lower g) port =
    (case map_of g port of None \<Rightarrow> None
     | Some rs \<Rightarrow> (case new_http_router lower rs of Inl _ \<Rightarrow> None | Inr t \<Rightarrow> Some t))"
  using assms
proof (induction g)
  case Nil
  then show ?case by (simp add: build_routers_def)
next
  case (Cons x g)
  obtain p rs where x: "x = (p, rs)" by (cases x)
  have ok: "gm_ok g" "p \<notin> fst ` set g" using Cons.prems x by (auto simp: gm_ok_def)
  have step: "build_routers lower ((p, rs) # g) =
      (case new_http_router lower rs of Inl _ \<Rightarrow> [] | Inr t \<Rightarrow> [(p, t)]) @ build_routers lower g"
    by (simp add: build_routers_def)
  have none: "map_of (build_routers lower g) p = None"
    using build_routers_keys [of lower g] ok(2) by (auto simp: map_of_eq_None_iff)
  show ?case
    using Cons.IH [OF ok(1)] none ok(2) unfolding x step
    by (auto split: sum.splits option.splits)
qed

text \<open>The routes a well-formed configuration publishes always form a table, provided that lower
  case is taken the same way before and after trimming and that no host holds a NUL.\<close>

definition lower_law :: "(string \<Rightarrow> string) \<Rightarrow> bool" where
  "lower_law lower \<longleftrightarrow> (\<forall>s. trim_string (lower s) = lower (trim_string s)) \<and>
     (\<forall>s. CHR 0x00 \<in> set (lower s) \<longrightarrow> CHR 0x00 \<in> set s)"

definition no_nul :: "server_config \<Rightarrow> bool" where
  "no_nul c \<longleftrightarrow> (\<forall>b \<in> set (scf_http c). \<forall>h \<in> set (hb_hosts b). CHR 0x00 \<notin> set h)"

lemma conflict_key_inj:
  assumes "conflict_key r = conflict_key r'" and "CHR 0x00 \<notin> set (hr_host r)" and "CHR 0x00 \<notin> set (hr_host r')"
  shows "hr_host r = hr_host r'" and "hr_path r = hr_path r'"
proof -
  let ?n = "\<lambda>c. c \<noteq> CHR 0x00"
  have "takeWhile ?n (conflict_key q) = hr_host q" if "CHR 0x00 \<notin> set (hr_host q)" for q
    using that by (simp add: conflict_key_def takeWhile_append)
  with assms show h: "hr_host r = hr_host r'" by metis
  with assms(1) show "hr_path r = hr_path r'" by (simp add: conflict_key_def)
qed

definition normal_route :: "(string \<Rightarrow> string) \<Rightarrow> http_route \<Rightarrow> http_route" where
  "normal_route lower r = \<lparr>hr_proxy = hr_proxy r, hr_host = lower (hr_host r), hr_path = route_path (hr_path r)\<rparr>"

lemma normalize_routes_ok:
  assumes "\<forall>r \<in> set rs. hr_proxy r \<noteq> [] \<and> hr_host r \<noteq> [] \<and> path_ok (hr_path r)"
  shows "normalize_routes lower rs = Inr (map (normal_route lower) rs)"
  using assms by (induction rs) (auto simp: normalize_route_def normal_route_def route_path_def path_ok_def)

lemma new_http_router_ok:
  assumes "\<forall>r \<in> set rs. hr_proxy r \<noteq> [] \<and> hr_host r \<noteq> [] \<and> path_ok (hr_path r)"
    and "\<forall>r \<in> set rs. CHR 0x00 \<notin> set (lower (hr_host r))"
    and "distinct (map (\<lambda>r. (lower (hr_host r), route_path (hr_path r))) rs)"
  shows "new_http_router lower rs = Inr (sort_routes (map (normal_route lower) rs))"
proof -
  have "distinct (map conflict_key (map (normal_route lower) rs))"
  proof -
    have "inj_on (\<lambda>r. (lower (hr_host r), route_path (hr_path r))) (set rs)" "distinct rs"
      using assms(3) by (auto simp: distinct_map)
    then have "inj_on (conflict_key \<circ> normal_route lower) (set rs)"
      using conflict_key_inj [of "normal_route lower _" "normal_route lower _"] assms(2)
      by (auto simp: inj_on_def normal_route_def)
    with \<open>distinct rs\<close> show ?thesis by (simp add: distinct_map comp_def)
  qed
  then show ?thesis
    using assms(1) by (simp add: new_http_router_def normalize_routes_ok detect_route_conflict_iff)
qed

lemma distinct_concat_filter:
  "distinct (concat (map f xs)) \<Longrightarrow> distinct (concat (map f (filter P xs)))"
  by (induction xs) auto

lemma distinct_map_factor: "distinct (map f xs) \<Longrightarrow> (\<And>x. x \<in> set xs \<Longrightarrow> f x = g (h x)) \<Longrightarrow> distinct (map h xs)"
  by (auto simp: distinct_map inj_on_def)

lemma filter_items:
  "concat (map snd (filter (\<lambda>i. fst i = port) (map (\<lambda>b. (pb_port b, f b)) bs))) =
   concat (map f (filter (\<lambda>b. pb_port b = port) bs))"
  by (induction bs) auto

lemma binding_routes_filter:
  "concat (map (binding_routes lower) (filter (\<lambda>b. pb_port b = port) bs)) =
   map (\<lambda>r. (port, normalize_route_host lower (hr_host r), route_path (hr_path r)))
     (concat (map binding_http_routes (filter (\<lambda>b. pb_port b = port) bs)))"
  by (induction bs) (auto simp: binding_routes_def binding_http_routes_def)

lemma published_port_has_table:
  assumes ok: "bindings_ok lower c" and law: "lower_law lower" and nul: "no_nul c" and b: "b \<in> set (scf_http c)"
  shows "\<exists>t. map_of (publish_http_routes lower c) (pb_port b) = Some t \<and>
    (\<forall>h \<in> set (hb_hosts b). \<exists>r \<in> set t. hr_proxy r = pb_name b \<and> hr_host r = lower h \<and> hr_path r = route_path (hb_path b))"
proof -
  let ?port = "pb_port b"
  let ?bs = "filter (\<lambda>b. pb_port b = ?port) (scf_http c)"
  let ?rs = "concat (map binding_http_routes ?bs)"
  let ?g = "group_routes (config_route_items c) []"
  have hosts: "hosts_ok (hb_hosts x)" "path_ok (hb_path x)" "name_ok (pb_name x)" if "x \<in> set (scf_http c)" for x
  proof -
    show "hosts_ok (hb_hosts x)" "path_ok (hb_path x)" using ok that by (auto simp: bindings_ok_def)
    have "(ProxyTypeHTTP, binding_view x) \<in> set (all_bindings c)" using that by (simp add: all_bindings_def)
    with ok have "binding_ok (known_client_ids (scf_credentials c)) (binding_view x)"
      by (auto simp: bindings_ok_def)
    then show "name_ok (pb_name x)" by (simp add: binding_ok_def binding_view_def)
  qed
  have fields: "\<forall>r \<in> set ?rs. hr_proxy r \<noteq> [] \<and> hr_host r \<noteq> [] \<and> path_ok (hr_path r)"
    using hosts by (fastforce simp: binding_http_routes_def hosts_ok_def name_ok_def trim_string_def)
  have nuls: "\<forall>r \<in> set ?rs. CHR 0x00 \<notin> set (lower (hr_host r))"
    using nul law by (auto simp: no_nul_def lower_law_def binding_http_routes_def)
  have "distinct (concat (map (binding_routes lower) ?bs))"
    using ok by (intro distinct_concat_filter) (simp add: bindings_ok_def)
  also have "concat (map (binding_routes lower) ?bs) =
      map (\<lambda>r. (?port, normalize_route_host lower (hr_host r), route_path (hr_path r))) ?rs"
    by (rule binding_routes_filter)
  finally have "distinct (map (\<lambda>r. (lower (hr_host r), route_path (hr_path r))) ?rs)"
    by (rule distinct_map_factor [where g = "\<lambda>(h, p). (?port, trim_string h, p)"])
      (use law in \<open>simp add: normalize_route_host_def lower_law_def\<close>)
  note table = new_http_router_ok [OF fields nuls this]
  have get: "gm_get [] ?port ?g = ?rs"
    unfolding gm_get_group config_route_items_def filter_items by simp
  have "hb_hosts b \<noteq> []" using hosts(1) [OF b] by (simp add: hosts_ok_def)
  then obtain h0 where h0: "h0 \<in> set (hb_hosts b)" by (cases "hb_hosts b") auto
  then have "\<lparr>hr_proxy = pb_name b, hr_host = h0, hr_path = hb_path b\<rparr> \<in> set ?rs"
    using b by (auto simp: binding_http_routes_def)
  then have "?rs \<noteq> []" by auto
  with get have "map_of ?g ?port = Some ?rs" by (auto simp: gm_get_def split: option.splits)
  then have "map_of (publish_http_routes lower c) ?port = Some (sort_routes (map (normal_route lower) ?rs))"
    using map_of_build [of ?g lower ?port] table by (simp add: publish_http_routes_def)
  moreover have "\<exists>r \<in> set (sort_routes (map (normal_route lower) ?rs)). hr_proxy r = pb_name b \<and>
      hr_host r = lower h \<and> hr_path r = route_path (hb_path b)" if h: "h \<in> set (hb_hosts b)" for h
  proof -
    have "\<lparr>hr_proxy = pb_name b, hr_host = h, hr_path = hb_path b\<rparr> \<in> set ?rs"
      using b h by (auto simp: binding_http_routes_def)
    then have "normal_route lower \<lparr>hr_proxy = pb_name b, hr_host = h, hr_path = hb_path b\<rparr>
        \<in> set (sort_routes (map (normal_route lower) ?rs))" unfolding set_sort_routes set_map by (rule imageI)
    then show ?thesis by (force simp: normal_route_def)
  qed
  ultimately show ?thesis by blast
qed

end
