(* ===== verification/Http_Request.thy ===== *)
theory Http_Request
  imports Wire_Base "HOL-Library.Sublist"
begin

section \<open>Reading the head of a request (\<open>core/server/engine.go\<close>)\<close>

text \<open>
  The shared HTTP entry reads the request line and the headers of a guest byte by byte, finds host
  and path, and keeps the bytes it read for the target. The guest is the list of bytes it sends
  before the connection or the read deadline ends it.
\<close>

definition request_line_limit :: nat where "request_line_limit = 8192"

datatype request_error = ReadEnded | HeadTooLong | NoMethodOrTarget | NoHost

definition header_block_complete :: "string \<Rightarrow> bool" where
  "header_block_complete block =
     (let n = length block; cr = CHR 0x0D; lf = CHR 0x0A in
      (4 \<le> n \<and> block ! (n - 4) = cr \<and> block ! (n - 3) = lf \<and> block ! (n - 2) = cr \<and> block ! (n - 1) = lf)
      \<or> (2 \<le> n \<and> block ! (n - 2) = lf \<and> block ! (n - 1) = lf)
      \<or> (3 \<le> n \<and> block ! (n - 3) = lf \<and> block ! (n - 2) = cr \<and> block ! (n - 1) = lf)
      \<or> (3 \<le> n \<and> block ! (n - 3) = cr \<and> block ! (n - 2) = lf \<and> block ! (n - 1) = lf))"

text \<open>The block read and the bytes the guest has still to send.\<close>

fun read_header_loop :: "string \<Rightarrow> string \<Rightarrow> request_error + (string \<times> string)" where
  "read_header_loop block [] = (if length block \<le> request_line_limit then Inl ReadEnded else Inl HeadTooLong)"
| "read_header_loop block (c # input) =
     (if length block \<le> request_line_limit
      then if header_block_complete (block @ [c]) then Inr (block @ [c], input)
        else read_header_loop (block @ [c]) input
      else Inl HeadTooLong)"

definition read_header_block :: "string \<Rightarrow> request_error + (string \<times> string)" where
  "read_header_block input = read_header_loop [] input"

subsection \<open>Strings\<close>

text \<open>\<open>strings.Split\<close> at line feeds, \<open>strings.Fields\<close> and \<open>strings.EqualFold\<close> with \<open>Host\<close>; the
  latter also accepts the long s, whose simple case folding is s.\<close>

fun split_lf :: "string \<Rightarrow> string list" where
  "split_lf [] = [[]]"
| "split_lf (c # s) =
     (if c = CHR 0x0A then [] # split_lf s
      else case split_lf s of [] \<Rightarrow> [[c]] | l # ls \<Rightarrow> (c # l) # ls)"

definition space_width :: "string \<Rightarrow> nat" where
  "space_width s = space_at_front (map of_char s)"

function fields_from :: "string \<Rightarrow> string \<Rightarrow> string list" where
  "fields_from cur [] = (if cur = [] then [] else [cur])"
| "fields_from cur (c # s) =
     (if 0 < space_width (c # s)
      then (if cur = [] then [] else [cur]) @ fields_from [] (drop (space_width (c # s)) (c # s))
      else fields_from (cur @ [c]) s)"
  by pat_completeness auto
termination
  by (relation "measure (\<lambda>(cur, s). length s)") auto

definition string_fields :: "string \<Rightarrow> string list" where
  "string_fields s = fields_from [] s"

definition is_host_name :: "string \<Rightarrow> bool" where
  "is_host_name n \<longleftrightarrow>
     n \<in> set (concat (concat (concat (map (\<lambda>h. map (\<lambda>a. map (\<lambda>s. map (\<lambda>t. h @ a @ s @ t) [''t'', ''T''])
        [''s'', ''S'', [CHR 0xC5, CHR 0xBF]]) [''o'', ''O'']) [''h'', ''H'']))))"

definition request_path :: "string \<Rightarrow> string" where
  "request_path target =
     (let t = takeWhile (\<lambda>c. c \<noteq> CHR ''?'' \<and> c \<noteq> CHR ''#'') target in if t = [] then ''/'' else t)"

text \<open>The text before the last colon.\<close>

definition before_last_colon :: "string \<Rightarrow> string" where
  "before_last_colon s = rev (tl (dropWhile (\<lambda>c. c \<noteq> CHR '':'') (rev s)))"

definition normalize_host :: "string \<Rightarrow> string" where
  "normalize_host value =
     (let t = trim_string value in
      if t = [] then []
      else if hd t = CHR ''['' then
        (if CHR '']'' \<in> set t then takeWhile (\<lambda>c. c \<noteq> CHR '']'') t @ '']'' else t)
      else if CHR '':'' \<in> set t then before_last_colon t
      else t)"

definition split_header :: "string \<Rightarrow> (string \<times> string) option" where
  "split_header line =
     (if CHR '':'' \<in> set line
      then Some (trim_string (takeWhile (\<lambda>c. c \<noteq> CHR '':'') line),
                 trim_string (tl (dropWhile (\<lambda>c. c \<noteq> CHR '':'') line)))
      else None)"

text \<open>The loop over the header lines: the last \<open>Host\<close> counts.\<close>

fun find_host :: "string \<Rightarrow> string list \<Rightarrow> string" where
  "find_host host [] = host"
| "find_host host (line # lines) =
     (case split_header line of
        Some (name, value) \<Rightarrow> find_host (if is_host_name name then normalize_host value else host) lines
      | None \<Rightarrow> find_host host lines)"

record request_target =
  rt_host :: string
  rt_path :: string
  rt_pending :: string

definition read_request_target :: "string \<Rightarrow> request_error + (request_target \<times> string)" where
  "read_request_target input =
     (case read_header_block input of
        Inl e \<Rightarrow> Inl e
      | Inr (head, rest) \<Rightarrow>
          (let lines = split_lf head; fields = string_fields (hd lines) in
           if length fields < 2 then Inl NoMethodOrTarget
           else let host = find_host [] (tl lines) in
             if host = [] then Inl NoHost
             else Inr (\<lparr>rt_host = host, rt_path = request_path (fields ! 1), rt_pending = head\<rparr>, rest)))"

subsection \<open>No byte is lost, none is read ahead\<close>

lemma read_header_loop_Inr:
  assumes "read_header_loop block input = Inr (head, rest)" and "length block \<le> 8193"
  shows "head @ rest = block @ input \<and> header_block_complete head \<and>
    length block < length head \<and> length head \<le> 8193 \<and>
    (\<forall>k. length block < k \<and> k < length head \<longrightarrow> \<not> header_block_complete (take k head))"
  using assms
proof (induction input arbitrary: block)
  case Nil
  then show ?case by (simp split: if_splits)
next
  case (Cons c input)
  have len: "length block \<le> 8192" using Cons.prems(1) by (simp add: request_line_limit_def split: if_splits)
  show ?case
  proof (cases "header_block_complete (block @ [c])")
    case True
    with Cons.prems(1) len have "head = block @ [c]" "rest = input"
      by (auto simp: request_line_limit_def)
    with True len show ?thesis by auto
  next
    case False
    with Cons.prems(1) len have "read_header_loop (block @ [c]) input = Inr (head, rest)"
      by (simp add: request_line_limit_def)
    from Cons.IH [OF this] len have ih: "head @ rest = block @ c # input" "header_block_complete head"
      "Suc (length block) < length head" "length head \<le> 8193"
      "\<And>k. Suc (length block) < k \<Longrightarrow> k < length head \<Longrightarrow> \<not> header_block_complete (take k head)"
      by auto
    have "take (Suc (length block)) head = take (Suc (length block)) (head @ rest)" using ih(3) by simp
    also have "\<dots> = block @ [c]" unfolding ih(1) by simp
    finally have "\<not> header_block_complete (take (Suc (length block)) head)" using False by simp
    then have "\<not> header_block_complete (take k head)" if "length block < k" "k < length head" for k
      using that ih(5) [of k] by (cases "k = Suc (length block)") auto
    with ih show ?thesis by auto
  qed
qed

text \<open>The bound is met one byte late.\<close>

lemma read_header_loop_skip:
  assumes "\<forall>k \<le> length xs. 0 < k \<longrightarrow> \<not> header_block_complete (block @ take k xs)"
    and "length block + length xs \<le> 8193"
  shows "read_header_loop block (xs @ ys) = read_header_loop (block @ xs) ys"
  using assms
proof (induction xs arbitrary: block)
  case Nil
  then show ?case by simp
next
  case (Cons x xs)
  have "\<not> header_block_complete (block @ [x])" using Cons.prems(1) by (auto dest: spec [where x = 1])
  moreover have "\<forall>k \<le> length xs. 0 < k \<longrightarrow> \<not> header_block_complete ((block @ [x]) @ take k xs)"
    using Cons.prems(1) by (auto dest: spec [where x = "Suc _"])
  ultimately show ?case
    using Cons.IH [of "block @ [x]"] Cons.prems(2) by (simp add: request_line_limit_def)
qed

lemma not_complete_without_lf:
  assumes "last s \<noteq> CHR 0x0A"
  shows "\<not> header_block_complete s"
proof (cases s rule: rev_exhaust)
  case Nil
  then show ?thesis by (simp add: header_block_complete_def)
next
  case (snoc t c)
  with assms show ?thesis by (auto simp: header_block_complete_def Let_def nth_append)
qed

lemma head_one_over_limit:
  assumes "length xs = 8191" and "CHR 0x0A \<notin> set xs"
  shows "read_header_block (xs @ [CHR 0x0A, CHR 0x0A] @ rest) = Inr (xs @ [CHR 0x0A, CHR 0x0A], rest)"
proof -
  have "\<not> header_block_complete ([] @ take k xs)" if "k \<le> length xs" "0 < k" for k
  proof (rule not_complete_without_lf)
    have "take k xs \<noteq> []" using that by auto
    then have "last (take k xs) \<in> set xs" by (metis in_set_takeD last_in_set)
    with assms(2) show "last ([] @ take k xs) \<noteq> CHR 0x0A" by auto
  qed
  then have "read_header_block (xs @ [CHR 0x0A, CHR 0x0A] @ rest) = read_header_loop xs ([CHR 0x0A, CHR 0x0A] @ rest)"
    unfolding read_header_block_def using read_header_loop_skip [of xs "[]"] assms(1) by simp
  moreover have "\<not> header_block_complete (xs @ [CHR 0x0A])"
  proof -
    have "xs ! 8190 \<in> set xs" "xs ! 8189 \<in> set xs" by (simp_all add: assms(1))
    with assms(2) have "xs ! 8190 \<noteq> CHR 0x0A" "xs ! 8189 \<noteq> CHR 0x0A" by metis+
    with assms(1) show ?thesis by (simp add: header_block_complete_def Let_def nth_append)
  qed
  moreover have "header_block_complete (xs @ [CHR 0x0A, CHR 0x0A])"
    by (simp add: header_block_complete_def Let_def nth_append)
  ultimately show ?thesis using assms(1) by (simp add: request_line_limit_def)
qed

end
