(* ===== verification/Server_Work.thy ===== *)
theory Server_Work
  imports Server_Pairing Server_Sessions Server_Login Proxy_Registry Http_Request
begin

section \<open>Work connections and guests (\<open>core/server/engine.go\<close>)\<close>

text \<open>
  The handlers of the connections that reach the server: a work connection with its declaration,
  and the guests of the proxies. \<open>server_view\<close> is what they see: the state of the generation, the
  session tables and the registry, and logs of the messages sent. The configuration, the
  proxies registered at run time and the results of the network are fields of the view or
  parameters.
\<close>

record runtime_proxy =
  rp_name :: string
  rp_client :: string
  rp_owner_conn :: conn
  rp_type :: string
  rp_entry :: string
  rp_listener :: "nat option"
  rp_udp :: "nat option"
  rp_routes :: "http_route list"

record start_work_conn =
  sw_proxy_name :: string
  sw_summary :: "staging_summary option"

record server_view =
  sv_pair :: gen_state
  sv_sessions :: sessions
  sv_registry :: registry
  sv_config :: server_config
  sv_runtime :: "(string, runtime_proxy) gomap"
  sv_udp_entries :: "string set"
  sv_pending_udp :: "(string, bool) gomap"
  sv_requested :: "conn list"
  sv_started :: "(conn \<times> start_work_conn) list"
  sv_unmatched :: "conn list"

text \<open>What the network and the libraries do: usability of waiting work connections, whether a
  start message can be encoded and written, addresses, hashes, decoders, the traversal order of a
  map and the lower case of a string.\<close>

record server_env =
  se_pair :: pair_env
  se_start :: "conn \<Rightarrow> start_work_conn \<Rightarrow> bool"
  se_remote :: "conn \<Rightarrow> (string \<times> 16 word) option"
  se_local :: "conn \<Rightarrow> (string \<times> 16 word) option"
  se_auth :: auth_fns
  se_declaration :: "bytes \<Rightarrow> work_conn_request option"
  se_parse_addr :: "string \<Rightarrow> addr_port option"
  se_order :: "string list \<Rightarrow> string list"
  se_lower :: "string \<Rightarrow> string"

abbreviation sv_broker :: "server_view \<Rightarrow> work_broker" where
  "sv_broker v \<equiv> gs_broker (sv_pair v)"

definition on_pair :: "(gen_state \<Rightarrow> gen_state) \<Rightarrow> server_view \<Rightarrow> server_view" where
  "on_pair f v = v\<lparr>sv_pair := f (sv_pair v)\<rparr>"

definition set_broker :: "work_broker \<Rightarrow> gen_state \<Rightarrow> gen_state" where
  "set_broker b s = s\<lparr>gs_broker := b\<rparr>"

subsection \<open>Requesting work connections\<close>

definition send_work_request :: "string \<Rightarrow> server_view \<Rightarrow> server_view" where
  "send_work_request client v =
     (case request_work_conn client (sv_sessions v) of
        None \<Rightarrow> v
      | Some c \<Rightarrow> v\<lparr>sv_requested := sv_requested v @ [c]\<rparr>)"

definition request_for_owner :: "string \<Rightarrow> server_view \<Rightarrow> server_view" where
  "request_for_owner name v =
     (let owner = proxy_owner (sv_registry v) name in if owner \<noteq> [] then send_work_request owner v else v)"

definition client_runtime_names :: "string \<Rightarrow> server_view \<Rightarrow> string list" where
  "client_runtime_names client v = map fst (filter (\<lambda>(n, r). rp_client r = client) (sv_runtime v))"

definition pending_proxy_for :: "server_env \<Rightarrow> string \<Rightarrow> server_view \<Rightarrow> string" where
  "pending_proxy_for E client v =
     (let pend = (\<lambda>n. gm_get False n (sv_pending_udp v));
          names = se_order E (client_runtime_names client v)
            @ map pb_name (filter (\<lambda>b. pb_client b = client \<and> pend (pb_name b)) (scf_udp (sv_config v)))
      in case find (\<lambda>n. pend n \<or> has_staged_guest n (sv_broker v)) names of None \<Rightarrow> [] | Some n \<Rightarrow> n)"

definition preopened_udp_proxy_for :: "string \<Rightarrow> server_view \<Rightarrow> string" where
  "preopened_udp_proxy_for client v =
     (let names = map fst (filter (\<lambda>(n, r). rp_client r = client \<and> rp_type r = ''udp'') (sv_runtime v))
            @ map pb_name (filter (\<lambda>b. pb_client b = client) (scf_udp (sv_config v)))
      in case names of [n] \<Rightarrow> n | _ \<Rightarrow> [])"

subsection \<open>A work connection\<close>

text \<open>Giving the connection to the broker; the result of starting a pair is not looked at.\<close>

definition park_and_start :: "server_env \<Rightarrow> string \<Rightarrow> conn \<Rightarrow> server_view \<Rightarrow> server_view option" where
  "park_and_start E name raw v =
     (case park name raw (sv_broker v) of
        None \<Rightarrow> None
      | Some (b, closed, acc, pr) \<Rightarrow>
          (let v1 = on_pair (\<lambda>s. (set_broker b s)\<lparr>gs_closed := gs_closed s @ closed\<rparr>) v in
           Some (if \<not> acc then on_pair (gen_close raw) v1
             else case pr of None \<Rightarrow> v1 | Some p \<Rightarrow> on_pair (\<lambda>s. fst (pair_start (se_pair E) p s)) v1)))"

text \<open>The proxy that the arriving connection is for, and the message that tells the client.\<close>

definition official_proxy :: "server_env \<Rightarrow> string \<Rightarrow> server_view \<Rightarrow> string" where
  "official_proxy E client v =
     (if pending_proxy_for E client v = [] then preopened_udp_proxy_for client v else pending_proxy_for E client v)"

definition is_udp_proxy :: "string \<Rightarrow> server_view \<Rightarrow> bool" where
  "is_udp_proxy name v \<longleftrightarrow> name \<in> sv_udp_entries v \<or>
     (case map_of (sv_runtime v) name of None \<Rightarrow> False | Some r \<Rightarrow> rp_type r = ''udp'')"

definition start_message :: "server_env \<Rightarrow> string \<Rightarrow> server_view \<Rightarrow> start_work_conn" where
  "start_message E name v =
     \<lparr>sw_proxy_name = name, sw_summary = (if is_udp_proxy name v then None
        else Some (fst (staging_summary_for (se_remote E) (se_local E) name (sv_broker v))))\<rparr>"

definition mark_started :: "string \<Rightarrow> conn \<Rightarrow> start_work_conn \<Rightarrow> server_view \<Rightarrow> server_view" where
  "mark_started name raw msg v =
     (let v1 = v\<lparr>sv_started := sv_started v @ [(raw, msg)]\<rparr>;
          v2 = (if is_udp_proxy name v then v1\<lparr>sv_pending_udp := gm_set name False (sv_pending_udp v1)\<rparr> else v1)
      in on_pair (gen_track raw) v2)"

definition serve_official_work_conn ::
  "server_env \<Rightarrow> conn \<Rightarrow> work_declaration \<Rightarrow> server_view \<Rightarrow> server_view option" where
  "serve_official_work_conn E raw d v =
     (let reject = Some (on_pair (gen_close raw) v) in
      case session_by_run_id (wd_run_id d) (sv_sessions v) of
        None \<Rightarrow> reject
      | Some (client, _) \<Rightarrow>
          if wd_token d \<noteq> [] \<and>
            \<not> fst (credentials_match (se_auth E) (scf_credentials (sv_config v)) client (wd_token d) (wd_timestamp d))
          then reject
          else
            (let name = official_proxy E client v
             in if name = [] then reject
                else if \<not> se_start E raw (start_message E name v) then reject
                else park_and_start E name raw (mark_started name raw (start_message E name v) v)))"

definition serve_declared_work_conn ::
  "server_env \<Rightarrow> conn \<Rightarrow> work_declaration \<Rightarrow> server_view \<Rightarrow> server_view option" where
  "serve_declared_work_conn E raw d v =
     (let reject = on_pair (gen_close raw) v in
      if \<not> fst (credentials_match (se_auth E) (scf_credentials (sv_config v)) (wd_client_id d) (wd_token d) (wd_timestamp d))
      then Some reject
      else if \<not> has_active_control_session (wd_client_id d) (sv_sessions v) then Some reject
      else if \<not> proxy_belongs_to (sv_registry v) (wd_proxy d) (wd_client_id d) then Some reject
      else if \<not> target_allowed (sv_registry v) (wd_proxy d) (wd_target d) then
        (case drop_guests (wd_proxy d) (sv_broker v) of
           (b, dropped) \<Rightarrow> Some (on_pair (\<lambda>s. fold gen_untrack dropped
             ((set_broker b s)\<lparr>gs_closed := gs_closed s @ dropped\<rparr>)) reject))
      else park_and_start E (wd_proxy d) raw v)"

definition serve_work_declaration :: "server_env \<Rightarrow> conn \<Rightarrow> bytes \<Rightarrow> server_view \<Rightarrow> server_view option" where
  "serve_work_declaration E raw payload v =
     (case parse_work_declaration (se_declaration E) (se_parse_addr E) payload of
        Inl _ \<Rightarrow> Some (on_pair (gen_close raw) v)
      | Inr d \<Rightarrow> if wd_official d then serve_official_work_conn E raw d v else serve_declared_work_conn E raw d v)"

subsection \<open>Guests\<close>

definition refuse_guest :: "conn \<Rightarrow> server_view \<Rightarrow> server_view" where
  "refuse_guest guest v = on_pair (gen_close guest \<circ> gen_untrack guest) v"

definition handle_guest :: "server_env \<Rightarrow> string \<Rightarrow> conn \<Rightarrow> server_view \<Rightarrow> server_view" where
  "handle_guest E name guest v =
     (case pair_guest (se_pair E) name guest [] (gen_track guest (sv_pair v)) of
        (s, out) \<Rightarrow>
          (let v1 = v\<lparr>sv_pair := s\<rparr>;
               v2 = (case out of
                   ParkPaired \<Rightarrow> v1
                 | ParkStaged \<Rightarrow> request_for_owner name v1
                 | ParkRejected \<Rightarrow> refuse_guest guest v1
                 | ParkCapacityFull \<Rightarrow> refuse_guest guest v1)
           in on_pair (gen_add (- 1)) v2))"

definition bridge_http_guest :: "server_env \<Rightarrow> string \<Rightarrow> conn \<Rightarrow> bytes \<Rightarrow> server_view \<Rightarrow> server_view" where
  "bridge_http_guest E name guest pending v =
     (case pair_guest (se_pair E) name guest pending (sv_pair v) of
        (s, out) \<Rightarrow>
          (let v1 = v\<lparr>sv_pair := s\<rparr>
           in case out of
                ParkPaired \<Rightarrow> v1
              | ParkStaged \<Rightarrow> on_pair (gen_untrack guest) (request_for_owner name v1)
              | ParkRejected \<Rightarrow> refuse_guest guest v1
              | ParkCapacityFull \<Rightarrow> refuse_guest guest v1))"

text \<open>A guest of a shared HTTP entry: the bytes it sends, and the tables of routes.\<close>

definition handle_http_guest ::
  "server_env \<Rightarrow> (int, http_route list) gomap \<Rightarrow> int \<Rightarrow> conn \<Rightarrow> string \<Rightarrow> server_view \<Rightarrow> server_view" where
  "handle_http_guest E routes port guest input v =
     (let v0 = on_pair (gen_track guest) v;
          v1 = (case read_request_target input of
              Inl _ \<Rightarrow> refuse_guest guest v0
            | Inr (t, _) \<Rightarrow>
                (case select_http_proxy (se_lower E) routes port (rt_host t) (rt_path t) of
                   None \<Rightarrow> refuse_guest guest (v0\<lparr>sv_unmatched := sv_unmatched v0 @ [guest]\<rparr>)
                 | Some name \<Rightarrow> bridge_http_guest E name guest (map of_char (rt_pending t)) v0))
      in on_pair (gen_add (- 1)) v1)"

text \<open>The factory of work connections for UDP sessions.\<close>

definition udp_work_conn :: "string \<Rightarrow> server_view \<Rightarrow> server_view \<times> conn option" where
  "udp_work_conn name v =
     (case take_staged name (sv_broker v) of
        (b, Some work) \<Rightarrow> (on_pair (set_broker b) v, Some work)
      | (b, None) \<Rightarrow>
          (let v1 = on_pair (set_broker b) v
           in (request_for_owner name (v1\<lparr>sv_pending_udp := gm_set name True (sv_pending_udp v1)\<rparr>), None)))"

subsection \<open>Authorisation\<close>

lemma on_pair_simps [simp]:
  "sv_sessions (on_pair f v) = sv_sessions v" "sv_registry (on_pair f v) = sv_registry v"
  "sv_config (on_pair f v) = sv_config v" "sv_pair (on_pair f v) = f (sv_pair v)"
  "sv_runtime (on_pair f v) = sv_runtime v" "sv_pending_udp (on_pair f v) = sv_pending_udp v"
  "sv_started (on_pair f v) = sv_started v" "sv_requested (on_pair f v) = sv_requested v"
  by (simp_all add: on_pair_def)

lemma gen_close_simps [simp]:
  "gs_broker (gen_close c s) = gs_broker s" "gs_conns (gen_close c s) = gs_conns s"
  "gs_closed (gen_close c s) = gs_closed s @ [c]" "gs_wg (gen_close c s) = gs_wg s"
  "gs_sent (gen_close c s) = gs_sent s"
  by (simp_all add: gen_close_def)

definition declaration_authorised :: "server_env \<Rightarrow> work_declaration \<Rightarrow> server_view \<Rightarrow> bool" where
  "declaration_authorised E d v \<longleftrightarrow>
     fst (credentials_match (se_auth E) (scf_credentials (sv_config v)) (wd_client_id d) (wd_token d) (wd_timestamp d)) \<and>
     has_active_control_session (wd_client_id d) (sv_sessions v) \<and>
     proxy_belongs_to (sv_registry v) (wd_proxy d) (wd_client_id d)"

text \<open>An unauthorised declaration closes its connection and does nothing else; an authorised one
  with a forbidden target also closes the guests of the client's own proxy.\<close>

lemma declared_unauthorised:
  assumes "\<not> declaration_authorised E d v"
  shows "serve_declared_work_conn E raw d v = Some (on_pair (gen_close raw) v)"
  using assms by (auto simp: serve_declared_work_conn_def declaration_authorised_def Let_def)

lemma declared_forbidden:
  assumes "declaration_authorised E d v" and "\<not> target_allowed (sv_registry v) (wd_proxy d) (wd_target d)"
  shows "\<exists>v'. serve_declared_work_conn E raw d v = Some v' \<and>
    sv_broker v' = fst (drop_guests (wd_proxy d) (sv_broker v)) \<and>
    gs_closed (sv_pair v') = gs_closed (sv_pair v) @ raw # map sg_conn (guest_queue (sv_broker v) (wd_proxy d))"
proof -
  have untrack: "gs_closed (fold gen_untrack cs s) = gs_closed s \<and> gs_broker (fold gen_untrack cs s) = gs_broker s" for cs s
    by (induction cs arbitrary: s) (simp_all add: gen_untrack_def)
  show ?thesis
    using assms by (auto simp: serve_declared_work_conn_def declaration_authorised_def Let_def drop_guests_def
        set_broker_def untrack split: prod.splits)
qed

lemma declared_allowed:
  assumes "declaration_authorised E d v" and "target_allowed (sv_registry v) (wd_proxy d) (wd_target d)"
  shows "serve_declared_work_conn E raw d v = park_and_start E (wd_proxy d) raw v"
  using assms by (simp add: serve_declared_work_conn_def declaration_authorised_def Let_def)

text \<open>The proxy an official work connection is assigned to is one of its own client.\<close>

lemma pending_proxy_own:
  assumes "\<And>xs. set (se_order E xs) = set xs" and "pending_proxy_for E client v = name" and "name \<noteq> []"
  shows "(\<exists>r. (name, r) \<in> set (sv_runtime v) \<and> rp_client r = client) \<or>
    (\<exists>b \<in> set (scf_udp (sv_config v)). pb_name b = name \<and> pb_client b = client)"
proof -
  let ?pend = "\<lambda>n. gm_get False n (sv_pending_udp v)"
  let ?names = "se_order E (client_runtime_names client v)
    @ map pb_name (filter (\<lambda>b. pb_client b = client \<and> ?pend (pb_name b)) (scf_udp (sv_config v)))"
  obtain n where "find (\<lambda>n. ?pend n \<or> has_staged_guest n (sv_broker v)) ?names = Some n" "n = name"
    using assms(2,3) by (auto simp: pending_proxy_for_def Let_def split: option.splits)
  from find_SomeD [OF this(1)] this(2) assms(1) show ?thesis
    by (auto simp: client_runtime_names_def)
qed

lemma preopened_own:
  assumes "preopened_udp_proxy_for client v = name" and "name \<noteq> []"
  shows "(\<exists>r. (name, r) \<in> set (sv_runtime v) \<and> rp_client r = client) \<or>
    (\<exists>b \<in> set (scf_udp (sv_config v)). pb_name b = name \<and> pb_client b = client)"
proof -
  let ?names = "map fst (filter (\<lambda>(n, r). rp_client r = client \<and> rp_type r = ''udp'') (sv_runtime v))
    @ map pb_name (filter (\<lambda>b. pb_client b = client) (scf_udp (sv_config v)))"
  have "?names = [name]"
    using assms by (auto simp: preopened_udp_proxy_for_def Let_def split: list.splits)
  then have "name \<in> set ?names" by simp
  then show ?thesis by auto
qed

definition own_proxy :: "string \<Rightarrow> string \<Rightarrow> server_view \<Rightarrow> bool" where
  "own_proxy client name v \<longleftrightarrow>
     (\<exists>r. (name, r) \<in> set (sv_runtime v) \<and> rp_client r = client) \<or>
     (\<exists>b \<in> set (scf_udp (sv_config v)). pb_name b = name \<and> pb_client b = client)"

lemma official_cases:
  assumes "\<And>xs. set (se_order E xs) = set xs" and "serve_official_work_conn E raw d v = Some v'"
  shows "v' = on_pair (gen_close raw) v \<or>
    (\<exists>client sess name v1. session_by_run_id (wd_run_id d) (sv_sessions v) = Some (client, sess) \<and>
       (wd_token d \<noteq> [] \<longrightarrow> fst (credentials_match (se_auth E) (scf_credentials (sv_config v)) client
          (wd_token d) (wd_timestamp d))) \<and>
       own_proxy client name v \<and> park_and_start E name raw v1 = Some v' \<and>
       sv_broker v1 = sv_broker v \<and> (\<exists>msg. sw_proxy_name msg = name \<and> sv_started v1 = sv_started v @ [(raw, msg)]))"
proof (cases "session_by_run_id (wd_run_id d) (sv_sessions v)")
  case None
  with assms(2) show ?thesis by (simp add: serve_official_work_conn_def Let_def)
next
  case (Some cs)
  obtain client sess where cs: "cs = (client, sess)" by (cases cs)
  let ?name = "official_proxy E client v" and ?v1 = "\<lambda>n. mark_started n raw (start_message E n v) v"
  have own: "own_proxy client ?name v" if "?name \<noteq> []"
    using that pending_proxy_own [OF assms(1) refl, of client v] preopened_own [OF refl, of client v]
    by (auto simp: own_proxy_def official_proxy_def split: if_splits)
  have v1: "sv_broker (?v1 n) = sv_broker v" "sv_started (?v1 n) = sv_started v @ [(raw, start_message E n v)]" for n
    by (simp_all add: mark_started_def Let_def gen_track_def)
  have "v' = on_pair (gen_close raw) v \<or>
      (?name \<noteq> [] \<and> park_and_start E ?name raw (?v1 ?name) = Some v' \<and>
       (wd_token d \<noteq> [] \<longrightarrow> fst (credentials_match (se_auth E) (scf_credentials (sv_config v)) client
          (wd_token d) (wd_timestamp d))))"
    using assms(2) Some cs unfolding serve_official_work_conn_def Let_def
    by (simp only: option.case prod.case split: if_splits) blast+
  then show ?thesis
  proof
    assume a: "?name \<noteq> [] \<and> park_and_start E ?name raw (?v1 ?name) = Some v' \<and>
      (wd_token d \<noteq> [] \<longrightarrow> fst (credentials_match (se_auth E) (scf_credentials (sv_config v)) client
          (wd_token d) (wd_timestamp d)))"
    moreover have "sw_proxy_name (start_message E ?name v) = ?name" by (simp add: start_message_def)
    ultimately show ?thesis using own v1 Some cs by blast
  qed simp
qed

text \<open>A guest that was waiting and is paired with a work connection that fails at once is neither
  served, nor waiting again, nor closed.\<close>

lemma guest_lost:
  assumes ok: "broker_ok (sv_broker v)" and op: "\<not> wb_closed (sv_broker v)"
    and g: "guest_queue (sv_broker v) name = g # gs" and dead: "\<not> usable (se_pair E) (sg_pending g) raw"
  shows "\<exists>v'. park_and_start E name raw v = Some v' \<and> guest_queue (sv_broker v') name = gs \<and>
    gs_closed (sv_pair v') = gs_closed (sv_pair v) @ [raw] \<and> gs_wg (sv_pair v') = gs_wg (sv_pair v)"
proof -
  let ?p = "\<lparr>pr_guest = sg_conn g, pr_work = raw, pr_pending = sg_pending g\<rparr>"
  have "\<not> usable (se_pair E) (pr_pending ?p) (pr_work ?p)" using dead by simp
  note start = pair_start_unusable [OF this]
  have "park name raw (sv_broker v) = Some ((sv_broker v)\<lparr>wb_guests := gm_store name gs (wb_guests (sv_broker v))\<rparr>, [], True, Some ?p)"
    using op g by (simp add: park_def)
  with start show ?thesis by (simp add: park_and_start_def set_broker_def Let_def)
qed

end
