(* ===== verification/Server_Properties.thy ===== *)
theory Server_Properties
  imports Server_Work
begin

section \<open>Properties of the server\<close>

text \<open>Sample values for the instances.\<close>

definition sample_guest :: staged_guest where
  "sample_guest = \<lparr>sg_conn = 7, sg_pending = []\<rparr>"

definition sample_env :: server_env where
  "sample_env = \<lparr>se_pair = \<lparr>pe_probe = (\<lambda>c. if c = 3 then ReadFails else TimedOut), pe_write = (\<lambda>c bs. True)\<rparr>,
     se_start = (\<lambda>c m. True), se_remote = (\<lambda>c. None), se_local = (\<lambda>c. None),
     se_auth = \<lparr>af_sha256 = (\<lambda>bs. bs), af_md5 = (\<lambda>bs. bs)\<rparr>,
     se_declaration = (\<lambda>bs. None), se_parse_addr = (\<lambda>s. None), se_order = (\<lambda>xs. xs), se_lower = (\<lambda>s. s)\<rparr>"

definition sample_gen :: "work_broker \<Rightarrow> gen_state" where
  "sample_gen b = \<lparr>gs_broker = b, gs_conns = {7}, gs_wg = 1, gs_closed = [], gs_sent = []\<rparr>"

definition sample_view :: "work_broker \<Rightarrow> server_view" where
  "sample_view b = \<lparr>sv_pair = sample_gen b, sv_sessions = no_sessions, sv_registry = [],
     sv_config = zero_server_draft, sv_runtime = [], sv_udp_entries = {}, sv_pending_udp = [],
     sv_requested = [], sv_started = [], sv_unmatched = []\<rparr>"

definition broker_with_works :: work_broker where
  "broker_with_works = \<lparr>wb_guests = [], wb_works = \<lparr>sw_limit = 2, sw_staged = [(''ssh'', [3, 4])], sw_closed = False\<rparr>,
     wb_closed = False, wb_rejected = 0\<rparr>"

definition broker_with_guest :: work_broker where
  "broker_with_guest = \<lparr>wb_guests = [(''ssh'', [sample_guest])], wb_works = new_staged_works 2,
     wb_closed = False, wb_rejected = 0\<rparr>"

lemma broker_with_works_ok: "broker_ok broker_with_works"
  by (rule broker_ok_openI)
    (auto simp: broker_with_works_def staged_ok_def gm_tight_def gm_ok_def)

lemma broker_with_guest_ok: "broker_ok broker_with_guest"
  by (rule broker_ok_openI)
    (auto simp: broker_with_guest_def new_staged_works_def staged_ok_def gm_tight_def gm_ok_def gm_get_def)

subsection \<open>Pairing\<close>

text \<open>C5: the broker implements, for every proxy separately, one first-in first-out queue that holds
  either waiting guests or idle work connections: a guest takes the oldest work connection or waits
  behind at most 63 others, a work connection takes the oldest guest or joins the idle ones, of which
  the oldest are closed beyond the limit.\<close>

theorem broker_refines_queues:
  assumes "broker_ok b" and "\<not> wb_closed b"
  shows "(\<exists>b' out pr. park_guest name guest pending b = (b', out, pr) \<and> broker_ok b' \<and>
      spec_guest \<lparr>sg_conn = guest, sg_pending = pending\<rparr> (abs_broker b name) =
        (abs_broker b' name, out, map_option pair_of pr) \<and>
      (\<forall>other. other \<noteq> name \<longrightarrow> abs_broker b' other = abs_broker b other)) \<and>
    (\<exists>b' cl pr. park name work b = Some (b', cl, True, pr) \<and> broker_ok b' \<and>
      spec_work (idle_limit b) work (abs_broker b name) = (abs_broker b' name, cl, map_option pair_of pr) \<and>
      (\<forall>other. other \<noteq> name \<longrightarrow> abs_broker b' other = abs_broker b other))"
proof
  obtain b' out pr where r: "park_guest name guest pending b = (b', out, pr)" by (metis prod_cases3)
  from park_guest_refines [OF assms r] r show "\<exists>b' out pr. park_guest name guest pending b = (b', out, pr) \<and> broker_ok b' \<and>
      spec_guest \<lparr>sg_conn = guest, sg_pending = pending\<rparr> (abs_broker b name) =
        (abs_broker b' name, out, map_option pair_of pr) \<and>
      (\<forall>other. other \<noteq> name \<longrightarrow> abs_broker b' other = abs_broker b other)" by blast
  from park_refines [OF assms, of name work] show "\<exists>b' cl pr. park name work b = Some (b', cl, True, pr) \<and> broker_ok b' \<and>
      spec_work (idle_limit b) work (abs_broker b name) = (abs_broker b' name, cl, map_option pair_of pr) \<and>
      (\<forall>other. other \<noteq> name \<longrightarrow> abs_broker b' other = abs_broker b other)" by blast
qed

theorem broker_refines_queues_witness:
  "\<exists>b' pr. park ''ssh'' 9 broker_with_guest = Some (b', [], True, Some pr) \<and> pr_guest pr = 7 \<and> broker_ok b'"
proof -
  have op: "\<not> wb_closed broker_with_guest" and abs: "abs_broker broker_with_guest ''ssh'' = Guests [sample_guest]"
    by (simp_all add: broker_with_guest_def abs_broker_def gm_get_def)
  from broker_refines_queues [OF broker_with_guest_ok op, of "''ssh''" 0 "[]" 9]
  obtain b' cl pr where r: "park ''ssh'' 9 broker_with_guest = Some (b', cl, True, pr)" "broker_ok b'"
    "spec_work (idle_limit broker_with_guest) 9 (Guests [sample_guest]) = (abs_broker b' ''ssh'', cl, map_option pair_of pr)"
    unfolding abs by blast
  from r(3) have "cl = []" and pr: "map_option pair_of pr = Some (sample_guest, 9)" by simp_all
  from pr obtain p where "pr = Some p" "pair_of p = (sample_guest, 9)" by (cases pr) simp_all
  with r(1,2) \<open>cl = []\<close> show ?thesis by (auto simp: pair_of_def sample_guest_def)
qed

text \<open>C17: in any history of a broker whose idle connections are not closed separately, every
  connection handed to it is, exactly once, still waiting, paired, taken for a UDP session, closed by
  the broker or given back to the caller; no operation panics.\<close>

theorem broker_conserves_connections:
  assumes "0 \<le> limit" and "CloseStagedWorks \<notin> set ops"
  shows "\<exists>b l. broker_run ops (new_work_broker limit, empty_log) = Some (b, l) \<and> broker_ok b \<and>
    mset (bl_in l) = broker_held b + mset (map pr_guest (bl_paired l)) + mset (map pr_work (bl_paired l))
      + mset (bl_taken l) + mset (bl_closed l) + mset (bl_returned l)"
  using broker_run_ok [OF broker_ok_new [OF assms(1)] balanced_new assms(2)]
  by (auto simp: balanced_def log_out_def ac_simps)

theorem broker_conserves_connections_witness:
  "\<exists>b l. broker_run [ParkGuest ''ssh'' 1 [], Park ''ssh'' 2, Park ''ssh'' 3, CloseStaged] (new_work_broker 1, empty_log) =
     Some (b, l) \<and> broker_ok b"
proof -
  have "CloseStagedWorks \<notin> set [ParkGuest ''ssh'' 1 [], Park ''ssh'' 2, Park ''ssh'' 3, CloseStaged]" by simp
  from broker_conserves_connections [OF zero_le_one this] show ?thesis by blast
qed

text \<open>Once only the idle work connections of a broker have been closed, a work connection that
  arrives for a proxy without waiting guests is accepted and then neither held, paired, closed nor
  given back: it leaks.\<close>

theorem work_conn_leaks_after_partial_close:
  assumes "broker_ok b" and "\<not> wb_closed b" and "guest_queue b name = []"
  shows "\<exists>b' cl. close_staged_works b = (b', cl) \<and> park name c b' = Some (b', [], True, None) \<and>
    work_queue b' name = [] \<and> guest_queue b' name = []"
proof -
  have "\<not> sw_closed (wb_works b)" using broker_ok_openD(1) [OF assms(1,2)] by (simp add: staged_ok_def)
  with park_after_close_works [OF assms(2,3), of c] assms(3) show ?thesis
    by (auto simp: close_staged_works_def staged_close_def split: prod.splits)
qed

theorem work_conn_leaks_after_partial_close_witness:
  "\<exists>b' cl. close_staged_works broker_with_works = (b', cl) \<and> park ''ssh'' 9 b' = Some (b', [], True, None)"
proof -
  have "\<not> wb_closed broker_with_works" "guest_queue broker_with_works ''ssh'' = []"
    by (simp_all add: broker_with_works_def)
  from work_conn_leaks_after_partial_close [OF broker_with_works_ok this] show ?thesis by blast
qed



text \<open>When a declared work connection is paired with a waiting guest and turns out to be dead,
  the guest has left the queue, is not closed and is not bridged: it is lost.\<close>

theorem waiting_guest_lost:
  assumes "broker_ok (sv_broker v)" and "\<not> wb_closed (sv_broker v)"
    and "guest_queue (sv_broker v) name = g # gs" and "\<not> usable (se_pair E) (sg_pending g) raw"
    and "sg_conn g \<notin> set (gs_closed (sv_pair v))" and "sg_conn g \<noteq> raw"
  shows "\<exists>v'. park_and_start E name raw v = Some v' \<and> guest_queue (sv_broker v') name = gs \<and>
    sg_conn g \<notin> set (gs_closed (sv_pair v')) \<and> gs_wg (sv_pair v') = gs_wg (sv_pair v)"
  using guest_lost [OF assms(1-4)] assms(5,6) by auto

theorem waiting_guest_lost_witness:
  "\<exists>v'. park_and_start sample_env ''ssh'' 3 (sample_view broker_with_guest) = Some v' \<and>
     guest_queue (sv_broker v') ''ssh'' = [] \<and> 7 \<notin> set (gs_closed (sv_pair v'))"
proof -
  let ?v = "sample_view broker_with_guest"
  have hyps: "broker_ok (sv_broker ?v)" "\<not> wb_closed (sv_broker ?v)"
    "guest_queue (sv_broker ?v) ''ssh'' = sample_guest # []" "\<not> usable (se_pair sample_env) (sg_pending sample_guest) 3"
    "sg_conn sample_guest \<notin> set (gs_closed (sv_pair ?v))" "sg_conn sample_guest \<noteq> 3"
    using broker_with_guest_ok
    by (simp_all add: sample_view_def sample_gen_def usable_def sample_env_def work_conn_alive_def sample_guest_def)
      (simp add: broker_with_guest_def sample_guest_def gm_get_def)+
  from waiting_guest_lost [OF hyps] obtain v' where
    "park_and_start sample_env ''ssh'' 3 ?v = Some v'" "guest_queue (sv_broker v') ''ssh'' = []"
    "sg_conn sample_guest \<notin> set (gs_closed (sv_pair v'))" by blast
  then show ?thesis by (auto simp: sample_guest_def)
qed

end
