(* ===== verification/Admission_Properties.thy ===== *)
theory Admission_Properties
  imports Server_Work Core_Properties
begin

section \<open>Properties of sessions, logins, declarations and HTTP routing\<close>

subsection \<open>Control sessions\<close>

text \<open>C16: however the goroutines of the control connections interleave, the tables of the engine
  only refer to connections that are still open, every run identifier leads back to the session
  that carries it, and the end of a connection that was replaced leaves the entry of its
  replacement in place.\<close>

theorem session_tables_consistent:
  assumes "session_step\<^sup>*\<^sup>* (no_sessions, \<lambda>c. None) (s, ph)"
  shows "(\<forall>client c. map_of (sn_control s) client = Some c \<longrightarrow>
      c \<in> sn_conns s \<and> map_of (sn_clients s) c = Some client) \<and>
    (\<forall>client sess. map_of (sn_official s) client = Some sess \<longrightarrow> os_conn sess \<in> sn_conns s) \<and>
    (\<forall>r client. map_of (sn_run_ids s) r = Some client \<longrightarrow>
      (\<exists>sess. session_by_run_id r s = Some (client, sess) \<and> os_run_id sess = r)) \<and>
    (\<forall>old client c. map_of (sn_control s) client = Some c \<longrightarrow> old \<noteq> c \<longrightarrow>
      map_of (sn_control (untrack_control old s)) client = Some c)"
proof -
  have "session_inv (s, ph)" using session_run_inv [OF assms session_inv_start] .
  note inv = session_invD [OF this]
  have "c \<in> sn_conns s \<and> map_of (sn_clients s) c = Some client" if "map_of (sn_control s) client = Some c" for client c
  proof -
    have "ph c = Some (Bound client)" by (rule inv(7) [OF that])
    then show ?thesis by (simp add: inv(5,6))
  qed
  moreover have "os_conn sess \<in> sn_conns s" if "map_of (sn_official s) client = Some sess" for client sess
  proof -
    have "ph (os_conn sess) \<noteq> None \<and> ph (os_conn sess) \<noteq> Some Gone" using inv(8) [OF that] by auto
    then show ?thesis by (simp only: inv(5) simp_thms)
  qed
  moreover have "\<exists>sess. session_by_run_id r s = Some (client, sess) \<and> os_run_id sess = r"
    if "map_of (sn_run_ids s) r = Some client" for r client
    using inv(9) [OF that] that by (auto simp: session_by_run_id_def)
  moreover have "map_of (sn_control (untrack_control old s)) client = Some c"
    if "map_of (sn_control s) client = Some c" "old \<noteq> c" for old client c
    using that by (simp add: untrack_control_table)
  ultimately show ?thesis by blast
qed

lemma two_logins_reachable:
  "session_step\<^sup>*\<^sup>* (no_sessions, \<lambda>c. None)
     (fst (bind_control_client 1 ''c'' (track_control 1 no_sessions)), (\<lambda>c. None)(1 \<mapsto> Tracked, 1 \<mapsto> Bound ''c''))"
proof -
  have 1: "session_step (no_sessions, \<lambda>c. None) (track_control 1 no_sessions, (\<lambda>c. None)(1 \<mapsto> Tracked))"
    by (rule connect) simp
  have 2: "session_step (track_control 1 no_sessions, (\<lambda>c. None)(1 \<mapsto> Tracked))
      (fst (bind_control_client 1 ''c'' (track_control 1 no_sessions)), (\<lambda>c. None)(1 \<mapsto> Tracked, 1 \<mapsto> Bound ''c''))"
    by (rule bind_plain) simp
  from 1 2 show ?thesis by (meson converse_rtranclp_into_rtranclp rtranclp.rtrancl_refl)
qed

theorem session_tables_consistent_witness:
  "1 \<in> sn_conns (fst (bind_control_client 1 ''c'' (track_control 1 no_sessions)))"
  using session_tables_consistent [OF two_logins_reachable]
  by (auto simp: bind_control_client_def track_control_def no_sessions_def)

text \<open>Registering the official session and binding the connection are two separate sections.
  There is a reachable state in which a client's only connection is open and active while its
  official session has been removed with the connection it replaced: work connections can no longer
  be requested from it.\<close>

theorem official_session_lost_in_race:
  "\<exists>s ph. session_step\<^sup>*\<^sup>* (no_sessions, \<lambda>c. None) (s, ph) \<and>
     map_of (sn_control s) client = Some 0 \<and> 0 \<in> sn_conns s \<and> request_work_conn client s = None \<and>
     session_by_run_id r s = None"
proof -
  have none: "session_by_run_id r (raced_sessions client r r') = None" for r'
  proof -
    have "session_inv (raced_sessions client r r', raced_phases client)"
      using session_run_inv [OF raced_reachable session_inv_start] .
    note inv = session_invD [OF this]
    show ?thesis
    proof (rule ccontr)
      assume "session_by_run_id r (raced_sessions client r r') \<noteq> None"
      then obtain cl where cl: "map_of (sn_run_ids (raced_sessions client r r')) r = Some cl"
        by (auto simp: session_by_run_id_def split: option.splits)
      then have "map_of (sn_official (raced_sessions client r r')) cl \<noteq> None" using inv(9) by blast
      then have "cl = client"
        by (auto simp: raced_sessions_def untrack_official register_fields
          bind_control_client_def update_conv' track_control_def no_sessions_def split: if_splits)
      with \<open>map_of (sn_official (raced_sessions client r r')) cl \<noteq> None\<close> raced_result(2) show False by auto
    qed
  qed
  have "0 \<in> sn_conns (raced_sessions client r r)"
    by (simp add: raced_sessions_def untrack_fields register_fields bind_control_client_def track_control_def)
  with raced_reachable raced_result none show ?thesis
    by (intro exI [where x = "raced_sessions client r r"] exI [where x = "raced_phases client"])
      (simp add: request_work_conn_def)
qed

subsection \<open>Logins and declarations\<close>

fun replay_run :: "run_key list \<Rightarrow> run_key list \<times> login_chain \<Rightarrow> (run_key list \<times> login_chain) option" where
  "replay_run [] s = Some s"
| "replay_run ((r, t) # ks) (taken, chain) =
     (case check_replay r t chain of
        None \<Rightarrow> None
      | Some (chain', ok) \<Rightarrow> replay_run ks (if ok then taken @ [(r, t)] else taken, chain'))"

lemma replay_run_inv:
  assumes "chain_inv taken chain"
  shows "\<exists>taken' chain'. replay_run ks (taken, chain) = Some (taken', chain') \<and> chain_inv taken' chain' \<and>
    lc_max chain' = lc_max chain"
  using assms
proof (induction ks arbitrary: taken chain)
  case Nil
  then show ?case by simp
next
  case (Cons k ks)
  obtain r t where k: "k = (r, t)" by (cases k)
  from check_replay_step [OF Cons.prems, of r t] obtain chain' ok where
    step: "check_replay r t chain = Some (chain', ok)" "lc_max chain' = lc_max chain"
      "chain_inv (if ok then taken @ [(r, t)] else taken) chain'" by blast
  from Cons.IH [OF step(3)] step(1,2) k show ?case by auto
qed

lemma check_replay_window:
  assumes "check_replay r t chain = Some (chain', ok)"
  shows "lc_window chain' = lc_window chain"
  using assms by (auto simp: check_replay_def Let_def split: if_splits list.splits)

lemma replay_run_window:
  "replay_run ks (taken, chain) = Some (taken', chain') \<Longrightarrow> lc_window chain' = lc_window chain"
proof (induction ks arbitrary: taken chain)
  case Nil
  then show ?case by simp
next
  case (Cons k ks)
  then show ?case by (cases k) (auto split: option.splits dest: check_replay_window)
qed

text \<open>A login succeeds exactly when its payload decodes, names a client and carries material that
  matches one of that client's credentials, and the response could be written; the run identifier
  that is given back is the client's own or, when it sent none, a fresh one.\<close>

theorem login_success_iff:
  "(\<exists>official. snd (handle_login A unmarshal fresh write_ok creds payload) = Inr (official, run_id)) \<longleftrightarrow>
   write_ok \<and> (\<exists>request. unmarshal payload = Some request \<and>
     lp_client_id request \<noteq> [] \<and> lp_token request \<noteq> [] \<and>
     run_id = (if lp_run_id request = [] then fresh else lp_run_id request) \<and>
     (\<exists>c \<in> set creds. cc_client_id c = lp_client_id request \<and>
        (cc_token c \<noteq> [] \<and> cc_token c = digest_token A (lp_token request) \<or>
         cc_compat_token c \<noteq> [] \<and>
         official_privilege_key A (cc_compat_token c) (lp_timestamp request) = lp_token request)))"
proof (cases "unmarshal payload")
  case None
  then show ?thesis by (simp add: handle_login_def)
next
  case (Some q)
  obtain m off where m: "match_credentials A (lp_client_id q) (lp_token q) (lp_timestamp q) creds = (m, off)"
    by fastforce
  have iff: "m \<longleftrightarrow> (\<exists>c \<in> set creds. cc_client_id c = lp_client_id q \<and>
      (cc_token c \<noteq> [] \<and> cc_token c = digest_token A (lp_token q) \<or>
       cc_compat_token c \<noteq> [] \<and> official_privilege_key A (cc_compat_token c) (lp_timestamp q) = lp_token q))"
    using match_credentials_iff [of A "lp_client_id q" "lp_token q" "lp_timestamp q" creds] m by simp
  show ?thesis
  proof (cases "lp_client_id q = [] \<or> lp_token q = []")
    case True
    then show ?thesis using Some by (auto simp: handle_login_def credentials_match_def)
  next
    case False
    show ?thesis
    proof (cases m)
      case True
      with iff False Some m show ?thesis by (auto simp: handle_login_def credentials_match_def Let_def)
    next
      case no: False
      with iff have "\<not> (\<exists>c \<in> set creds. cc_client_id c = lp_client_id q \<and>
        (cc_token c \<noteq> [] \<and> cc_token c = digest_token A (lp_token q) \<or>
         cc_compat_token c \<noteq> [] \<and> official_privilege_key A (cc_compat_token c) (lp_timestamp q) = lp_token q))"
        by blast
      with no False Some m show ?thesis by (simp add: handle_login_def credentials_match_def)
    qed
  qed
qed

text \<open>The chain that checks the time and the repetition of logins refuses an attempt exactly when
  it is among the last ones accepted, as many as the cache holds; its window is symmetric as long
  as the distance of the clocks fits a duration, and a time stamp too far in the future for that is
  accepted.\<close>

theorem login_chain_exact:
  assumes "0 < cap" and "0 < window"
  shows "\<exists>taken chain. replay_run ks ([], new_login_chain window cap) = Some (taken, chain) \<and>
    (\<forall>run_id t. \<exists>chain' ok. check_replay run_id t chain = Some (chain', ok) \<and>
       (ok \<longleftrightarrow> (run_id, t) \<notin> set (drop (length taken - nat cap) taken))) \<and>
    (\<forall>now t. int64_min < now - t * 1000000 \<and> now - t * 1000000 \<le> int64_max \<longrightarrow>
       (check_time_window now t chain \<longleftrightarrow> \<bar>now - t * 1000000\<bar> \<le> window)) \<and>
    (\<forall>now t. now - t * 1000000 \<le> int64_min \<longrightarrow> check_time_window now t chain)"
proof -
  from replay_run_inv [OF chain_inv_new, of ks window cap] obtain taken chain where
    run: "replay_run ks ([], new_login_chain window cap) = Some (taken, chain)"
    and inv: "chain_inv taken chain" and cap: "lc_max chain = lc_max (new_login_chain window cap)" by blast
  have "lc_max chain = cap" using cap assms(1) by (simp add: new_login_chain_def)
  moreover have "lc_window chain = window"
    using replay_run_window [OF run] assms(2) by (simp add: new_login_chain_def)
  ultimately show ?thesis
    using run check_replay_step [OF inv] check_time_window_near check_time_window_far assms(2)
    by (intro exI [where x = taken] exI [where x = chain]) (auto, blast)
qed

theorem login_chain_exact_witness:
  "\<exists>taken chain. replay_run [(''a'', 1), (''b'', 1), (''a'', 1)] ([], new_login_chain 5 2) = Some (taken, chain) \<and>
     check_time_window 0 (- 1) chain = False"
proof -
  have "(0::int) < 2" "(0::int) < 5" by simp_all
  from login_chain_exact [OF this, of "[(''a'', 1), (''b'', 1), (''a'', 1)]"] obtain taken chain where
    r: "replay_run [(''a'', 1), (''b'', 1), (''a'', 1)] ([], new_login_chain 5 2) = Some (taken, chain)"
    and w: "\<forall>now t. int64_min < now - t * 1000000 \<and> now - t * 1000000 \<le> int64_max \<longrightarrow>
       (check_time_window now t chain \<longleftrightarrow> \<bar>now - t * 1000000\<bar> \<le> 5)" by blast
  from w have "check_time_window 0 (- 1) chain = False"
    by (auto simp: int64_min_def int64_max_def dest: spec [where x = 0] spec [where x = "- 1"])
  with r show ?thesis by blast
qed

text \<open>C12: an arriving work connection is closed without any other effect, unless it is authorised:
  a declaration needs a credential of the client, an active control session of it and a proxy that
  the client owns, and then reaches the broker of that proxy only (or, for a forbidden target,
  closes the guests of that proxy); an official one is assigned to a proxy of the client whose
  session it names.\<close>

theorem work_connection_authorised:
  assumes "\<And>xs. set (se_order E xs) = set xs" and "serve_work_declaration E raw payload v = Some v'"
    and "v' \<noteq> on_pair (gen_close raw) v"
  shows "\<exists>d. parse_work_declaration (se_declaration E) (se_parse_addr E) payload = Inr d \<and>
    (if wd_official d
     then \<exists>client sess name v1. session_by_run_id (wd_run_id d) (sv_sessions v) = Some (client, sess) \<and>
       (wd_token d \<noteq> [] \<longrightarrow> fst (credentials_match (se_auth E) (scf_credentials (sv_config v)) client
          (wd_token d) (wd_timestamp d))) \<and>
       own_proxy client name v \<and> sv_broker v1 = sv_broker v \<and> park_and_start E name raw v1 = Some v'
     else declaration_authorised E d v \<and>
       (if target_allowed (sv_registry v) (wd_proxy d) (wd_target d)
        then park_and_start E (wd_proxy d) raw v = Some v'
        else sv_broker v' = fst (drop_guests (wd_proxy d) (sv_broker v)) \<and>
          gs_closed (sv_pair v') = gs_closed (sv_pair v) @ raw # map sg_conn (guest_queue (sv_broker v) (wd_proxy d))))"
proof -
  obtain d where d: "parse_work_declaration (se_declaration E) (se_parse_addr E) payload = Inr d"
    using assms(2,3) by (auto simp: serve_work_declaration_def split: sum.splits)
  show ?thesis
  proof (cases "wd_official d")
    case True
    with d assms(2) have "serve_official_work_conn E raw d v = Some v'" by (simp add: serve_work_declaration_def)
    from official_cases [OF assms(1) this] assms(3) d True show ?thesis by auto
  next
    case False
    with d assms(2) have r: "serve_declared_work_conn E raw d v = Some v'" by (simp add: serve_work_declaration_def)
    have auth: "declaration_authorised E d v" using r declared_unauthorised assms(3) by fastforce
    show ?thesis
    proof (cases "target_allowed (sv_registry v) (wd_proxy d) (wd_target d)")
      case True
      with declared_allowed [OF auth] r auth d False show ?thesis by auto
    next
      case no: False
      from declared_forbidden [OF auth no, of raw] r
      have "sv_broker v' = fst (drop_guests (wd_proxy d) (sv_broker v)) \<and>
        gs_closed (sv_pair v') = gs_closed (sv_pair v) @ raw # map sg_conn (guest_queue (sv_broker v) (wd_proxy d))"
        by auto
      with auth d False no show ?thesis by auto
    qed
  qed
qed

definition declared_env :: server_env where
  "declared_env = \<lparr>se_pair = \<lparr>pe_probe = (\<lambda>c. TimedOut), pe_write = (\<lambda>c bs. True)\<rparr>,
     se_start = (\<lambda>c m. True), se_remote = (\<lambda>c. None), se_local = (\<lambda>c. None),
     se_auth = \<lparr>af_sha256 = (\<lambda>bs. bs), af_md5 = (\<lambda>bs. bs)\<rparr>,
     se_declaration = (\<lambda>bs. Some \<lparr>wr_client_id = ''c'', wr_token = ''t'', wr_privilege_key = [], wr_timestamp = 0,
       wr_run_id = [], wr_proxy = ''ssh'', wr_target = []\<rparr>),
     se_parse_addr = (\<lambda>s. Some sample_target), se_order = (\<lambda>xs. xs), se_lower = (\<lambda>s. s)\<rparr>"

definition declared_view :: server_view where
  "declared_view = \<lparr>sv_pair = \<lparr>gs_broker = new_work_broker 2, gs_conns = {}, gs_wg = 0, gs_closed = [], gs_sent = []\<rparr>,
     sv_sessions = fst (bind_control_client 1 ''c'' (track_control 1 no_sessions)),
     sv_registry = publish_registry sample_server,
     sv_config = sample_server\<lparr>scf_credentials := [\<lparr>cc_client_id = ''c'', cc_token = ''74'', cc_compat_token = []\<rparr>]\<rparr>,
     sv_runtime = [], sv_udp_entries = {}, sv_pending_udp = [], sv_requested = [], sv_started = [], sv_unmatched = []\<rparr>"

lemma declared_run:
  "map_option (\<lambda>v. (work_queue (sv_broker v) ''ssh'', gs_closed (sv_pair v)))
     (serve_work_declaration declared_env 5 [] declared_view) = Some ([5], [])"
  by code_simp

theorem work_connection_authorised_witness:
  "\<exists>v' d. serve_work_declaration declared_env 5 [] declared_view = Some v' \<and>
     declaration_authorised declared_env d declared_view \<and> wd_proxy d = ''ssh''"
proof -
  obtain v' where v': "serve_work_declaration declared_env 5 [] declared_view = Some v'"
    "gs_closed (sv_pair v') = []"
    using declared_run by auto
  then have ne: "v' \<noteq> on_pair (gen_close 5) declared_view" by auto
  have order: "\<And>xs. set (se_order declared_env xs) = set xs" by (simp add: declared_env_def)
  have "parse_work_declaration (se_declaration declared_env) (se_parse_addr declared_env) [] =
    Inr \<lparr>wd_client_id = ''c'', wd_token = ''t'', wd_timestamp = 0, wd_proxy = ''ssh'', wd_target = sample_target,
      wd_official = False, wd_run_id = []\<rparr>"
    by (simp add: parse_work_declaration_def declared_env_def)
  with work_connection_authorised [OF order v'(1) ne] v'(1) show ?thesis by fastforce
qed

subsection \<open>HTTP entries\<close>



text \<open>C36: from a table that was built, a request is given to the route of its host whose path is the
  longest prefix of the request's path, on a segment boundary; there is at most one such route, and
  the order in which the routes were given does not matter.\<close>

theorem longest_prefix_routed:
  assumes "new_http_router lower rs = Inr t" and "new_http_router lower rs' = Inr t'" and "set rs = set rs'"
  shows "(select_route lower t host path = Some p \<longleftrightarrow>
      (\<exists>r \<in> set t. hr_proxy r = p \<and> route_matches (lower host) (if path = [] then ''/'' else path) r \<and>
        (\<forall>s \<in> set t. route_matches (lower host) (if path = [] then ''/'' else path) s \<longrightarrow>
           s = r \<or> length (hr_path s) < length (hr_path r)))) \<and>
    select_route lower t' host path = select_route lower t host path"
proof -
  have "select_route lower t' host path = Some q \<longleftrightarrow> select_route lower t host path = Some q" for q
    unfolding select_route_longest [OF assms(1)] select_route_longest [OF assms(2)]
      new_http_router_set [OF assms] ..
  then have "select_route lower t' host path = select_route lower t host path"
    by (metis not_None_eq)
  with select_route_longest [OF assms(1)] show ?thesis by blast
qed

theorem longest_prefix_routed_witness:
  "\<exists>t t'. new_http_router (\<lambda>s. s) [\<lparr>hr_proxy = ''web'', hr_host = ''h'', hr_path = []\<rparr>,
       \<lparr>hr_proxy = ''api'', hr_host = ''h'', hr_path = ''/api''\<rparr>] = Inr t \<and>
     new_http_router (\<lambda>s. s) [\<lparr>hr_proxy = ''api'', hr_host = ''h'', hr_path = ''/api''\<rparr>,
       \<lparr>hr_proxy = ''web'', hr_host = ''h'', hr_path = []\<rparr>] = Inr t' \<and>
     select_route (\<lambda>s. s) t' ''h'' ''/api/x'' = select_route (\<lambda>s. s) t ''h'' ''/api/x''"
proof -
  let ?a = "\<lparr>hr_proxy = ''web'', hr_host = ''h'', hr_path = []\<rparr>"
    and ?b = "\<lparr>hr_proxy = ''api'', hr_host = ''h'', hr_path = ''/api''\<rparr>"
  let ?t = "[?b, ?a\<lparr>hr_path := ''/''\<rparr>]"
  have 1: "new_http_router (\<lambda>s. s) [?a, ?b] = Inr ?t" by code_simp
  have 2: "new_http_router (\<lambda>s. s) [?b, ?a] = Inr ?t" by code_simp
  have "set [?a, ?b] = set [?b, ?a]" by auto
  from longest_prefix_routed [OF 1 2 this] 1 2 show ?thesis by blast
qed

text \<open>Reading the head of a request takes exactly the bytes up to the first empty line, passes all
  of them on and leaves the rest unread. It is given up after 8193 bytes: the limit of 8192 is
  exceeded by one before it is noticed.\<close>

theorem request_head_exact:
  assumes "read_request_target input = Inr (t, rest)"
  shows "rt_pending t @ rest = input \<and> header_block_complete (rt_pending t) \<and> length (rt_pending t) \<le> 8193 \<and>
    (\<forall>k. 0 < k \<and> k < length (rt_pending t) \<longrightarrow> \<not> header_block_complete (take k (rt_pending t)))"
proof -
  have r: "read_header_loop [] input = Inr (rt_pending t, rest)"
    using assms by (auto simp: read_request_target_def read_header_block_def Let_def split: sum.splits if_splits)
  show ?thesis using read_header_loop_Inr [OF r] by simp
qed

lemma Inr_rest: "(case x of Inl e \<Rightarrow> False | Inr (t, rest) \<Rightarrow> rest = r) \<Longrightarrow> \<exists>t. x = Inr (t, r)"
  by (cases x) auto

theorem request_head_exact_witness:
  "\<exists>t. read_request_target (''G / H'' @ [CHR 0x0A] @ ''Host:a'' @ [CHR 0x0A, CHR 0x0A] @ ''x'') = Inr (t, ''x'') \<and>
     length (rt_pending t) \<le> 8193"
proof -
  let ?in = "''G / H'' @ [CHR 0x0A] @ ''Host:a'' @ [CHR 0x0A, CHR 0x0A] @ ''x''"
  have "(case read_request_target ?in of Inl e \<Rightarrow> False | Inr (t, rest) \<Rightarrow> rest = ''x'')" by code_simp
  from Inr_rest [OF this] obtain t where t: "read_request_target ?in = Inr (t, ''x'')" ..
  have "length (rt_pending t) \<le> 8193" using request_head_exact [OF t] by (elim conjE)
  with t show ?thesis by (intro exI conjI)
qed

end
