(* ===== verification/Server_Generation.thy ===== *)
theory Server_Generation
  imports Server_Work
begin

section \<open>Generations and their entries (\<open>core/server/engine.go\<close>, \<open>apply.go\<close>)\<close>

text \<open>
  A generation is the set of resources of one configuration revision: the listeners of the entries,
  their addresses, the UDP entries, the proxies that clients registered at run time. Entries whose
  name and address did not change are taken over from the previous generation without closing the
  socket. Listeners and packet ports are numbered; whether an address can be bound, and the address
  the operating system reports for it, is the parameter \<open>bind_fn\<close>, a function of the number of the
  attempt.
\<close>

subsection \<open>Sockets\<close>

record entry_net =
  nt_open :: "nat set"
  nt_next :: nat
  nt_addr :: "nat \<Rightarrow> addr_port"

type_synonym bind_fn = "nat \<Rightarrow> addr_port \<Rightarrow> addr_port option"

definition net_listen :: "bind_fn \<Rightarrow> addr_port \<Rightarrow> entry_net \<Rightarrow> entry_net \<times> nat option" where
  "net_listen bind a n =
     (case bind (nt_next n) a of
        None \<Rightarrow> (n\<lparr>nt_next := Suc (nt_next n)\<rparr>, None)
      | Some actual \<Rightarrow>
          (n\<lparr>nt_open := insert (nt_next n) (nt_open n), nt_addr := (nt_addr n)(nt_next n := actual),
             nt_next := Suc (nt_next n)\<rparr>, Some (nt_next n)))"

definition net_close :: "nat \<Rightarrow> entry_net \<Rightarrow> entry_net" where
  "net_close l n = n\<lparr>nt_open := nt_open n - {l}\<rparr>"

subsection \<open>Names and addresses of entries\<close>

definition http_entry_prefix :: string where "http_entry_prefix = ''http:''"

definition http_entry_name :: "int \<Rightarrow> string" where
  "http_entry_name port = http_entry_prefix @ itoa port"

text \<open>\<open>strconv.Atoi\<close>: an optional sign, decimal digits, the range of a 64-bit integer.\<close>

definition atoi :: "string \<Rightarrow> int option" where
  "atoi s =
     (let neg = (s \<noteq> [] \<and> hd s = CHR ''-''); ds = (if s \<noteq> [] \<and> (hd s = CHR ''-'' \<or> hd s = CHR ''+'') then tl s else s);
          n = (if neg then - int (atoi_digits ds) else int (atoi_digits ds))
      in if ds = [] \<or> \<not> list_all is_digit_char ds then None
         else if n < int64_min \<or> int64_max < n then None
         else Some n)"

definition http_entry_port :: "string \<Rightarrow> int option" where
  "http_entry_port name =
     (if prefix http_entry_prefix name then atoi (drop (length http_entry_prefix) name) else None)"

definition entry_bind_addr :: "server_config \<Rightarrow> int \<Rightarrow> addr_port" where
  "entry_bind_addr c port =
     (let host = ap_addr (be_address (scf_listen c))
      in \<lparr>ap_addr = (if addr_is_valid host then host else IP_V4 0), ap_port = of_int port\<rparr>)"

definition addr_overlap :: "ip_addr \<Rightarrow> ip_addr \<Rightarrow> bool" where
  "addr_overlap old next =
     (if \<not> addr_is_valid old \<or> \<not> addr_is_valid next then False
      else if addr_is_unspecified old \<or> addr_is_unspecified next then True
      else old = next)"

definition same_entry :: "addr_port \<Rightarrow> addr_port \<Rightarrow> bool" where
  "same_entry old next \<longleftrightarrow> ap_port old = ap_port next \<and> addr_overlap (ap_addr old) (ap_addr next)"

definition udp_params_match :: "server_config \<Rightarrow> server_config \<Rightarrow> bool" where
  "udp_params_match c c' \<longleftrightarrow> scf_udp_idle c = scf_udp_idle c' \<and> scf_udp_limit c = scf_udp_limit c' \<and>
     scf_udp_size c = scf_udp_size c'"

subsection \<open>The generation\<close>

record generation =
  gn_revision :: nat
  gn_config :: server_config
  gn_lns :: "(string, nat) gomap"
  gn_addrs :: "(string, addr_port) gomap"
  gn_udp :: "(string, nat) gomap"
  gn_stopping :: bool
  gn_reused :: "string set"
  gn_donated :: "string set"
  gn_runtime :: "(string, runtime_proxy) gomap"
  gn_conns :: "conn set"

definition new_generation :: "nat \<Rightarrow> server_config \<Rightarrow> generation" where
  "new_generation revision c =
     \<lparr>gn_revision = revision, gn_config = c, gn_lns = [], gn_addrs = [], gn_udp = [], gn_stopping = False,
      gn_reused = {}, gn_donated = {}, gn_runtime = [], gn_conns = {}\<rparr>"

definition listen_guest :: "bind_fn \<Rightarrow> server_config \<Rightarrow> int \<Rightarrow> entry_net \<Rightarrow> entry_net \<times> nat option" where
  "listen_guest bind c port n = net_listen bind (entry_bind_addr c port) n"

definition open_udp_entry :: "bind_fn \<Rightarrow> server_config \<Rightarrow> int \<Rightarrow> entry_net \<Rightarrow> entry_net \<times> nat option" where
  "open_udp_entry bind c port n = net_listen bind (entry_bind_addr c port) n"

definition reusable_stream_entry :: "entry_net \<Rightarrow> generation option \<Rightarrow> string \<Rightarrow> addr_port \<Rightarrow> nat option" where
  "reusable_stream_entry n prev name a =
     (case prev of
        None \<Rightarrow> None
      | Some g \<Rightarrow>
          (case map_of (gn_lns g) name of
             None \<Rightarrow> None
           | Some l \<Rightarrow> if same_entry (nt_addr n l) a then Some l else None))"

text \<open>The entries being opened: \<open>op_taken\<close> are the names taken over from the previous generation.\<close>

record entry_opening =
  op_lns :: "(string, nat) gomap"
  op_addrs :: "(string, addr_port) gomap"
  op_udp :: "(string, nat) gomap"
  op_taken :: "string set"
  op_net :: entry_net

datatype open_error = BindFailed string | UdpParamsChanged string

definition add_stream :: "string \<Rightarrow> nat \<Rightarrow> entry_opening \<Rightarrow> entry_opening" where
  "add_stream name l st =
     st\<lparr>op_lns := gm_set name l (op_lns st), op_addrs := gm_set name (nt_addr (op_net st) l) (op_addrs st)\<rparr>"

definition take_stream ::
  "bind_fn \<Rightarrow> generation option \<Rightarrow> server_config \<Rightarrow> string \<times> int \<Rightarrow> entry_opening \<Rightarrow> entry_opening \<times> open_error option" where
  "take_stream bind prev c = (\<lambda>(name, port) st.
     (case reusable_stream_entry (op_net st) prev name (entry_bind_addr c port) of
        Some l \<Rightarrow> (add_stream name l (st\<lparr>op_taken := insert name (op_taken st)\<rparr>), None)
      | None \<Rightarrow>
          (case listen_guest bind c port (op_net st) of
             (n, None) \<Rightarrow> (st\<lparr>op_net := n\<rparr>, Some (BindFailed name))
           | (n, Some l) \<Rightarrow> (add_stream name l (st\<lparr>op_net := n\<rparr>), None))))"

definition take_udp_entry ::
  "bind_fn \<Rightarrow> generation option \<Rightarrow> server_config \<Rightarrow> string \<times> int \<Rightarrow> entry_opening \<Rightarrow> entry_opening \<times> open_error option" where
  "take_udp_entry bind prev c = (\<lambda>(name, port) st.
     (let a = entry_bind_addr c port;
          put = (\<lambda>e s. s\<lparr>op_udp := gm_set name e (op_udp s), op_addrs := gm_set name (nt_addr (op_net s) e) (op_addrs s)\<rparr>);
          fresh = (case open_udp_entry bind c port (op_net st) of
              (n, None) \<Rightarrow> (st\<lparr>op_net := n\<rparr>, Some (BindFailed name))
            | (n, Some e) \<Rightarrow> (put e (st\<lparr>op_net := n\<rparr>), None))
      in case prev of
           None \<Rightarrow> fresh
         | Some g \<Rightarrow>
             (case map_of (gn_udp g) name of
                None \<Rightarrow> fresh
              | Some e \<Rightarrow>
                  if same_entry (nt_addr (op_net st) e) a
                  then (if udp_params_match (gn_config g) c
                    then (put e (st\<lparr>op_taken := insert name (op_taken st)\<rparr>), None)
                    else (st, Some (UdpParamsChanged name)))
                  else fresh)))"

fun open_all :: "('a \<Rightarrow> entry_opening \<Rightarrow> entry_opening \<times> open_error option) \<Rightarrow> 'a list \<Rightarrow> entry_opening \<Rightarrow> entry_opening \<times> open_error option" where
  "open_all f [] st = (st, None)"
| "open_all f (x # xs) st = (case f x st of (st', Some e) \<Rightarrow> (st', Some e) | (st', None) \<Rightarrow> open_all f xs st')"

text \<open>The shared HTTP entries: one per port, in the order of the bindings.\<close>

definition http_entries :: "server_config \<Rightarrow> (string \<times> int) list" where
  "http_entries c = map (\<lambda>p. (http_entry_name p, p)) (rev (remdups (rev (map pb_port (scf_http c)))))"

definition stream_entries :: "server_config \<Rightarrow> (string \<times> int) list" where
  "stream_entries c =
     map (\<lambda>b. (pb_name b, pb_port b)) (scf_tcp c) @ map (\<lambda>b. (pb_name b, pb_port b)) (scf_https c) @ http_entries c"

definition udp_entries :: "server_config \<Rightarrow> (string \<times> int) list" where
  "udp_entries c = map (\<lambda>b. (pb_name b, pb_port b)) (scf_udp c)"

definition http_addresses :: "server_config \<Rightarrow> entry_opening \<Rightarrow> entry_opening" where
  "http_addresses c st =
     st\<lparr>op_addrs := fold (\<lambda>b addrs. gm_set (pb_name b)
         (nt_addr (op_net st) (gm_get 0 (http_entry_name (pb_port b)) (op_lns st))) addrs) (scf_http c) (op_addrs st)\<rparr>"

text \<open>Closing what is not taken over: the deferred release of a failed opening, and the release of a
  generation that is given up before it is published.\<close>

definition close_unless :: "string set \<Rightarrow> (string, nat) gomap \<Rightarrow> entry_net \<Rightarrow> entry_net" where
  "close_unless kept entries n = fold (\<lambda>(name, l) n'. if name \<in> kept then n' else net_close l n') entries n"

definition release_opening :: "entry_opening \<Rightarrow> entry_net" where
  "release_opening st = close_unless (op_taken st) (op_udp st) (close_unless (op_taken st) (op_lns st) (op_net st))"

definition gen_release :: "generation \<Rightarrow> entry_net \<Rightarrow> entry_net" where
  "gen_release g n = close_unless (gn_reused g) (gn_udp g) (close_unless (gn_reused g) (gn_lns g) n)"

definition open_guest_entries ::
  "bind_fn \<Rightarrow> generation option \<Rightarrow> server_config \<Rightarrow> generation \<Rightarrow> entry_net \<Rightarrow> entry_net \<times> (open_error + generation)" where
  "open_guest_entries bind prev c g n =
     (case open_all (take_stream bind prev c) (stream_entries c)
         \<lparr>op_lns = [], op_addrs = [], op_udp = [], op_taken = {}, op_net = n\<rparr> of
        (st, Some e) \<Rightarrow> (release_opening st, Inl e)
      | (st, None) \<Rightarrow>
          (case open_all (take_udp_entry bind prev c) (udp_entries c) (http_addresses c st) of
             (st', Some e) \<Rightarrow> (release_opening st', Inl e)
           | (st', None) \<Rightarrow> (op_net st', Inr (g\<lparr>gn_lns := op_lns st', gn_addrs := op_addrs st', gn_udp := op_udp st',
               gn_reused := op_taken st'\<rparr>))))"

definition count_entries :: "generation \<Rightarrow> int" where
  "count_entries g = int (length (gn_lns g)) + int (length (gn_udp g)) - int (card (gn_reused g))"

subsection \<open>Laws\<close>

text \<open>The sockets opened so far: those of the names that were not taken over.\<close>

definition fresh_entries :: "string set \<Rightarrow> (string, nat) gomap \<Rightarrow> nat set" where
  "fresh_entries kept es = {l. \<exists>name. (name, l) \<in> set es \<and> name \<notin> kept}"

lemma fresh_entries_simps [simp]:
  "fresh_entries kept [] = {}"
  "fresh_entries kept ((name, l) # es) = (if name \<in> kept then {} else {l}) \<union> fresh_entries kept es"
  by (auto simp: fresh_entries_def)

lemma close_unless_open [simp]: "nt_open (close_unless kept es n) = nt_open n - fresh_entries kept es"
  unfolding close_unless_def by (induction es arbitrary: n) (auto simp: net_close_def split: prod.splits)

lemma close_unless_addr [simp]:
  "nt_addr (close_unless kept es n) = nt_addr n" "nt_next (close_unless kept es n) = nt_next n"
  unfolding close_unless_def by (induction es arbitrary: n) (auto simp: net_close_def split: prod.splits)

lemma set_gm_set_new: "k \<notin> fst ` set m \<Longrightarrow> set (gm_set k v m) = insert (k, v) (set m)"
  by (induction m) auto

lemma fresh_entries_set:
  "name \<notin> fst ` set es \<Longrightarrow> fresh_entries kept (gm_set name l es) = (if name \<in> kept then {} else {l}) \<union> fresh_entries kept es"
  by (auto simp: fresh_entries_def set_gm_set_new)

lemma fresh_entries_keep: "name \<notin> fst ` set es \<Longrightarrow> fresh_entries (insert name kept) es = fresh_entries kept es"
  by (force simp: fresh_entries_def)

definition net_ok :: "entry_net \<Rightarrow> bool" where
  "net_ok n \<longleftrightarrow> (\<forall>l \<in> nt_open n. l < nt_next n)"

definition all_fresh :: "entry_opening \<Rightarrow> nat set" where
  "all_fresh st = fresh_entries (op_taken st) (op_lns st) \<union> fresh_entries (op_taken st) (op_udp st)"

definition op_entries :: "entry_opening \<Rightarrow> (string \<times> nat) set" where
  "op_entries st = set (op_lns st) \<union> set (op_udp st)"

definition gen_entries :: "generation \<Rightarrow> (string \<times> nat) set" where
  "gen_entries g = set (gn_lns g) \<union> set (gn_udp g)"

definition op_names :: "entry_opening \<Rightarrow> string set" where
  "op_names st = fst ` set (op_lns st) \<union> fst ` set (op_udp st)"

text \<open>Exactly the fresh entries were opened since \<open>n0\<close>.\<close>

definition opening_ok :: "entry_net \<Rightarrow> entry_opening \<Rightarrow> bool" where
  "opening_ok n0 st \<longleftrightarrow> nt_open (op_net st) = nt_open n0 \<union> all_fresh st \<and>
     (\<forall>l \<in> all_fresh st. nt_next n0 \<le> l \<and> l < nt_next (op_net st)) \<and>
     nt_next n0 \<le> nt_next (op_net st) \<and> op_taken st \<subseteq> op_names st \<and>
     (\<forall>l < nt_next n0. nt_addr (op_net st) l = nt_addr n0 l)"

lemma release_opening_ok: "net_ok n0 \<Longrightarrow> opening_ok n0 st \<Longrightarrow> nt_open (release_opening st) = nt_open n0"
proof -
  assume n0: "net_ok n0" and st: "opening_ok n0 st"
  have "nt_open (release_opening st) = nt_open n0 \<union> all_fresh st - all_fresh st"
    using st by (auto simp: opening_ok_def release_opening_def all_fresh_def)
  moreover have "nt_open n0 \<inter> all_fresh st = {}"
  proof -
    have "\<not> l < nt_next n0" if "l \<in> all_fresh st" for l using st that by (auto simp: opening_ok_def)
    with n0 show ?thesis by (auto simp: net_ok_def)
  qed
  ultimately show ?thesis by blast
qed

lemma net_listen_cases:
  assumes "net_listen bind a n = (n', r)"
  shows "r = None \<and> nt_open n' = nt_open n \<and> nt_next n' = Suc (nt_next n) \<and> nt_addr n' = nt_addr n \<or>
    (\<exists>actual. bind (nt_next n) a = Some actual \<and> r = Some (nt_next n) \<and>
      nt_open n' = insert (nt_next n) (nt_open n) \<and> nt_next n' = Suc (nt_next n) \<and>
      nt_addr n' = (nt_addr n)(nt_next n := actual))"
proof (cases "bind (nt_next n) a")
  case None
  with assms show ?thesis by (auto simp: net_listen_def)
next
  case (Some actual)
  with assms have "n' = n\<lparr>nt_open := insert (nt_next n) (nt_open n), nt_addr := (nt_addr n)(nt_next n := actual),
      nt_next := Suc (nt_next n)\<rparr>" "r = Some (nt_next n)"
    by (simp_all add: net_listen_def)
  with Some show ?thesis by simp
qed

text \<open>What adding one entry does to the tables, for streams and for UDP entries alike.\<close>

definition adds :: "string \<Rightarrow> nat \<Rightarrow> entry_opening \<Rightarrow> entry_opening \<Rightarrow> bool" where
  "adds name l st st' \<longleftrightarrow> op_names st' = insert name (op_names st) \<and> op_net st' = op_net st \<and>
     op_taken st' = op_taken st \<and> op_entries st' = insert (name, l) (op_entries st) \<and>
     set (op_lns st) \<subseteq> set (op_lns st') \<and> set (op_udp st) \<subseteq> set (op_udp st') \<and>
     (gm_ok (op_lns st) \<longrightarrow> gm_ok (op_lns st')) \<and> (gm_ok (op_udp st) \<longrightarrow> gm_ok (op_udp st')) \<and>
     all_fresh st' = (if name \<in> op_taken st then {} else {l}) \<union> all_fresh st"

lemma adds_stream:
  assumes "name \<notin> op_names st"
  shows "adds name l st (add_stream name l st)"
  using assms by (auto simp: adds_def add_stream_def op_names_def op_entries_def all_fresh_def fresh_entries_set set_gm_set_new)

lemma adds_udp:
  assumes "name \<notin> op_names st"
  shows "adds name l st (st\<lparr>op_udp := gm_set name l (op_udp st), op_addrs := as\<rparr>)"
  using assms by (auto simp: adds_def op_names_def op_entries_def all_fresh_def fresh_entries_set set_gm_set_new)

lemma opening_taken:
  assumes "opening_ok n0 st" and "name \<notin> op_names st" and "adds name l (st\<lparr>op_taken := insert name (op_taken st)\<rparr>) st'"
  shows "opening_ok n0 st'"
proof -
  have "all_fresh (st\<lparr>op_taken := insert name (op_taken st)\<rparr>) = all_fresh st"
    using assms(2) by (simp add: all_fresh_def op_names_def fresh_entries_keep)
  moreover have "op_names (st\<lparr>op_taken := insert name (op_taken st)\<rparr>) = op_names st" by (simp add: op_names_def)
  ultimately show ?thesis using assms(1,3) by (auto simp: opening_ok_def adds_def)
qed

lemma opening_fresh:
  assumes "net_ok n0" and "opening_ok n0 st" and "name \<notin> op_names st"
    and "net_listen bind a (op_net st) = (n, Some l)" and "adds name l (st\<lparr>op_net := n\<rparr>) st'"
  shows "opening_ok n0 st'"
proof -
  have n: "l = nt_next (op_net st)" "nt_open n = insert l (nt_open (op_net st))" "nt_next n = Suc l"
    "\<And>k. k \<noteq> l \<Longrightarrow> nt_addr n k = nt_addr (op_net st) k"
    using net_listen_cases [OF assms(4)] by auto
  have "name \<notin> op_taken st" using assms(2,3) by (auto simp: opening_ok_def)
  moreover have "all_fresh (st\<lparr>op_net := n\<rparr>) = all_fresh st" "op_names (st\<lparr>op_net := n\<rparr>) = op_names st"
    by (simp_all add: all_fresh_def op_names_def)
  ultimately have st': "op_net st' = n" "op_taken st' = op_taken st" "op_names st' = insert name (op_names st)"
    "all_fresh st' = insert l (all_fresh st)"
    using assms(5) by (simp_all add: adds_def)
  have ok: "nt_open (op_net st) = nt_open n0 \<union> all_fresh st"
    "\<And>k. k \<in> all_fresh st \<Longrightarrow> nt_next n0 \<le> k \<and> k < nt_next (op_net st)"
    "nt_next n0 \<le> nt_next (op_net st)" "op_taken st \<subseteq> op_names st"
    "\<And>k. k < nt_next n0 \<Longrightarrow> nt_addr (op_net st) k = nt_addr n0 k"
    using assms(2) by (auto simp: opening_ok_def)
  show ?thesis unfolding opening_ok_def st'
  proof (intro conjI ballI allI impI)
    show "nt_open n = nt_open n0 \<union> insert l (all_fresh st)" using n(2) ok(1) by auto
    show "nt_next n0 \<le> k" "k < nt_next n" if "k \<in> insert l (all_fresh st)" for k
      using that ok(2) [of k] ok(3) n(1,3) by auto
    show "nt_next n0 \<le> nt_next n" using n(1,3) ok(3) by simp
    show "op_taken st \<subseteq> insert name (op_names st)" using ok(4) by auto
    show "nt_addr n k = nt_addr n0 k" if "k < nt_next n0" for k
      using that n(1) n(4) [of k] ok(3) ok(5) [OF that] by auto
  qed
qed

lemma opening_failed:
  assumes "opening_ok n0 st" and "net_listen bind a (op_net st) = (n, None)"
  shows "opening_ok n0 (st\<lparr>op_net := n\<rparr>)"
proof -
  have n: "nt_open n = nt_open (op_net st)" "nt_next n = Suc (nt_next (op_net st))" "nt_addr n = nt_addr (op_net st)"
    using net_listen_cases [OF assms(2)] by simp_all
  have "all_fresh (st\<lparr>op_net := n\<rparr>) = all_fresh st" "op_names (st\<lparr>op_net := n\<rparr>) = op_names st"
    by (simp_all add: all_fresh_def op_names_def)
  with n assms(1) show ?thesis by (auto simp: opening_ok_def)
qed

subsection \<open>Opening a list of entries\<close>

text \<open>Streams and UDP entries are opened by the same loop: each step keeps an invariant as long as
  the name is new, and a step that succeeds adds the name to the table it fills.\<close>

locale entry_opener =
  fixes f :: "string \<times> int \<Rightarrow> entry_opening \<Rightarrow> entry_opening \<times> open_error option"
    and inv :: "entry_opening \<Rightarrow> bool"
    and table :: "entry_opening \<Rightarrow> (string, nat) gomap"
    and es :: "(string \<times> int) set"
  assumes keeps: "inv st \<Longrightarrow> x \<in> es \<Longrightarrow> fst x \<notin> op_names st \<Longrightarrow> f x st = (st', r) \<Longrightarrow> inv st'"
    and fills: "inv st \<Longrightarrow> x \<in> es \<Longrightarrow> fst x \<notin> op_names st \<Longrightarrow> f x st = (st', None) \<Longrightarrow>
      fst ` set (table st') = insert (fst x) (fst ` set (table st)) \<and> op_names st' = insert (fst x) (op_names st)"
begin

lemma open_all_keeps:
  assumes "inv st" and "set xs \<subseteq> es" and "distinct (map fst xs)" and "fst ` set xs \<inter> op_names st = {}" and "open_all f xs st = (st', r)"
  shows "inv st' \<and> (r = None \<longrightarrow> fst ` set (table st') = fst ` set xs \<union> fst ` set (table st) \<and>
    op_names st' = fst ` set xs \<union> op_names st)"
  using assms
proof (induction xs arbitrary: st)
  case Nil
  then show ?case by simp
next
  case (Cons x xs)
  obtain st1 r1 where step: "f x st = (st1, r1)" by (cases "f x st")
  have new: "fst x \<notin> op_names st" "x \<in> es" using Cons.prems(2,4) by auto
  note inv1 = keeps [OF Cons.prems(1) new(2,1) step]
  show ?case
  proof (cases r1)
    case (Some e)
    with step Cons.prems(5) inv1 show ?thesis by auto
  next
    case None
    note fill = fills [OF Cons.prems(1) new(2,1) step [unfolded None]]
    have "fst ` set xs \<inter> op_names st1 = {}" using fill Cons.prems(3,4) by auto
    from Cons.IH [OF inv1 _ _ this] step None Cons.prems(2,3,5) fill show ?thesis by auto
  qed
qed

end

text \<open>What was taken over is an entry of the previous generation of the same name, at the address the
  configuration asks for.\<close>

definition taken_over :: "entry_net \<Rightarrow> generation option \<Rightarrow> server_config \<Rightarrow> (string \<times> int) set \<Rightarrow> entry_opening \<Rightarrow> bool" where
  "taken_over n0 prev c es st \<longleftrightarrow> (\<forall>(name, l) \<in> op_entries st. name \<in> op_taken st \<longrightarrow>
     (\<exists>g port. prev = Some g \<and> (name, port) \<in> es \<and>
       ((name, l) \<in> set (gn_lns g) \<and> (name, l) \<in> set (op_lns st) \<or>
        (name, l) \<in> set (gn_udp g) \<and> (name, l) \<in> set (op_udp st) \<and> udp_params_match (gn_config g) c) \<and>
       (l < nt_next n0 \<longrightarrow> same_entry (nt_addr n0 l) (entry_bind_addr c port))))"

text \<open>No socket serves two names, as long as none did in the previous generation.\<close>

definition gen_distinct :: "entry_net \<Rightarrow> generation \<Rightarrow> bool" where
  "gen_distinct n g \<longleftrightarrow> gm_ok (gn_lns g) \<and> gm_ok (gn_udp g) \<and> inj_on snd (gen_entries g) \<and>
     (\<forall>(name, l) \<in> gen_entries g. l < nt_next n)"

definition sockets_distinct :: "entry_net \<Rightarrow> generation option \<Rightarrow> entry_opening \<Rightarrow> bool" where
  "sockets_distinct n0 prev st \<longleftrightarrow> (\<forall>g. prev = Some g \<longrightarrow> gen_distinct n0 g) \<longrightarrow>
     gm_ok (op_lns st) \<and> gm_ok (op_udp st) \<and> inj_on snd (op_entries st) \<and>
     (\<forall>(name, l) \<in> op_entries st. l < nt_next (op_net st) \<and> (name \<in> op_taken st \<longrightarrow> l < nt_next n0))"

definition opening_inv ::
  "entry_net \<Rightarrow> generation option \<Rightarrow> server_config \<Rightarrow> (string \<times> int) set \<Rightarrow> entry_opening \<Rightarrow> bool" where
  "opening_inv n0 prev c es st \<longleftrightarrow> net_ok n0 \<and> opening_ok n0 st \<and> taken_over n0 prev c es st \<and>
     sockets_distinct n0 prev st"

lemma taken_over_add:
  assumes "taken_over n0 prev c es st" and "opening_ok n0 st" and "name \<notin> op_names st"
    and "op_taken st' = op_taken st" and "op_entries st' = insert (name, l) (op_entries st)"
    and "set (op_lns st) \<subseteq> set (op_lns st')" and "set (op_udp st) \<subseteq> set (op_udp st')"
  shows "taken_over n0 prev c es st'"
proof -
  have "name \<notin> op_taken st" using assms(2,3) by (auto simp: opening_ok_def)
  with assms(1,4-7) show ?thesis unfolding taken_over_def by (auto 0 4)
qed

lemma taken_over_take:
  assumes "taken_over n0 prev c es st" and "opening_ok n0 st" and "name \<notin> op_names st" and "(name, port) \<in> es"
    and "op_taken st' = insert name (op_taken st)" and "prev = Some g" and "op_entries st' = insert (name, l) (op_entries st)"
    and "set (op_lns st) \<subseteq> set (op_lns st')" and "set (op_udp st) \<subseteq> set (op_udp st')"
    and "(name, l) \<in> set (gn_lns g) \<and> (name, l) \<in> set (op_lns st') \<or>
      (name, l) \<in> set (gn_udp g) \<and> (name, l) \<in> set (op_udp st') \<and> udp_params_match (gn_config g) c"
    and "same_entry (nt_addr (op_net st) l) (entry_bind_addr c port)"
  shows "taken_over n0 prev c es st'"
  unfolding taken_over_def
proof (intro ballI, clarify)
  fix b k
  assume bk: "(b, k) \<in> op_entries st'" "b \<in> op_taken st'"
  show "\<exists>g port. prev = Some g \<and> (b, port) \<in> es \<and>
       ((b, k) \<in> set (gn_lns g) \<and> (b, k) \<in> set (op_lns st') \<or>
        (b, k) \<in> set (gn_udp g) \<and> (b, k) \<in> set (op_udp st') \<and> udp_params_match (gn_config g) c) \<and>
       (k < nt_next n0 \<longrightarrow> same_entry (nt_addr n0 k) (entry_bind_addr c port))"
  proof (cases "(b, k) = (name, l)")
    case True
    have "same_entry (nt_addr n0 l) (entry_bind_addr c port)" if "l < nt_next n0"
      using assms(2,11) that by (simp add: opening_ok_def)
    with True assms(4,6,10) show ?thesis by blast
  next
    case False
    with bk(1) assms(7) have old: "(b, k) \<in> op_entries st" by auto
    with assms(3) have "b \<noteq> name" by (force simp: op_entries_def op_names_def)
    with bk(2) assms(5) have "b \<in> op_taken st" by simp
    with assms(1) old obtain g' port' where "prev = Some g'" "(b, port') \<in> es"
       "(b, k) \<in> set (gn_lns g') \<and> (b, k) \<in> set (op_lns st) \<or>
        (b, k) \<in> set (gn_udp g') \<and> (b, k) \<in> set (op_udp st) \<and> udp_params_match (gn_config g') c"
       "k < nt_next n0 \<longrightarrow> same_entry (nt_addr n0 k) (entry_bind_addr c port')"
      unfolding taken_over_def by (auto dest!: bspec [OF _ old])
    with assms(8,9) show ?thesis by blast
  qed
qed

lemma op_entries_not_taken:
  assumes "opening_ok n0 st" and "(name, l) \<in> op_entries st" and "name \<notin> op_taken st"
  shows "nt_next n0 \<le> l"
proof -
  have "l \<in> all_fresh st" using assms(2,3) by (auto simp: all_fresh_def fresh_entries_def op_entries_def)
  with assms(1) show ?thesis by (simp add: opening_ok_def)
qed

lemma sockets_distinct_fresh:
  assumes "sockets_distinct n0 prev st" and "opening_ok n0 st" and "name \<notin> op_names st"
    and "net_listen bind a (op_net st) = (n, Some l)" and "adds name l (st\<lparr>op_net := n\<rparr>) st'"
  shows "sockets_distinct n0 prev st'"
  unfolding sockets_distinct_def
proof
  assume "\<forall>g. prev = Some g \<longrightarrow> gen_distinct n0 g"
  with assms(1) have old: "gm_ok (op_lns st)" "gm_ok (op_udp st)" "inj_on snd (op_entries st)"
    "\<And>b k. (b, k) \<in> op_entries st \<Longrightarrow> k < nt_next (op_net st) \<and> (b \<in> op_taken st \<longrightarrow> k < nt_next n0)"
    by (auto simp: sockets_distinct_def)
  have n: "l = nt_next (op_net st)" "nt_next n = Suc l" using net_listen_cases [OF assms(4)] by auto
  have "op_entries (st\<lparr>op_net := n\<rparr>) = op_entries st" by (simp add: op_entries_def)
  then have st': "op_entries st' = insert (name, l) (op_entries st)" "op_net st' = n" "op_taken st' = op_taken st"
    using assms(5) by (auto simp: adds_def)
  have "l \<notin> snd ` op_entries st" using old(4) n(1) by fastforce
  then have "inj_on snd (op_entries st')" using old(3) unfolding st' by (auto simp: inj_on_insert)
  moreover have "name \<notin> op_taken st" using assms(2,3) by (auto simp: opening_ok_def)
  moreover have gm: "gm_ok (op_lns st')" "gm_ok (op_udp st')" using assms(5) old(1,2) by (simp_all add: adds_def)
  moreover have "\<forall>(b, k) \<in> op_entries st'. k < nt_next (op_net st') \<and> (b \<in> op_taken st' \<longrightarrow> k < nt_next n0)"
  proof (clarify, goal_cases)
    case (1 b k)
    then show ?case using old(4) [of b k] n \<open>name \<notin> op_taken st\<close> unfolding st' by auto
  qed
  ultimately show "gm_ok (op_lns st') \<and> gm_ok (op_udp st') \<and> inj_on snd (op_entries st') \<and>
     (\<forall>(name, l) \<in> op_entries st'. l < nt_next (op_net st') \<and> (name \<in> op_taken st' \<longrightarrow> l < nt_next n0))"
    by (intro conjI gm)
qed

lemma sockets_distinct_taken:
  assumes "sockets_distinct n0 prev st" and "opening_ok n0 st" and "name \<notin> op_names st"
    and "taken_over n0 prev c es st" and "prev = Some g" and "(name, l) \<in> gen_entries g"
    and "adds name l (st\<lparr>op_taken := insert name (op_taken st)\<rparr>) st'"
  shows "sockets_distinct n0 prev st'"
  unfolding sockets_distinct_def
proof
  assume prev: "\<forall>g. prev = Some g \<longrightarrow> gen_distinct n0 g"
  with assms(1) have old: "gm_ok (op_lns st)" "gm_ok (op_udp st)" "inj_on snd (op_entries st)"
    "\<And>b k. (b, k) \<in> op_entries st \<Longrightarrow> k < nt_next (op_net st) \<and> (b \<in> op_taken st \<longrightarrow> k < nt_next n0)"
    by (auto simp: sockets_distinct_def)
  have g: "inj_on snd (gen_entries g)" "l < nt_next n0"
    using prev assms(5,6) by (auto simp: gen_distinct_def)
  have "op_entries (st\<lparr>op_taken := insert name (op_taken st)\<rparr>) = op_entries st" by (simp add: op_entries_def)
  then have st': "op_entries st' = insert (name, l) (op_entries st)" "op_net st' = op_net st"
    "op_taken st' = insert name (op_taken st)"
    using assms(7) by (auto simp: adds_def)
  have names: "b \<noteq> name" if "(b, k) \<in> op_entries st" for b k
    using that assms(3) by (force simp: op_entries_def op_names_def)
  have "l \<notin> snd ` op_entries st"
  proof
    assume "l \<in> snd ` op_entries st"
    then obtain b where b: "(b, l) \<in> op_entries st" by auto
    with op_entries_not_taken [OF assms(2) b] g(2) have bt: "b \<in> op_taken st" by (cases "b \<in> op_taken st") simp_all
    with assms(4,5) b have "(b, l) \<in> gen_entries g" by (auto simp: taken_over_def gen_entries_def)
    with assms(6) g(1) have "(b, l) = (name, l)" by (auto dest!: inj_onD [of snd _ "(b, l)" "(name, l)"])
    then have "b = name" by simp
    with names [OF b] show False by simp
  qed
  then have "inj_on snd (op_entries st')" using old(3) unfolding st' by (auto simp: inj_on_insert)
  moreover have gm: "gm_ok (op_lns st')" "gm_ok (op_udp st')" using assms(7) old(1,2) by (simp_all add: adds_def)
  moreover have "\<forall>(b, k) \<in> op_entries st'. k < nt_next (op_net st') \<and> (b \<in> op_taken st' \<longrightarrow> k < nt_next n0)"
  proof (clarify, goal_cases)
    case (1 b k)
    then show ?case using old(4) [of b k] names [of b k] g(2) assms(2) unfolding st' by (auto simp: opening_ok_def)
  qed
  ultimately show "gm_ok (op_lns st') \<and> gm_ok (op_udp st') \<and> inj_on snd (op_entries st') \<and>
     (\<forall>(name, l) \<in> op_entries st'. l < nt_next (op_net st') \<and> (name \<in> op_taken st' \<longrightarrow> l < nt_next n0))"
    by (intro conjI gm)
qed

lemma take_stream_step:
  assumes "opening_inv n0 prev c es st" and "name \<notin> op_names st" and "(name, port) \<in> es"
    and "take_stream bind prev c (name, port) st = (st', r)"
  shows "opening_inv n0 prev c es st' \<and> (r = None \<longrightarrow>
    fst ` set (op_lns st') = insert name (fst ` set (op_lns st)) \<and> op_names st' = insert name (op_names st))"
proof -
  have inv: "net_ok n0" "opening_ok n0 st" "taken_over n0 prev c es st" "sockets_distinct n0 prev st" using assms(1) by (simp_all add: opening_inv_def)
  let ?a = "entry_bind_addr c port"
  have new: "name \<notin> fst ` set (op_lns st)" using assms(2) by (simp add: op_names_def)
  show ?thesis
  proof (cases "reusable_stream_entry (op_net st) prev name ?a")
    case (Some l)
    let ?st = "st\<lparr>op_taken := insert name (op_taken st)\<rparr>"
    have st': "st' = add_stream name l ?st" "r = None" using assms(4) Some by (auto simp: take_stream_def)
    have names: "op_names ?st = op_names st" by (simp add: op_names_def)
    then have adds: "adds name l ?st st'" unfolding st' by (intro adds_stream) (simp add: assms(2))
    obtain g where g: "prev = Some g" "map_of (gn_lns g) name = Some l" "same_entry (nt_addr (op_net st) l) ?a"
      using Some by (auto simp: reusable_stream_entry_def split: option.splits if_splits)
    have gl: "(name, l) \<in> set (gn_lns g)" using g(2) by (rule map_of_SomeD)
    have "opening_ok n0 st'" by (rule opening_taken [OF inv(2) assms(2) adds])
    moreover have "taken_over n0 prev c es st'"
      by (rule taken_over_take [OF inv(3,2) assms(2,3) _ g(1) _ _ _ _ g(3)])
        (use adds gl new in \<open>auto simp: adds_def op_entries_def st' add_stream_def set_gm_set_new\<close>)
    moreover have "sockets_distinct n0 prev st'"
      by (rule sockets_distinct_taken [OF inv(4,2) assms(2) inv(3) g(1) _ adds]) (use gl in \<open>simp add: gen_entries_def\<close>)
    moreover have "fst ` set (op_lns st') = insert name (fst ` set (op_lns st))"
      using new by (simp add: st' add_stream_def set_gm_set_new)
    moreover have "op_names st' = insert name (op_names st)" using adds names by (simp add: adds_def)
    ultimately show ?thesis using inv(1) by (simp add: opening_inv_def)
  next
    case None
    obtain n ro where li: "net_listen bind ?a (op_net st) = (n, ro)" by (cases "net_listen bind ?a (op_net st)")
    show ?thesis
    proof (cases ro)
      case fail: None
      have "st' = st\<lparr>op_net := n\<rparr>" "r = Some (BindFailed name)"
        using assms(4) None li fail by (auto simp: take_stream_def listen_guest_def)
      with opening_failed [OF inv(2) li [unfolded fail]] net_listen_cases [OF li [unfolded fail]] inv(1,3,4) show ?thesis
        by (auto simp: opening_inv_def taken_over_def sockets_distinct_def op_entries_def less_Suc_eq)
    next
      case (Some l)
      have st': "st' = add_stream name l (st\<lparr>op_net := n\<rparr>)" "r = None"
        using assms(4) None li Some by (auto simp: take_stream_def listen_guest_def)
      have names: "op_names (st\<lparr>op_net := n\<rparr>) = op_names st" by (simp add: op_names_def)
      then have adds: "adds name l (st\<lparr>op_net := n\<rparr>) st'" unfolding st' by (intro adds_stream) (simp add: assms(2))
      have "opening_ok n0 st'" by (rule opening_fresh [OF inv(1,2) assms(2) li [unfolded Some] adds])
      moreover have "taken_over n0 prev c es st'"
        by (rule taken_over_add [OF inv(3,2) assms(2)]) (use adds in \<open>auto simp: adds_def op_entries_def\<close>)
      moreover have "sockets_distinct n0 prev st'"
        by (rule sockets_distinct_fresh [OF inv(4,2) assms(2) li [unfolded Some] adds])
      moreover have "fst ` set (op_lns st') = insert name (fst ` set (op_lns st))"
        using new by (simp add: st' add_stream_def set_gm_set_new)
      moreover have "op_names st' = insert name (op_names st)" using adds names by (simp add: adds_def)
      ultimately show ?thesis using inv(1) by (simp add: opening_inv_def)
    qed
  qed
qed

text \<open>The same for UDP entries.\<close>

definition add_udp :: "string \<Rightarrow> nat \<Rightarrow> entry_opening \<Rightarrow> entry_opening" where
  "add_udp name e s =
     s\<lparr>op_udp := gm_set name e (op_udp s), op_addrs := gm_set name (nt_addr (op_net s) e) (op_addrs s)\<rparr>"

lemma take_udp_cases:
  "take_udp_entry bind prev c (name, port) st =
     (case prev of
        Some g \<Rightarrow>
          (case map_of (gn_udp g) name of
             Some e \<Rightarrow>
               if same_entry (nt_addr (op_net st) e) (entry_bind_addr c port)
               then (if udp_params_match (gn_config g) c
                 then (add_udp name e (st\<lparr>op_taken := insert name (op_taken st)\<rparr>), None)
                 else (st, Some (UdpParamsChanged name)))
               else take_udp_entry bind None c (name, port) st
           | None \<Rightarrow> take_udp_entry bind None c (name, port) st)
      | None \<Rightarrow>
          (case net_listen bind (entry_bind_addr c port) (op_net st) of
             (n, None) \<Rightarrow> (st\<lparr>op_net := n\<rparr>, Some (BindFailed name))
           | (n, Some e) \<Rightarrow> (add_udp name e (st\<lparr>op_net := n\<rparr>), None)))"
  by (simp add: take_udp_entry_def add_udp_def open_udp_entry_def Let_def split: option.split prod.split)

lemma take_udp_step:
  assumes "opening_inv n0 prev c es st" and "name \<notin> op_names st" and "(name, port) \<in> es"
    and "take_udp_entry bind prev c (name, port) st = (st', r)"
  shows "opening_inv n0 prev c es st' \<and> (r = None \<longrightarrow>
    fst ` set (op_udp st') = insert name (fst ` set (op_udp st)) \<and> op_names st' = insert name (op_names st))"
proof -
  have inv: "net_ok n0" "opening_ok n0 st" "taken_over n0 prev c es st" "sockets_distinct n0 prev st" using assms(1) by (simp_all add: opening_inv_def)
  let ?a = "entry_bind_addr c port"
  have new: "name \<notin> fst ` set (op_udp st)" using assms(2) by (simp add: op_names_def)
  have fresh: ?thesis if "take_udp_entry bind None c (name, port) st = (st', r)"
  proof -
    obtain n ro where li: "net_listen bind ?a (op_net st) = (n, ro)" by (cases "net_listen bind ?a (op_net st)")
    show ?thesis
    proof (cases ro)
      case fail: None
      have "st' = st\<lparr>op_net := n\<rparr>" "r = Some (BindFailed name)"
        using that li fail by (auto simp: take_udp_cases)
      with opening_failed [OF inv(2) li [unfolded fail]] net_listen_cases [OF li [unfolded fail]] inv(1,3,4) show ?thesis
        by (auto simp: opening_inv_def taken_over_def sockets_distinct_def op_entries_def less_Suc_eq)
    next
      case (Some e)
      have st': "st' = add_udp name e (st\<lparr>op_net := n\<rparr>)" "r = None"
        using that li Some by (auto simp: take_udp_cases)
      have names: "op_names (st\<lparr>op_net := n\<rparr>) = op_names st" by (simp add: op_names_def)
      then have adds: "adds name e (st\<lparr>op_net := n\<rparr>) st'"
        unfolding st' add_udp_def by (intro adds_udp) (simp add: assms(2))
      have "opening_ok n0 st'" by (rule opening_fresh [OF inv(1,2) assms(2) li [unfolded Some] adds])
      moreover have "taken_over n0 prev c es st'"
        by (rule taken_over_add [OF inv(3,2) assms(2)]) (use adds in \<open>auto simp: adds_def op_entries_def\<close>)
      moreover have "sockets_distinct n0 prev st'"
        by (rule sockets_distinct_fresh [OF inv(4,2) assms(2) li [unfolded Some] adds])
      moreover have "fst ` set (op_udp st') = insert name (fst ` set (op_udp st))"
        using new by (simp add: st' add_udp_def set_gm_set_new)
      moreover have "op_names st' = insert name (op_names st)" using adds names by (simp add: adds_def)
      ultimately show ?thesis using inv(1) by (simp add: opening_inv_def)
    qed
  qed
  show ?thesis
  proof (cases "\<exists>g e. prev = Some g \<and> map_of (gn_udp g) name = Some e \<and> same_entry (nt_addr (op_net st) e) ?a")
    case False
    have "take_udp_entry bind None c (name, port) st = (st', r)"
    proof (cases prev)
      case None
      with assms(4) show ?thesis by simp
    next
      case (Some g)
      with assms(4) False show ?thesis by (auto simp: take_udp_cases [of bind "Some g"] split: option.splits if_splits)
    qed
    then show ?thesis by (rule fresh)
  next
    case True
    then obtain g e where g: "prev = Some g" "map_of (gn_udp g) name = Some e" "same_entry (nt_addr (op_net st) e) ?a"
      by blast
    show ?thesis
    proof (cases "udp_params_match (gn_config g) c")
      case False
      with assms(1,4) g show ?thesis by (auto simp: take_udp_cases)
    next
      case True
      let ?st = "st\<lparr>op_taken := insert name (op_taken st)\<rparr>"
      have st': "st' = add_udp name e ?st" "r = None" using assms(4) g True by (auto simp: take_udp_cases)
      have names: "op_names ?st = op_names st" by (simp add: op_names_def)
      then have adds: "adds name e ?st st'" unfolding st' add_udp_def by (intro adds_udp) (simp add: assms(2))
      have gl: "(name, e) \<in> set (gn_udp g)" using g(2) by (rule map_of_SomeD)
      have "opening_ok n0 st'" by (rule opening_taken [OF inv(2) assms(2) adds])
      moreover have "taken_over n0 prev c es st'"
        by (rule taken_over_take [OF inv(3,2) assms(2,3) _ g(1) _ _ _ _ g(3)])
          (use adds gl new True in \<open>auto simp: adds_def op_entries_def st' add_udp_def set_gm_set_new\<close>)
      moreover have "sockets_distinct n0 prev st'"
        by (rule sockets_distinct_taken [OF inv(4,2) assms(2) inv(3) g(1) _ adds]) (use gl in \<open>simp add: gen_entries_def\<close>)
      moreover have "fst ` set (op_udp st') = insert name (fst ` set (op_udp st))"
        using new by (simp add: st' add_udp_def set_gm_set_new)
      moreover have "op_names st' = insert name (op_names st)" using adds names by (simp add: adds_def)
      ultimately show ?thesis using inv(1) by (simp add: opening_inv_def)
    qed
  qed
qed

interpretation streams: entry_opener "take_stream bind prev c" "opening_inv n0 prev c es" op_lns es
  for bind prev c n0 es
proof (unfold_locales, goal_cases)
  case (1 st x st' r)
  then show ?case using take_stream_step [of n0 prev c es st "fst x" "snd x" bind st' r] by simp
next
  case (2 st x st')
  then show ?case using take_stream_step [of n0 prev c es st "fst x" "snd x" bind st' None] by simp
qed

interpretation datagrams: entry_opener "take_udp_entry bind prev c" "opening_inv n0 prev c es" op_udp es
  for bind prev c n0 es
proof (unfold_locales, goal_cases)
  case (1 st x st' r)
  then show ?case using take_udp_step [of n0 prev c es st "fst x" "snd x" bind st' r] by simp
next
  case (2 st x st')
  then show ?case using take_udp_step [of n0 prev c es st "fst x" "snd x" bind st' None] by simp
qed

subsection \<open>The entries of a configuration\<close>

lemma itoa_inj: "itoa i = itoa j \<longleftrightarrow> i = j"
proof
  assume eq: "itoa i = itoa j"
  have no_sign: "hd (itoa_nat n) \<noteq> CHR ''-''" for n
    using itoa_nat_digits [of "hd (itoa_nat n)" n] by (auto simp: is_digit_char_def)
  have "i < 0 \<longleftrightarrow> j < 0"
    using eq no_sign [of "nat i"] no_sign [of "nat j"]
    by (auto simp: itoa_def split: if_splits dest: arg_cong [where f = hd])
  moreover have inj: "m = k" if "itoa_nat m = itoa_nat k" for m k using that by (metis atoi_itoa_nat)
  moreover have "nat (- i) = nat (- j)" if "i < 0" "j < 0" using inj that eq by (simp add: itoa_def)
  moreover have "nat i = nat j" if "\<not> i < 0" "\<not> j < 0" using inj that eq by (simp add: itoa_def)
  ultimately show "i = j" by (cases "i < 0") simp_all
qed simp

lemma http_entry_name_inj: "http_entry_name p = http_entry_name q \<longleftrightarrow> p = q"
  by (simp add: http_entry_name_def itoa_inj)

lemma http_entry_names: "fst ` set (http_entries c) = (\<lambda>b. http_entry_name (pb_port b)) ` set (scf_http c)"
  by (force simp: http_entries_def)

lemma http_entries_distinct: "distinct (map fst (http_entries c))"
  by (simp add: http_entries_def distinct_map inj_on_def http_entry_name_inj comp_def)

lemma entry_names_distinct:
  assumes "bindings_ok lower c"
  shows "distinct (map fst (stream_entries c))" and "distinct (map fst (udp_entries c))"
    and "fst ` set (stream_entries c) \<inter> fst ` set (udp_entries c) = {}"
proof -
  let ?n = "\<lambda>bs. map pb_name bs"
  have names: "distinct (?n (scf_tcp c) @ ?n (scf_udp c) @ ?n (scf_http c) @ ?n (scf_https c))"
    using assms by (simp add: bindings_ok_def all_bindings_def binding_view_def comp_def)
  have colon: "CHR '':'' \<notin> set n" if "n \<in> set (?n (scf_tcp c)) \<union> set (?n (scf_udp c)) \<union> set (?n (scf_https c))" for n
  proof -
    from that obtain t b where "(t, b) \<in> set (all_bindings c)" "pb_name b = n"
      unfolding all_bindings_def set_append set_map Un_iff image_iff by blast
    with assms show ?thesis by (fastforce simp: bindings_ok_def binding_ok_def name_ok_def)
  qed
  have http: "CHR '':'' \<in> set n" if "n \<in> fst ` set (http_entries c)" for n
    using that by (auto simp: http_entry_names http_entry_name_def http_entry_prefix_def)
  have split: "map fst (stream_entries c) = ?n (scf_tcp c) @ ?n (scf_https c) @ map fst (http_entries c)"
    "map fst (udp_entries c) = ?n (scf_udp c)"
    by (simp_all add: stream_entries_def udp_entries_def comp_def)
  have h: "n \<notin> set (?n (scf_tcp c)) \<union> set (?n (scf_udp c)) \<union> set (?n (scf_https c))"
    if "n \<in> set (map fst (http_entries c))" for n
    using that colon http by auto
  show "distinct (map fst (stream_entries c))"
  proof -
    have "distinct (?n (scf_tcp c))" "distinct (?n (scf_https c))" "set (?n (scf_tcp c)) \<inter> set (?n (scf_https c)) = {}"
      using names by auto
    moreover have "set (?n (scf_tcp c)) \<inter> set (map fst (http_entries c)) = {}"
      "set (?n (scf_https c)) \<inter> set (map fst (http_entries c)) = {}" using h by blast+
    ultimately show ?thesis unfolding split distinct_append set_append using http_entries_distinct by blast
  qed
  show "distinct (map fst (udp_entries c))" unfolding split using names by simp
  show "fst ` set (stream_entries c) \<inter> fst ` set (udp_entries c) = {}"
  proof -
    have "set (?n (scf_tcp c)) \<inter> set (?n (scf_udp c)) = {}" "set (?n (scf_https c)) \<inter> set (?n (scf_udp c)) = {}"
      using names by auto
    with h show ?thesis unfolding set_map [symmetric] split set_append by blast
  qed
qed

lemma http_addresses_simps [simp]:
  "op_lns (http_addresses c st) = op_lns st" "op_udp (http_addresses c st) = op_udp st"
  "op_taken (http_addresses c st) = op_taken st" "op_net (http_addresses c st) = op_net st"
  by (simp_all add: http_addresses_def)

lemma opening_inv_http: "opening_inv n0 prev c es (http_addresses c st) \<longleftrightarrow> opening_inv n0 prev c es st"
  by (simp add: opening_inv_def opening_ok_def taken_over_def all_fresh_def op_names_def op_entries_def
      sockets_distinct_def gm_ok_def)

lemma open_all_frame:
  assumes "\<And>x st st' r. f x st = (st', r) \<Longrightarrow> p st' = p st" and "open_all f xs st = (st', r)"
  shows "p st' = p st"
  using assms(2)
proof (induction xs arbitrary: st)
  case Nil
  then show ?case by simp
next
  case (Cons x xs)
  obtain st1 r1 where "f x st = (st1, r1)" by (cases "f x st")
  with Cons assms(1) show ?case by (cases r1) auto
qed

lemma take_stream_udp: "take_stream bind prev c x st = (st', r) \<Longrightarrow> op_udp st' = op_udp st"
  by (cases x) (auto simp: take_stream_def add_stream_def split: option.splits prod.splits)

lemma take_udp_lns: "take_udp_entry bind prev c x st = (st', r) \<Longrightarrow> op_lns st' = op_lns st"
  by (cases x) (auto simp: take_udp_entry_def Let_def split: option.splits prod.splits if_splits)

text \<open>A failed opening leaves the set of open sockets as it was; after a successful one every entry of
  the configuration has a socket, the sockets opened are those of the names not taken over, and the
  names taken over have the previous generation's socket at an address that fits.\<close>

lemma open_guest_entries_spec:
  assumes "bindings_ok lower c" and "net_ok n" and "open_guest_entries bind prev c g n = (n', r)"
  shows "case r of
      Inl e \<Rightarrow> nt_open n' = nt_open n
    | Inr g' \<Rightarrow>
        (\<exists>st. opening_inv n prev c (set (stream_entries c) \<union> set (udp_entries c)) st \<and> n' = op_net st \<and>
          g' = g\<lparr>gn_lns := op_lns st, gn_addrs := op_addrs st, gn_udp := op_udp st, gn_reused := op_taken st\<rparr> \<and>
          fst ` set (op_lns st) = fst ` set (stream_entries c) \<and> fst ` set (op_udp st) = fst ` set (udp_entries c))"
proof -
  let ?es = "set (stream_entries c) \<union> set (udp_entries c)"
  let ?st0 = "\<lparr>op_lns = [], op_addrs = [], op_udp = [], op_taken = {}, op_net = n\<rparr>"
  note names = entry_names_distinct [OF assms(1)]
  have inv0: "opening_inv n prev c ?es ?st0"
    using assms(2) by (simp add: opening_inv_def opening_ok_def all_fresh_def taken_over_def op_names_def
      op_entries_def sockets_distinct_def)
  obtain st1 r1 where s1: "open_all (take_stream bind prev c) (stream_entries c) ?st0 = (st1, r1)" by fastforce
  have i1: "opening_inv n prev c ?es st1" "r1 = None \<Longrightarrow> fst ` set (op_lns st1) = fst ` set (stream_entries c)"
    "r1 = None \<Longrightarrow> op_names st1 = fst ` set (stream_entries c)"
    using streams.open_all_keeps [OF inv0 _ names(1) _ s1] by (auto simp: op_names_def)
  show ?thesis
  proof (cases r1)
    case (Some e)
    with assms(3) s1 have "n' = release_opening st1" "r = Inl e" by (auto simp: open_guest_entries_def)
    with release_opening_ok i1(1) show ?thesis by (auto simp: opening_inv_def)
  next
    case None
    obtain st2 r2 where s2: "open_all (take_udp_entry bind prev c) (udp_entries c) (http_addresses c st1) = (st2, r2)"
      by fastforce
    have inv1: "opening_inv n prev c ?es (http_addresses c st1)" using i1(1) by (simp add: opening_inv_http)
    have lns1: "op_names (http_addresses c st1) = op_names st1" by (simp add: op_names_def)
    have disj: "fst ` set (udp_entries c) \<inter> op_names (http_addresses c st1) = {}"
      using i1(3) [OF None] names(3) lns1 by auto
    note i2 = datagrams.open_all_keeps [OF inv1 _ names(2) disj s2]
    show ?thesis
    proof (cases r2)
      case (Some e)
      with assms(3) s1 s2 None have "n' = release_opening st2" "r = Inl e" by (auto simp: open_guest_entries_def)
      with release_opening_ok i2 show ?thesis by (auto simp: opening_inv_def)
    next
      case fin: None
      have r: "n' = op_net st2" "r = Inr (g\<lparr>gn_lns := op_lns st2, gn_addrs := op_addrs st2, gn_udp := op_udp st2,
          gn_reused := op_taken st2\<rparr>)"
        using assms(3) s1 s2 None fin by (auto simp: open_guest_entries_def)
      have "op_udp st1 = []" using open_all_frame [where p = op_udp, OF take_stream_udp s1] by simp
      moreover have "op_lns st2 = op_lns st1" using open_all_frame [where p = op_lns, OF take_udp_lns s2] by simp
      ultimately show ?thesis
        using r i1(2) [OF None] i2 fin by (simp only: sum.case) (intro exI [where x = st2], simp)
    qed
  qed
qed

end
