(* ===== verification/Core_Apply.thy ===== *)
theory Core_Apply
  imports Event_Hub Core_Config
begin

section \<open>Applying configurations: what both engines share (\<open>core/apply.go\<close>, \<open>core/event.go\<close>)\<close>

text \<open>
  The stages of an application, its result, the errors that name the stage that failed, and the
  state that an engine shows its host. The cause of a failure is a parameter of the error: each
  engine has its own.
\<close>

datatype apply_stage = ValidateStage | PrepareStage | HealthCheckStage | AppliedStage | DrainedStage

datatype 'c apply_failure = ErrApplyInProgress | ApplyError apply_stage 'c

record apply_result =
  ar_revision :: nat
  ar_previous :: nat
  ar_stage :: "apply_stage option"
  ar_changed :: int
  ar_drained :: int
  ar_incomplete :: bool

definition empty_result :: apply_result where
  "empty_result = \<lparr>ar_revision = 0, ar_previous = 0, ar_stage = None, ar_changed = 0, ar_drained = 0,
     ar_incomplete = False\<rparr>"

definition published :: "apply_result \<Rightarrow> bool" where
  "published r \<longleftrightarrow> ar_stage r = Some AppliedStage \<or> ar_stage r = Some DrainedStage"

definition stage_name :: "apply_stage option \<Rightarrow> string" where
  "stage_name s = (case s of None \<Rightarrow> [] | Some ValidateStage \<Rightarrow> ''validate'' | Some PrepareStage \<Rightarrow> ''prepare''
     | Some HealthCheckStage \<Rightarrow> ''health-check'' | Some AppliedStage \<Rightarrow> ''applied'' | Some DrainedStage \<Rightarrow> ''drained'')"

text \<open>The event that reports an application: a failed one carries the zero result.\<close>

definition apply_event :: "'c apply_failure + apply_result \<Rightarrow> event" where
  "apply_event r =
     (let res = (case r of Inl _ \<Rightarrow> empty_result | Inr x \<Rightarrow> x)
      in ApplyResultEvent (ar_revision res) (stage_name (ar_stage res))
        (case r of Inl _ \<Rightarrow> Some ''apply failed'' | Inr _ \<Rightarrow> None))"

text \<open>Waiting for the bridges of a generation: in time, or not, and then its connections are closed.\<close>

datatype drain_end = DrainFinished | DrainLimit | DrainCancelled

record host_state =
  hs_running :: bool
  hs_active :: nat
  hs_last_good :: nat
  hs_proxies :: "(string \<times> proxy_type) list"
  hs_clients :: "(string \<times> nat) list"
  hs_connections :: nat

end
