(* ===== verification/Server_Engine.thy ===== *)
theory Server_Engine
  imports Server_Generation Core_Apply Core_Validate
begin

section \<open>The engine and its lifecycle (\<open>core/server/engine.go\<close>, \<open>events.go\<close>)\<close>

text \<open>
  The engine owns the control listener, the active generation, the registry and route tables, the
  broker, the sessions and the subscriptions. Every published generation keeps its place in
  \<open>en_gens\<close>, because control connections and bridges go on using the generation they began with.
  \<open>en_loops\<close> are the accept loops that run: the generation, the name and the socket each serves.
\<close>

datatype engine_state = StateIdle | StateStarting | StateRunning | StateStopped

type_synonym accept_loop = "nat \<times> string \<times> nat"

record engine =
  en_config :: server_config
  en_state :: engine_state
  en_shutting :: bool
  en_gens :: "generation list"
  en_active :: "nat option"
  en_last_good :: nat
  en_applying :: bool
  en_done :: bool
  en_err :: "string option"
  en_stopped_once :: bool
  en_registry :: registry
  en_routes :: "(int, http_route list) gomap"
  en_broker :: "work_broker option"
  en_sessions :: sessions
  en_control :: "nat option"
  en_net :: entry_net
  en_loops :: "accept_loop list"
  en_closed :: "conn list"
  en_hub :: event_hub

text \<open>What the network, the libraries and the map traversal do. \<open>ev_probe\<close> is the result of
  accepting for ten milliseconds on a listener; \<open>ev_options\<close> whether the transport's options can be
  built.\<close>

datatype listener_probe = NoDeadline | DeadlineRejected | ProbeTimeout | ProbeFailed | ProbeAccepted conn

record engine_env =
  ev_bind :: bind_fn
  ev_probe :: "nat \<Rightarrow> listener_probe"
  ev_options :: "bind_endpoint \<Rightarrow> bool"
  ev_order :: "int list \<Rightarrow> int list"
  ev_lower :: "string \<Rightarrow> string"

definition listener_usable :: "listener_probe \<Rightarrow> bool \<times> conn list" where
  "listener_usable p =
     (case p of
        NoDeadline \<Rightarrow> (True, [])
      | DeadlineRejected \<Rightarrow> (False, [])
      | ProbeTimeout \<Rightarrow> (True, [])
      | ProbeFailed \<Rightarrow> (False, [])
      | ProbeAccepted c \<Rightarrow> (True, [c]))"

definition active_generation :: "engine \<Rightarrow> generation option" where
  "active_generation en = map_option (\<lambda>i. en_gens en ! i) (en_active en)"

definition set_gen :: "nat \<Rightarrow> generation \<Rightarrow> engine \<Rightarrow> engine" where
  "set_gen i g en = en\<lparr>en_gens := (en_gens en)[i := g]\<rparr>"

definition new_engine :: "server_config \<Rightarrow> nat option \<Rightarrow> entry_net \<Rightarrow> engine" where
  "new_engine c listener n =
     \<lparr>en_config = c, en_state = StateIdle, en_shutting = False, en_gens = [], en_active = None, en_last_good = 0,
      en_applying = False, en_done = False, en_err = None, en_stopped_once = False, en_registry = [], en_routes = [],
      en_broker = None, en_sessions = no_sessions, en_control = listener, en_net = n, en_loops = [], en_closed = [],
      en_hub = []\<rparr>"

subsection \<open>Start\<close>

datatype start_error =
    StartConfigInvalid
  | ErrAlreadyStarted
  | ErrStopped
  | ControlListenerFailed
  | ErrNotStarted
  | EntriesFailed open_error

definition claim_start_slot :: "engine_env \<Rightarrow> engine \<Rightarrow> engine \<times> (start_error + nat option)" where
  "claim_start_slot E en =
     (if validate_server_config (ev_order E) (ev_lower E) (en_config en) \<noteq> [] then (en, Inl StartConfigInvalid)
      else if en_state en \<noteq> StateIdle
      then (if en_state en = StateStarting \<or> en_state en = StateRunning
        then (en, Inl ErrAlreadyStarted) else (en, Inl ErrStopped))
      else (en\<lparr>en_state := StateStarting\<rparr>,
        Inr (if be_transport (scf_listen (en_config en)) \<noteq> TransportTCP then None else en_control en)))"

definition release_start_slot :: "engine \<Rightarrow> engine" where
  "release_start_slot en = (if en_state en = StateStarting then en\<lparr>en_state := StateIdle\<rparr> else en)"

definition open_control_listener :: "engine_env \<Rightarrow> bind_endpoint \<Rightarrow> entry_net \<Rightarrow> entry_net \<times> nat option" where
  "open_control_listener E ep n =
     (if be_transport ep = TransportTCP \<or> be_transport ep \<notin> set supported_transports then (n, None)
      else if \<not> ev_options E ep then (n, None)
      else net_listen (ev_bind E) (be_address ep) n)"

definition commit_running :: "generation \<Rightarrow> engine \<Rightarrow> engine" where
  "commit_running g en =
     en\<lparr>en_state := StateRunning, en_gens := en_gens en @ [g], en_active := Some (length (en_gens en)),
       en_last_good := gn_revision g\<rparr>"

text \<open>Starting the loops of generation \<open>i\<close>.\<close>

definition start_generation :: "nat \<Rightarrow> engine \<Rightarrow> engine" where
  "start_generation i en =
     en\<lparr>en_loops := en_loops en @ map (\<lambda>(name, l). (i, name, l)) (gn_lns (en_gens en ! i) @ gn_udp (en_gens en ! i))\<rparr>"

definition publish_tables :: "engine_env \<Rightarrow> server_config \<Rightarrow> engine \<Rightarrow> engine" where
  "publish_tables E c en =
     en\<lparr>en_registry := publish_registry c, en_routes := publish_http_routes (ev_lower E) c\<rparr>"

text \<open>The control listener of this start: the injected one, or one the engine opens.\<close>

definition start_listener :: "engine_env \<Rightarrow> nat option \<Rightarrow> engine \<Rightarrow> engine \<times> (start_error + nat)" where
  "start_listener E injected en =
     (case injected of
        Some l \<Rightarrow> (en, Inr l)
      | None \<Rightarrow>
          (case open_control_listener E (scf_listen (en_config en)) (en_net en) of
             (n, None) \<Rightarrow> (release_start_slot (en\<lparr>en_net := n\<rparr>), Inl ControlListenerFailed)
           | (n, Some l) \<Rightarrow> (en\<lparr>en_net := n, en_control := Some l\<rparr>, Inr l)))"

definition give_up_start :: "bool \<Rightarrow> nat \<Rightarrow> engine \<Rightarrow> engine" where
  "give_up_start self_created l en =
     release_start_slot (if self_created then en\<lparr>en_net := net_close l (en_net en)\<rparr> else en)"

text \<open>From the usable listener to the opened entries of generation 0.\<close>

definition start_open :: "engine_env \<Rightarrow> bool \<Rightarrow> nat \<Rightarrow> engine \<Rightarrow> engine \<times> (start_error + generation)" where
  "start_open E self_created l en =
     (case listener_usable (ev_probe E l) of
        (False, closed) \<Rightarrow>
          (give_up_start self_created l (en\<lparr>en_closed := en_closed en @ closed\<rparr>), Inl ErrNotStarted)
      | (True, closed) \<Rightarrow>
          (let en1 = publish_tables E (en_config en)
                (en\<lparr>en_closed := en_closed en @ closed, en_broker := Some (new_work_broker (scf_idle_limit (en_config en)))\<rparr>)
           in case open_guest_entries (ev_bind E) None (en_config en) (new_generation 0 (en_config en)) (en_net en1) of
                (n, Inl e) \<Rightarrow> (give_up_start self_created l (en1\<lparr>en_net := n\<rparr>), Inl (EntriesFailed e))
              | (n, Inr g) \<Rightarrow> (en1\<lparr>en_net := n\<rparr>, Inr g)))"

definition start_commit :: "generation \<Rightarrow> engine \<Rightarrow> engine" where
  "start_commit g en = start_generation (length (en_gens en)) (commit_running g en)"

definition start :: "engine_env \<Rightarrow> engine \<Rightarrow> engine \<times> start_error option" where
  "start E en =
     (case claim_start_slot E en of
        (en1, Inl e) \<Rightarrow> (en1, Some e)
      | (en1, Inr injected) \<Rightarrow>
          (case start_listener E injected en1 of
             (en2, Inl e) \<Rightarrow> (en2, Some e)
           | (en2, Inr l) \<Rightarrow>
               (case start_open E (injected = None) l en2 of
                  (en3, Inl e) \<Rightarrow> (en3, Some e)
                | (en3, Inr g) \<Rightarrow> (start_commit g en3, None))))"

subsection \<open>Stopping a generation\<close>

definition donate :: "string set \<Rightarrow> nat \<Rightarrow> engine \<Rightarrow> engine" where
  "donate names i en = set_gen i ((en_gens en ! i)\<lparr>gn_donated := gn_donated (en_gens en ! i) \<union> names\<rparr>) en"

text \<open>Telling the loops to stop: the sockets that were not handed on are closed, the loops of those
  that were are woken up.\<close>

definition stop_signal :: "nat \<Rightarrow> engine \<Rightarrow> engine" where
  "stop_signal i en =
     (let g = en_gens en ! i; en1 = set_gen i (g\<lparr>gn_stopping := True\<rparr>) en
      in en1\<lparr>en_net := close_unless (gn_donated g) (gn_udp g) (close_unless (gn_donated g) (gn_lns g) (en_net en1))\<rparr>)"

text \<open>A loop ends when its socket has been closed, or when it is woken up to hand its socket on. The
  wait for the loops of the generation returns when all of them end; otherwise it blocks, which is
  the result \<open>None\<close>.\<close>

definition loop_ends :: "engine \<Rightarrow> accept_loop \<Rightarrow> bool" where
  "loop_ends en = (\<lambda>(i, name, l). l \<notin> nt_open (en_net en) \<or>
     (let g = en_gens en ! i in gn_stopping g \<and> name \<in> gn_donated g \<and>
       (map_of (gn_lns g) name = Some l \<or> map_of (gn_udp g) name = Some l)))"

definition wait_loops :: "nat \<Rightarrow> engine \<Rightarrow> engine option" where
  "wait_loops i en =
     (if \<forall>w \<in> set (en_loops en). fst w = i \<longrightarrow> loop_ends en w
      then Some (en\<lparr>en_loops := filter (\<lambda>w. fst w \<noteq> i) (en_loops en)\<rparr>) else None)"

definition stop_accepting :: "nat \<Rightarrow> engine \<Rightarrow> engine option" where
  "stop_accepting i en = wait_loops i (stop_signal i en)"

definition close_conns :: "nat \<Rightarrow> (conn set \<Rightarrow> conn list) \<Rightarrow> engine \<Rightarrow> engine" where
  "close_conns i order en = en\<lparr>en_closed := en_closed en @ order (gn_conns (en_gens en ! i))\<rparr>"

definition wait_drained :: "nat \<Rightarrow> (conn set \<Rightarrow> conn list) \<Rightarrow> drain_end \<Rightarrow> engine \<Rightarrow> engine \<times> bool" where
  "wait_drained i order d en =
     (case d of DrainFinished \<Rightarrow> (en, True) | DrainLimit \<Rightarrow> (close_conns i order en, False)
      | DrainCancelled \<Rightarrow> (close_conns i order en, False))"

subsection \<open>Shutdown and abnormal ends\<close>

definition release_control :: "engine \<Rightarrow> engine" where
  "release_control en =
     (case en_control en of None \<Rightarrow> en | Some l \<Rightarrow> en\<lparr>en_net := net_close l (en_net en)\<rparr>)"

definition close_done :: "engine \<Rightarrow> engine option" where
  "close_done en =
     (case hub_stop_all (en_err en) (en_hub en) of
        None \<Rightarrow> None
      | Some h \<Rightarrow> Some (en\<lparr>en_hub := h, en_state := StateStopped, en_err := None, en_done := True\<rparr>))"

text \<open>Stopping the active generation for good; the second time nothing is done.\<close>

definition final_stop :: "nat \<Rightarrow> (conn set \<Rightarrow> conn list) \<Rightarrow> engine \<Rightarrow> engine option" where
  "final_stop i order en =
     (if en_stopped_once en then Some en
      else case stop_accepting i (en\<lparr>en_shutting := True, en_stopped_once := True\<rparr>) of
        None \<Rightarrow> None
      | Some en1 \<Rightarrow>
          (let (b, closed) = (case en_broker en1 of None \<Rightarrow> (None, [])
              | Some b \<Rightarrow> (case close_staged b of (b', cs) \<Rightarrow> (Some b', cs)))
           in Some (en1\<lparr>en_broker := b, en_closed := en_closed en1 @ closed @ order (sn_conns (en_sessions en1))\<rparr>)))"

definition shutdown :: "(conn set \<Rightarrow> conn list) \<Rightarrow> drain_end \<Rightarrow> engine \<Rightarrow> (engine \<times> bool) option" where
  "shutdown order d en =
     (let en1 = release_control en in
      case en_active en of
        None \<Rightarrow> map_option (\<lambda>e. (e, True)) (close_done en1)
      | Some i \<Rightarrow>
          (case final_stop i order en1 of
             None \<Rightarrow> None
           | Some en2 \<Rightarrow>
               (case wait_drained i order d en2 of
                  (en3, False) \<Rightarrow> Some (en3, False)
                | (en3, True) \<Rightarrow> map_option (\<lambda>e. (e, True)) (close_done en3))))"

definition fail_abnormal :: "nat option \<Rightarrow> string \<Rightarrow> engine \<Rightarrow> engine" where
  "fail_abnormal gi cause en =
     (if en_shutting en \<or> en_state en = StateStopped \<or>
        (case gi of None \<Rightarrow> False | Some i \<Rightarrow> gn_stopping (en_gens en ! i))
      then en
      else en\<lparr>en_err := (if en_err en = None then Some cause else en_err en), en_done := True\<rparr>)"

subsection \<open>What the host sees\<close>

definition proxy_summaries :: "generation \<Rightarrow> (string \<times> proxy_type) list" where
  "proxy_summaries g = map (\<lambda>(t, b). (pb_name b, t)) (all_bindings (gn_config g))"

definition active_client_summaries :: "engine \<Rightarrow> (string \<times> nat) list" where
  "active_client_summaries en =
     map (\<lambda>client. (client, case active_generation en of None \<Rightarrow> 0
        | Some g \<Rightarrow> length (filter (\<lambda>(t, b). pb_client b = client) (all_bindings (gn_config g)))))
       (rev (remdups (rev (filter (\<lambda>s. s \<noteq> []) (map snd (sn_clients (en_sessions en)))))))"

definition host_view :: "engine \<Rightarrow> host_state" where
  "host_view en =
     \<lparr>hs_running = (en_state en = StateRunning),
      hs_active = (case active_generation en of None \<Rightarrow> 0 | Some g \<Rightarrow> gn_revision g),
      hs_last_good = en_last_good en,
      hs_proxies = (case active_generation en of None \<Rightarrow> [] | Some g \<Rightarrow> proxy_summaries g),
      hs_clients = active_client_summaries en,
      hs_connections = card (sn_conns (en_sessions en))\<rparr>"

definition guest_addr :: "string \<Rightarrow> engine \<Rightarrow> addr_port option" where
  "guest_addr name en = (case active_generation en of None \<Rightarrow> None | Some g \<Rightarrow> map_of (gn_addrs g) name)"

end
