(* ===== verification/Server_Apply.thy ===== *)
theory Server_Apply
  imports Server_Engine
begin

section \<open>Applying a configuration (\<open>core/server/apply.go\<close>, \<open>core/apply.go\<close>)\<close>

text \<open>
  Apply takes a complete configuration through validation, preparation, health check, publication
  and draining. What happens outside the engine is in \<open>apply_env\<close>: whether the caller has
  cancelled at the two places that ask, the failure point that tests inject, and how the draining
  of the old generation ends.
\<close>

datatype apply_cause =
    RevisionMissing
  | ConfigRejected
  | BindingsUnsupported
  | EngineStopped'
  | RevisionStale
  | OpenFailed open_error
  | Cancelled
  | HookFailed
  | EntryUnusable string

type_synonym apply_error = "apply_cause apply_failure"

record deployment =
  dp_revision :: nat
  dp_config :: server_config
  dp_bindings :: nat

record apply_env = engine_env +
  ae_cancel1 :: bool
  ae_hook :: "generation \<Rightarrow> bool"
  ae_cancel2 :: bool
  ae_drain :: drain_end
  ae_conns :: "conn set \<Rightarrow> conn list"

text \<open>Validation: an error, the idempotent success, or going on.\<close>

definition apply_validate :: "apply_env \<Rightarrow> deployment \<Rightarrow> engine \<Rightarrow> apply_error + bool" where
  "apply_validate E d en =
     (if validate_server_config (ev_order E) (ev_lower E) (dp_config d) \<noteq> [] then Inl (ApplyError ValidateStage ConfigRejected)
      else if 0 < dp_bindings d then Inl (ApplyError ValidateStage BindingsUnsupported)
      else if en_state en = StateStopped then Inl (ApplyError ValidateStage EngineStopped')
      else (case active_generation en of
          None \<Rightarrow> Inr True
        | Some g \<Rightarrow>
            if dp_revision d = gn_revision g then Inr False
            else if dp_revision d < gn_revision g then Inl (ApplyError ValidateStage RevisionStale)
            else Inr True))"

definition active_revision :: "engine \<Rightarrow> nat" where
  "active_revision en = (case active_generation en of None \<Rightarrow> 0 | Some g \<Rightarrow> gn_revision g)"

text \<open>The broker is replaced, and the idle work connections of the old one are closed; the entries
  are opened, and the registry and the routes are published.\<close>

definition swap_broker :: "server_config \<Rightarrow> engine \<Rightarrow> engine" where
  "swap_broker c en =
     (let closed = (case en_broker en of None \<Rightarrow> [] | Some b \<Rightarrow> snd (close_staged_works b))
      in en\<lparr>en_broker := Some (new_work_broker (scf_idle_limit c)), en_closed := en_closed en @ closed\<rparr>)"

definition prepare_generation :: "apply_env \<Rightarrow> deployment \<Rightarrow> engine \<Rightarrow> engine \<times> (apply_error + generation)" where
  "prepare_generation E d en =
     (let en1 = swap_broker (dp_config d) en
      in case open_guest_entries (ev_bind E) (active_generation en) (dp_config d)
            (new_generation (dp_revision d) (dp_config d)) (en_net en1) of
           (n, Inl e) \<Rightarrow> (en1\<lparr>en_net := n\<rparr>, Inl (ApplyError PrepareStage (OpenFailed e)))
         | (n, Inr g) \<Rightarrow> (publish_tables (engine_env.truncate E) (dp_config d) (en1\<lparr>en_net := n\<rparr>), Inr g))"

text \<open>The check probes every listener of the new generation; a connection that a probe accepts is
  closed.\<close>

fun check_listeners :: "(nat \<Rightarrow> listener_probe) \<Rightarrow> (string \<times> nat) list \<Rightarrow> conn list \<times> string option" where
  "check_listeners probe [] = ([], None)"
| "check_listeners probe ((name, l) # ls) =
     (case listener_usable (probe l) of
        (False, cs) \<Rightarrow> (cs, Some name)
      | (True, cs) \<Rightarrow> (case check_listeners probe ls of (cs', r) \<Rightarrow> (cs @ cs', r)))"

definition check_generation :: "apply_env \<Rightarrow> generation \<Rightarrow> conn list \<times> string option" where
  "check_generation E g =
     (if gn_lns g = [] \<and> gn_udp g = [] \<and> all_bindings (gn_config g) = [] then ([], None)
      else check_listeners (ev_probe E) (gn_lns g))"

definition discard :: "generation \<Rightarrow> apply_error \<Rightarrow> engine \<Rightarrow> engine \<times> (apply_error + generation)" where
  "discard g e en = (en\<lparr>en_net := gen_release g (en_net en)\<rparr>, Inl e)"

definition health_check :: "apply_env \<Rightarrow> generation \<Rightarrow> engine \<Rightarrow> engine \<times> (apply_error + generation)" where
  "health_check E g en =
     (if ae_cancel1 E then discard g (ApplyError PrepareStage Cancelled) en
      else if ae_hook E g then discard g (ApplyError HealthCheckStage HookFailed) en
      else case check_generation E g of
          (cs, Some name) \<Rightarrow>
            discard g (ApplyError HealthCheckStage (EntryUnusable name)) (en\<lparr>en_closed := en_closed en @ cs\<rparr>)
        | (cs, None) \<Rightarrow>
            (let en1 = en\<lparr>en_closed := en_closed en @ cs\<rparr>
             in if ae_cancel2 E then discard g (ApplyError HealthCheckStage Cancelled) en1 else (en1, Inr g)))"

text \<open>Publication: the index of the generation replaced.\<close>

definition publish_generation :: "generation \<Rightarrow> engine \<Rightarrow> engine \<times> (apply_error + nat option)" where
  "publish_generation g en =
     (if en_state en = StateStopped then (en, Inl (ApplyError ValidateStage EngineStopped'))
      else (en\<lparr>en_gens := en_gens en @ [g], en_active := Some (length (en_gens en)), en_last_good := gn_revision g\<rparr>,
        Inr (en_active en)))"

text \<open>The old generation hands on the entries taken over and stops; \<open>None\<close> when the wait for its
  loops blocks. The new one is started.\<close>

definition hand_over :: "nat option \<Rightarrow> nat \<Rightarrow> engine \<Rightarrow> (engine \<times> int) option" where
  "hand_over old new en =
     (case old of
        None \<Rightarrow> Some (start_generation new en, 0)
      | Some i \<Rightarrow>
          (case stop_accepting i (donate (gn_reused (en_gens en ! new)) i en) of
             None \<Rightarrow> None
           | Some en1 \<Rightarrow> Some (start_generation new en1, count_entries (en_gens en1 ! i))))"

definition drain_old :: "apply_env \<Rightarrow> nat option \<Rightarrow> engine \<Rightarrow> engine \<times> bool" where
  "drain_old E old en =
     (case old of None \<Rightarrow> (en, True) | Some i \<Rightarrow> wait_drained i (ae_conns E) (ae_drain E) en)"

definition apply_machine ::
  "apply_env \<Rightarrow> deployment \<Rightarrow> nat \<Rightarrow> engine \<Rightarrow> (engine \<times> (apply_error + apply_result)) option" where
  "apply_machine E d previous en =
     (case apply_validate E d en of
        Inl e \<Rightarrow> Some (en, Inl e)
      | Inr False \<Rightarrow> Some (en, Inr (empty_result\<lparr>ar_revision := dp_revision d, ar_previous := previous,
          ar_stage := Some DrainedStage\<rparr>))
      | Inr True \<Rightarrow>
          (case prepare_generation E d en of
             (en1, Inl e) \<Rightarrow> Some (en1, Inl e)
           | (en1, Inr g) \<Rightarrow>
               (case health_check E g en1 of
                  (en2, Inl e) \<Rightarrow> Some (en2, Inl e)
                | (en2, Inr _) \<Rightarrow>
                    (case publish_generation g en2 of
                       (en3, Inl e) \<Rightarrow> Some (en3\<lparr>en_net := gen_release g (en_net en3)\<rparr>, Inl e)
                     | (en3, Inr old) \<Rightarrow>
                         (case hand_over old (length (en_gens en2)) en3 of
                            None \<Rightarrow> None
                          | Some (en4, drained) \<Rightarrow>
                              (case drain_old E old en4 of
                                 (en5, complete) \<Rightarrow> Some (en5, Inr
                                   \<lparr>ar_revision = dp_revision d, ar_previous = previous,
                                    ar_stage = Some (if complete then DrainedStage else AppliedStage),
                                    ar_changed = count_entries g, ar_drained = drained,
                                    ar_incomplete = \<not> complete\<rparr>)))))))"

definition publish_apply :: "apply_error + apply_result \<Rightarrow> engine \<Rightarrow> engine option" where
  "publish_apply r en = map_option (\<lambda>h. en\<lparr>en_hub := h\<rparr>) (hub_publish (apply_event r) (en_hub en))"

text \<open>Only one application at a time.\<close>

definition engine_apply :: "apply_env \<Rightarrow> deployment \<Rightarrow> engine \<Rightarrow> (engine \<times> (apply_error + apply_result)) option" where
  "engine_apply E d en =
     (if dp_revision d = 0 then Some (en, Inl (ApplyError ValidateStage RevisionMissing))
      else if en_applying en then Some (en, Inl ErrApplyInProgress)
      else (case apply_machine E d (active_revision en) (en\<lparr>en_applying := True\<rparr>) of
          None \<Rightarrow> None
        | Some (en1, r) \<Rightarrow>
            (case publish_apply r en1 of
               None \<Rightarrow> None
             | Some en2 \<Rightarrow> Some (en2\<lparr>en_applying := False\<rparr>, r))))"

end
