(* ===== verification/Apply_Laws.thy ===== *)
theory Apply_Laws
  imports Server_Apply
begin

section \<open>What an application keeps and what it changes\<close>

text \<open>The sockets of the active generation are open, distinct and numbered below the next one.\<close>

definition gen_open :: "entry_net \<Rightarrow> generation \<Rightarrow> bool" where
  "gen_open n g \<longleftrightarrow> gen_distinct n g \<and> (\<forall>(name, l) \<in> gen_entries g. l \<in> nt_open n)"

definition engine_ok :: "engine \<Rightarrow> bool" where
  "engine_ok en \<longleftrightarrow> net_ok (en_net en) \<and>
     (\<forall>i. en_active en = Some i \<longrightarrow> i < length (en_gens en) \<and> gen_open (en_net en) (en_gens en ! i))"

lemma engine_okD:
  assumes "engine_ok en"
  shows "net_ok (en_net en)" and "active_generation en = Some g \<Longrightarrow> gen_open (en_net en) g"
  using assms by (auto simp: engine_ok_def active_generation_def)

lemma apply_validate_go:
  assumes "\<And>xs. set (ev_order E xs) = set xs" and "apply_validate E d en = Inr b"
  shows "server_ok (ev_lower E) (dp_config d)" and "en_state en \<noteq> StateStopped"
    and "b \<longleftrightarrow> active_generation en = None \<or> active_revision en < dp_revision d"
    and "\<not> b \<longrightarrow> active_revision en = dp_revision d"
proof -
  have v: "validate_server_config (ev_order E) (ev_lower E) (dp_config d) = []"
    using assms(2) by (auto simp: apply_validate_def split: if_splits)
  then show "server_ok (ev_lower E) (dp_config d)" using validate_server_config_iff [OF assms(1)] by blast
  show "en_state en \<noteq> StateStopped" using assms(2) by (auto simp: apply_validate_def split: if_splits)
  show "b \<longleftrightarrow> active_generation en = None \<or> active_revision en < dp_revision d"
    "\<not> b \<longrightarrow> active_revision en = dp_revision d"
    using assms(2) by (auto simp: apply_validate_def active_revision_def split: if_splits option.splits)
qed

text \<open>The part of the engine that an application changes only when it publishes.\<close>

definition same_running :: "engine \<Rightarrow> engine \<Rightarrow> bool" where
  "same_running en en' \<longleftrightarrow> en_gens en' = en_gens en \<and> en_active en' = en_active en \<and>
     en_last_good en' = en_last_good en \<and> en_state en' = en_state en \<and> en_loops en' = en_loops en \<and>
     en_sessions en' = en_sessions en \<and> en_control en' = en_control en"

lemma same_running_refl [simp]: "same_running en en"
  by (simp add: same_running_def)

lemma same_running_trans: "same_running a b \<Longrightarrow> same_running b c \<Longrightarrow> same_running a c"
  by (simp add: same_running_def)

lemma same_running_updates [simp]:
  "same_running en (en\<lparr>en_net := n\<rparr>)" "same_running en (en\<lparr>en_closed := cs\<rparr>)"
  "same_running en (swap_broker c en)" "same_running en (publish_tables E' c en)"
  by (simp_all add: same_running_def swap_broker_def publish_tables_def Let_def)

lemma swap_broker_net [simp]: "en_net (swap_broker c en) = en_net en"
  by (simp add: swap_broker_def Let_def)

lemma gen_release_net:
  "gn_reused g = op_taken st \<Longrightarrow> gn_lns g = op_lns st \<Longrightarrow> gn_udp g = op_udp st \<Longrightarrow>
    gen_release g (op_net st) = release_opening st"
  by (simp add: gen_release_def release_opening_def)

text \<open>What a prepared generation is.\<close>

definition prepared :: "deployment \<Rightarrow> engine \<Rightarrow> engine \<Rightarrow> generation \<Rightarrow> entry_opening \<Rightarrow> bool" where
  "prepared d en en' g st \<longleftrightarrow>
     opening_inv (en_net en) (active_generation en) (dp_config d)
       (set (stream_entries (dp_config d)) \<union> set (udp_entries (dp_config d))) st \<and>
     en_net en' = op_net st \<and> same_running en en' \<and> en_registry en' = publish_registry (dp_config d) \<and>
     gn_revision g = dp_revision d \<and> gn_config g = dp_config d \<and> gn_donated g = {} \<and> \<not> gn_stopping g \<and>
     gn_lns g = op_lns st \<and> gn_udp g = op_udp st \<and> gn_reused g = op_taken st \<and>
     fst ` set (op_lns st) = fst ` set (stream_entries (dp_config d)) \<and>
     fst ` set (op_udp st) = fst ` set (udp_entries (dp_config d))"

lemma prepare_cases:
  assumes "server_ok lower (dp_config d)" and "net_ok (en_net en)" and "prepare_generation E d en = (en', r)"
  shows "case r of
      Inl e \<Rightarrow> nt_open (en_net en') = nt_open (en_net en) \<and> same_running en en'
    | Inr g \<Rightarrow> \<exists>st. prepared d en en' g st"
proof -
  have b: "bindings_ok lower (dp_config d)" using assms(1) by (simp add: server_ok_def)
  obtain n ro where o': "open_guest_entries (ev_bind E) (active_generation en) (dp_config d)
      (new_generation (dp_revision d) (dp_config d)) (en_net (swap_broker (dp_config d) en)) = (n, ro)" by fastforce
  note spec = open_guest_entries_spec [OF b _ o']
  show ?thesis
  proof (cases ro)
    case (Inl e)
    with assms(3) o' have "en' = swap_broker (dp_config d) en\<lparr>en_net := n\<rparr>" "r = Inl (ApplyError PrepareStage (OpenFailed e))"
      by (simp_all add: prepare_generation_def Let_def)
    with spec assms(2) Inl show ?thesis
      by (auto intro: same_running_trans [OF same_running_updates(3) same_running_updates(1)])
  next
    case (Inr g)
    with assms(3) o' have en': "en' = publish_tables (engine_env.truncate E) (dp_config d) (swap_broker (dp_config d) en\<lparr>en_net := n\<rparr>)"
      "r = Inr g"
      by (simp_all add: prepare_generation_def Let_def)
    have "same_running en en'" unfolding en'
      by (simp add: same_running_def swap_broker_def publish_tables_def Let_def)
    obtain st where st: "opening_inv (en_net en) (active_generation en) (dp_config d)
        (set (stream_entries (dp_config d)) \<union> set (udp_entries (dp_config d))) st" "n = op_net st"
      "g = new_generation (dp_revision d) (dp_config d)\<lparr>gn_lns := op_lns st, gn_addrs := op_addrs st,
         gn_udp := op_udp st, gn_reused := op_taken st\<rparr>"
      "fst ` set (op_lns st) = fst ` set (stream_entries (dp_config d))"
      "fst ` set (op_udp st) = fst ` set (udp_entries (dp_config d))"
      using spec assms(2) Inr by auto
    have "en_net en' = op_net st" "en_registry en' = publish_registry (dp_config d)"
      using st(2) en'(1) by (simp_all add: publish_tables_def)
    with st \<open>same_running en en'\<close> have "prepared d en en' g st"
      unfolding prepared_def by (simp add: new_generation_def)
    with en'(2) show ?thesis by auto
  qed
qed

lemma prepared_release:
  assumes "prepared d en en' g st" and "nt_open n = nt_open (en_net en')"
  shows "nt_open (gen_release g n) = nt_open (en_net en)"
proof -
  have "nt_open (gen_release g n) = nt_open (gen_release g (op_net st))"
    using assms by (simp add: gen_release_def prepared_def)
  also have "gen_release g (op_net st) = release_opening st"
    using assms(1) by (intro gen_release_net) (simp_all add: prepared_def)
  finally show ?thesis using assms(1) release_opening_ok by (auto simp: prepared_def opening_inv_def)
qed

lemma health_check_cases:
  assumes "health_check E g en = (en', r)"
  shows "same_running en en' \<and> en_registry en' = en_registry en \<and>
    (case r of Inl e \<Rightarrow> en_net en' = gen_release g (en_net en) | Inr g' \<Rightarrow> g' = g \<and> en_net en' = en_net en)"
  using assms by (auto simp: health_check_def discard_def Let_def same_running_def split: if_splits prod.splits option.splits)

subsection \<open>Failed applications\<close>

lemma apply_machine_fails:
  assumes "\<And>xs. set (ev_order E xs) = set xs" and "net_ok (en_net en)"
    and "apply_machine E d previous en = Some (en', Inl e)"
  shows "nt_open (en_net en') = nt_open (en_net en) \<and> same_running en en'"
proof (cases "apply_validate E d en")
  case (Inl e')
  with assms(3) show ?thesis by (simp add: apply_machine_def)
next
  case (Inr b)
  note go = apply_validate_go [OF assms(1) Inr]
  have b using assms(3) Inr by (cases b) (auto simp: apply_machine_def)
  obtain en1 r1 where p: "prepare_generation E d en = (en1, r1)" by fastforce
  note prep = prepare_cases [OF go(1) assms(2) p]
  show ?thesis
  proof (cases r1)
    case (Inl e1)
    with assms(3) Inr \<open>b\<close> p prep show ?thesis by (auto simp: apply_machine_def)
  next
    case g: (Inr g)
    with prep obtain st where st: "prepared d en en1 g st" by auto
    obtain en2 r2 where h: "health_check E g en1 = (en2, r2)" by fastforce
    note hc = health_check_cases [OF h]
    have run1: "same_running en en1" using st by (simp add: prepared_def)
    then have run2: "same_running en en2" using hc same_running_trans by blast
    show ?thesis
    proof (cases r2)
      case (Inl e2)
      then have "en' = en2" using assms(3) Inr \<open>b\<close> p g h by (simp add: apply_machine_def)
      with run2 hc Inl prepared_release [OF st refl] show ?thesis by simp
    next
      case (Inr g')
      have "en_state en2 \<noteq> StateStopped" using run2 go(2) by (simp add: same_running_def)
      then obtain en3 old where pub: "publish_generation g en2 = (en3, Inr old)" by (simp add: publish_generation_def)
      have False using assms(3) \<open>apply_validate E d en = Inr b\<close> \<open>b\<close> p g h Inr pub
        by (auto simp: apply_machine_def split: option.splits prod.splits)
      then show ?thesis ..
    qed
  qed
qed

subsection \<open>Successful applications\<close>

text \<open>What a successful application has done with the sockets: the new generation's are open, the old
  generation's that were not taken over are closed.\<close>

lemma gen_open_prepared:
  assumes "prepared d en en' g st" and "\<And>old. active_generation en = Some old \<Longrightarrow> gen_open (en_net en) old"
  shows "gen_open (op_net st) g"
proof -
  have entries: "gen_entries g = op_entries st" using assms(1) by (simp add: prepared_def gen_entries_def op_entries_def)
  have inv: "opening_ok (en_net en) st" "sockets_distinct (en_net en) (active_generation en) st"
    "taken_over (en_net en) (active_generation en) (dp_config d)
      (set (stream_entries (dp_config d)) \<union> set (udp_entries (dp_config d))) st"
    using assms(1) by (simp_all add: prepared_def opening_inv_def)
  have "\<forall>old. active_generation en = Some old \<longrightarrow> gen_distinct (en_net en) old" using assms(2) by (simp add: gen_open_def)
  with inv(2) have d: "gm_ok (op_lns st)" "gm_ok (op_udp st)" "inj_on snd (op_entries st)"
    "\<forall>(name, l) \<in> op_entries st. l < nt_next (op_net st)"
    by (auto simp: sockets_distinct_def)
  have "l \<in> nt_open (op_net st)" if e: "(name, l) \<in> op_entries st" for name l
  proof (cases "name \<in> op_taken st")
    case True
    with inv(3) e obtain old where "active_generation en = Some old" "(name, l) \<in> gen_entries old"
      by (fastforce simp: taken_over_def gen_entries_def)
    with assms(2) have "l \<in> nt_open (en_net en)" by (fastforce simp: gen_open_def)
    with inv(1) show ?thesis by (simp add: opening_ok_def)
  next
    case False
    with e have "l \<in> all_fresh st" by (auto simp: all_fresh_def fresh_entries_def op_entries_def)
    with inv(1) show ?thesis by (simp add: opening_ok_def)
  qed
  with d assms(1) entries show ?thesis
    by (auto simp: gen_open_def gen_distinct_def prepared_def)
qed

lemma fresh_union: "fresh_entries kept a \<union> fresh_entries kept b = {l. \<exists>name. (name, l) \<in> set a \<union> set b \<and> name \<notin> kept}"
  by (auto simp: fresh_entries_def)

lemma stop_signal_net:
  "nt_open (en_net (stop_signal i en)) =
     nt_open (en_net en) - {l. \<exists>name. (name, l) \<in> gen_entries (en_gens en ! i) \<and> name \<notin> gn_donated (en_gens en ! i)}"
  "nt_next (en_net (stop_signal i en)) = nt_next (en_net en)"
  by (auto simp: stop_signal_def Let_def set_gen_def gen_entries_def fresh_entries_def)

lemma stop_accepting_fields:
  assumes "stop_accepting i en = Some en'"
  shows "en_net en' = en_net (stop_signal i en)" and "en_active en' = en_active en"
    and "en_last_good en' = en_last_good en" and "en_state en' = en_state en" and "en_registry en' = en_registry en"
    and "en_broker en' = en_broker en" and "en_sessions en' = en_sessions en" and "en_routes en' = en_routes en"
    and "en_gens en' = (en_gens en)[i := (en_gens en ! i)\<lparr>gn_stopping := True\<rparr>]"
    and "en_loops en' = filter (\<lambda>w. fst w \<noteq> i) (en_loops en)"
  using assms by (auto simp: stop_accepting_def wait_loops_def stop_signal_def Let_def set_gen_def split: if_splits)

lemma drain_old_same:
  assumes "drain_old E old en = (en', c)"
  shows "en_net en' = en_net en \<and> en_active en' = en_active en \<and> en_last_good en' = en_last_good en \<and>
    en_gens en' = en_gens en \<and> en_loops en' = en_loops en \<and> en_state en' = en_state en \<and>
    en_registry en' = en_registry en \<and> en_broker en' = en_broker en \<and> en_sessions en' = en_sessions en"
  using assms by (auto simp: drain_old_def wait_drained_def close_conns_def split: option.splits drain_end.splits)

definition hand_over_done :: "engine \<Rightarrow> generation \<Rightarrow> engine \<Rightarrow> bool" where
  "hand_over_done en g en' \<longleftrightarrow> en_active en' = Some (length (en_gens en)) \<and>
     en_gens en' ! length (en_gens en) = g \<and> length (en_gens en') = Suc (length (en_gens en)) \<and>
     gen_open (en_net en') g \<and> net_ok (en_net en') \<and> en_last_good en' = gn_revision g \<and>
     (\<forall>old name l. active_generation en = Some old \<longrightarrow> (name, l) \<in> gen_entries old \<longrightarrow> name \<notin> gn_donated old \<longrightarrow>
        name \<notin> gn_reused g \<longrightarrow> l \<notin> nt_open (en_net en')) \<and>
     set (en_loops en') = {w \<in> set (en_loops en). Some (fst w) \<noteq> en_active en} \<union>
       {(length (en_gens en), name, l) |name l. (name, l) \<in> gen_entries g}"

lemma start_generation_loops:
  "set (en_loops (start_generation i en)) = set (en_loops en) \<union> {(i, name, l) |name l. (name, l) \<in> gen_entries (en_gens en ! i)}"
  by (auto simp: start_generation_def gen_entries_def)

lemma hand_over_spec:
  assumes ok: "engine_ok en" and p: "prepared d en en1 g st" and run: "same_running en en2" and net: "en_net en2 = op_net st"
    and pub: "publish_generation g en2 = (en3, Inr old)"
    and ho: "hand_over old (length (en_gens en2)) en3 = Some (en4, drained)"
  shows "hand_over_done en g en4 \<and> en_state en4 = en_state en \<and> en_registry en4 = en_registry en2"
proof -
  let ?n = "length (en_gens en)"
  have gens: "en_gens en2 = en_gens en" "en_active en2 = en_active en" "en_state en2 = en_state en" "en_loops en2 = en_loops en"
    using run by (simp_all add: same_running_def)
  have en3: "old = en_active en" "en_gens en3 = en_gens en @ [g]" "en_active en3 = Some ?n" "en_last_good en3 = gn_revision g"
    "en_net en3 = op_net st" "en_loops en3 = en_loops en" "en_state en3 = en_state en" "en_registry en3 = en_registry en2"
    using pub gens net by (auto simp: publish_generation_def split: if_splits)
  have opn: "gen_open (op_net st) g" using gen_open_prepared [OF p] engine_okD(2) [OF ok] by blast
  have nok: "net_ok (op_net st)"
  proof -
    have "opening_ok (en_net en) st" "net_ok (en_net en)" using p by (simp_all add: prepared_def opening_inv_def)
    then show ?thesis by (fastforce simp: opening_ok_def net_ok_def)
  qed
  show ?thesis
  proof (cases "en_active en")
    case None
    with ho en3 gens have "en4 = start_generation ?n en3" by (simp add: hand_over_def)
    with None en3 opn nok show ?thesis
      by (auto simp: hand_over_done_def active_generation_def start_generation_def gen_entries_def nth_append)
  next
    case (Some i)
    have i: "i < ?n" "active_generation en = Some (en_gens en ! i)"
      using ok Some by (simp_all add: engine_ok_def active_generation_def)
    note og = engine_okD(2) [OF ok i(2)]
    let ?d = "donate (gn_reused g) i en3"
    have dgens: "en_gens ?d ! i = (en_gens en ! i)\<lparr>gn_donated := gn_donated (en_gens en ! i) \<union> gn_reused g\<rparr>"
      "en_gens ?d ! ?n = g" "length (en_gens ?d) = Suc ?n" "en_net ?d = op_net st" "en_active ?d = Some ?n"
      "en_last_good ?d = gn_revision g" "en_loops ?d = en_loops en" "en_state ?d = en_state en" "en_registry ?d = en_registry en2"
      using en3 i(1) by (simp_all add: donate_def set_gen_def nth_append)
    have gn: "en_gens en3 ! length (en_gens en2) = g" using en3(2) gens(1) by simp
    obtain en5 where s: "stop_accepting i ?d = Some en5" "en4 = start_generation ?n en5"
      using ho Some en3(1) gn gens(1) by (auto simp: hand_over_def split: option.splits)
    note f = stop_accepting_fields [OF s(1)]
    have entries: "gen_entries (en_gens ?d ! i) = gen_entries (en_gens en ! i)"
      "gn_donated (en_gens ?d ! i) = gn_donated (en_gens en ! i) \<union> gn_reused g"
      by (simp_all add: dgens(1) gen_entries_def)
    have nopen: "nt_open (en_net en4) = nt_open (op_net st) -
        {l. \<exists>name. (name, l) \<in> gen_entries (en_gens en ! i) \<and> name \<notin> gn_donated (en_gens en ! i) \<union> gn_reused g}"
      "nt_next (en_net en4) = nt_next (op_net st)"
      using f(1) stop_signal_net [of i ?d] dgens(4) entries s(2) by (simp_all add: start_generation_def)
    have g4: "en_gens en4 ! ?n = g" "length (en_gens en4) = Suc ?n"
      using f(9) dgens(2,3) i(1) s(2) by (simp_all add: start_generation_def)
    have kept: "l \<in> nt_open (en_net en4)" if e: "(name, l) \<in> gen_entries g" for name l
    proof -
      have eo: "(name, l) \<in> op_entries st" using e p by (simp add: prepared_def gen_entries_def op_entries_def)
      have "\<not> (\<exists>b. (b, l) \<in> gen_entries (en_gens en ! i) \<and> b \<notin> gn_donated (en_gens en ! i) \<union> gn_reused g)"
      proof (intro notI, elim exE conjE)
        fix b
        assume b: "(b, l) \<in> gen_entries (en_gens en ! i)" "b \<notin> gn_donated (en_gens en ! i) \<union> gn_reused g"
        then have low: "l < nt_next (en_net en)" using og by (auto simp: gen_open_def gen_distinct_def)
        have inv: "opening_ok (en_net en) st" "taken_over (en_net en) (active_generation en) (dp_config d)
            (set (stream_entries (dp_config d)) \<union> set (udp_entries (dp_config d))) st"
          using p by (simp_all add: prepared_def opening_inv_def)
        have taken: "name \<in> op_taken st" using op_entries_not_taken [OF inv(1) eo] low by (cases "name \<in> op_taken st") simp_all
        with inv(2) eo i(2) have "(name, l) \<in> gen_entries (en_gens en ! i)" by (auto simp: taken_over_def gen_entries_def)
        with b(1) og have "(name, l) = (b, l)"
          by (auto simp: gen_open_def gen_distinct_def dest!: inj_onD [of snd _ "(name, l)" "(b, l)"])
        with taken b(2) p show False by (simp add: prepared_def)
      qed
      with opn e nopen(1) show ?thesis by (auto simp: gen_open_def)
    qed
    have "gen_open (en_net en4) g" using opn kept nopen(2) by (auto simp: gen_open_def gen_distinct_def)
    moreover have "net_ok (en_net en4)" using nok nopen by (auto simp: net_ok_def)
    moreover have "set (en_loops en4) = {w \<in> set (en_loops en). Some (fst w) \<noteq> en_active en} \<union>
       {(?n, name, l) |name l. (name, l) \<in> gen_entries g}"
      using start_generation_loops [of ?n en5] f(9,10) dgens(2,7) s(2) Some i(1) by auto
    moreover have "en_active en4 = Some ?n" "en_last_good en4 = gn_revision g" "en_state en4 = en_state en"
      "en_registry en4 = en_registry en2"
      using f dgens s(2) by (simp_all add: start_generation_def)
    ultimately show ?thesis using g4 i(2) nopen(1) by (auto simp: hand_over_done_def)
  qed
qed

subsection \<open>The engine as a whole\<close>

lemma apply_machine_succeeds:
  assumes "\<And>xs. set (ev_order E xs) = set xs" and "engine_ok en"
    and "apply_machine E d previous en = Some (en', Inr r)"
  shows "published r \<and> ar_revision r = dp_revision d \<and> engine_ok en' \<and> active_revision en' = dp_revision d \<and>
    (if active_generation en \<noteq> None \<and> active_revision en = dp_revision d then en' = en
     else \<exists>g. active_generation en' = Some g \<and> gn_config g = dp_config d \<and> en_last_good en' = dp_revision d \<and>
       en_registry en' = publish_registry (dp_config d) \<and> hand_over_done en g en' \<and>
       fst ` gen_entries g = fst ` set (stream_entries (dp_config d)) \<union> fst ` set (udp_entries (dp_config d)))"
proof -
  obtain b where v: "apply_validate E d en = Inr b" using assms(3) by (cases "apply_validate E d en") (auto simp: apply_machine_def)
  note go = apply_validate_go [OF assms(1) v]
  show ?thesis
  proof (cases b)
    case False
    with go(3,4) have a: "active_generation en \<noteq> None" "active_revision en = dp_revision d" by auto
    have "en' = en" "r = empty_result\<lparr>ar_revision := dp_revision d, ar_previous := previous, ar_stage := Some DrainedStage\<rparr>"
      using assms(3) v False by (auto simp: apply_machine_def)
    with a assms(2) show ?thesis by (simp add: published_def)
  next
    case True
    obtain en1 r1 where p: "prepare_generation E d en = (en1, r1)" by fastforce
    obtain g where g: "r1 = Inr g" using assms(3) v True p by (cases r1) (auto simp: apply_machine_def)
    with prepare_cases [OF go(1) engine_okD(1) [OF assms(2)] p] obtain st where st: "prepared d en en1 g st" by auto
    obtain en2 r2 where h: "health_check E g en1 = (en2, r2)" by fastforce
    obtain g' where r2: "r2 = Inr g'" using assms(3) v True p g h by (cases r2) (auto simp: apply_machine_def)
    note hc = health_check_cases [OF h]
    have run: "same_running en en2" "en_net en2 = op_net st" "en_registry en2 = publish_registry (dp_config d)"
      using st hc r2 same_running_trans by (auto simp: prepared_def)
    have "en_state en2 \<noteq> StateStopped" using run(1) go(2) by (simp add: same_running_def)
    then obtain en3 old where pub: "publish_generation g en2 = (en3, Inr old)" by (simp add: publish_generation_def)
    obtain en4 n where ho: "hand_over old (length (en_gens en2)) en3 = Some (en4, n)"
      using assms(3) v True p g h r2 pub by (auto simp: apply_machine_def split: option.splits)
    obtain en5 c where dr: "drain_old E old en4 = (en5, c)" by fastforce
    have res: "en' = en5" "ar_revision r = dp_revision d" "published r"
      using assms(3) v True p g h r2 pub ho dr by (auto simp: apply_machine_def published_def)
    note spec = hand_over_spec [OF assms(2) st run(1,2) pub ho]
    note same = drain_old_same [OF dr]
    have done': "hand_over_done en g en'" using spec same res(1) by (simp add: hand_over_done_def)
    have conf: "gn_config g = dp_config d" "gn_revision g = dp_revision d"
      "fst ` gen_entries g = fst ` set (stream_entries (dp_config d)) \<union> fst ` set (udp_entries (dp_config d))"
      using st by (auto simp: prepared_def gen_entries_def image_Un)
    have act: "active_generation en' = Some g" using done' by (simp add: active_generation_def hand_over_done_def)
    have ok: "engine_ok en'" using done' by (auto simp: engine_ok_def hand_over_done_def)
    have newer: "\<not> (active_generation en \<noteq> None \<and> active_revision en = dp_revision d)" using go(3) True by auto
    have "en_last_good en' = dp_revision d" "en_registry en' = publish_registry (dp_config d)"
      using done' conf spec same res(1) run(3) by (simp_all add: hand_over_done_def)
    moreover have "active_revision en' = dp_revision d" using act conf(2) by (simp add: active_revision_def)
    ultimately show ?thesis unfolding if_not_P [OF newer] using done' conf act ok res(2,3) by blast
  qed
qed

lemma engine_apply_fails:
  assumes "\<And>xs. set (ev_order E xs) = set xs" and "engine_ok en" and "engine_apply E d en = Some (en', Inl e)"
  shows "nt_open (en_net en') = nt_open (en_net en) \<and> same_running en en' \<and> en_applying en' = en_applying en"
proof (cases "dp_revision d = 0 \<or> en_applying en")
  case True
  with assms(3) have "en' = en" by (auto simp: engine_apply_def split: if_splits)
  then show ?thesis by simp
next
  case False
  then obtain en1 en2 where m: "apply_machine E d (active_revision en) (en\<lparr>en_applying := True\<rparr>) = Some (en1, Inl e)"
    and p: "publish_apply (Inl e) en1 = Some en2" "en' = en2\<lparr>en_applying := False\<rparr>"
    using assms(3) by (auto simp: engine_apply_def split: option.splits prod.splits)
  have "net_ok (en_net (en\<lparr>en_applying := True\<rparr>))" using engine_okD(1) [OF assms(2)] by simp
  note f = apply_machine_fails [OF assms(1) this m]
  have "same_running en (en\<lparr>en_applying := True\<rparr>)" "same_running en1 en'" "en_net en' = en_net en1"
    using p by (auto simp: same_running_def publish_apply_def)
  with f False p(2) show ?thesis by (auto intro: same_running_trans)
qed

lemma engine_ok_flag [simp]: "engine_ok (en\<lparr>en_applying := b\<rparr>) = engine_ok en" "engine_ok (en\<lparr>en_hub := h\<rparr>) = engine_ok en"
  "active_revision (en\<lparr>en_applying := b\<rparr>) = active_revision en" "active_revision (en\<lparr>en_hub := h\<rparr>) = active_revision en"
  by (simp_all add: engine_ok_def active_revision_def active_generation_def)

lemma engine_apply_succeeds:
  assumes "\<And>xs. set (ev_order E xs) = set xs" and "engine_ok en" and "engine_apply E d en = Some (en', Inr r)"
  shows "engine_ok en' \<and> active_revision en' = dp_revision d"
proof -
  obtain en1 h where m: "apply_machine E d (active_revision en) (en\<lparr>en_applying := True\<rparr>) = Some (en1, Inr r)"
    and en': "en' = en1\<lparr>en_hub := h\<rparr>\<lparr>en_applying := False\<rparr>"
    using assms(3) by (auto simp: engine_apply_def publish_apply_def split: if_splits option.splits prod.splits)
  have "engine_ok (en\<lparr>en_applying := True\<rparr>)" using assms(2) by simp
  from apply_machine_succeeds [OF assms(1) this m] show ?thesis unfolding en' by simp
qed

text \<open>The engine fails before publication only.\<close>

definition early_failure :: "'c apply_failure \<Rightarrow> bool" where
  "early_failure e \<longleftrightarrow> e = ErrApplyInProgress \<or>
     (\<exists>s c. e = ApplyError s c \<and> (s = ValidateStage \<or> s = PrepareStage \<or> s = HealthCheckStage))"

lemma early_stages:
  "apply_validate E d en = Inl x \<Longrightarrow> early_failure x"
  "prepare_generation E d en = (en', Inl x) \<Longrightarrow> early_failure x"
  "health_check E g en = (en', Inl x) \<Longrightarrow> early_failure x"
  "publish_generation g en = (en', Inl x) \<Longrightarrow> early_failure x"
  by (auto simp: early_failure_def apply_validate_def prepare_generation_def health_check_def discard_def
      publish_generation_def Let_def split: if_splits option.splits prod.splits sum.splits)

lemma apply_machine_stages: "apply_machine E d previous en = Some (en', Inl e) \<Longrightarrow> early_failure e"
  by (auto simp: apply_machine_def split: sum.splits bool.splits prod.splits option.splits dest: early_stages)

lemma engine_apply_stages: "engine_apply E d en = Some (en', Inl e) \<Longrightarrow> early_failure e"
  by (auto simp: engine_apply_def split: if_splits option.splits prod.splits dest!: apply_machine_stages)
    (simp_all add: early_failure_def)

end
