(* ===== verification/Server_Lifecycle.thy ===== *)
theory Server_Lifecycle
  imports Apply_Laws
begin

section \<open>Start, Apply and Shutdown interleaved\<close>

text \<open>
  \<open>Start\<close>, \<open>Apply\<close> and \<open>Shutdown\<close> are called by different goroutines of the host. Each takes the
  engine's lock several times; between two of its sections the others can run. A state is the
  engine with the position of each call. Only one application runs at a time; a start and a
  shutdown have one position each.
\<close>

datatype start_pc = StartIdle | StartClaimed "nat option" | StartOpened generation

datatype stop_pc = StopIdle | StopTaken "nat option" | StopWaited nat

datatype apply_pc = ApplyIdle | ApplyClaimed deployment | ApplyReady generation | ApplyPublished "nat option" nat

type_synonym life = "engine \<times> start_pc \<times> stop_pc \<times> apply_pc"

definition applied :: "engine \<Rightarrow> engine" where
  "applied en = en\<lparr>en_applying := False\<rparr>"

inductive life_step :: "apply_env \<Rightarrow> life \<Rightarrow> life \<Rightarrow> bool" for E where
  start_claim: "claim_start_slot (engine_env.truncate E) en = (en', Inr injected) \<Longrightarrow>
    life_step E (en, StartIdle, p, a) (en', StartClaimed injected, p, a)"
| start_no_listener: "start_listener (engine_env.truncate E) injected en = (en', Inl e) \<Longrightarrow>
    life_step E (en, StartClaimed injected, p, a) (en', StartIdle, p, a)"
| start_failed: "start_listener (engine_env.truncate E) injected en = (en1, Inr l) \<Longrightarrow>
    start_open (engine_env.truncate E) (injected = None) l en1 = (en', Inl e) \<Longrightarrow>
    life_step E (en, StartClaimed injected, p, a) (en', StartIdle, p, a)"
| start_opened: "start_listener (engine_env.truncate E) injected en = (en1, Inr l) \<Longrightarrow>
    start_open (engine_env.truncate E) (injected = None) l en1 = (en', Inr g) \<Longrightarrow>
    life_step E (en, StartClaimed injected, p, a) (en', StartOpened g, p, a)"
| start_committed: "life_step E (en, StartOpened g, p, a) (start_commit g en, StartIdle, p, a)"
| stop_begin: "life_step E (en, s, StopIdle, a) (release_control en, s, StopTaken (en_active en), a)"
| stop_active: "final_stop i (ae_conns E) en = Some en' \<Longrightarrow>
    life_step E (en, s, StopTaken (Some i), a) (en', s, StopWaited i, a)"
| stop_cut: "wait_drained i (ae_conns E) d en = (en', False) \<Longrightarrow>
    life_step E (en, s, StopWaited i, a) (en', s, StopIdle, a)"
| stop_done: "close_done en = Some en' \<Longrightarrow> life_step E (en, s, StopWaited i, a) (en', s, StopIdle, a)"
| stop_idle: "close_done en = Some en' \<Longrightarrow> life_step E (en, s, StopTaken None, a) (en', s, StopIdle, a)"
| apply_claim: "dp_revision d \<noteq> 0 \<Longrightarrow> \<not> en_applying en \<Longrightarrow> apply_validate E d en = Inr True \<Longrightarrow>
    life_step E (en, s, p, ApplyIdle) (en\<lparr>en_applying := True\<rparr>, s, p, ApplyClaimed d)"
| apply_unprepared: "prepare_generation E d en = (en', Inl e) \<Longrightarrow>
    life_step E (en, s, p, ApplyClaimed d) (applied en', s, p, ApplyIdle)"
| apply_unhealthy: "prepare_generation E d en = (en1, Inr g) \<Longrightarrow> health_check E g en1 = (en', Inl e) \<Longrightarrow>
    life_step E (en, s, p, ApplyClaimed d) (applied en', s, p, ApplyIdle)"
| apply_ready: "prepare_generation E d en = (en1, Inr g) \<Longrightarrow> health_check E g en1 = (en', Inr g') \<Longrightarrow>
    life_step E (en, s, p, ApplyClaimed d) (en', s, p, ApplyReady g)"
| apply_refused: "publish_generation g en = (en', Inl e) \<Longrightarrow>
    life_step E (en, s, p, ApplyReady g) (applied (en'\<lparr>en_net := gen_release g (en_net en')\<rparr>), s, p, ApplyIdle)"
| apply_published: "publish_generation g en = (en', Inr old) \<Longrightarrow>
    life_step E (en, s, p, ApplyReady g) (en', s, p, ApplyPublished old (length (en_gens en)))"
| apply_handed_over: "hand_over old i en = Some (en1, n) \<Longrightarrow> drain_old E old en1 = (en', c) \<Longrightarrow>
    life_step E (en, s, p, ApplyPublished old i) (applied en', s, p, ApplyIdle)"

inductive_cases life_stepE: "life_step E (en, s, p, a) (en', s', p', a')"

subsection \<open>Invariants\<close>

text \<open>The active generation is the one published last, the last good revision is its revision; an
  application is marked exactly while one runs; and an engine that has stopped can only be running
  again if a start had been claimed before.\<close>

definition life_inv :: "life \<Rightarrow> bool" where
  "life_inv = (\<lambda>(en, s, p, a).
     (en_active en = (if en_gens en = [] then None else Some (length (en_gens en) - 1))) \<and>
     (en_gens en \<noteq> [] \<longrightarrow> en_last_good en = gn_revision (last (en_gens en))) \<and>
     (en_applying en \<longleftrightarrow> a \<noteq> ApplyIdle) \<and>
     (en_state en = StateStarting \<longrightarrow> s \<noteq> StartIdle) \<and>
     (\<forall>i. p = StopTaken (Some i) \<or> p = StopWaited i \<longrightarrow> i < length (en_gens en)) \<and>
     (\<forall>old i. a = ApplyPublished old i \<longrightarrow> i < length (en_gens en) \<and> (\<forall>k. old = Some k \<longrightarrow> k < length (en_gens en))))"

text \<open>The parts of the engine the invariant looks at; revisions of published generations never change.\<close>

definition kept :: "engine \<Rightarrow> engine \<Rightarrow> bool" where
  "kept en en' \<longleftrightarrow> en_active en' = en_active en \<and> en_last_good en' = en_last_good en \<and>
     map gn_revision (en_gens en') = map gn_revision (en_gens en) \<and> en_applying en' = en_applying en"

lemma kept_refl [simp]: "kept en en"
  by (simp add: kept_def)

lemma kept_trans: "kept a b \<Longrightarrow> kept b c \<Longrightarrow> kept a c"
  by (simp add: kept_def)

lemma kept_length: "kept en en' \<Longrightarrow> length (en_gens en') = length (en_gens en)"
  unfolding kept_def by (metis length_map)

lemma kept_last: "kept en en' \<Longrightarrow> en_gens en \<noteq> [] \<Longrightarrow> gn_revision (last (en_gens en')) = gn_revision (last (en_gens en))"
  unfolding kept_def by (metis last_map map_is_Nil_conv)

lemma kept_simps [simp]:
  "kept en (en\<lparr>en_net := n\<rparr>)" "kept en (en\<lparr>en_closed := cs\<rparr>)" "kept en (release_control en)"
  "kept en (publish_tables E c en)" "kept en (swap_broker c en)" "kept en (release_start_slot en)"
  by (simp_all add: kept_def release_control_def publish_tables_def swap_broker_def release_start_slot_def Let_def
      split: option.splits)

lemma list_update_keep: "f x = f (xs ! i) \<Longrightarrow> map f (xs[i := x]) = map f xs"
  by (cases "i < length xs") (simp_all add: map_update list_update_beyond nth_equalityI nth_list_update)

lemma kept_set_gen_eq: "map gn_revision ((en_gens en)[i := g]) = map gn_revision (en_gens en) \<Longrightarrow> kept en (set_gen i g en)"
  by (simp add: kept_def set_gen_def)

lemma kept_set_gen: "gn_revision g = gn_revision (en_gens en ! i) \<Longrightarrow> kept en (set_gen i g en)"
  by (rule list_update_keep [where f = gn_revision and xs = "en_gens en" and i = i and x = g, THEN kept_set_gen_eq]) simp

lemma kept_stop_accepting:
  assumes "stop_accepting i en = Some en'"
  shows "kept en en' \<and> en_state en' = en_state en"
proof -
  have "kept en (stop_signal i en)"
    unfolding stop_signal_def Let_def by (rule kept_trans [OF kept_set_gen kept_simps(1)]) simp
  then show ?thesis using assms by (auto simp: stop_accepting_def wait_loops_def kept_def stop_signal_def Let_def set_gen_def split: if_splits)
qed

lemma kept_final_stop:
  assumes "final_stop i order en = Some en'"
  shows "kept en en' \<and> en_state en' = en_state en"
proof (cases "en_stopped_once en")
  case True
  with assms show ?thesis by (simp add: final_stop_def)
next
  case False
  then obtain en1 where s: "stop_accepting i (en\<lparr>en_shutting := True, en_stopped_once := True\<rparr>) = Some en1"
    using assms by (auto simp: final_stop_def split: option.splits)
  have "kept en en'" "en_state en' = en_state en" using assms False s kept_stop_accepting [OF s]
    by (auto simp: final_stop_def kept_def Let_def split: option.splits prod.splits)
  then show ?thesis ..
qed

lemma kept_start_listener:
  assumes "start_listener E injected en = (en', r)"
  shows "kept en en' \<and> (en_state en' = StateStarting \<longrightarrow> en_state en = StateStarting \<and> (\<exists>l. r = Inr l))"
  using assms by (auto simp: start_listener_def kept_def release_start_slot_def split: option.splits prod.splits if_splits)

lemma kept_start_open:
  assumes "start_open E self l en = (en', r)"
  shows "kept en en' \<and> (en_state en' = StateStarting \<longrightarrow> en_state en = StateStarting \<and> (\<exists>g. r = Inr g))"
  using assms
  by (auto simp: start_open_def give_up_start_def kept_def release_start_slot_def publish_tables_def Let_def
      split: prod.splits bool.splits sum.splits if_splits)

lemma kept_close_done: "close_done en = Some en' \<Longrightarrow> kept en en' \<and> en_state en' = StateStopped"
  by (auto simp: close_done_def kept_def split: option.splits)

lemma kept_wait_drained: "wait_drained i order d en = (en', b) \<Longrightarrow> kept en en' \<and> en_state en' = en_state en"
  by (auto simp: wait_drained_def close_conns_def kept_def split: drain_end.splits)

lemma kept_prepare: "prepare_generation E d en = (en', r) \<Longrightarrow> kept en en' \<and> en_state en' = en_state en"
  by (auto simp: prepare_generation_def kept_def Let_def publish_tables_def swap_broker_def split: prod.splits sum.splits)

lemma kept_health: "health_check E g en = (en', r) \<Longrightarrow> kept en en' \<and> en_state en' = en_state en"
  by (auto simp: health_check_def discard_def kept_def Let_def split: if_splits prod.splits option.splits)

lemma kept_hand_over: "hand_over old i en = Some (en', n) \<Longrightarrow> kept en en' \<and> en_state en' = en_state en"
proof -
  assume h: "hand_over old i en = Some (en', n)"
  have start: "kept e (start_generation i e) \<and> en_state (start_generation i e) = en_state e" for e
    by (simp add: start_generation_def kept_def)
  show ?thesis
  proof (cases old)
    case None
    with h have "en' = start_generation i en" by (simp add: hand_over_def)
    with start show ?thesis by simp
  next
    case (Some k)
    let ?d = "donate (gn_reused (en_gens en ! i)) k en"
    obtain en1 where s: "stop_accepting k ?d = Some en1" "en' = start_generation i en1"
      using h Some by (auto simp: hand_over_def split: option.splits)
    have "kept en ?d" "en_state ?d = en_state en" unfolding donate_def by (rule kept_set_gen) (simp_all add: set_gen_def)
    with kept_stop_accepting [OF s(1)] start [of en1] s(2) show ?thesis by (metis kept_trans)
  qed
qed

lemma life_inv_kept:
  assumes "life_inv (en, s, p, a)" and "kept en en'" and "en_state en' = StateStarting \<Longrightarrow> s' \<noteq> StartIdle"
    and "\<And>i. p' = StopTaken (Some i) \<or> p' = StopWaited i \<Longrightarrow> i < length (en_gens en)"
  shows "life_inv (en', s', p', a)"
proof -
  note len = kept_length [OF assms(2)]
  have empty: "en_gens en' = [] \<longleftrightarrow> en_gens en = []" using len by auto
  have old: "en_active en = (if en_gens en = [] then None else Some (length (en_gens en) - 1))"
    "en_gens en \<noteq> [] \<Longrightarrow> en_last_good en = gn_revision (last (en_gens en))" "en_applying en \<longleftrightarrow> a \<noteq> ApplyIdle"
    "\<And>old i. a = ApplyPublished old i \<Longrightarrow> i < length (en_gens en) \<and> (\<forall>k. old = Some k \<longrightarrow> k < length (en_gens en))"
    using assms(1) by (auto simp: life_inv_def)
  have new: "en_active en' = en_active en" "en_last_good en' = en_last_good en" "en_applying en' = en_applying en"
    using assms(2) by (simp_all add: kept_def)
  show ?thesis unfolding life_inv_def prod.case len new empty
    using old kept_last [OF assms(2)] assms(3,4) by auto
qed

lemma life_inv_apply:
  assumes "life_inv (en, s, p, a)" and "kept en en'" and "en_state en' = en_state en"
    and "\<And>old i. a' = ApplyPublished old i \<Longrightarrow> i < length (en_gens en) \<and> (\<forall>k. old = Some k \<longrightarrow> k < length (en_gens en))"
  shows "life_inv (en'\<lparr>en_applying := (a' \<noteq> ApplyIdle)\<rparr>, s, p, a')"
proof -
  note len = kept_length [OF assms(2)]
  have "life_inv (en', s, p, a)"
    by (rule life_inv_kept [OF assms(1,2)]) (use assms(1,3) in \<open>auto simp: life_inv_def\<close>)
  with assms(4) len show ?thesis by (auto simp: life_inv_def)
qed

lemma applied_alt: "applied en = en\<lparr>en_applying := (ApplyIdle \<noteq> ApplyIdle)\<rparr>"
  by (simp add: applied_def)

lemma keep_applying: "life_inv (en, s, p, a) \<Longrightarrow> kept en en' \<Longrightarrow> en' = en'\<lparr>en_applying := (a \<noteq> ApplyIdle)\<rparr>"
  by (cases en') (auto simp: life_inv_def kept_def)

lemma life_inv_append:
  assumes "life_inv (en, s, p, a)" and "en_gens en' = en_gens en @ [g]" and "en_active en' = Some (length (en_gens en))"
    and "en_last_good en' = gn_revision g" and "en_applying en' = (a' \<noteq> ApplyIdle)"
    and "en_state en' = StateStarting \<Longrightarrow> s' \<noteq> StartIdle"
    and "\<And>old i. a' = ApplyPublished old i \<Longrightarrow> i \<le> length (en_gens en) \<and> (\<forall>k. old = Some k \<longrightarrow> k \<le> length (en_gens en))"
  shows "life_inv (en', s', p, a')"
  using assms unfolding life_inv_def by (fastforce simp: less_Suc_eq_le)

lemma active_bound: "life_inv (en, s, p, a) \<Longrightarrow> en_active en = Some i \<Longrightarrow> i < length (en_gens en)"
  by (auto simp: life_inv_def split: if_splits)

lemma life_step_inv:
  assumes "life_step E x y" and "life_inv x"
  shows "life_inv y"
  using assms
proof (induction rule: life_step.induct)
  case (start_claim en en' injected p a)
  have "kept en en'" using start_claim(1) by (auto simp: claim_start_slot_def kept_def split: if_splits)
  then show ?case by (rule life_inv_kept [OF start_claim(2)]) (use start_claim(2) in \<open>auto simp: life_inv_def\<close>)
next
  case (start_no_listener injected en en' e p a)
  show ?case
    by (rule life_inv_kept [OF start_no_listener(2)])
      (use kept_start_listener [OF start_no_listener(1)] start_no_listener(2) in \<open>auto simp: life_inv_def\<close>)
next
  case (start_failed injected en en1 l en' e p a)
  note k = kept_start_listener [OF start_failed(1)] kept_start_open [OF start_failed(2)]
  then have "kept en en'" using kept_trans by blast
  then show ?case
    by (rule life_inv_kept [OF start_failed(3)]) (use k start_failed(3) in \<open>auto simp: life_inv_def\<close>)
next
  case (start_opened injected en en1 l en' g p a)
  note k = kept_start_listener [OF start_opened(1)] kept_start_open [OF start_opened(2)]
  then have "kept en en'" using kept_trans by blast
  then show ?case
    by (rule life_inv_kept [OF start_opened(3)]) (use k start_opened(3) in \<open>auto simp: life_inv_def\<close>)
next
  case (start_committed en g p a)
  have idx: "\<And>old i. a = ApplyPublished old i \<Longrightarrow> i \<le> length (en_gens en) \<and> (\<forall>k. old = Some k \<longrightarrow> k \<le> length (en_gens en))"
    using start_committed unfolding life_inv_def by fastforce
  have "en_applying en = (a \<noteq> ApplyIdle)" using start_committed by (simp add: life_inv_def)
  then show ?case
    by (intro life_inv_append [OF start_committed, where g = g])
      (use idx in \<open>simp_all add: start_commit_def commit_running_def start_generation_def\<close>)
next
  case (stop_begin en s a)
  show ?case
    by (rule life_inv_kept [OF stop_begin kept_simps(3)])
      (use stop_begin active_bound [OF stop_begin] in
        \<open>auto simp: life_inv_def release_control_def split: option.splits\<close>)
next
  case (stop_active i en en' s a)
  note k = kept_final_stop [OF stop_active(1)]
  show ?case
    by (rule life_inv_kept [OF stop_active(2)]) (use k stop_active(2) in \<open>auto simp: life_inv_def\<close>)
next
  case (stop_cut i d en en' s a)
  note k = kept_wait_drained [OF stop_cut(1)]
  show ?case by (rule life_inv_kept [OF stop_cut(2)]) (use k stop_cut(2) in \<open>auto simp: life_inv_def\<close>)
next
  case (stop_done en en' s i a)
  note k = kept_close_done [OF stop_done(1)]
  show ?case by (rule life_inv_kept [OF stop_done(2)]) (use k in auto)
next
  case (stop_idle en en' s a)
  note k = kept_close_done [OF stop_idle(1)]
  show ?case by (rule life_inv_kept [OF stop_idle(2)]) (use k in auto)
next
  case (apply_claim d en s p)
  from apply_claim(4) show ?case by (auto simp: life_inv_def)
next
  case (apply_unprepared d en en' e s p)
  note k = kept_prepare [OF apply_unprepared(1)]
  show ?case unfolding applied_alt by (rule life_inv_apply [OF apply_unprepared(2)]) (use k in auto)
next
  case (apply_unhealthy d en en1 g en' e s p)
  note k = kept_prepare [OF apply_unhealthy(1)] kept_health [OF apply_unhealthy(2)]
  show ?case unfolding applied_alt
    by (rule life_inv_apply [OF apply_unhealthy(3)]) (use k kept_trans in auto)
next
  case (apply_ready d en en1 g en' g' s p)
  note k = kept_prepare [OF apply_ready(1)] kept_health [OF apply_ready(2)]
  then have kept: "kept en en'" using kept_trans by blast
  from keep_applying [OF apply_ready(3) kept] have e: "en' = en'\<lparr>en_applying := (ApplyReady g \<noteq> ApplyIdle)\<rparr>" by simp
  show ?case by (subst e, rule life_inv_apply [OF apply_ready(3) kept]) (use k in auto)
next
  case (apply_refused g en en' e s p)
  have k: "kept en (en'\<lparr>en_net := gen_release g (en_net en')\<rparr>)" "en_state en' = en_state en"
    using apply_refused(1) by (auto simp: publish_generation_def kept_def split: if_splits)
  show ?case unfolding applied_alt by (rule life_inv_apply [OF apply_refused(2) k(1)]) (use k in auto)
next
  case (apply_published g en en' old s p)
  have f: "en_gens en' = en_gens en @ [g]" "en_active en' = Some (length (en_gens en))" "en_last_good en' = gn_revision g"
    "en_applying en' = en_applying en" "en_state en' = en_state en" "old = en_active en"
    using apply_published(1) by (auto simp: publish_generation_def split: if_splits)
  have ap: "en_applying en" "en_state en = StateStarting \<Longrightarrow> s \<noteq> StartIdle"
    using apply_published(2) by (auto simp: life_inv_def)
  show ?case
    by (rule life_inv_append [OF apply_published(2) f(1-3)])
      (use f ap active_bound [OF apply_published(2)] less_imp_le in auto)
next
  case (apply_handed_over old i en en1 n en' c s p)
  note k = kept_hand_over [OF apply_handed_over(1)]
  have "kept en1 en' \<and> en_state en' = en_state en1"
    using apply_handed_over(2) kept_wait_drained by (auto simp: drain_old_def split: option.splits)
  with k have k': "kept en en'" "en_state en' = en_state en" using kept_trans by auto
  show ?case unfolding applied_alt by (rule life_inv_apply [OF apply_handed_over(3) k'(1)]) (use k' in auto)
qed

lemma life_run_inv: "(life_step E)\<^sup>*\<^sup>* x y \<Longrightarrow> life_inv x \<Longrightarrow> life_inv y"
  by (induction rule: rtranclp_induct) (auto intro: life_step_inv)

lemma life_inv_new: "life_inv (new_engine c l n, StartIdle, StopIdle, ApplyIdle)"
  by (simp add: life_inv_def new_engine_def)

end
