(* ===== verification/Runtime_Proxy.thy ===== *)
theory Runtime_Proxy
  imports Server_Engine
begin

section \<open>Proxies registered at run time (\<open>core/server/runtime_proxy.go\<close>)\<close>

text \<open>
  A client can register proxies over its control connection; they live as long as the session.
  The tables of the session's generation, the registry and the routes are changed together.
  \<open>ra_order\<close> is the order in which the map of runtime proxies is traversed, \<open>ra_official\<close> the
  protocol version of the session, which a UDP entry is opened with.
\<close>

record proxy_request =
  rq_name :: string
  rq_type :: string
  rq_port :: int
  rq_domains :: "string list"
  rq_subdomain :: string
  rq_locations :: "string list"

datatype proxy_reject = ProxyTypeUnsupported | ProxyNameConflict | ProxyPortConflict | ProxyFieldInvalid

definition runtime_proxy_types :: "string list" where
  "runtime_proxy_types = [''tcp'', ''udp'', ''http'', ''https'']"

record proxy_response =
  rs_name :: string
  rs_addr :: "addr_port option"
  rs_error :: "proxy_reject option"

subsection \<open>Routes\<close>

fun host_routes :: "string \<Rightarrow> string \<Rightarrow> string list \<Rightarrow> proxy_reject + http_route list" where
  "host_routes name host [] = Inr []"
| "host_routes name host (p # ps) =
     (let path = (if trim_string p = [] then ''/'' else trim_string p)
      in if hd path \<noteq> CHR ''/'' then Inl ProxyFieldInvalid
         else (case host_routes name host ps of
             Inl e \<Rightarrow> Inl e
           | Inr rs \<Rightarrow> Inr (\<lparr>hr_proxy = name, hr_host = host, hr_path = path\<rparr> # rs)))"

fun all_host_routes :: "string \<Rightarrow> string list \<Rightarrow> string list \<Rightarrow> proxy_reject + http_route list" where
  "all_host_routes name [] paths = Inr []"
| "all_host_routes name (h # hs) paths =
     (let host = trim_string h
      in if host = [] then Inl ProxyFieldInvalid
         else (case host_routes name host paths of
             Inl e \<Rightarrow> Inl e
           | Inr rs \<Rightarrow> (case all_host_routes name hs paths of Inl e \<Rightarrow> Inl e | Inr rs' \<Rightarrow> Inr (rs @ rs'))))"

definition runtime_http_routes :: "proxy_request \<Rightarrow> proxy_reject + http_route list" where
  "runtime_http_routes rq =
     (if rq_type rq \<noteq> ''http'' then Inr []
      else let hosts = rq_domains rq @ (if rq_subdomain rq = [] then [] else [rq_subdomain rq]);
               paths = (if rq_locations rq = [] then [''/''] else rq_locations rq)
        in if hosts = [] then Inl ProxyFieldInvalid else all_host_routes (rq_name rq) hosts paths)"

text \<open>The routes of the configuration and of the runtime proxies, grouped by port; a port whose table
  cannot be built gets none.\<close>

definition runtime_route_items :: "generation \<Rightarrow> (int \<times> http_route list) list" where
  "runtime_route_items g =
     List.map_filter (\<lambda>(name, r). if rp_type r \<noteq> ''http'' then None
       else map_option (\<lambda>port. (port, rp_routes r)) (http_entry_port (rp_entry r))) (gn_runtime g)"

definition rebuild_http_routes :: "(string \<Rightarrow> string) \<Rightarrow> nat \<Rightarrow> engine \<Rightarrow> engine" where
  "rebuild_http_routes lower i en =
     (let g = en_gens en ! i
      in en\<lparr>en_routes := build_routers lower
        (group_routes (config_route_items (gn_config g) @ runtime_route_items g) [])\<rparr>)"

definition is_http_proxy_name :: "generation \<Rightarrow> string \<Rightarrow> bool" where
  "is_http_proxy_name g name =
     (if \<exists>b \<in> set (scf_http (gn_config g)). pb_name b = name then True
      else case map_of (gn_runtime g) name of None \<Rightarrow> False | Some r \<Rightarrow> rp_type r = ''http'')"

definition has_http_entry_users :: "generation \<Rightarrow> string \<Rightarrow> bool" where
  "has_http_entry_users g entry =
     (case http_entry_port entry of
        None \<Rightarrow> False
      | Some port \<Rightarrow> (\<exists>b \<in> set (scf_http (gn_config g)). pb_port b = port) \<or>
          (\<exists>(name, r) \<in> set (gn_runtime g). rp_type r = ''http'' \<and> rp_entry r = entry))"

text \<open>The conflicts of a request with what is registered: its name, its port (an HTTP proxy shares the
  port of other HTTP proxies), and its routes with those of the port.\<close>

definition port_conflict :: "generation \<Rightarrow> proxy_request \<Rightarrow> bool" where
  "port_conflict g rq \<longleftrightarrow> (\<exists>(name, a) \<in> set (gn_addrs g). ap_port a = of_int (rq_port rq) \<and>
     \<not> (rq_type rq = ''http'' \<and> (prefix http_entry_prefix name \<or> is_http_proxy_name g name)))"

definition routes_of_port :: "generation \<Rightarrow> int \<Rightarrow> http_route list" where
  "routes_of_port g port =
     concat (map binding_http_routes (filter (\<lambda>b. pb_port b = port) (scf_http (gn_config g))))
     @ concat (map snd (filter (\<lambda>i. fst i = port) (runtime_route_items g)))"

definition check_conflicts :: "(string \<Rightarrow> string) \<Rightarrow> generation \<Rightarrow> registry \<Rightarrow> proxy_request \<Rightarrow> http_route list \<Rightarrow> proxy_reject option" where
  "check_conflicts lower g reg rq routes =
     (if map_of reg (rq_name rq) \<noteq> None then Some ProxyNameConflict
      else if port_conflict g rq then Some ProxyPortConflict
      else if rq_type rq = ''http'' then
        (case new_http_router lower (routes_of_port g (rq_port rq) @ routes) of
           Inl _ \<Rightarrow> Some ProxyPortConflict | Inr _ \<Rightarrow> None)
      else None)"

subsection \<open>Registering\<close>

record opened_entry =
  oe_listener :: "nat option"
  oe_udp :: "nat option"
  oe_name :: string
  oe_created :: bool

text \<open>Without a port, an HTTP proxy shares the entry of the first HTTP proxy of the traversal.\<close>

definition shared_http_entry :: "(string list \<Rightarrow> string list) \<Rightarrow> generation \<Rightarrow> proxy_request \<Rightarrow> string \<times> nat option" where
  "shared_http_entry order g rq =
     (if 0 < rq_port rq
      then (http_entry_name (rq_port rq), map_of (gn_lns g) (http_entry_name (rq_port rq)))
      else (case find (\<lambda>n. rp_type (the (map_of (gn_runtime g) n)) = ''http'') (order (map fst (gn_runtime g))) of
          None \<Rightarrow> (rq_name rq, None)
        | Some n \<Rightarrow> (let entry = rp_entry (the (map_of (gn_runtime g) n)) in (entry, map_of (gn_lns g) entry))))"

definition open_runtime_proxy ::
  "bind_fn \<Rightarrow> (string list \<Rightarrow> string list) \<Rightarrow> generation \<Rightarrow> proxy_request \<Rightarrow> entry_net \<Rightarrow> entry_net \<times> opened_entry option" where
  "open_runtime_proxy bind order g rq n =
     (if rq_type rq = ''udp'' then
        (case open_udp_entry bind (gn_config g) (rq_port rq) n of
           (n', None) \<Rightarrow> (n', None)
         | (n', Some e) \<Rightarrow>
             (n', Some \<lparr>oe_listener = None, oe_udp = Some e, oe_name = rq_name rq, oe_created = True\<rparr>))
      else let (entry, existing) = (if rq_type rq = ''http'' then shared_http_entry order g rq else (rq_name rq, None))
        in case existing of
             Some l \<Rightarrow> (n, Some \<lparr>oe_listener = Some l, oe_udp = None, oe_name = entry, oe_created = False\<rparr>)
           | None \<Rightarrow>
               (case listen_guest bind (gn_config g) (rq_port rq) n of
                  (n', None) \<Rightarrow> (n', None)
                | (n', Some l) \<Rightarrow>
                    (n', Some \<lparr>oe_listener = Some l, oe_udp = None,
                       oe_name = (if rq_type rq = ''http'' \<and> rq_port rq = 0
                         then http_entry_name (uint (ap_port (nt_addr n' l))) else entry),
                       oe_created = True\<rparr>)))"

definition release_runtime_resource :: "opened_entry \<Rightarrow> entry_net \<Rightarrow> entry_net" where
  "release_runtime_resource oe n =
     (if \<not> oe_created oe then n
      else case oe_udp oe of Some e \<Rightarrow> net_close e n
      | None \<Rightarrow> (case oe_listener oe of None \<Rightarrow> n | Some l \<Rightarrow> net_close l n))"

text \<open>What is checked before the tables are looked at.\<close>

definition check_fields :: "proxy_request \<Rightarrow> proxy_reject + http_route list" where
  "check_fields rq =
     (if rq_name rq = [] then Inl ProxyFieldInvalid
      else if rq_type rq \<notin> set runtime_proxy_types then Inl ProxyTypeUnsupported
      else if rq_type rq \<noteq> ''http'' \<and> rq_type rq \<noteq> ''https'' \<and> (rq_port rq \<le> 0 \<or> 65535 < rq_port rq)
      then Inl ProxyFieldInvalid
      else runtime_http_routes rq)"

text \<open>The port of a request without one becomes the port of the listener.\<close>

definition actual_port :: "entry_net \<Rightarrow> opened_entry \<Rightarrow> proxy_request \<Rightarrow> proxy_request" where
  "actual_port n oe rq =
     (case oe_listener oe of
        None \<Rightarrow> rq
      | Some l \<Rightarrow> if (rq_type rq = ''http'' \<or> rq_type rq = ''https'') \<and> rq_port rq = 0
          then rq\<lparr>rq_port := uint (ap_port (nt_addr n l))\<rparr> else rq)"

text \<open>The entries of the generation's tables that a registration makes.\<close>

definition register_entry :: "proxy_request \<Rightarrow> string \<Rightarrow> conn \<Rightarrow> http_route list \<Rightarrow> opened_entry \<Rightarrow> entry_net \<Rightarrow> generation \<Rightarrow> generation" where
  "register_entry rq client owner routes oe n g =
     (let g1 = g\<lparr>gn_runtime := gm_set (rq_name rq)
            \<lparr>rp_name = rq_name rq, rp_client = client, rp_owner_conn = owner, rp_type = rq_type rq, rp_entry = oe_name oe,
             rp_listener = oe_listener oe, rp_udp = oe_udp oe, rp_routes = routes\<rparr> (gn_runtime g)\<rparr>;
          addr = (\<lambda>l. nt_addr n l)
      in case oe_listener oe of
           None \<Rightarrow> (case oe_udp oe of None \<Rightarrow> g1
             | Some e \<Rightarrow> g1\<lparr>gn_addrs := gm_set (rq_name rq) (addr e) (gn_addrs g1)\<rparr>)
         | Some l \<Rightarrow>
             if rq_type rq = ''http''
             then (let g2 = (if map_of (gn_lns g1) (oe_name oe) = None
                      then g1\<lparr>gn_lns := gm_set (oe_name oe) l (gn_lns g1), gn_addrs := gm_set (oe_name oe) (addr l) (gn_addrs g1)\<rparr>
                      else g1)
               in g2\<lparr>gn_addrs := gm_set (rq_name rq) (addr l) (gn_addrs g2)\<rparr>)
             else g1\<lparr>gn_lns := gm_set (rq_name rq) l (gn_lns g1), gn_addrs := gm_set (rq_name rq) (addr l) (gn_addrs g1)\<rparr>)"

text \<open>An HTTP entry that another registration opened meanwhile is shared, and the own one discarded.\<close>

definition prefer_existing :: "generation \<Rightarrow> proxy_request \<Rightarrow> opened_entry \<Rightarrow> opened_entry \<times> nat option" where
  "prefer_existing g rq oe =
     (case (rq_type rq = ''http'', map_of (gn_lns g) (oe_name oe)) of
        (True, Some l) \<Rightarrow> if oe_listener oe \<noteq> Some l
          then (oe\<lparr>oe_listener := Some l, oe_created := False\<rparr>, oe_listener oe) else (oe, None)
      | _ \<Rightarrow> (oe, None))"

text \<open>The loop that serves a new entry.\<close>

definition serve_entry :: "nat \<Rightarrow> proxy_request \<Rightarrow> opened_entry \<Rightarrow> engine \<Rightarrow> engine" where
  "serve_entry i rq oe en =
     (if \<not> oe_created oe then en
      else case oe_listener oe of
        Some l \<Rightarrow> en\<lparr>en_loops := en_loops en @
          [(i, if rq_type rq = ''http'' then http_entry_name (rq_port rq) else rq_name rq, l)]\<rparr>
      | None \<Rightarrow> (case oe_udp oe of None \<Rightarrow> en | Some e \<Rightarrow> en\<lparr>en_loops := en_loops en @ [(i, rq_name rq, e)]\<rparr>))"

definition register_proxy ::
  "(string \<Rightarrow> string) \<Rightarrow> nat \<Rightarrow> string \<Rightarrow> conn \<Rightarrow> proxy_request \<Rightarrow> http_route list \<Rightarrow> opened_entry \<Rightarrow> engine
   \<Rightarrow> engine \<times> proxy_reject option" where
  "register_proxy lower i client owner rq routes oe0 en =
     (let g = en_gens en ! i in
      case check_conflicts lower g (en_registry en) rq routes of
        Some e \<Rightarrow> (en\<lparr>en_net := release_runtime_resource oe0 (en_net en)\<rparr>, Some e)
      | None \<Rightarrow>
          (case prefer_existing g rq oe0 of
             (oe, discarded) \<Rightarrow>
               (let en1 = set_gen i (register_entry rq client owner routes oe (en_net en) g) en;
                    en2 = rebuild_http_routes lower i (en1\<lparr>en_registry := gm_set (rq_name rq)
                      \<lparr>rb_name = rq_name rq, rb_owner = client, rb_targets = [], rb_unrestricted = True\<rparr> (en_registry en1)\<rparr>);
                    en3 = (case discarded of None \<Rightarrow> en2 | Some l \<Rightarrow> en2\<lparr>en_net := net_close l (en_net en2)\<rparr>)
                in (serve_entry i rq oe en3, None))))"

text \<open>A request, and the response that is sent. The lock is released between the two checks of the
  conflicts: \<open>between\<close> is what other connections do to the engine while the entry is opened. The address in the response is
  looked up in the active generation; a missing one is a nil interface, whose use panics: the result
  \<open>None\<close>.\<close>

definition handle_new_proxy ::
  "bind_fn \<Rightarrow> (string list \<Rightarrow> string list) \<Rightarrow> (string \<Rightarrow> string) \<Rightarrow> (engine \<Rightarrow> engine) \<Rightarrow> nat \<Rightarrow> string \<Rightarrow> conn
   \<Rightarrow> proxy_request option \<Rightarrow> engine \<Rightarrow> (engine \<times> proxy_response) option" where
  "handle_new_proxy bind order lower between i client owner payload en =
     (let reply = (\<lambda>name e. \<lparr>rs_name = name, rs_addr = None, rs_error = Some e\<rparr>) in
      case payload of
        None \<Rightarrow> Some (en, reply [] ProxyFieldInvalid)
      | Some rq \<Rightarrow>
          (case check_fields rq of
             Inl e \<Rightarrow> Some (en, reply (rq_name rq) e)
           | Inr routes \<Rightarrow>
               (case check_conflicts lower (en_gens en ! i) (en_registry en) rq routes of
                  Some e \<Rightarrow> Some (en, reply (rq_name rq) e)
                | None \<Rightarrow>
                    (case open_runtime_proxy bind order (en_gens en ! i) rq (en_net en) of
                       (n, None) \<Rightarrow> Some (en\<lparr>en_net := n\<rparr>, reply (rq_name rq) ProxyPortConflict)
                     | (n, Some oe) \<Rightarrow>
                         (case register_proxy lower i client owner (actual_port n oe rq) routes oe (between (en\<lparr>en_net := n\<rparr>)) of
                            (en', Some e) \<Rightarrow> Some (en', reply (rq_name rq) e)
                          | (en', None) \<Rightarrow>
                              (case guest_addr (rq_name rq) en' of
                                 None \<Rightarrow> None
                               | Some a \<Rightarrow> Some (en', \<lparr>rs_name = rq_name rq, rs_addr = Some a, rs_error = None\<rparr>)))))))"

subsection \<open>Closing\<close>

text \<open>Taking one proxy out of the tables, and whether its listener is closed.\<close>

definition unregister_entry :: "string \<Rightarrow> runtime_proxy \<Rightarrow> generation \<Rightarrow> generation \<times> bool" where
  "unregister_entry name r g =
     (let g1 = g\<lparr>gn_runtime := gm_delete name (gn_runtime g), gn_addrs := gm_delete name (gn_addrs g)\<rparr>;
          remove_shared = (rp_type r = ''http'' \<and> \<not> has_http_entry_users g1 (rp_entry r));
          g2 = (if rp_type r \<noteq> ''http'' then g1\<lparr>gn_lns := gm_delete name (gn_lns g1)\<rparr> else g1);
          g3 = (if remove_shared then g2\<lparr>gn_lns := gm_delete (rp_entry r) (gn_lns g2),
            gn_addrs := gm_delete (rp_entry r) (gn_addrs g2)\<rparr> else g2)
      in (g3, remove_shared \<or> rp_type r \<noteq> ''http''))"

definition close_entry :: "runtime_proxy \<Rightarrow> bool \<Rightarrow> entry_net \<Rightarrow> entry_net" where
  "close_entry r listener n =
     (case rp_udp r of Some e \<Rightarrow> net_close e n
      | None \<Rightarrow> if listener then (case rp_listener r of None \<Rightarrow> n | Some l \<Rightarrow> net_close l n) else n)"

definition handle_close_proxy ::
  "(string \<Rightarrow> string) \<Rightarrow> nat \<Rightarrow> string \<Rightarrow> string option \<Rightarrow> engine \<Rightarrow> engine" where
  "handle_close_proxy lower i client payload en =
     (case payload of
        None \<Rightarrow> en
      | Some name \<Rightarrow>
          if name = [] then en
          else (case map_of (gn_runtime (en_gens en ! i)) name of
              None \<Rightarrow> en
            | Some r \<Rightarrow>
                if rp_client r \<noteq> client then en
                else (case unregister_entry name r (en_gens en ! i) of
                    (g, listener) \<Rightarrow>
                      (let en1 = set_gen i g en;
                           en2 = rebuild_http_routes lower i (en1\<lparr>en_registry := gm_delete name (en_registry en1)\<rparr>)
                       in en2\<lparr>en_net := close_entry r listener (en_net en2)\<rparr>))))"

subsection \<open>The end of a session\<close>

text \<open>One proxy of the session: UDP entries are only closed, the others leave the listener table.\<close>

definition cleanup_entry :: "string \<times> runtime_proxy \<Rightarrow> generation \<times> entry_net \<Rightarrow> generation \<times> entry_net" where
  "cleanup_entry = (\<lambda>(name, r) (g, n).
     (let g1 = g\<lparr>gn_runtime := gm_delete name (gn_runtime g), gn_addrs := gm_delete name (gn_addrs g)\<rparr>
      in case rp_udp r of
           Some e \<Rightarrow> (g1, net_close e n)
         | None \<Rightarrow>
             if rp_type r = ''http''
             then (if has_http_entry_users g1 (rp_entry r) then (g1, n)
               else (g1\<lparr>gn_lns := gm_delete (rp_entry r) (gn_lns g1), gn_addrs := gm_delete (rp_entry r) (gn_addrs g1)\<rparr>,
                 case rp_listener r of None \<Rightarrow> n | Some l \<Rightarrow> net_close l n))
             else (g1\<lparr>gn_lns := gm_delete name (gn_lns g1)\<rparr>,
               case rp_listener r of None \<Rightarrow> n | Some l \<Rightarrow> net_close l n)))"

text \<open>The registry is filtered by the runtime proxies that are left.\<close>

definition cleanup_runtime_proxies :: "(string \<Rightarrow> string) \<Rightarrow> nat \<Rightarrow> conn \<Rightarrow> engine \<Rightarrow> engine" where
  "cleanup_runtime_proxies lower i c en =
     (let g = en_gens en ! i; own = filter (\<lambda>(name, r). rp_owner_conn r = c) (gn_runtime g)
      in if own = [] then en
         else (case fold cleanup_entry own (g, en_net en) of
             (g1, n) \<Rightarrow>
               rebuild_http_routes lower i ((set_gen i g1 en)\<lparr>en_net := n,
                 en_registry := filter (\<lambda>(name, b). map_of (gn_runtime g1) name = None) (en_registry en)\<rparr>)))"

end
