(* ===== verification/Runtime_Laws.thy ===== *)
theory Runtime_Laws
  imports Runtime_Proxy Apply_Laws
begin

section \<open>What registering and removing runtime proxies does\<close>

subsection \<open>Opening the entry\<close>

definition entry_of :: "generation \<Rightarrow> entry_net \<Rightarrow> entry_net \<Rightarrow> opened_entry \<Rightarrow> bool" where
  "entry_of g n n' oe \<longleftrightarrow>
     (if oe_created oe
      then nt_open n' = insert (nt_next n) (nt_open n) \<and>
        (oe_listener oe = Some (nt_next n) \<and> oe_udp oe = None \<or> oe_udp oe = Some (nt_next n) \<and> oe_listener oe = None)
      else n' = n \<and> oe_udp oe = None \<and> (\<exists>l. oe_listener oe = Some l \<and> map_of (gn_lns g) (oe_name oe) = Some l))"

lemma open_runtime_cases:
  assumes "open_runtime_proxy bind order g rq n = (n', r)"
  shows "case r of None \<Rightarrow> nt_open n' = nt_open n | Some oe \<Rightarrow> entry_of g n n' oe"
proof -
  let ?a = "entry_bind_addr (gn_config g) (rq_port rq)"
  obtain m ro where li: "net_listen bind ?a n = (m, ro)" by fastforce
  note fresh = net_listen_cases [OF li]
  show ?thesis
  proof (cases "rq_type rq = ''udp''")
    case True
    with assms li fresh show ?thesis
      by (cases ro) (auto simp: open_runtime_proxy_def open_udp_entry_def entry_of_def)
  next
    case False
    obtain entry existing where ee: "(if rq_type rq = ''http'' then shared_http_entry order g rq else (rq_name rq, None)) = (entry, existing)"
      by fastforce
    show ?thesis
    proof (cases existing)
      case None
      with assms li fresh False ee show ?thesis
        by (cases ro) (auto simp: open_runtime_proxy_def listen_guest_def entry_of_def)
    next
      case (Some l)
      have "map_of (gn_lns g) entry = Some l"
        using ee Some by (auto simp: shared_http_entry_def Let_def split: if_splits option.splits)
      with assms False ee Some show ?thesis by (auto simp: open_runtime_proxy_def entry_of_def)
    qed
  qed
qed

lemma release_entry_of:
  assumes "entry_of g n n' oe" and "net_ok n"
  shows "nt_open (release_runtime_resource oe n') = nt_open n"
proof -
  have "nt_next n \<notin> nt_open n" using assms(2) by (auto simp: net_ok_def)
  with assms(1) show ?thesis by (auto simp: entry_of_def release_runtime_resource_def net_close_def)
qed

subsection \<open>Registration\<close>

lemma rebuild_simps [simp]:
  "en_registry (rebuild_http_routes lower i en) = en_registry en" "en_net (rebuild_http_routes lower i en) = en_net en"
  "en_gens (rebuild_http_routes lower i en) = en_gens en" "en_active (rebuild_http_routes lower i en) = en_active en"
  "en_loops (rebuild_http_routes lower i en) = en_loops en"
  by (simp_all add: rebuild_http_routes_def Let_def)

lemma serve_entry_simps [simp]:
  "en_registry (serve_entry i rq oe en) = en_registry en" "en_net (serve_entry i rq oe en) = en_net en"
  "en_gens (serve_entry i rq oe en) = en_gens en" "en_active (serve_entry i rq oe en) = en_active en"
  by (simp_all add: serve_entry_def split: option.splits)

lemma set_gen_simps [simp]:
  "en_registry (set_gen i g en) = en_registry en" "en_net (set_gen i g en) = en_net en"
  "en_active (set_gen i g en) = en_active en" "en_loops (set_gen i g en) = en_loops en"
  "en_gens (set_gen i g en) = (en_gens en)[i := g]"
  by (simp_all add: set_gen_def)

text \<open>The address that is registered is the one of the entry's socket.\<close>

lemma register_entry_tables:
  assumes "oe_listener oe = Some l \<or> (oe_listener oe = None \<and> oe_udp oe = Some l)"
  shows "map_of (gn_addrs (register_entry rq client owner routes oe n g)) (rq_name rq) = Some (nt_addr n l)"
    and "map_of (gn_runtime (register_entry rq client owner routes oe n g)) (rq_name rq) =
      Some \<lparr>rp_name = rq_name rq, rp_client = client, rp_owner_conn = owner, rp_type = rq_type rq, rp_entry = oe_name oe,
        rp_listener = oe_listener oe, rp_udp = oe_udp oe, rp_routes = routes\<rparr>"
  using assms by (auto simp: register_entry_def Let_def update_conv')

lemma prefer_existing_cases:
  assumes "prefer_existing g rq oe0 = (oe, discarded)"
  shows "(oe = oe0 \<and> discarded = None) \<or>
    (\<exists>l. rq_type rq = ''http'' \<and> map_of (gn_lns g) (oe_name oe0) = Some l \<and> oe_listener oe0 \<noteq> Some l \<and>
       oe = oe0\<lparr>oe_listener := Some l, oe_created := False\<rparr> \<and> discarded = oe_listener oe0)"
  using assms by (auto simp: prefer_existing_def split: bool.splits option.splits if_splits)

definition registered :: "string \<Rightarrow> conn \<Rightarrow> proxy_request \<Rightarrow> nat \<Rightarrow> addr_port \<Rightarrow> engine \<Rightarrow> bool" where
  "registered client owner rq i a en \<longleftrightarrow>
     map_of (en_registry en) (rq_name rq) =
       Some \<lparr>rb_name = rq_name rq, rb_owner = client, rb_targets = [], rb_unrestricted = True\<rparr> \<and>
     (\<exists>r l. map_of (gn_runtime (en_gens en ! i)) (rq_name rq) = Some r \<and> rp_client r = client \<and> rp_owner_conn r = owner \<and>
        (rp_listener r = Some l \<or> rp_listener r = None \<and> rp_udp r = Some l) \<and>
        map_of (gn_addrs (en_gens en ! i)) (rq_name rq) = Some a \<and> a = nt_addr (en_net en) l \<and> l \<in> nt_open (en_net en))"

lemma register_proxy_cases:
  assumes "register_proxy lower i client owner rq routes oe0 (en\<lparr>en_net := n\<rparr>) = (en', r)"
    and "entry_of (en_gens en ! i) (en_net en) n oe0" and "engine_ok en" and "en_active en = Some i"
    and "oe_udp oe0 \<noteq> None \<Longrightarrow> rq_type rq \<noteq> ''http''"
  shows "case r of
      Some e \<Rightarrow> nt_open (en_net en') = nt_open (en_net en) \<and> en' = en\<lparr>en_net := en_net en'\<rparr>
    | None \<Rightarrow> map_of (en_registry en) (rq_name rq) = None \<and> (\<exists>a. registered client owner rq i a en') \<and> en_active en' = Some i"
proof -
  let ?g = "en_gens en ! i"
  have i: "i < length (en_gens en)" "gen_open (en_net en) ?g" "net_ok (en_net en)"
    using assms(3,4) by (auto simp: engine_ok_def)
  show ?thesis
  proof (cases "check_conflicts lower ?g (en_registry en) rq routes")
    case (Some e)
    with assms(1) have "en' = en\<lparr>en_net := release_runtime_resource oe0 n\<rparr>" "r = Some e"
      by (simp_all add: register_proxy_def)
    with release_entry_of [OF assms(2) i(3)] show ?thesis by simp
  next
    case None
    then have free: "map_of (en_registry en) (rq_name rq) = None" by (auto simp: check_conflicts_def split: if_splits)
    obtain oe discarded where pe: "prefer_existing ?g rq oe0 = (oe, discarded)" by fastforce
    obtain l where l: "oe_listener oe = Some l \<or> oe_listener oe = None \<and> oe_udp oe = Some l"
      "l \<in> nt_open n" "discarded \<noteq> Some l"
      and fresh: "\<And>k. discarded = Some k \<Longrightarrow> k = nt_next (en_net en) \<and> k \<noteq> l"
    proof (cases "oe = oe0 \<and> discarded = None")
      case True
      then show thesis using that assms(2) i(2)
        by (auto simp: entry_of_def gen_open_def gen_entries_def split: if_splits dest!: map_of_SomeD)
    next
      case False
      with prefer_existing_cases [OF pe] obtain k where
        e: "rq_type rq = ''http''" "map_of (gn_lns ?g) (oe_name oe0) = Some k" "oe_listener oe0 \<noteq> Some k"
        "oe = oe0\<lparr>oe_listener := Some k, oe_created := False\<rparr>" "discarded = oe_listener oe0" by blast
      have udp: "oe_udp oe0 = None" using assms(5) e(1) by blast
      have created: "oe_created oe0" using assms(2) e(2,3) by (auto simp: entry_of_def split: if_splits)
      then have "nt_open n = insert (nt_next (en_net en)) (nt_open (en_net en))" "oe_listener oe0 = Some (nt_next (en_net en))"
        using assms(2) udp by (auto simp: entry_of_def)
      moreover have ln: "k \<in> nt_open (en_net en)" using i(2) e(2) by (auto simp: gen_open_def gen_entries_def dest!: map_of_SomeD)
      moreover have "k \<noteq> nt_next (en_net en)" using ln i(3) by (auto simp: net_ok_def)
      ultimately show thesis using e(4,5) by (intro that [of k]) auto
    qed
    let ?g' = "register_entry rq client owner routes oe n ?g"
    have en': "r = None" "en_registry en' = gm_set (rq_name rq)
        \<lparr>rb_name = rq_name rq, rb_owner = client, rb_targets = [], rb_unrestricted = True\<rparr> (en_registry en)"
      "en_gens en' = (en_gens en)[i := ?g']" "en_active en' = en_active en"
      "en_net en' = (case discarded of None \<Rightarrow> n | Some k \<Rightarrow> net_close k n)"
      using assms(1) None pe by (auto simp: register_proxy_def Let_def split: option.splits)
    have net: "l \<in> nt_open (en_net en')" "nt_addr (en_net en') = nt_addr n"
      using en'(5) l(2) fresh by (auto simp: net_close_def split: option.splits)
    note tables = register_entry_tables [OF l(1), of rq client owner routes n ?g]
    have "registered client owner rq i (nt_addr n l) en'"
      using en'(2,3) i(1) tables net l(1) by (auto simp: registered_def update_conv')
    with en' free assms(4) show ?thesis by auto
  qed
qed

lemma actual_port_simps [simp]: "rq_name (actual_port n oe rq) = rq_name rq" "rq_type (actual_port n oe rq) = rq_type rq"
  by (simp_all add: actual_port_def split: option.splits)

lemma registered_actual [simp]: "registered client owner (actual_port n oe rq) i a en = registered client owner rq i a en"
  by (simp add: registered_def)

lemma new_proxy_cases:
  assumes "engine_ok en" and "en_active en = Some i"
    and "handle_new_proxy bind order lower (\<lambda>e. e) i client owner payload en = res"
  shows "\<exists>en' resp. res = Some (en', resp) \<and>
    (case rs_error resp of
       Some e \<Rightarrow> nt_open (en_net en') = nt_open (en_net en) \<and> en' = en\<lparr>en_net := en_net en'\<rparr>
     | None \<Rightarrow> \<exists>rq a. payload = Some rq \<and> rs_name resp = rq_name rq \<and> rs_addr resp = Some a \<and>
         map_of (en_registry en) (rq_name rq) = None \<and> registered client owner rq i a en')"
proof (cases payload)
  case None
  with assms(3) show ?thesis by (auto simp: handle_new_proxy_def Let_def)
next
  case rq: (Some rq)
  show ?thesis
  proof (cases "check_fields rq")
    case (Inl e)
    with assms(3) rq show ?thesis by (auto simp: handle_new_proxy_def Let_def)
  next
    case routes: (Inr routes)
    show ?thesis
    proof (cases "check_conflicts lower (en_gens en ! i) (en_registry en) rq routes")
      case (Some e)
      with assms(3) rq routes show ?thesis by (auto simp: handle_new_proxy_def Let_def)
    next
      case free: None
      obtain n ro where o': "open_runtime_proxy bind order (en_gens en ! i) rq (en_net en) = (n, ro)" by fastforce
      note opened = open_runtime_cases [OF o']
      show ?thesis
      proof (cases ro)
        case None
        with assms(3) rq routes free o' opened show ?thesis by (auto simp: handle_new_proxy_def Let_def)
      next
        case oe: (Some oe)
        let ?rq = "actual_port n oe rq"
        have udp: "rq_type ?rq \<noteq> ''http''" if "oe_udp oe \<noteq> None"
          using o' oe that by (auto simp: open_runtime_proxy_def split: if_splits prod.splits option.splits)
        obtain en' r where reg: "register_proxy lower i client owner ?rq routes oe (en\<lparr>en_net := n\<rparr>) = (en', r)" by fastforce
        from opened oe have "entry_of (en_gens en ! i) (en_net en) n oe" by simp
        note cases' = register_proxy_cases [OF reg this assms(1,2) udp]
        show ?thesis
        proof (cases r)
          case (Some e)
          with assms(3) rq routes free o' oe reg cases' show ?thesis by (auto simp: handle_new_proxy_def Let_def)
        next
          case None
          with cases' obtain a where a: "registered client owner rq i a en'" "en_active en' = Some i"
            "map_of (en_registry en) (rq_name rq) = None" by auto
          then have "guest_addr (rq_name rq) en' = Some a"
            by (auto simp: guest_addr_def active_generation_def registered_def)
          with assms(3) rq routes free o' oe reg None a show ?thesis by (auto simp: handle_new_proxy_def Let_def)
        qed
      qed
    qed
  qed
qed

subsection \<open>The end of a session\<close>

definition own_proxies :: "conn \<Rightarrow> generation \<Rightarrow> (string \<times> runtime_proxy) list" where
  "own_proxies c g = filter (\<lambda>(name, r). rp_owner_conn r = c) (gn_runtime g)"

lemma cleanup_fold_runtime:
  "gn_runtime (fst (fold cleanup_entry own (g, n))) = fold (\<lambda>(name, r). gm_delete name) own (gn_runtime g)"
  by (induction own arbitrary: g n)
    (auto simp: cleanup_entry_def Let_def split: prod.splits option.splits)

lemma map_of_fold_delete:
  "map_of (fold (\<lambda>(name, r). gm_delete name) own m) k = (if k \<in> fst ` set own then None else map_of m k)"
  by (induction own arbitrary: m) (auto simp: delete_conv' split: prod.splits)

lemma map_of_filter_key: "map_of (filter (\<lambda>(k, v). P k) m) k = (if P k then map_of m k else None)"
  by (induction m) auto

text \<open>The registry afterwards: a name keeps its binding exactly when no runtime proxy of that name is
  left.\<close>

lemma cleanup_registry:
  assumes "own_proxies c (en_gens en ! i) \<noteq> []" and "i < length (en_gens en)"
  shows "map_of (en_registry (cleanup_runtime_proxies lower i c en)) name =
      (if name \<in> fst ` set (own_proxies c (en_gens en ! i)) \<or> map_of (gn_runtime (en_gens en ! i)) name = None
       then map_of (en_registry en) name else None)"
    and "map_of (gn_runtime (en_gens (cleanup_runtime_proxies lower i c en) ! i)) name =
      (if name \<in> fst ` set (own_proxies c (en_gens en ! i)) then None else map_of (gn_runtime (en_gens en ! i)) name)"
proof -
  let ?g = "en_gens en ! i" and ?own = "own_proxies c (en_gens en ! i)"
  obtain g1 n where f: "fold cleanup_entry ?own (?g, en_net en) = (g1, n)" by fastforce
  have r: "map_of (gn_runtime g1) k = (if k \<in> fst ` set ?own then None else map_of (gn_runtime ?g) k)" for k
    using cleanup_fold_runtime [of ?own ?g "en_net en"] f by (simp add: map_of_fold_delete)
  have en': "cleanup_runtime_proxies lower i c en = rebuild_http_routes lower i ((set_gen i g1 en)\<lparr>en_net := n,
      en_registry := filter (\<lambda>(name, b). map_of (gn_runtime g1) name = None) (en_registry en)\<rparr>)"
    using assms(1) f by (simp add: cleanup_runtime_proxies_def Let_def own_proxies_def)
  show "map_of (en_registry (cleanup_runtime_proxies lower i c en)) name =
      (if name \<in> fst ` set ?own \<or> map_of (gn_runtime ?g) name = None then map_of (en_registry en) name else None)"
    unfolding en' by (auto simp: map_of_filter_key r)
  show "map_of (gn_runtime (en_gens (cleanup_runtime_proxies lower i c en) ! i)) name =
      (if name \<in> fst ` set ?own then None else map_of (gn_runtime ?g) name)"
    unfolding en' using assms(2) by (simp add: r)
qed

subsection \<open>Closing a proxy\<close>

lemma close_proxy_other:
  assumes "\<forall>r. map_of (gn_runtime (en_gens en ! i)) name = Some r \<longrightarrow> rp_client r \<noteq> client"
  shows "handle_close_proxy lower i client (Some name) en = en"
  using assms by (auto simp: handle_close_proxy_def split: option.splits)

lemma unregister_runtime:
  "gn_runtime (fst (unregister_entry name r g)) = gm_delete name (gn_runtime g)"
  by (simp add: unregister_entry_def Let_def)

lemma close_proxy_own:
  assumes "map_of (gn_runtime (en_gens en ! i)) name = Some r" and "rp_client r = client" and "name \<noteq> []"
    and "i < length (en_gens en)"
  shows "map_of (en_registry (handle_close_proxy lower i client (Some name) en)) other =
      (if other = name then None else map_of (en_registry en) other)"
    and "map_of (gn_runtime (en_gens (handle_close_proxy lower i client (Some name) en) ! i)) other =
      (if other = name then None else map_of (gn_runtime (en_gens en ! i)) other)"
    and "rp_type r \<noteq> ''http'' \<Longrightarrow> nt_open (en_net (handle_close_proxy lower i client (Some name) en)) =
      nt_open (en_net en) - (case rp_udp r of Some e \<Rightarrow> {e} | None \<Rightarrow> set_option (rp_listener r))"
proof -
  obtain g l where u: "unregister_entry name r (en_gens en ! i) = (g, l)" by fastforce
  have g: "gn_runtime g = gm_delete name (gn_runtime (en_gens en ! i))"
    using unregister_runtime [of name r "en_gens en ! i"] u by simp
  have l: "rp_type r \<noteq> ''http'' \<Longrightarrow> l" using u by (auto simp: unregister_entry_def Let_def)
  note defs = handle_close_proxy_def u Let_def assms
  show "map_of (en_registry (handle_close_proxy lower i client (Some name) en)) other =
      (if other = name then None else map_of (en_registry en) other)"
    by (simp add: defs delete_conv')
  show "map_of (gn_runtime (en_gens (handle_close_proxy lower i client (Some name) en) ! i)) other =
      (if other = name then None else map_of (gn_runtime (en_gens en ! i)) other)"
    using assms(4) by (simp add: defs g delete_conv')
  show "rp_type r \<noteq> ''http'' \<Longrightarrow> nt_open (en_net (handle_close_proxy lower i client (Some name) en)) =
      nt_open (en_net en) - (case rp_udp r of Some e \<Rightarrow> {e} | None \<Rightarrow> set_option (rp_listener r))"
    using l by (auto simp: defs close_entry_def net_close_def split: option.splits)
qed

end
