(* ===== verification/Engine_Properties.thy ===== *)
theory Engine_Properties
  imports Server_Lifecycle Runtime_Laws Core_Properties
begin

section \<open>Properties of the engine: applications, runtime proxies, lifecycle\<close>

text \<open>Sample values for the instances: an engine that runs generation 1 of the sample configuration,
  and an environment in which every address can be bound.\<close>

definition sample_addr :: "nat \<Rightarrow> addr_port" where
  "sample_addr l = \<lparr>ap_addr = IP_V4 0, ap_port = (if l = 1 then 2222 else if l = 2 then 80 else 7000)\<rparr>"

definition sample_net :: entry_net where
  "sample_net = \<lparr>nt_open = {0, 1, 2}, nt_next = 3, nt_addr = sample_addr\<rparr>"

definition sample_generation :: generation where
  "sample_generation = (new_generation 1 sample_server)\<lparr>gn_lns := [(''ssh'', 1), (''http:80'', 2)],
     gn_addrs := [(''ssh'', sample_addr 1), (''http:80'', sample_addr 2), (''web'', sample_addr 2), (''api'', sample_addr 2)]\<rparr>"

definition sample_engine :: engine where
  "sample_engine = (new_engine sample_server (Some 0) sample_net)\<lparr>en_state := StateRunning, en_gens := [sample_generation],
     en_active := Some 0, en_last_good := 1, en_registry := publish_registry sample_server,
     en_broker := Some (new_work_broker 1), en_loops := [(0, ''ssh'', 1), (0, ''http:80'', 2)]\<rparr>"

definition apply_env_with :: "bool \<Rightarrow> apply_env" where
  "apply_env_with hook = \<lparr>ev_bind = (\<lambda>n a. Some a), ev_probe = (\<lambda>l. ProbeTimeout), ev_options = (\<lambda>ep. True),
     ev_order = (\<lambda>xs. xs), ev_lower = (\<lambda>s. s), ae_cancel1 = False, ae_hook = (\<lambda>g. hook), ae_cancel2 = False,
     ae_drain = DrainFinished, ae_conns = (\<lambda>cs. [])\<rparr>"

definition sample_deployment :: deployment where
  "sample_deployment = \<lparr>dp_revision = 2, dp_config = sample_server, dp_bindings = 0\<rparr>"

lemma sample_engine_ok: "engine_ok sample_engine"
  by (simp add: engine_ok_def sample_engine_def sample_net_def net_ok_def gen_open_def gen_distinct_def
      sample_generation_def new_generation_def new_engine_def gen_entries_def gm_ok_def inj_on_def)

subsection \<open>Applications\<close>

text \<open>C9: a failed application leaves the sockets, the generations, the active one, the last good
  revision, the accept loops and the sessions as they were, and another application can follow.\<close>

theorem failed_apply_keeps_running:
  assumes "\<And>xs. set (ev_order E xs) = set xs" and "engine_ok en" and "engine_apply E d en = Some (en', Inl e)"
  shows "nt_open (en_net en') = nt_open (en_net en) \<and> same_running en en' \<and> en_applying en' = en_applying en"
  using engine_apply_fails [OF assms] .

lemma sample_apply_fails:
  "(case engine_apply (apply_env_with True) sample_deployment sample_engine of
     Some (en', Inl e) \<Rightarrow> e = ApplyError HealthCheckStage HookFailed | _ \<Rightarrow> False)"
  by code_simp

theorem failed_apply_keeps_running_witness:
  "\<exists>en'. engine_apply (apply_env_with True) sample_deployment sample_engine = Some (en', Inl (ApplyError HealthCheckStage HookFailed)) \<and>
     nt_open (en_net en') = {0, 1, 2}"
proof -
  have order: "\<And>xs. set (ev_order (apply_env_with True) xs) = set xs" by (simp add: apply_env_with_def)
  obtain en' where r: "engine_apply (apply_env_with True) sample_deployment sample_engine =
      Some (en', Inl (ApplyError HealthCheckStage HookFailed))"
    using sample_apply_fails by (simp split: option.splits prod.splits sum.splits)
  have "nt_open (en_net sample_engine) = {0, 1, 2}" by (simp add: sample_engine_def new_engine_def sample_net_def)
  with failed_apply_keeps_running [OF order sample_engine_ok r] r show ?thesis by simp
qed

text \<open>C1: a successful application of a newer revision ends with the new generation active: every
  entry of the new configuration has an open socket and a running loop, every socket of the old
  generation that was not taken over is closed, no loop of the old one is left, and the sockets of
  the engine are again in order. The revision that is already active is accepted without any change.\<close>

theorem applied_generation_serves:
  assumes "\<And>xs. set (ev_order E xs) = set xs" and "engine_ok en"
    and "apply_machine E d previous en = Some (en', Inr r)"
  shows "published r \<and> ar_revision r = dp_revision d \<and> engine_ok en' \<and> active_revision en' = dp_revision d \<and>
    (if active_generation en \<noteq> None \<and> active_revision en = dp_revision d then en' = en
     else \<exists>g. active_generation en' = Some g \<and> gn_config g = dp_config d \<and> en_last_good en' = dp_revision d \<and>
       en_registry en' = publish_registry (dp_config d) \<and> hand_over_done en g en' \<and>
       fst ` gen_entries g = fst ` set (stream_entries (dp_config d)) \<union> fst ` set (udp_entries (dp_config d)))"
  using apply_machine_succeeds [OF assms] .

lemma sample_apply_succeeds:
  "(case apply_machine (apply_env_with False) sample_deployment 1 sample_engine of
     Some (en', Inr r) \<Rightarrow> True | _ \<Rightarrow> False)"
  by code_simp

theorem applied_generation_serves_witness:
  "\<exists>en' r. apply_machine (apply_env_with False) sample_deployment 1 sample_engine = Some (en', Inr r) \<and>
     active_revision en' = 2 \<and> engine_ok en'"
proof -
  have order: "\<And>xs. set (ev_order (apply_env_with False) xs) = set xs" by (simp add: apply_env_with_def)
  obtain en' r where r: "apply_machine (apply_env_with False) sample_deployment 1 sample_engine = Some (en', Inr r)"
    using sample_apply_succeeds by (simp split: option.splits prod.splits sum.splits)
  from applied_generation_serves [OF order sample_engine_ok r] r show ?thesis
    by (auto simp: sample_deployment_def)
qed

lemma broker_after_prepare:
  "prepare_generation E d en = (en', r) \<Longrightarrow> en_broker en' = Some (new_work_broker (scf_idle_limit (dp_config d)))"
  by (auto simp: prepare_generation_def swap_broker_def publish_tables_def Let_def split: prod.splits sum.splits)

lemma broker_after_health: "health_check E g en = (en', r) \<Longrightarrow> en_broker en' = en_broker en"
  by (auto simp: health_check_def discard_def Let_def split: if_splits prod.splits option.splits)

text \<open>From the preparation on, an application has replaced the broker, whatever its outcome: the
  guests that were waiting are in no queue any more. An application that then fails its health check
  has also published the registry of the configuration it rejects.\<close>

theorem application_drops_waiting_guests:
  assumes "\<And>xs. set (ev_order E xs) = set xs" and "engine_ok en" and "apply_validate E d en = Inr True"
    and "apply_machine E d previous en = Some (en', Inl (ApplyError stage cause))" and "stage = HealthCheckStage"
  shows "(\<exists>b. en_broker en' = Some b \<and> (\<forall>name. guest_queue b name = [])) \<and>
    en_registry en' = publish_registry (dp_config d) \<and> active_generation en' = active_generation en"
proof -
  note go = apply_validate_go [OF assms(1,3)]
  obtain en1 r1 where p: "prepare_generation E d en = (en1, r1)" by fastforce
  note prep = prepare_cases [OF go(1) engine_okD(1) [OF assms(2)] p]
  obtain g where g: "r1 = Inr g"
    using assms(3-5) p by (cases r1) (auto simp: apply_machine_def prepare_generation_def Let_def split: prod.splits sum.splits)
  with prep obtain st where st: "prepared d en en1 g st" by auto
  obtain en2 r2 where h: "health_check E g en1 = (en2, r2)" by fastforce
  note hc = health_check_cases [OF h]
  have run: "same_running en en2" using st hc same_running_trans by (auto simp: prepared_def)
  then have stopped: "en_state en2 \<noteq> StateStopped" using go(2) by (simp add: same_running_def)
  obtain e where r2: "r2 = Inl e"
  proof (cases r2)
    case (Inr g')
    from stopped obtain en3 old where "publish_generation g en2 = (en3, Inr old)" by (simp add: publish_generation_def)
    with assms(3,4) p g h Inr have False by (auto simp: apply_machine_def split: option.splits prod.splits)
    then show thesis ..
  qed
  then have "en' = en2" using assms(3,4) p g h by (simp add: apply_machine_def)
  with broker_after_health [OF h] broker_after_prepare [OF p] hc st run show ?thesis
    by (auto simp: new_work_broker_def prepared_def active_generation_def same_running_def)
qed

lemma sample_health_fails:
  "(case apply_machine (apply_env_with True) sample_deployment 1 sample_engine of
     Some (en', Inl e) \<Rightarrow> e = ApplyError HealthCheckStage HookFailed | _ \<Rightarrow> False)"
  "apply_validate (apply_env_with True) sample_deployment sample_engine = Inr True"
  by code_simp+

theorem application_drops_waiting_guests_witness:
  "\<exists>en' b. apply_machine (apply_env_with True) sample_deployment 1 sample_engine =
      Some (en', Inl (ApplyError HealthCheckStage HookFailed)) \<and>
     en_broker en' = Some b \<and> guest_queue b ''ssh'' = []"
proof -
  have order: "\<And>xs. set (ev_order (apply_env_with True) xs) = set xs" by (simp add: apply_env_with_def)
  obtain en' where r: "apply_machine (apply_env_with True) sample_deployment 1 sample_engine =
      Some (en', Inl (ApplyError HealthCheckStage HookFailed))"
    using sample_health_fails(1) by (simp split: option.splits prod.splits sum.splits)
  from application_drops_waiting_guests [OF order sample_engine_ok sample_health_fails(2) r refl] r show ?thesis by blast
qed

end
