(* ===== verification/Runtime_Properties.thy ===== *)
theory Runtime_Properties
  imports Engine_Properties
begin

section \<open>Properties of runtime proxies and of the interleaved lifecycle\<close>

subsection \<open>Registering\<close>



definition tcp_request :: "string \<Rightarrow> int \<Rightarrow> proxy_request" where
  "tcp_request name port = \<lparr>rq_name = name, rq_type = ''tcp'', rq_port = port, rq_domains = [], rq_subdomain = [],
     rq_locations = []\<rparr>"

lemma tcp_fields: "name \<noteq> [] \<Longrightarrow> 0 < port \<Longrightarrow> port \<le> 65535 \<Longrightarrow> check_fields (tcp_request name port) = Inr []"
  by (simp add: check_fields_def tcp_request_def runtime_proxy_types_def runtime_http_routes_def)

text \<open>A session of a generation that is no longer active crashes the server when it registers a
  proxy: the registration is carried out, and the address for the response is then looked up in the
  active generation, where the name is missing.\<close>

theorem old_session_registration_panics:
  assumes "en_active en = Some k" and "i \<noteq> k" and "i < length (en_gens en)" and "k < length (en_gens en)"
    and "map_of (gn_addrs (en_gens en ! k)) name = None"
    and "name \<noteq> []" and "0 < port" and "port \<le> 65535"
    and "check_conflicts lower (en_gens en ! i) (en_registry en) (tcp_request name port) [] = None"
    and "bind (nt_next (en_net en)) (entry_bind_addr (gn_config (en_gens en ! i)) port) = Some a"
  shows "handle_new_proxy bind order lower (\<lambda>e. e) i client owner (Some (tcp_request name port)) en = None"
proof -
  let ?rq = "tcp_request name port"
  obtain n where n: "net_listen bind (entry_bind_addr (gn_config (en_gens en ! i)) port) (en_net en) = (n, Some (nt_next (en_net en)))"
    using assms(10) by (simp add: net_listen_def)
  let ?oe = "\<lparr>oe_listener = Some (nt_next (en_net en)), oe_udp = None, oe_name = name, oe_created = True\<rparr>"
  have o': "open_runtime_proxy bind order (en_gens en ! i) ?rq (en_net en) = (n, Some ?oe)"
    using n by (simp add: open_runtime_proxy_def tcp_request_def listen_guest_def)
  have port: "actual_port n ?oe ?rq = ?rq" by (simp add: actual_port_def tcp_request_def)
  obtain en' r where reg: "register_proxy lower i client owner ?rq [] ?oe (en\<lparr>en_net := n\<rparr>) = (en', r)" by fastforce
  have pe: "prefer_existing (en_gens en ! i) ?rq ?oe = (?oe, None)" by (simp add: prefer_existing_def tcp_request_def)
  have r: "r = None" "en_active en' = Some k" "en_gens en' ! k = en_gens en ! k"
    using reg assms(1,2,9) pe by (auto simp: register_proxy_def Let_def)
  have "guest_addr name en' = None" using r assms(5) by (simp add: guest_addr_def active_generation_def)
  then show ?thesis
    using tcp_fields [OF assms(6-8)] assms(9) o' port reg r(1)
    by (simp add: handle_new_proxy_def tcp_request_def Let_def)
qed

definition switched_engine :: engine where
  "switched_engine = sample_engine\<lparr>en_gens := [sample_generation, sample_generation\<lparr>gn_revision := 2\<rparr>], en_active := Some 1\<rparr>"

theorem old_session_registration_panics_witness:
  "handle_new_proxy (\<lambda>n a. Some a) (\<lambda>xs. xs) (\<lambda>s. s) (\<lambda>e. e) 0 ''c'' 5 (Some (tcp_request ''db'' 9000)) switched_engine = None"
proof (rule old_session_registration_panics [where k = 1])
  show "en_active switched_engine = Some 1" "0 < length (en_gens switched_engine)" "1 < length (en_gens switched_engine)"
    by (simp_all add: switched_engine_def)
  show "map_of (gn_addrs (en_gens switched_engine ! 1)) ''db'' = None"
    by (simp add: switched_engine_def sample_generation_def)
  show "check_conflicts (\<lambda>s. s) (en_gens switched_engine ! 0) (en_registry switched_engine) (tcp_request ''db'' 9000) [] = None"
    by code_simp
qed simp_all

subsection \<open>The end of a session\<close>

text \<open>When a session ends, the registry is filtered the wrong way round: the names of the session's
  own proxies keep their bindings, so that registering them again is refused as a name conflict,
  and the proxies of all other sessions lose theirs.\<close>

theorem cleanup_registry_inverted:
  assumes "i < length (en_gens en)" and "map_of (gn_runtime (en_gens en ! i)) own = Some r" and "rp_owner_conn r = c"
    and "map_of (en_registry en) own = Some b" and "gm_ok (gn_runtime (en_gens en ! i))"
    and "map_of (gn_runtime (en_gens en ! i)) other = Some r'" and "rp_owner_conn r' \<noteq> c" and "rq_name rq = own"
  shows "map_of (en_registry (cleanup_runtime_proxies lower i c en)) own = Some b \<and>
    map_of (gn_runtime (en_gens (cleanup_runtime_proxies lower i c en) ! i)) own = None \<and>
    check_conflicts lower (en_gens (cleanup_runtime_proxies lower i c en) ! i)
      (en_registry (cleanup_runtime_proxies lower i c en)) rq routes = Some ProxyNameConflict \<and>
    map_of (en_registry (cleanup_runtime_proxies lower i c en)) other = None \<and>
    map_of (gn_runtime (en_gens (cleanup_runtime_proxies lower i c en) ! i)) other = Some r'"
proof -
  let ?own = "own_proxies c (en_gens en ! i)"
  have mem: "(own, r) \<in> set ?own" using assms(2,3) by (auto simp: own_proxies_def dest: map_of_SomeD)
  then have ne: "?own \<noteq> []" "own \<in> fst ` set ?own" using imageI [OF mem, of fst] by auto
  have notin: "other \<notin> fst ` set ?own"
  proof
    assume "other \<in> fst ` set ?own"
    then obtain r'' where "(other, r'') \<in> set (gn_runtime (en_gens en ! i))" "rp_owner_conn r'' = c"
      by (auto simp: own_proxies_def)
    with assms(5-7) show False by (auto simp: gm_ok_def dest: map_of_is_SomeI)
  qed
  have reg: "map_of (en_registry (cleanup_runtime_proxies lower i c en)) own = Some b"
    using cleanup_registry(1) [OF ne(1) assms(1)] ne(2) assms(4) by simp
  moreover have "map_of (gn_runtime (en_gens (cleanup_runtime_proxies lower i c en) ! i)) own = None"
    using cleanup_registry(2) [OF ne(1) assms(1)] ne(2) by simp
  moreover have "check_conflicts lower (en_gens (cleanup_runtime_proxies lower i c en) ! i)
      (en_registry (cleanup_runtime_proxies lower i c en)) rq routes = Some ProxyNameConflict"
    using reg assms(8) by (simp add: check_conflicts_def)
  moreover have "map_of (en_registry (cleanup_runtime_proxies lower i c en)) other = None"
    "map_of (gn_runtime (en_gens (cleanup_runtime_proxies lower i c en) ! i)) other = Some r'"
    using cleanup_registry [OF ne(1) assms(1), of lower other] notin assms(6) by simp_all
  ultimately show ?thesis by blast
qed

definition runtime_sample :: "string \<Rightarrow> conn \<Rightarrow> runtime_proxy" where
  "runtime_sample name c = \<lparr>rp_name = name, rp_client = ''c'', rp_owner_conn = c, rp_type = ''tcp'', rp_entry = name,
     rp_listener = None, rp_udp = None, rp_routes = []\<rparr>"

definition two_sessions :: engine where
  "two_sessions = sample_engine\<lparr>en_gens := [sample_generation\<lparr>gn_runtime :=
       [(''db'', runtime_sample ''db'' 5), (''mq'', runtime_sample ''mq'' 6)]\<rparr>],
     en_registry := [(''db'', \<lparr>rb_name = ''db'', rb_owner = ''c'', rb_targets = [], rb_unrestricted = True\<rparr>),
       (''mq'', \<lparr>rb_name = ''mq'', rb_owner = ''c'', rb_targets = [], rb_unrestricted = True\<rparr>)]\<rparr>"

theorem cleanup_registry_inverted_witness:
  "map_of (en_registry (cleanup_runtime_proxies (\<lambda>s. s) 0 5 two_sessions)) ''db'' \<noteq> None \<and>
   map_of (en_registry (cleanup_runtime_proxies (\<lambda>s. s) 0 5 two_sessions)) ''mq'' = None"
proof -
  have h: "0 < length (en_gens two_sessions)"
    "map_of (gn_runtime (en_gens two_sessions ! 0)) ''db'' = Some (runtime_sample ''db'' 5)"
    "rp_owner_conn (runtime_sample ''db'' 5) = 5"
    "map_of (en_registry two_sessions) ''db'' = Some \<lparr>rb_name = ''db'', rb_owner = ''c'', rb_targets = [], rb_unrestricted = True\<rparr>"
    "gm_ok (gn_runtime (en_gens two_sessions ! 0))"
    "map_of (gn_runtime (en_gens two_sessions ! 0)) ''mq'' = Some (runtime_sample ''mq'' 6)"
    "rp_owner_conn (runtime_sample ''mq'' 6) \<noteq> 5" "rq_name (tcp_request ''db'' 9000) = ''db''"
    by (simp_all add: two_sessions_def runtime_sample_def gm_ok_def tcp_request_def)
  from cleanup_registry_inverted [OF h, of "\<lambda>s. s" "[]"] show ?thesis by simp
qed

subsection \<open>Shutting down\<close>

lemma udp_registered:
  assumes "handle_new_proxy bind order lower (\<lambda>e. e) i client owner (Some rq) en = Some (en', resp)"
    and "rs_error resp = None" and "rq_type rq = ''udp''" and "engine_ok en" and "en_active en = Some i"
  shows "(i, rq_name rq, nt_next (en_net en)) \<in> set (en_loops en') \<and> nt_next (en_net en) \<in> nt_open (en_net en') \<and>
    gen_entries (en_gens en' ! i) = gen_entries (en_gens en ! i) \<and> en_active en' = en_active en \<and>
    gn_donated (en_gens en' ! i) = gn_donated (en_gens en ! i) \<and>
    en_control en' = en_control en \<and> en_stopped_once en' = en_stopped_once en \<and> i < length (en_gens en')"
proof -
  obtain routes where routes: "check_fields rq = Inr routes"
    using assms(1,2) by (cases "check_fields rq") (auto simp: handle_new_proxy_def Let_def)
  have free: "check_conflicts lower (en_gens en ! i) (en_registry en) rq routes = None"
    using assms(1,2) routes by (auto simp: handle_new_proxy_def Let_def split: option.splits)
  obtain n ro where o': "open_runtime_proxy bind order (en_gens en ! i) rq (en_net en) = (n, ro)" by fastforce
  obtain oe where oe: "ro = Some oe"
    using assms(1,2) routes free o' by (cases ro) (auto simp: handle_new_proxy_def Let_def)
  have e: "oe = \<lparr>oe_listener = None, oe_udp = Some (nt_next (en_net en)), oe_name = rq_name rq, oe_created = True\<rparr>"
    "nt_open n = insert (nt_next (en_net en)) (nt_open (en_net en))"
    using o' oe assms(3)
    by (auto simp: open_runtime_proxy_def open_udp_entry_def net_listen_def split: option.splits prod.splits)
  have port: "actual_port n oe rq = rq" by (simp add: actual_port_def e(1))
  obtain en1 r where reg: "register_proxy lower i client owner rq routes oe (en\<lparr>en_net := n\<rparr>) = (en1, r)" by fastforce
  have r: "r = None" "en' = en1"
    using assms(1,2) routes free o' oe port reg
    by (cases r; auto simp: handle_new_proxy_def Let_def split: option.splits)+
  have i: "i < length (en_gens en)" using assms(4,5) by (simp add: engine_ok_def)
  have pe: "prefer_existing (en_gens en ! i) rq oe = (oe, None)" using assms(3) by (simp add: prefer_existing_def)
  show ?thesis
    using reg r e pe i by (auto simp: register_proxy_def Let_def serve_entry_def rebuild_http_routes_def set_gen_def
        register_entry_def gen_entries_def split: option.splits)
qed

text \<open>C40: after a client has registered a UDP proxy, a shutdown blocks: the loop of the proxy's entry
  is waited for, and nothing closes the entry.\<close>

theorem udp_proxy_blocks_shutdown:
  assumes "engine_ok en" and "en_active en = Some i" and "\<not> en_stopped_once en"
    and "\<And>l. en_control en = Some l \<Longrightarrow> l < nt_next (en_net en)"
    and "handle_new_proxy bind order lower (\<lambda>e. e) i client owner (Some rq) en = Some (en', resp)"
    and "rs_error resp = None" and "rq_type rq = ''udp''"
  shows "shutdown conns drain en' = None"
proof -
  let ?l = "nt_next (en_net en)"
  note u = udp_registered [OF assms(5-7,1,2)]
  have notin: "(n, ?l) \<notin> gen_entries (en_gens en ! i)" for n
    using assms(1,2) by (fastforce simp: engine_ok_def gen_open_def gen_distinct_def)
  let ?en = "release_control en'\<lparr>en_shutting := True, en_stopped_once := True\<rparr>"
  have opn: "?l \<in> nt_open (en_net (release_control en'))"
    using u assms(4) by (auto simp: release_control_def net_close_def split: option.splits)
  have gens: "en_gens (release_control en') = en_gens en'" "en_active (release_control en') = Some i"
    "\<not> en_stopped_once (release_control en')" "en_loops (release_control en') = en_loops en'"
    using u assms(2,3) by (auto simp: release_control_def split: option.splits)
  have i: "i < length (en_gens en')" using u by simp
  have nin: "(n, ?l) \<notin> gen_entries (en_gens en' ! i)" for n using notin u by simp
  have still: "?l \<in> nt_open (en_net (stop_signal i ?en))"
    using opn nin gens(1) by (simp add: stop_signal_net)
  have tables: "map_of (gn_lns (en_gens (stop_signal i ?en) ! i)) n \<noteq> Some ?l"
    "map_of (gn_udp (en_gens (stop_signal i ?en) ! i)) n \<noteq> Some ?l" for n
    using nin [of n] gens(1) i by (auto simp: stop_signal_def Let_def set_gen_def gen_entries_def dest: map_of_SomeD)
  have "\<not> loop_ends (stop_signal i ?en) (i, rq_name rq, ?l)"
    using still tables by (simp add: loop_ends_def Let_def)
  moreover have "(i, rq_name rq, ?l) \<in> set (en_loops (stop_signal i ?en))"
    using u gens by (simp add: stop_signal_def Let_def set_gen_def)
  ultimately have "stop_accepting i ?en = None" by (force simp: stop_accepting_def wait_loops_def)
  then show ?thesis using gens u assms(2) by (simp add: shutdown_def final_stop_def Let_def)
qed

definition udp_request :: proxy_request where
  "udp_request = \<lparr>rq_name = ''dns'', rq_type = ''udp'', rq_port = 53, rq_domains = [], rq_subdomain = [], rq_locations = []\<rparr>"

lemma udp_request_accepted:
  "(case handle_new_proxy (\<lambda>n a. Some a) (\<lambda>xs. xs) (\<lambda>s. s) (\<lambda>e. e) 0 ''c'' 5 (Some udp_request) sample_engine of
     Some (en', resp) \<Rightarrow> rs_error resp = None | None \<Rightarrow> False)"
  by code_simp

theorem udp_proxy_blocks_shutdown_witness:
  "\<exists>en' resp. handle_new_proxy (\<lambda>n a. Some a) (\<lambda>xs. xs) (\<lambda>s. s) (\<lambda>e. e) 0 ''c'' 5 (Some udp_request) sample_engine =
      Some (en', resp) \<and> shutdown (\<lambda>cs. []) DrainFinished en' = None"
proof -
  obtain en' resp where r: "handle_new_proxy (\<lambda>n a. Some a) (\<lambda>xs. xs) (\<lambda>s. s) (\<lambda>e. e) 0 ''c'' 5 (Some udp_request) sample_engine =
      Some (en', resp)" "rs_error resp = None"
    using udp_request_accepted by (simp split: option.splits prod.splits)
  have h: "en_active sample_engine = Some 0" "\<not> en_stopped_once sample_engine"
    "\<And>l. en_control sample_engine = Some l \<Longrightarrow> l < nt_next (en_net sample_engine)" "rq_type udp_request = ''udp''"
    by (simp_all add: sample_engine_def new_engine_def sample_net_def udp_request_def)
  from udp_proxy_blocks_shutdown [OF sample_engine_ok h(1-3) r(1,2) h(4), of "\<lambda>cs. []" DrainFinished] r(1) show ?thesis by blast
qed

text \<open>However starts, applications and shutdowns interleave, the active generation is always the one
  published last, and the last good revision is its revision; the application that runs is the only
  one, and an engine whose start has not been claimed is not starting.\<close>

theorem active_is_last_good:
  assumes "(life_step E)\<^sup>*\<^sup>* (new_engine c l n, StartIdle, StopIdle, ApplyIdle) (en, s, p, a)"
  shows "en_active en = (if en_gens en = [] then None else Some (length (en_gens en) - 1)) \<and>
    (en_gens en \<noteq> [] \<longrightarrow> active_revision en = en_last_good en) \<and>
    (en_applying en \<longleftrightarrow> a \<noteq> ApplyIdle) \<and> (en_state en = StateStarting \<longrightarrow> s \<noteq> StartIdle)"
proof -
  have "life_inv (en, s, p, a)" using life_run_inv [OF assms life_inv_new] .
  then show ?thesis
    by (auto simp: life_inv_def active_revision_def active_generation_def last_conv_nth)
qed

lemma sample_tcp: "be_transport (scf_listen sample_server) = TransportTCP"
  by code_simp

theorem active_is_last_good_witness:
  "\<exists>en. (life_step (apply_env_with False))\<^sup>*\<^sup>* (new_engine sample_server (Some 0) sample_net, StartIdle, StopIdle, ApplyIdle)
     (en, StartClaimed (Some 0), StopIdle, ApplyIdle) \<and> en_active en = None"
proof -
  let ?E = "apply_env_with False" and ?en = "new_engine sample_server (Some 0) sample_net"
  have "validate_server_config (\<lambda>xs. xs) (\<lambda>s. s) sample_server = []"
    using sample_server_built by (auto simp: new_server_config_def sample_server_def Let_def split: if_splits)
  then have "claim_start_slot (engine_env.truncate ?E) ?en = (?en\<lparr>en_state := StateStarting\<rparr>, Inr (Some 0))"
    using sample_tcp by (simp add: claim_start_slot_def engine_env.truncate_def apply_env_with_def new_engine_def)
  from life_step.start_claim [OF this] have
    run: "(life_step ?E)\<^sup>*\<^sup>* (?en, StartIdle, StopIdle, ApplyIdle) (?en\<lparr>en_state := StateStarting\<rparr>, StartClaimed (Some 0), StopIdle, ApplyIdle)"
    by blast
  from active_is_last_good [OF run] run show ?thesis by (auto simp: new_engine_def)
qed

lemma hub_stop_total:
  assumes "\<forall>s \<in> set h. sub_ok s"
  shows "\<exists>h'. hub_stop_all cause h = Some h'"
proof -
  have "\<exists>h'. hub_publish e h = Some h'" for e
    using assms
  proof (induction h)
    case Nil
    then show ?case by simp
  next
    case (Cons s h)
    then show ?case using sub_enqueue_total [of s e] by auto
  qed
  then show ?thesis by (auto simp: hub_stop_all_def)
qed

lemma final_stop_fields:
  assumes "final_stop i order en = Some en'" and "\<not> en_stopped_once en" and "i < length (en_gens en)"
  shows "en_active en' = en_active en" and "en_state en' = en_state en" and "en_hub en' = en_hub en"
    and "en_gens en' = (en_gens en)[i := (en_gens en ! i)\<lparr>gn_stopping := True\<rparr>]"
    and "\<forall>w \<in> set (en_loops en'). fst w \<noteq> i"
    and "nt_open (en_net en') = nt_open (en_net en) -
      {l. \<exists>name. (name, l) \<in> gen_entries (en_gens en ! i) \<and> name \<notin> gn_donated (en_gens en ! i)}"
proof -
  let ?en = "en\<lparr>en_shutting := True, en_stopped_once := True\<rparr>"
  obtain en1 where s: "stop_accepting i ?en = Some en1"
    using assms(1,2) by (auto simp: final_stop_def split: option.splits)
  have en': "en_active en' = en_active en1" "en_state en' = en_state en1" "en_hub en' = en_hub en1" "en_gens en' = en_gens en1"
    "en_loops en' = en_loops en1" "en_net en' = en_net en1"
    using assms(1,2) s by (auto simp: final_stop_def Let_def split: option.splits prod.splits)
  note f = stop_accepting_fields [OF s]
  have "en_hub en1 = en_hub en"
    using s by (auto simp: stop_accepting_def wait_loops_def stop_signal_def Let_def set_gen_def split: if_splits)
  with en' f stop_signal_net [of i ?en] show "en_active en' = en_active en" "en_state en' = en_state en" "en_hub en' = en_hub en"
    "en_gens en' = (en_gens en)[i := (en_gens en ! i)\<lparr>gn_stopping := True\<rparr>]" "\<forall>w \<in> set (en_loops en'). fst w \<noteq> i"
    "nt_open (en_net en') = nt_open (en_net en) -
      {l. \<exists>name. (name, l) \<in> gen_entries (en_gens en ! i) \<and> name \<notin> gn_donated (en_gens en ! i)}"
    by auto
qed

lemma release_control_fields [simp]:
  "en_active (release_control en) = en_active en" "en_state (release_control en) = en_state en"
  "en_hub (release_control en) = en_hub en" "en_gens (release_control en) = en_gens en"
  "en_stopped_once (release_control en) = en_stopped_once en" "en_loops (release_control en) = en_loops en"
  "nt_open (en_net (release_control en)) = nt_open (en_net en) - set_option (en_control en)"
  by (auto simp: release_control_def net_close_def split: option.splits)

text \<open>The check of the stopped state in publication does not protect against a shutdown that runs:
  a shutdown that takes the active generation before an application publishes the next one ends with
  the engine stopped while the new generation is active, is not stopping, and keeps its own sockets
  open with a loop on each.\<close>

theorem shutdown_misses_published_generation:
  assumes "en_active en = Some i" and "i < length (en_gens en)" and "en_state en \<noteq> StateStopped"
    and "\<not> en_stopped_once en" and "\<forall>sub \<in> set (en_hub en). sub_ok sub"
    and "final_stop i (ae_conns E) (release_control en) = Some en1"
  shows "\<exists>en'. (life_step E)\<^sup>*\<^sup>* (en, s, StopIdle, ApplyReady g) (en', s, StopIdle, ApplyIdle) \<and>
    en_done en' \<and> en_state en' = StateStopped \<and> active_generation en' = Some g \<and>
    (\<forall>(name, l) \<in> gen_entries g. (length (en_gens en), name, l) \<in> set (en_loops en') \<and>
       (l \<in> nt_open (en_net en) \<and> en_control en \<noteq> Some l \<and> l \<notin> snd ` gen_entries (en_gens en ! i) \<longrightarrow> l \<in> nt_open (en_net en')))"
proof -
  let ?n = "length (en_gens en)"
  note f1 = final_stop_fields [OF assms(6)]
  have f: "en_active en1 = Some i" "en_state en1 \<noteq> StateStopped" "en_hub en1 = en_hub en" "length (en_gens en1) = ?n"
    "\<forall>w \<in> set (en_loops en1). fst w \<noteq> i" "gen_entries (en_gens en1 ! i) = gen_entries (en_gens en ! i)"
    using f1 assms(1-4) by (simp_all add: gen_entries_def)
  have opn: "l \<in> nt_open (en_net en1)"
    if "l \<in> nt_open (en_net en)" "en_control en \<noteq> Some l" "l \<notin> snd ` gen_entries (en_gens en ! i)" for l
  proof -
    have "nt_open (en_net en1) = nt_open (en_net en) - set_option (en_control en) -
        {k. \<exists>name. (name, k) \<in> gen_entries (en_gens en ! i) \<and> name \<notin> gn_donated (en_gens en ! i)}"
      using f1(6) assms(2,4) by simp
    with that show ?thesis by (force simp: image_iff)
  qed
  let ?en2 = "en1\<lparr>en_gens := en_gens en1 @ [g], en_active := Some ?n, en_last_good := gn_revision g\<rparr>"
  have pub: "publish_generation g en1 = (?en2, Inr (Some i))" using f by (simp add: publish_generation_def)
  let ?d = "donate (gn_reused g) i ?en2"
  have d: "en_gens ?d ! ?n = g" "length (en_gens ?d) = Suc ?n" "en_loops ?d = en_loops en1" "en_net ?d = en_net en1"
    "gen_entries (en_gens ?d ! i) = gen_entries (en_gens en ! i)" "en_hub ?d = en_hub en"
    using assms(2) f by (simp_all add: donate_def set_gen_def nth_append gen_entries_def)
  have "stop_accepting i ?d \<noteq> None"
    using f(5) d(3) by (auto simp: stop_accepting_def wait_loops_def stop_signal_def Let_def set_gen_def)
  then obtain en3 where s3: "stop_accepting i ?d = Some en3" by auto
  note f3 = stop_accepting_fields [OF s3]
  let ?en4 = "start_generation ?n en3"
  have "gn_reused (en_gens ?en2 ! ?n) = gn_reused g" using f(4) by (simp add: nth_append)
  then have ho: "hand_over (Some i) ?n ?en2 = Some (?en4, count_entries (en_gens en3 ! i))"
    using s3 by (simp add: hand_over_def)
  obtain en5 c where dr: "drain_old E (Some i) ?en4 = (en5, c)" by fastforce
  have "en_hub en3 = en_hub en"
    using s3 d(6) by (auto simp: stop_accepting_def wait_loops_def stop_signal_def Let_def set_gen_def split: if_splits)
  then have hub: "en_hub en5 = en_hub en"
    using dr by (auto simp: drain_old_def wait_drained_def close_conns_def start_generation_def split: drain_end.splits)
  obtain h where h: "hub_stop_all (en_err en5) (en_hub en5) = Some h" using hub_stop_total assms(5) hub by metis
  let ?en6 = "(applied en5)\<lparr>en_hub := h, en_state := StateStopped, en_err := None, en_done := True\<rparr>"
  have cd: "close_done (applied en5) = Some ?en6" using h by (simp add: close_done_def applied_def)
  have 1: "life_step E (en, s, StopIdle, ApplyReady g) (release_control en, s, StopTaken (Some i), ApplyReady g)"
    using life_step.stop_begin [of E en s "ApplyReady g"] assms(1) by simp
  have 2: "life_step E (release_control en, s, StopTaken (Some i), ApplyReady g) (en1, s, StopWaited i, ApplyReady g)"
    by (rule life_step.stop_active [OF assms(6)])
  have 3: "life_step E (en1, s, StopWaited i, ApplyReady g) (?en2, s, StopWaited i, ApplyPublished (Some i) ?n)"
    using life_step.apply_published [OF pub, of E s "StopWaited i"] f(4) by simp
  have 4: "life_step E (?en2, s, StopWaited i, ApplyPublished (Some i) ?n) (applied en5, s, StopWaited i, ApplyIdle)"
    by (rule life_step.apply_handed_over [OF ho dr])
  have 5: "life_step E (applied en5, s, StopWaited i, ApplyIdle) (?en6, s, StopIdle, ApplyIdle)"
    by (rule life_step.stop_done [OF cd])
  have run: "(life_step E)\<^sup>*\<^sup>* (en, s, StopIdle, ApplyReady g) (?en6, s, StopIdle, ApplyIdle)"
    using 1 2 3 4 5 by (meson converse_rtranclp_into_rtranclp rtranclp.rtrancl_refl)
  note same = drain_old_same [OF dr]
  have gens: "en_gens en5 ! ?n = g" "en_active en5 = Some ?n" "en_net en5 = en_net (stop_signal i ?d)"
    using same f3(1,2,9) d(1,2) assms(2) by (simp_all add: start_generation_def donate_def set_gen_def)
  have loops: "(?n, name, l) \<in> set (en_loops en5)" if "(name, l) \<in> gen_entries g" for name l
    using that same start_generation_loops [of ?n en3] f3(9) d(1,2) assms(2) by auto
  have "l \<in> nt_open (en_net en5)"
    if "l \<in> nt_open (en_net en)" "en_control en \<noteq> Some l" "l \<notin> snd ` gen_entries (en_gens en ! i)" for l
    using opn [OF that] that(3) d(4,5) gens(3) by (force simp: stop_signal_net)
  with run gens loops show ?thesis
    by (intro exI [where x = ?en6]) (auto simp: active_generation_def applied_def)
qed

lemma sample_stop:
  "final_stop 0 (ae_conns (apply_env_with False)) (release_control sample_engine) \<noteq> None"
  by code_simp

theorem shutdown_misses_published_generation_witness:
  "\<exists>en'. (life_step (apply_env_with False))\<^sup>*\<^sup>* (sample_engine, StartIdle, StopIdle, ApplyReady sample_generation)
      (en', StartIdle, StopIdle, ApplyIdle) \<and> en_state en' = StateStopped \<and> active_generation en' = Some sample_generation"
proof -
  obtain en1 where r: "final_stop 0 (ae_conns (apply_env_with False)) (release_control sample_engine) = Some en1"
    using sample_stop by auto
  have h: "en_active sample_engine = Some 0" "0 < length (en_gens sample_engine)" "en_state sample_engine \<noteq> StateStopped"
    "\<not> en_stopped_once sample_engine" "\<forall>sub \<in> set (en_hub sample_engine). sub_ok sub"
    by (simp_all add: sample_engine_def new_engine_def)
  from shutdown_misses_published_generation [OF h r] show ?thesis by blast
qed

end
