(* ===== verification/Wire_Progress.thy ===== *)
theory Wire_Progress
  imports Wire_Guard
begin

section \<open>Reading frames makes progress\<close>

text \<open>
  A frame that was read has taken its header off the stream, so a loop that reads frames from a
  finite stream ends. The laws are proved for every byte source and carried to the guard, whose
  channel is one.
\<close>

context byte_source
begin

lemma v1_read_payload_left:
  "v1_read_payload rf rd p mt n = (rd', p', Inr f) \<Longrightarrow>
   stream_of (v1r_source rd') = (stream_of (v1r_source rd))\<lparr>st_data := drop (nat n) (st_data (stream_of (v1r_source rd)))\<rparr> \<and>
   v1r_limit rd' = v1r_limit rd"
  by (auto simp: v1_read_payload_def dest!: rf_okD split: prod.splits sum.splits option.splits)

lemma v1_read_frame_left:
  assumes "v1_read_frame rf rd p = (rd', p', Inr f)"
  shows "length (st_data (stream_of (v1r_source rd'))) < length (st_data (stream_of (v1r_source rd)))"
    and "v1r_limit rd' = v1r_limit rd"
proof -
  obtain s' header mt n where
    h: "rf (v1r_source rd) V1HeaderSize = (s', Inr header)" and
    b: "v1_read_payload rf (rd\<lparr>v1r_source := s'\<rparr>) p mt n = (rd', p', Inr f)"
    using assms by (auto simp: v1_read_frame_def Let_def split: prod.splits sum.splits option.splits if_splits)
  from rf_okD [OF h] v1_read_payload_left [OF b]
  show "length (st_data (stream_of (v1r_source rd'))) < length (st_data (stream_of (v1r_source rd)))"
    "v1r_limit rd' = v1r_limit rd"
    by (auto simp: V1HeaderSize_def)
qed

lemma v2_read_body_left:
  "v2_read_body rf rd p ft fl n = (rd', p', Inr f) \<Longrightarrow>
   stream_of (v2r_source rd') = (stream_of (v2r_source rd))\<lparr>st_data := drop (nat n) (st_data (stream_of (v2r_source rd)))\<rparr>"
  by (auto simp: v2_read_body_def Let_def dest!: rf_okD split: prod.splits sum.splits option.splits if_splits)

lemma v2_read_frame_left:
  assumes "v2_read_frame rf rd p = (rd', p', Inr f)"
  shows "length (st_data (stream_of (v2r_source rd'))) < length (st_data (stream_of (v2r_source rd)))"
proof -
  obtain s' header ft fl n where
    h: "rf (v2r_source rd) V2HeaderSize = (s', Inr header)" and
    b: "v2_read_body rf (rd\<lparr>v2r_source := s'\<rparr>) p ft fl n = (rd', p', Inr f)"
    using assms by (auto simp: v2_read_frame_def Let_def split: prod.splits sum.splits option.splits if_splits)
  from rf_okD [OF h] v2_read_body_left [OF b] show ?thesis by (auto simp: V2HeaderSize_def)
qed

end

definition guard_left :: "crypto_fns \<Rightarrow> connection_guard \<Rightarrow> nat" where
  "guard_left K g = length (st_data (chan_view K (g_chan g)))"

lemma guard_read_frame_left:
  assumes "guard_read_frame K g = (g', Inr f)"
  shows "guard_left K g' < guard_left K g"
proof (cases "g_version g")
  case None
  with assms show ?thesis by (simp add: guard_read_frame_def)
next
  case (Some v)
  show ?thesis
  proof (cases v)
    case VersionV1
    with Some assms obtain limit rd p where
      "v1_read_frame (chan_read_full K) \<lparr>v1r_source = g_chan g, v1r_limit = limit\<rparr> (g_pool g) = (rd, p, Inr f)"
      "g' = g\<lparr>g_chan := v1r_source rd, g_pool := p\<rparr>"
      by (auto simp: guard_read_frame_def read_v1_frame_def guard_fail_def Let_def
          split: option.splits prod.splits sum.splits if_splits)
    with chan.v1_read_frame_left(1) [of K] show ?thesis by (fastforce simp: guard_left_def)
  next
    case VersionV2
    with Some assms obtain limit rd p f' where
      "v2_read_frame (chan_read_full K) \<lparr>v2r_source = g_chan g, v2r_limit = limit\<rparr> (g_pool g) = (rd, p, Inr f')"
      "g' = g\<lparr>g_chan := v2r_source rd, g_pool := p\<rparr>"
      by (auto simp: guard_read_frame_def read_v2_frame_def guard_fail_def Let_def
          split: option.splits prod.splits sum.splits if_splits)
    with chan.v2_read_frame_left [of K] show ?thesis by (fastforce simp: guard_left_def)
  qed
qed

text \<open>Reading keeps what the guard has decided.\<close>

lemma guard_read_frame_kept:
  assumes "guard_read_frame K g = (g', Inr f)"
  shows "g_version g' = g_version g \<and> g_locked g' = g_locked g \<and> g_reader g' = g_reader g \<and>
    g_client_hello g' = g_client_hello g \<and> g_server_hello g' = g_server_hello g"
  using assms
  by (auto simp: guard_read_frame_def read_v1_frame_def read_v2_frame_def guard_fail_def Let_def
      split: option.splits prod.splits sum.splits if_splits version.splits)

subsection \<open>Reading frames off a socket\<close>

definition sock_read_full :: "socket read_full" where
  "sock_read_full s n = full_result (read_full sock_read s n)"

interpretation full_sock: byte_source sock_read_full so_stream
  unfolding sock_read_full_def by unfold_locales (auto dest: sock.full_ok sock.full_fail)

definition sock_reader :: "int \<Rightarrow> socket \<Rightarrow> socket v1_reader" where
  "sock_reader limit s = \<lparr>v1r_source = s, v1r_limit = limit\<rparr>"

text \<open>A frame on the connection is read as it was sent, whatever the chunks.\<close>

lemma sock_reads_frame:
  assumes "encode_v1_frame_with_limit f limit = Inr raw" and "v1_sendable limit f" and "limit < 2 ^ 63"
    and "st_data (so_stream s) = raw @ rest"
  obtains s' where "v1_read_frame sock_read_full (sock_reader limit s) None = (sock_reader limit s', None, Inr f)"
    and "so_stream s' = (so_stream s)\<lparr>st_data := rest\<rparr>"
proof -
  let ?v = "v1_view so_stream (sock_reader limit s)"
  obtain rd p r where rd: "v1_read_frame sock_read_full (sock_reader limit s) None = (rd, p, r)" by (metis prod_cases3)
  have enc: "encode_v1_frame_with_limit f (v1r_limit ?v) = Inr raw" using assms(1) by (simp add: sock_reader_def)
  have f: "fr_type f \<in> set supported_message_types" "validate_json_object (fr_payload f) = None" "f\<lparr>fr_release := None\<rparr> = f"
    using assms(2) by (simp_all add: v1_sendable_def)
  have "v1_read_frame stream_read_full ?v None = (?v\<lparr>v1r_source := (so_stream s)\<lparr>st_data := rest\<rparr>\<rparr>, None, Inr f)"
    using v1_read_encoded [OF enc f(1,2), of rest] assms(3,4) f(3) by (simp add: sock_reader_def)
  with full_sock.v1_read_frame_sim [OF rd]
  have r: "p = None" "r = Inr f" "v1_view so_stream rd = ?v\<lparr>v1r_source := (so_stream s)\<lparr>st_data := rest\<rparr>\<rparr>" by auto
  have so: "so_stream (v1r_source rd) = (so_stream s)\<lparr>st_data := rest\<rparr>" "v1r_limit rd = limit"
    using arg_cong [OF r(3), of v1r_source] arg_cong [OF r(3), of v1r_limit] by (simp_all add: sock_reader_def)
  then have "rd = sock_reader limit (v1r_source rd)" by (simp add: sock_reader_def)
  with that [of "v1r_source rd"] rd r(1,2) so(1) show thesis by simp
qed

end
