(* ===== verification/Client_Engine.thy ===== *)
theory Client_Engine
  imports Core_Apply Core_Validate Work_Pool Wire_Progress
begin

section \<open>The client engine (\<open>core/client/engine.go\<close>, \<open>events.go\<close>)\<close>

text \<open>
  The client keeps one control connection for its whole life and one generation of work
  connections per configuration. A generation has its own pool of slots, its tracked work
  connections and its stop signal. Published generations keep their place in \<open>ce_gens\<close>, because
  the goroutines of a replaced generation go on until their connections end. \<open>ce_workers\<close> are
  these goroutines, \<open>ce_received\<close> the bytes each connection has received, \<open>ce_used\<close> the
  connections that were dialed.
\<close>

datatype client_state = ClientIdle | ClientStarting | ClientRunning | ClientStopped

record client_gen =
  cg_revision :: nat
  cg_config :: client_config
  cg_pool :: work_pool
  cg_stopping :: bool
  cg_stop_ch :: bool
  cg_cancelled :: bool
  cg_conns :: "conn set"

definition new_client_generation :: "nat \<Rightarrow> client_config \<Rightarrow> client_gen" where
  "new_client_generation revision c =
     \<lparr>cg_revision = revision, cg_config = c, cg_pool = new_work_pool (ccf_pool_size c), cg_stopping = False,
      cg_stop_ch = False, cg_cancelled = False, cg_conns = {}\<rparr>"

text \<open>A goroutine that keeps a proxy supplied, or (\<open>wk_loop\<close> false) serves one UDP work connection.\<close>

datatype worker_pc = WorkerTop | WorkerDialing | WorkerDeclaring conn | WorkerServing conn

record client_worker =
  wk_gen :: nat
  wk_type :: proxy_type
  wk_proxy :: proxy_decl
  wk_loop :: bool
  wk_pc :: worker_pc

record client_engine =
  ce_config :: client_config
  ce_state :: client_state
  ce_stop_once :: bool
  ce_stop_signal :: bool
  ce_done :: bool
  ce_done_once :: bool
  ce_err :: "string option"
  ce_control :: "(conn \<times> string) option"
  ce_gens :: "client_gen list"
  ce_active :: "nat option"
  ce_last_good :: nat
  ce_applying :: bool
  ce_workers :: "client_worker multiset"
  ce_received :: "(conn, int) gomap"
  ce_used :: "conn set"
  ce_closed :: "conn set"
  ce_hub :: event_hub

definition new_client :: "client_config \<Rightarrow> client_engine" where
  "new_client c =
     \<lparr>ce_config = c, ce_state = ClientIdle, ce_stop_once = False, ce_stop_signal = False, ce_done = False,
      ce_done_once = False, ce_err = None, ce_control = None, ce_gens = [], ce_active = None, ce_last_good = 0,
      ce_applying = False, ce_workers = {#}, ce_received = [], ce_used = {}, ce_closed = {}, ce_hub = []\<rparr>"

definition client_active_generation :: "client_engine \<Rightarrow> client_gen option" where
  "client_active_generation en = map_option (\<lambda>i. ce_gens en ! i) (ce_active en)"

definition set_client_gen :: "nat \<Rightarrow> client_gen \<Rightarrow> client_engine \<Rightarrow> client_engine" where
  "set_client_gen i g en = en\<lparr>ce_gens := (ce_gens en)[i := g]\<rparr>"

definition close_client_conn :: "conn \<Rightarrow> client_engine \<Rightarrow> client_engine" where
  "close_client_conn c en = en\<lparr>ce_closed := insert c (ce_closed en)\<rparr>"

definition conn_received :: "conn \<Rightarrow> client_engine \<Rightarrow> int" where
  "conn_received c en = gm_get 0 c (ce_received en)"

subsection \<open>Login\<close>

record client_login =
  cl_client_id :: string
  cl_token :: string
  cl_timestamp :: int

record login_reply =
  ly_run_id :: string
  ly_error :: string

datatype login_error =
    LoginNotEncoded
  | LoginFrameFailed go_error
  | LoginWriteError
  | LoginReadError go_error
  | LoginTypeMismatch
  | LoginReplyInvalid
  | LoginRejected
  | LoginRunIDMissing

text \<open>The JSON mapping, the clock, whether the write succeeds, and the source of the connection.\<close>

record login_env =
  le_marshal :: "client_login \<Rightarrow> bytes option"
  le_unmarshal :: "bytes \<Rightarrow> login_reply option"
  le_now :: int
  le_write_ok :: bool
  le_source :: socket

definition bare_frame :: "message_type \<Rightarrow> bytes \<Rightarrow> frame" where
  "bare_frame mt body = \<lparr>fr_type = mt, fr_payload = body, fr_release = None\<rparr>"

text \<open>The bytes of the login frame.\<close>

definition write_login :: "login_env \<Rightarrow> client_config \<Rightarrow> login_error + bytes" where
  "write_login E c =
     (case le_marshal E \<lparr>cl_client_id = ccf_client_id c, cl_token = ccf_token c, cl_timestamp = le_now E\<rparr> of
        None \<Rightarrow> Inl LoginNotEncoded
      | Some body \<Rightarrow>
          (case encode_v1_frame (bare_frame MessageTypeLogin body) of
             Inl e \<Rightarrow> Inl (LoginFrameFailed e)
           | Inr raw \<Rightarrow> if le_write_ok E then Inr raw else Inl LoginWriteError))"

definition read_login_response :: "login_env \<Rightarrow> login_error + string" where
  "read_login_response E =
     (case v1_read_frame sock_read_full \<lparr>v1r_source = le_source E, v1r_limit = DefaultV1PayloadLimit\<rparr> None of
        (_, _, Inl e) \<Rightarrow> Inl (LoginReadError e)
      | (_, _, Inr f) \<Rightarrow>
          if mt_name (fr_type f) \<noteq> ''login-response'' then Inl LoginTypeMismatch
          else (case le_unmarshal E (fr_payload f) of
              None \<Rightarrow> Inl LoginReplyInvalid
            | Some r \<Rightarrow>
                if ly_error r \<noteq> [] then Inl LoginRejected
                else if ly_run_id r = [] then Inl LoginRunIDMissing
                else Inr (ly_run_id r)))"

definition login_control :: "login_env \<Rightarrow> client_config \<Rightarrow> login_error + string" where
  "login_control E c = (case write_login E c of Inl e \<Rightarrow> Inl e | Inr _ \<Rightarrow> read_login_response E)"

subsection \<open>Start\<close>

datatype client_start_error =
    ClientConfigInvalid
  | ClientAlreadyStarted
  | ClientHasStopped
  | ClientDialFailed
  | ClientLoginFailed login_error

definition claim_client_start :: "client_engine \<Rightarrow> client_engine \<times> client_start_error option" where
  "claim_client_start en =
     (if validate_client_config (ce_config en) \<noteq> [] then (en, Some ClientConfigInvalid)
      else if ce_state en \<noteq> ClientIdle
      then (if ce_state en = ClientStarting \<or> ce_state en = ClientRunning
        then (en, Some ClientAlreadyStarted) else (en, Some ClientHasStopped))
      else (en\<lparr>ce_state := ClientStarting\<rparr>, None))"

definition release_client_start :: "client_engine \<Rightarrow> client_engine" where
  "release_client_start en = (if ce_state en = ClientStarting then en\<lparr>ce_state := ClientIdle\<rparr> else en)"

definition commit_client_running :: "conn \<Rightarrow> string \<Rightarrow> client_gen \<Rightarrow> client_engine \<Rightarrow> client_engine" where
  "commit_client_running c run_id g en =
     en\<lparr>ce_state := ClientRunning, ce_control := Some (c, run_id), ce_gens := ce_gens en @ [g],
       ce_active := Some (length (ce_gens en)), ce_last_good := cg_revision g\<rparr>"

definition proxy_workers :: "nat \<Rightarrow> client_gen \<Rightarrow> client_worker multiset" where
  "proxy_workers i g =
     image_mset (\<lambda>(t, p). \<lparr>wk_gen = i, wk_type = t, wk_proxy = p, wk_loop = True, wk_pc = WorkerTop\<rparr>)
       (mset (all_proxies (cg_config g)))"

definition start_client_generation :: "nat \<Rightarrow> client_engine \<Rightarrow> client_engine" where
  "start_client_generation i en = en\<lparr>ce_workers := ce_workers en + proxy_workers i (ce_gens en ! i)\<rparr>"

text \<open>Dialing the control connection and logging in; a failure closes what was opened.\<close>

definition client_connect :: "login_env \<Rightarrow> conn option \<Rightarrow> client_engine \<Rightarrow>
    client_engine \<times> (client_start_error + conn \<times> string)" where
  "client_connect E dialed en =
     (case dialed of
        None \<Rightarrow> (release_client_start en, Inl ClientDialFailed)
      | Some c \<Rightarrow>
          (let en1 = en\<lparr>ce_used := insert c (ce_used en)\<rparr>
           in case login_control E (ce_config en) of
                Inl e \<Rightarrow> (release_client_start (close_client_conn c en1), Inl (ClientLoginFailed e))
              | Inr run_id \<Rightarrow> (en1, Inr (c, run_id))))"

definition client_start_commit :: "conn \<Rightarrow> string \<Rightarrow> client_engine \<Rightarrow> client_engine" where
  "client_start_commit c run_id en =
     start_client_generation (length (ce_gens en))
       (commit_client_running c run_id (new_client_generation 0 (ce_config en)) en)"

definition client_start :: "login_env \<Rightarrow> conn option \<Rightarrow> client_engine \<Rightarrow> client_engine \<times> client_start_error option" where
  "client_start E dialed en =
     (case claim_client_start en of
        (en1, Some e) \<Rightarrow> (en1, Some e)
      | (en1, None) \<Rightarrow>
          (case client_connect E dialed en1 of
             (en2, Inl e) \<Rightarrow> (en2, Some e)
           | (en2, Inr (c, run_id)) \<Rightarrow> (client_start_commit c run_id en2, None)))"

subsection \<open>Stopping a generation\<close>

definition gen_stop_mark :: "nat \<Rightarrow> client_engine \<Rightarrow> client_engine" where
  "gen_stop_mark i en = set_client_gen i ((ce_gens en ! i)\<lparr>cg_stopping := True\<rparr>) en"

definition gen_stop_signal :: "nat \<Rightarrow> client_engine \<Rightarrow> client_engine" where
  "gen_stop_signal i en = set_client_gen i ((ce_gens en ! i)\<lparr>cg_stop_ch := True\<rparr>) en"

text \<open>One connection of the sweep: closed unless it has received data.\<close>

definition close_if_idle :: "conn \<Rightarrow> client_engine \<Rightarrow> client_engine" where
  "close_if_idle c en = (if conn_received c en = 0 then close_client_conn c en else en)"

definition close_idle_work_conns :: "nat \<Rightarrow> client_engine \<Rightarrow> client_engine" where
  "close_idle_work_conns i en =
     en\<lparr>ce_closed := ce_closed en \<union> {c \<in> cg_conns (ce_gens en ! i). conn_received c en = 0}\<rparr>"

definition gen_cancel :: "nat \<Rightarrow> client_engine \<Rightarrow> client_engine" where
  "gen_cancel i en = set_client_gen i ((ce_gens en ! i)\<lparr>cg_cancelled := True\<rparr>) en"

definition gen_stop :: "bool \<Rightarrow> nat \<Rightarrow> client_engine \<Rightarrow> client_engine" where
  "gen_stop final i en =
     (let en1 = close_idle_work_conns i (gen_stop_signal i (gen_stop_mark i en))
      in if final then gen_cancel i en1 else en1)"

definition close_gen_conns :: "nat \<Rightarrow> client_engine \<Rightarrow> client_engine" where
  "close_gen_conns i en = en\<lparr>ce_closed := ce_closed en \<union> cg_conns (ce_gens en ! i)\<rparr>"

definition gen_wait_drained :: "nat \<Rightarrow> drain_end \<Rightarrow> client_engine \<Rightarrow> client_engine \<times> bool" where
  "gen_wait_drained i d en =
     (case d of DrainFinished \<Rightarrow> (en, True) | DrainLimit \<Rightarrow> (close_gen_conns i en, False)
      | DrainCancelled \<Rightarrow> (close_gen_conns i en, False))"

subsection \<open>Shutdown and abnormal ends\<close>

definition close_control :: "(conn \<times> string) option \<Rightarrow> client_engine \<Rightarrow> client_engine" where
  "close_control control en = (case control of None \<Rightarrow> en | Some (c, _) \<Rightarrow> close_client_conn c en)"

definition client_mark_stopped :: "client_engine \<Rightarrow> client_engine" where
  "client_mark_stopped en = en\<lparr>ce_stop_once := True, ce_state := ClientStopped, ce_err := None, ce_stop_signal := True\<rparr>"

definition client_stop_all :: "client_engine \<Rightarrow> client_engine" where
  "client_stop_all en =
     (if ce_stop_once en then en
      else (let en1 = client_mark_stopped en
        in close_control (ce_control en) (case ce_active en of None \<Rightarrow> en1 | Some i \<Rightarrow> gen_stop True i en1)))"

definition close_client_conns :: "client_engine \<Rightarrow> client_engine" where
  "close_client_conns en =
     (let en1 = close_control (ce_control en) en
      in case ce_active en of None \<Rightarrow> en1 | Some i \<Rightarrow> close_gen_conns i en1)"

definition client_wait_drained :: "drain_end \<Rightarrow> client_engine \<Rightarrow> client_engine \<times> bool" where
  "client_wait_drained d en =
     (case d of DrainFinished \<Rightarrow> (en, True) | DrainLimit \<Rightarrow> (close_client_conns en, False)
      | DrainCancelled \<Rightarrow> (close_client_conns en, False))"

text \<open>The stop event is published once; \<open>None\<close> is a panic of the event hub.\<close>

definition client_close_done :: "client_engine \<Rightarrow> client_engine option" where
  "client_close_done en =
     (if ce_done_once en then Some (en\<lparr>ce_done := True\<rparr>)
      else map_option (\<lambda>h. en\<lparr>ce_done_once := True, ce_hub := h, ce_done := True\<rparr>) (hub_stop_all (ce_err en) (ce_hub en)))"

definition client_shutdown :: "drain_end \<Rightarrow> client_engine \<Rightarrow> (client_engine \<times> bool) option" where
  "client_shutdown d en =
     (case client_wait_drained d (client_stop_all en) of
        (en1, False) \<Rightarrow> Some (en1, False)
      | (en1, True) \<Rightarrow> map_option (\<lambda>e. (e, True)) (client_close_done en1))"

definition client_fail_abnormal :: "string \<Rightarrow> client_engine \<Rightarrow> client_engine option" where
  "client_fail_abnormal cause en =
     (if ce_state en = ClientStopped then Some en
      else (let en1 = en\<lparr>ce_err := (if ce_err en = None then Some cause else ce_err en), ce_done_once := True, ce_done := True\<rparr>
        in if ce_done_once en then Some en1
           else map_option (\<lambda>h. en1\<lparr>ce_hub := h\<rparr>) (hub_stop_all (Some cause) (ce_hub en))))"

subsection \<open>What the host sees\<close>

definition client_proxy_summaries :: "client_gen \<Rightarrow> (string \<times> proxy_type) list" where
  "client_proxy_summaries g = map (\<lambda>(t, p). (pd_name p, t)) (all_proxies (cg_config g))"

definition conn_total :: "client_engine \<Rightarrow> nat" where
  "conn_total en =
     (if ce_control en = None then 0 else 1)
     + (case client_active_generation en of None \<Rightarrow> 0 | Some g \<Rightarrow> card (cg_conns g))"

definition client_host_view :: "client_engine \<Rightarrow> host_state" where
  "client_host_view en =
     \<lparr>hs_running = (ce_state en = ClientRunning),
      hs_active = (case client_active_generation en of None \<Rightarrow> 0 | Some g \<Rightarrow> cg_revision g),
      hs_last_good = ce_last_good en,
      hs_proxies = (case client_active_generation en of None \<Rightarrow> [] | Some g \<Rightarrow> client_proxy_summaries g),
      hs_clients = [],
      hs_connections = conn_total en\<rparr>"

definition heartbeat_interval :: "client_engine \<Rightarrow> int" where
  "heartbeat_interval en =
     (case client_active_generation en of
        None \<Rightarrow> DefaultHeartbeat
      | Some g \<Rightarrow> if 0 < ccf_heartbeat (cg_config g) then ccf_heartbeat (cg_config g) else DefaultHeartbeat)"

end
