(* ===== verification/Client_Apply.thy ===== *)
theory Client_Apply
  imports Client_Engine
begin

section \<open>Applying a configuration on the client (\<open>core/client/apply.go\<close>)\<close>

text \<open>
  The same stages as on the server, without entries to open: a new generation is only a pool of
  slots; its work connections are dialed after publication. The identity of the control session
  cannot be changed by an application.
\<close>

datatype health_error = EngineNotRunning | ControlMissing | ControlLost

datatype client_apply_cause =
    NoRevision
  | ConfigInvalid
  | BindingsInjected
  | ClientEnded
  | ClientNotStarted
  | IdentityChanged
  | StaleRevision
  | ApplyCancelled
  | InjectedFailure
  | Unhealthy health_error

type_synonym client_apply_error = "client_apply_cause apply_failure"

record client_deployment =
  cd_revision :: nat
  cd_config :: client_config
  cd_bindings :: nat

text \<open>Whether the caller has cancelled at the two places that ask, the failure point of the tests, and
  how the draining of the old generation ends.\<close>

record client_apply_env =
  ca_cancel1 :: bool
  ca_hook :: "client_gen \<Rightarrow> bool"
  ca_cancel2 :: bool
  ca_drain :: drain_end

definition control_identity_matches :: "client_config \<Rightarrow> client_config \<Rightarrow> bool" where
  "control_identity_matches base new \<longleftrightarrow>
     ccf_endpoint base = ccf_endpoint new \<and> ccf_client_id base = ccf_client_id new \<and> ccf_token base = ccf_token new"

definition client_active_revision :: "client_engine \<Rightarrow> nat" where
  "client_active_revision en = (case client_active_generation en of None \<Rightarrow> 0 | Some g \<Rightarrow> cg_revision g)"

text \<open>Validation: an error, the idempotent success, or going on.\<close>

definition client_apply_validate :: "client_deployment \<Rightarrow> client_engine \<Rightarrow> client_apply_error + bool" where
  "client_apply_validate d en =
     (if validate_client_config (cd_config d) \<noteq> [] then Inl (ApplyError ValidateStage ConfigInvalid)
      else if 0 < cd_bindings d then Inl (ApplyError ValidateStage BindingsInjected)
      else if ce_state en = ClientStopped then Inl (ApplyError ValidateStage ClientEnded)
      else if ce_state en \<noteq> ClientRunning then Inl (ApplyError ValidateStage ClientNotStarted)
      else if \<not> control_identity_matches (ce_config en) (cd_config d)
      then Inl (ApplyError ValidateStage IdentityChanged)
      else (case client_active_generation en of
          None \<Rightarrow> Inr True
        | Some g \<Rightarrow>
            if cd_revision d = cg_revision g then Inr False
            else if cd_revision d < cg_revision g then Inl (ApplyError ValidateStage StaleRevision)
            else Inr True))"

definition client_prepare_generation :: "client_gen \<Rightarrow> client_gen" where
  "client_prepare_generation g = g\<lparr>cg_pool := new_work_pool (ccf_pool_size (cg_config g))\<rparr>"

definition client_gen_release :: "client_gen \<Rightarrow> client_gen" where
  "client_gen_release g = g\<lparr>cg_cancelled := True, cg_pool := pool_close (cg_pool g)\<rparr>"

definition check_client_generation :: "client_engine \<Rightarrow> health_error option" where
  "check_client_generation en =
     (if ce_state en \<noteq> ClientRunning then Some EngineNotRunning
      else if ce_control en = None then Some ControlMissing
      else if ce_done en then Some ControlLost
      else None)"

text \<open>From the new generation to the decision to publish it.\<close>

definition client_health_check :: "client_apply_env \<Rightarrow> client_gen \<Rightarrow> client_engine \<Rightarrow> client_apply_error option" where
  "client_health_check E g en =
     (if ca_cancel1 E then Some (ApplyError PrepareStage ApplyCancelled)
      else if ca_hook E g then Some (ApplyError HealthCheckStage InjectedFailure)
      else case check_client_generation en of
          Some h \<Rightarrow> Some (ApplyError HealthCheckStage (Unhealthy h))
        | None \<Rightarrow> if ca_cancel2 E then Some (ApplyError HealthCheckStage ApplyCancelled) else None)"

text \<open>Publication: the index of the generation replaced.\<close>

definition client_publish_generation :: "client_gen \<Rightarrow> client_engine \<Rightarrow> client_engine \<times> (client_apply_error + nat option)" where
  "client_publish_generation g en =
     (if ce_state en \<noteq> ClientRunning then (en, Inl (ApplyError ValidateStage ClientEnded))
      else (en\<lparr>ce_gens := ce_gens en @ [g], ce_active := Some (length (ce_gens en)), ce_last_good := cg_revision g\<rparr>,
        Inr (ce_active en)))"

definition count_proxies :: "client_gen \<Rightarrow> int" where
  "count_proxies g = int (length (all_proxies (cg_config g)))"

text \<open>The old generation stops; its connections that carry data go on until they end or the limit.\<close>

definition client_drain_old :: "client_apply_env \<Rightarrow> nat option \<Rightarrow> client_engine \<Rightarrow> client_engine \<times> int \<times> bool" where
  "client_drain_old E old en =
     (case old of
        None \<Rightarrow> (en, 0, True)
      | Some i \<Rightarrow>
          (case gen_wait_drained i (ca_drain E) (gen_stop False i en) of
             (en1, complete) \<Rightarrow> (en1, count_proxies (ce_gens en ! i), complete)))"

definition client_apply_machine ::
  "client_apply_env \<Rightarrow> client_deployment \<Rightarrow> nat \<Rightarrow> client_engine \<Rightarrow> client_engine \<times> (client_apply_error + apply_result)" where
  "client_apply_machine E d previous en =
     (case client_apply_validate d en of
        Inl e \<Rightarrow> (en, Inl e)
      | Inr False \<Rightarrow> (en, Inr (empty_result\<lparr>ar_revision := cd_revision d, ar_previous := previous,
          ar_stage := Some DrainedStage\<rparr>))
      | Inr True \<Rightarrow>
          (let g = client_prepare_generation (new_client_generation (cd_revision d) (cd_config d))
           in case client_health_check E g en of
                Some e \<Rightarrow> (en, Inl e)
              | None \<Rightarrow>
                  (case client_publish_generation g en of
                     (en1, Inl e) \<Rightarrow> (en1, Inl e)
                   | (en1, Inr old) \<Rightarrow>
                       (case client_drain_old E old (start_client_generation (length (ce_gens en)) en1) of
                          (en2, drained, complete) \<Rightarrow>
                            (en2, Inr \<lparr>ar_revision = cd_revision d, ar_previous = previous,
                               ar_stage = Some (if complete then DrainedStage else AppliedStage),
                               ar_changed = count_proxies g, ar_drained = drained,
                               ar_incomplete = \<not> complete\<rparr>)))))"

definition client_publish_apply :: "client_apply_error + apply_result \<Rightarrow> client_engine \<Rightarrow> client_engine option" where
  "client_publish_apply r en = map_option (\<lambda>h. en\<lparr>ce_hub := h\<rparr>) (hub_publish (apply_event r) (ce_hub en))"

text \<open>Only one application at a time; \<open>None\<close> is a panic of the event hub.\<close>

definition client_apply ::
  "client_apply_env \<Rightarrow> client_deployment \<Rightarrow> client_engine \<Rightarrow> (client_engine \<times> (client_apply_error + apply_result)) option" where
  "client_apply E d en =
     (if cd_revision d = 0 then Some (en, Inl (ApplyError ValidateStage NoRevision))
      else if ce_applying en then Some (en, Inl ErrApplyInProgress)
      else (case client_apply_machine E d (client_active_revision en) (en\<lparr>ce_applying := True\<rparr>) of
          (en1, r) \<Rightarrow>
            (case client_publish_apply r en1 of
               None \<Rightarrow> None
             | Some en2 \<Rightarrow> Some (en2\<lparr>ce_applying := False\<rparr>, r))))"

end
