(* ===== verification/Client_Work.thy ===== *)
theory Client_Work
  imports Client_Apply
begin

section \<open>Work connections of the client, interleaved with its life cycle (\<open>core/client/engine.go\<close>)\<close>

text \<open>
  Each proxy of a generation has a goroutine that takes a slot, dials the server, declares the
  connection, tracks it and serves it until it ends; a UDP proxy hands each connection to a
  goroutine of its own. \<open>Start\<close>, \<open>Apply\<close>, \<open>Shutdown\<close> and the abnormal end of the control session run
  beside them. A step is one section under the engine's lock or one effect on a connection.
\<close>

subsection \<open>Declaring a work connection\<close>

record client_work_request =
  cwr_client_id :: string
  cwr_token :: string
  cwr_run_id :: string
  cwr_proxy :: string
  cwr_target :: string

definition declare_work_conn ::
  "(client_work_request \<Rightarrow> bytes option) \<Rightarrow> (addr_port \<Rightarrow> string) \<Rightarrow> client_config \<Rightarrow> proxy_decl \<Rightarrow> bytes option" where
  "declare_work_conn marshal addr c p =
     (case marshal \<lparr>cwr_client_id = ccf_client_id c, cwr_token = ccf_token c, cwr_run_id = pd_name p,
          cwr_proxy = pd_name p, cwr_target = addr (pd_local p)\<rparr> of
        None \<Rightarrow> None
      | Some body \<Rightarrow> (case encode_v1_frame (bare_frame MessageTypeNewWorkConn body) of Inl _ \<Rightarrow> None | Inr raw \<Rightarrow> Some raw))"

subsection \<open>The sections of a worker\<close>

definition track_if_active :: "nat \<Rightarrow> conn \<Rightarrow> client_engine \<Rightarrow> client_engine \<times> bool" where
  "track_if_active i c en =
     (let g = ce_gens en ! i
      in if cg_stopping g then (en, False) else (set_client_gen i (g\<lparr>cg_conns := insert c (cg_conns g)\<rparr>) en, True))"

definition untrack_work :: "nat \<Rightarrow> conn \<Rightarrow> client_engine \<Rightarrow> client_engine" where
  "untrack_work i c en = set_client_gen i ((ce_gens en ! i)\<lparr>cg_conns := cg_conns (ce_gens en ! i) - {c}\<rparr>) en"

definition set_pool :: "nat \<Rightarrow> work_pool \<Rightarrow> client_engine \<Rightarrow> client_engine" where
  "set_pool i p en = set_client_gen i ((ce_gens en ! i)\<lparr>cg_pool := p\<rparr>) en"

definition become :: "client_worker \<Rightarrow> worker_pc \<Rightarrow> client_engine \<Rightarrow> client_engine" where
  "become w pc en = en\<lparr>ce_workers := add_mset (w\<lparr>wk_pc := pc\<rparr>) (ce_workers en - {#w#})\<rparr>"

text \<open>The end of a work connection, or of the attempt: the slot is given back; a loop goes on, the
  goroutine of a UDP connection ends.\<close>

definition end_work :: "client_worker \<Rightarrow> client_engine \<Rightarrow> client_engine" where
  "end_work w en =
     (let en1 = set_pool (wk_gen w) (pool_release (pd_name (wk_proxy w)) (cg_pool (ce_gens en ! wk_gen w))) en
      in if wk_loop w then become w WorkerTop en1 else en1\<lparr>ce_workers := ce_workers en1 - {#w#}\<rparr>)"

text \<open>A slot was taken: a stream loop dials, a UDP loop starts a goroutine that does.\<close>

definition begin_work :: "client_worker \<Rightarrow> work_pool \<Rightarrow> client_engine \<Rightarrow> client_engine" where
  "begin_work w p en =
     (let en1 = set_pool (wk_gen w) p en
      in if wk_type w = ProxyTypeUDP
         then en1\<lparr>ce_workers := add_mset (w\<lparr>wk_loop := False, wk_pc := WorkerDialing\<rparr>) (ce_workers en1)\<rparr>
         else become w WorkerDialing en1)"

definition dialed_work :: "client_worker \<Rightarrow> conn \<Rightarrow> client_engine \<Rightarrow> client_engine" where
  "dialed_work w c en = become w (WorkerDeclaring c) (en\<lparr>ce_used := insert c (ce_used en)\<rparr>)"

definition declared_work :: "client_worker \<Rightarrow> conn \<Rightarrow> client_engine \<Rightarrow> client_engine" where
  "declared_work w c en =
     (case track_if_active (wk_gen w) c en of
        (en1, True) \<Rightarrow> become w (WorkerServing c) en1
      | (en1, False) \<Rightarrow> end_work w (close_client_conn c en1))"

definition served_work :: "client_worker \<Rightarrow> conn \<Rightarrow> client_engine \<Rightarrow> client_engine" where
  "served_work w c en = end_work w (close_client_conn c (untrack_work (wk_gen w) c en))"

definition receive_bytes :: "conn \<Rightarrow> int \<Rightarrow> client_engine \<Rightarrow> client_engine" where
  "receive_bytes c n en = en\<lparr>ce_received := gm_set c (conn_received c en + n) (ce_received en)\<rparr>"

inductive work_step :: "client_engine \<Rightarrow> client_engine \<Rightarrow> bool" where
  loop_ends: "w \<in># ce_workers en \<Longrightarrow> wk_pc w = WorkerTop \<Longrightarrow> cg_stop_ch (ce_gens en ! wk_gen w) \<Longrightarrow>
    work_step en (en\<lparr>ce_workers := ce_workers en - {#w#}\<rparr>)"
| pool_full: "w \<in># ce_workers en \<Longrightarrow> wk_pc w = WorkerTop \<Longrightarrow>
    pool_acquire False (pd_name (wk_proxy w)) (cg_pool (ce_gens en ! wk_gen w)) = (p, Inl e) \<Longrightarrow>
    work_step en (set_pool (wk_gen w) p en)"
| slot_taken: "w \<in># ce_workers en \<Longrightarrow> wk_pc w = WorkerTop \<Longrightarrow>
    pool_acquire False (pd_name (wk_proxy w)) (cg_pool (ce_gens en ! wk_gen w)) = (p, Inr s) \<Longrightarrow>
    work_step en (begin_work w p en)"
| dial_failed: "w \<in># ce_workers en \<Longrightarrow> wk_pc w = WorkerDialing \<Longrightarrow> work_step en (end_work w en)"
| dialed: "w \<in># ce_workers en \<Longrightarrow> wk_pc w = WorkerDialing \<Longrightarrow> c \<notin> ce_used en \<Longrightarrow> work_step en (dialed_work w c en)"
| undeclared: "w \<in># ce_workers en \<Longrightarrow> wk_pc w = WorkerDeclaring c \<Longrightarrow>
    work_step en (end_work w (close_client_conn c en))"
| declared: "w \<in># ce_workers en \<Longrightarrow> wk_pc w = WorkerDeclaring c \<Longrightarrow> work_step en (declared_work w c en)"
| received: "w \<in># ce_workers en \<Longrightarrow> wk_pc w = WorkerServing c \<Longrightarrow> c \<notin> ce_closed en \<Longrightarrow> 0 < n \<Longrightarrow>
    work_step en (receive_bytes c n en)"
| served: "w \<in># ce_workers en \<Longrightarrow> wk_pc w = WorkerServing c \<Longrightarrow> work_step en (served_work w c en)"

subsection \<open>The life cycle\<close>

datatype client_start_pc = CStartIdle | CStartClaimed | CStartReady conn string | CStartCommitted nat

text \<open>A call of \<open>Shutdown\<close>: the stop mark is set; the active generation is marked; its idle connections
  are closed one after the other; the control connection is closed; the wait.\<close>

datatype client_stop_pc =
    CStopIdle
  | CStopTaken "nat option" "(conn \<times> string) option"
  | CStopMarked nat "(conn \<times> string) option"
  | CStopSweep nat "conn list" "(conn \<times> string) option"
  | CStopControl "(conn \<times> string) option"
  | CStopWaiting

datatype client_apply_pc =
    CApplyIdle
  | CApplyEntered client_deployment
  | CApplyValid client_deployment
  | CApplyReady client_gen
  | CApplyPublished "nat option" nat
  | CApplyStarted "nat option"
  | CApplyMarked nat
  | CApplySweep nat "conn list"
  | CApplyDraining nat

type_synonym client_life = "client_engine \<times> client_start_pc \<times> client_stop_pc \<times> client_apply_pc"

definition apply_finished :: "client_engine \<Rightarrow> client_engine" where
  "apply_finished en = en\<lparr>ce_applying := False\<rparr>"

inductive life_move :: "client_apply_env \<Rightarrow> client_life \<Rightarrow> client_life \<Rightarrow> bool" for E where
  work: "work_step en en' \<Longrightarrow> life_move E (en, s, p, a) (en', s, p, a)"
| abnormal: "client_fail_abnormal cause en = Some en' \<Longrightarrow> ce_control en \<noteq> None \<Longrightarrow> life_move E (en, s, p, a) (en', s, p, a)"
| start_claim: "claim_client_start en = (en', None) \<Longrightarrow> life_move E (en, CStartIdle, p, a) (en', CStartClaimed, p, a)"
| start_failed: "c = None \<or> (\<exists>x. c = Some x \<and> x \<notin> ce_used en) \<Longrightarrow> client_connect L c en = (en', Inl e) \<Longrightarrow>
    life_move E (en, CStartClaimed, p, a) (en', CStartIdle, p, a)"
| start_connected: "c \<notin> ce_used en \<Longrightarrow> client_connect L (Some c) en = (en', Inr (c', r)) \<Longrightarrow>
    life_move E (en, CStartClaimed, p, a) (en', CStartReady c' r, p, a)"
| start_committed: "life_move E (en, CStartReady c r, p, a)
    (commit_client_running c r (new_client_generation 0 (ce_config en)) en, CStartCommitted (length (ce_gens en)), p, a)"
| start_running: "life_move E (en, CStartCommitted i, p, a) (start_client_generation i en, CStartIdle, p, a)"
| stop_begin: "\<not> ce_stop_once en \<Longrightarrow>
    life_move E (en, s, CStopIdle, a) (client_mark_stopped en, s, CStopTaken (ce_active en) (ce_control en), a)"
| stop_again: "ce_stop_once en \<Longrightarrow> life_move E (en, s, CStopIdle, a) (en, s, CStopWaiting, a)"
| stop_empty: "life_move E (en, s, CStopTaken None k, a) (en, s, CStopControl k, a)"
| stop_mark: "life_move E (en, s, CStopTaken (Some i) k, a) (gen_stop_mark i en, s, CStopMarked i k, a)"
| stop_signal: "set cs = cg_conns (ce_gens en ! i) \<Longrightarrow>
    life_move E (en, s, CStopMarked i k, a) (gen_stop_signal i en, s, CStopSweep i cs k, a)"
| stop_sweep: "life_move E (en, s, CStopSweep i (c # cs) k, a) (close_if_idle c en, s, CStopSweep i cs k, a)"
| stop_swept: "life_move E (en, s, CStopSweep i [] k, a) (gen_cancel i en, s, CStopControl k, a)"
| stop_control: "life_move E (en, s, CStopControl k, a) (close_control k en, s, CStopWaiting, a)"
| stop_cut: "client_wait_drained d en = (en', False) \<Longrightarrow> life_move E (en, s, CStopWaiting, a) (en', s, CStopIdle, a)"
| stop_done: "client_close_done en = Some en' \<Longrightarrow> life_move E (en, s, CStopWaiting, a) (en', s, CStopIdle, a)"
| apply_enter: "cd_revision d \<noteq> 0 \<Longrightarrow> \<not> ce_applying en \<Longrightarrow>
    life_move E (en, s, p, CApplyIdle) (en\<lparr>ce_applying := True\<rparr>, s, p, CApplyEntered d)"
| apply_settled: "client_apply_validate d en \<noteq> Inr True \<Longrightarrow>
    life_move E (en, s, p, CApplyEntered d) (apply_finished en, s, p, CApplyIdle)"
| apply_valid: "client_apply_validate d en = Inr True \<Longrightarrow>
    life_move E (en, s, p, CApplyEntered d) (en, s, p, CApplyValid d)"
| apply_unhealthy: "g = client_prepare_generation (new_client_generation (cd_revision d) (cd_config d)) \<Longrightarrow>
    client_health_check E g en = Some e \<Longrightarrow>
    life_move E (en, s, p, CApplyValid d) (apply_finished en, s, p, CApplyIdle)"
| apply_ready: "g = client_prepare_generation (new_client_generation (cd_revision d) (cd_config d)) \<Longrightarrow>
    client_health_check E g en = None \<Longrightarrow> life_move E (en, s, p, CApplyValid d) (en, s, p, CApplyReady g)"
| apply_refused: "client_publish_generation g en = (en', Inl e) \<Longrightarrow>
    life_move E (en, s, p, CApplyReady g) (apply_finished en', s, p, CApplyIdle)"
| apply_published: "client_publish_generation g en = (en', Inr old) \<Longrightarrow>
    life_move E (en, s, p, CApplyReady g) (en', s, p, CApplyPublished old (length (ce_gens en)))"
| apply_started: "life_move E (en, s, p, CApplyPublished old i) (start_client_generation i en, s, p, CApplyStarted old)"
| apply_first: "life_move E (en, s, p, CApplyStarted None) (apply_finished en, s, p, CApplyIdle)"
| apply_mark: "life_move E (en, s, p, CApplyStarted (Some i)) (gen_stop_mark i en, s, p, CApplyMarked i)"
| apply_signal: "set cs = cg_conns (ce_gens en ! i) \<Longrightarrow>
    life_move E (en, s, p, CApplyMarked i) (gen_stop_signal i en, s, p, CApplySweep i cs)"
| apply_sweep: "life_move E (en, s, p, CApplySweep i (c # cs)) (close_if_idle c en, s, p, CApplySweep i cs)"
| apply_swept: "life_move E (en, s, p, CApplySweep i []) (en, s, p, CApplyDraining i)"
| apply_drained: "gen_wait_drained i (ca_drain E) en = (en', b) \<Longrightarrow>
    life_move E (en, s, p, CApplyDraining i) (apply_finished en', s, p, CApplyIdle)"

definition client_begin :: "client_config \<Rightarrow> client_life" where
  "client_begin c = (new_client c, CStartIdle, CStopIdle, CApplyIdle)"

end
