(* ===== verification/Client_Laws.thy ===== *)
theory Client_Laws
  imports Client_Work
begin

section \<open>Invariants of the client\<close>

lemma client_gens_set [simp]: "ce_gens (set_client_gen i g en) = (ce_gens en)[i := g]"
  by (simp add: set_client_gen_def)

lemma client_set_gen_same [simp]:
  "ce_workers (set_client_gen i g en) = ce_workers en" "ce_received (set_client_gen i g en) = ce_received en"
  "ce_used (set_client_gen i g en) = ce_used en" "ce_closed (set_client_gen i g en) = ce_closed en"
  "conn_received c (set_client_gen i g en) = conn_received c en"
  by (simp_all add: set_client_gen_def conn_received_def)

lemma client_set_workers_same [simp]:
  "conn_received c (en\<lparr>ce_workers := ws\<rparr>) = conn_received c en"
  "conn_received c (en\<lparr>ce_closed := cs\<rparr>) = conn_received c en"
  "conn_received c (en\<lparr>ce_used := us\<rparr>) = conn_received c en"
  by (simp_all add: conn_received_def)

lemma nth_update_at: "j < length xs \<Longrightarrow> xs[i := x] ! j = (if i = j then x else xs ! j)"
  by (cases "i < length xs") (simp_all add: nth_list_update list_update_beyond)

subsection \<open>Slots of the pools\<close>

lemma acquire_in_use:
  assumes "pool_acquire False q p = (p', Inr s)"
  shows "pool_in_use r p' = pool_in_use r p + (if r = q then 1 else 0)" and "wp_limit p' = wp_limit p"
    and "pool_in_use q p < wp_limit p"
  using assms by (auto simp: pool_acquire_def pool_in_use_def split: if_splits)

lemma acquire_full:
  assumes "pool_acquire False q p = (p', Inl e)"
  shows "pool_in_use r p' = pool_in_use r p" and "wp_limit p' = wp_limit p"
  using assms by (auto simp: pool_acquire_def pool_in_use_def split: if_splits)

lemma release_in_use:
  assumes "0 < pool_in_use q p"
  shows "pool_in_use r (pool_release q p) = pool_in_use r p - (if r = q then 1 else 0)"
    and "wp_limit (pool_release q p) = wp_limit p"
  using assms by (auto simp: pool_release_def pool_in_use_def Let_def)

definition slot_of :: "nat \<Rightarrow> string \<Rightarrow> client_worker \<Rightarrow> bool" where
  "slot_of i q w \<longleftrightarrow> wk_gen w = i \<and> pd_name (wk_proxy w) = q \<and> wk_pc w \<noteq> WorkerTop"

definition slots_held :: "nat \<Rightarrow> string \<Rightarrow> client_worker multiset \<Rightarrow> nat" where
  "slots_held i q ws = size (filter_mset (slot_of i q) ws)"

lemma slots_held_simps [simp]:
  "slots_held i q {#} = 0"
  "slots_held i q (add_mset w ws) = (if slot_of i q w then Suc (slots_held i q ws) else slots_held i q ws)"
  "slots_held i q (ws + vs) = slots_held i q ws + slots_held i q vs"
  by (simp_all add: slots_held_def)

definition pools_ok :: "client_engine \<Rightarrow> bool" where
  "pools_ok en \<longleftrightarrow> (\<forall>i < length (ce_gens en). wp_limit (cg_pool (ce_gens en ! i)) = ccf_pool_size (cg_config (ce_gens en ! i)) \<and>
     (\<forall>q. pool_in_use q (cg_pool (ce_gens en ! i)) = int (slots_held i q (ce_workers en)) \<and>
       (slots_held i q (ce_workers en) = 0 \<or>
        int (slots_held i q (ce_workers en)) \<le> ccf_pool_size (cg_config (ce_gens en ! i)))))"

definition worker_conn :: "client_worker \<Rightarrow> conn option" where
  "worker_conn w = (case wk_pc w of WorkerDeclaring c \<Rightarrow> Some c | WorkerServing c \<Rightarrow> Some c | _ \<Rightarrow> None)"

definition conn_owners :: "conn \<Rightarrow> client_worker multiset \<Rightarrow> nat" where
  "conn_owners c ws = size {#w \<in># ws. worker_conn w = Some c#}"

lemma conn_owners_simps [simp]:
  "conn_owners c {#} = 0"
  "conn_owners c (add_mset w ws) = (if worker_conn w = Some c then Suc (conn_owners c ws) else conn_owners c ws)"
  "conn_owners c (ws + vs) = conn_owners c ws + conn_owners c vs"
  by (simp_all add: conn_owners_def)

definition serves :: "nat \<Rightarrow> conn \<Rightarrow> client_worker multiset \<Rightarrow> bool" where
  "serves i c ws \<longleftrightarrow> (\<exists>w \<in># ws. wk_gen w = i \<and> wk_pc w = WorkerServing c)"

lemma serves_simps [simp]:
  "\<not> serves i c {#}"
  "serves i c (add_mset w ws) \<longleftrightarrow> wk_gen w = i \<and> wk_pc w = WorkerServing c \<or> serves i c ws"
  "serves i c (ws + vs) \<longleftrightarrow> serves i c ws \<or> serves i c vs"
  by (auto simp: serves_def)

lemma filter_none: "(\<forall>w \<in># ws. \<not> P w) \<Longrightarrow> filter_mset P ws = {#}"
  by (induction ws) auto

lemma serves_owner: "serves i c ws \<Longrightarrow> 0 < conn_owners c ws"
  by (induction ws) (auto simp: worker_conn_def)

definition conns_ok :: "client_engine \<Rightarrow> bool" where
  "conns_ok en \<longleftrightarrow>
     (\<forall>w \<in># ce_workers en. wk_gen w < length (ce_gens en)) \<and>
     (\<forall>i < length (ce_gens en). \<forall>c. c \<in> cg_conns (ce_gens en ! i) \<longleftrightarrow> serves i c (ce_workers en)) \<and>
     (\<forall>c. conn_owners c (ce_workers en) \<le> (if c \<in> ce_used en then 1 else 0)) \<and>
     (\<forall>c. 0 \<le> conn_received c en)"

lemma proxy_workers_top: "w \<in># proxy_workers i g \<Longrightarrow> wk_gen w = i \<and> wk_pc w = WorkerTop"
  by (auto simp: proxy_workers_def)

lemma proxy_workers_idle [simp]:
  "slots_held j q (proxy_workers i g) = 0" "conn_owners c (proxy_workers i g) = 0" "\<not> serves j c (proxy_workers i g)"
proof -
  have "filter_mset (slot_of j q) (proxy_workers i g) = {#}" by (rule filter_none) (auto simp: slot_of_def dest: proxy_workers_top)
  then show "slots_held j q (proxy_workers i g) = 0" by (simp add: slots_held_def)
  have "filter_mset (\<lambda>w. worker_conn w = Some c) (proxy_workers i g) = {#}"
    by (rule filter_none) (auto simp: worker_conn_def dest: proxy_workers_top)
  then show "conn_owners c (proxy_workers i g) = 0" by (simp add: conn_owners_def)
  show "\<not> serves j c (proxy_workers i g)" by (auto simp: serves_def dest: proxy_workers_top)
qed

subsection \<open>One worker's step\<close>

text \<open>The bag of workers with one taken out.\<close>

lemma take_worker: "w \<in># ce_workers en \<Longrightarrow> \<exists>ws. ce_workers en = add_mset w ws"
  by (metis mset_add)

lemma become_workers: "ce_workers en = add_mset w ws \<Longrightarrow> ce_workers (become w pc en) = add_mset (w\<lparr>wk_pc := pc\<rparr>) ws"
  by (simp add: become_def)

lemma become_same [simp]:
  "ce_gens (become w pc en) = ce_gens en" "ce_used (become w pc en) = ce_used en"
  "ce_closed (become w pc en) = ce_closed en" "conn_received c (become w pc en) = conn_received c en"
  by (simp_all add: become_def)

lemma set_pool_same [simp]:
  "ce_workers (set_pool i p en) = ce_workers en" "ce_used (set_pool i p en) = ce_used en"
  "ce_closed (set_pool i p en) = ce_closed en" "conn_received c (set_pool i p en) = conn_received c en"
  "length (ce_gens (set_pool i p en)) = length (ce_gens en)"
  by (simp_all add: set_pool_def)

lemma set_pool_nth:
  "j < length (ce_gens en) \<Longrightarrow>
   ce_gens (set_pool i p en) ! j = (if i = j then (ce_gens en ! j)\<lparr>cg_pool := p\<rparr> else ce_gens en ! j)"
  by (simp add: set_pool_def nth_update_at)

text \<open>Ending the work of a worker.\<close>

definition rest_of_work :: "client_worker \<Rightarrow> client_worker multiset \<Rightarrow> client_worker multiset" where
  "rest_of_work w ws = (if wk_loop w then add_mset (w\<lparr>wk_pc := WorkerTop\<rparr>) ws else ws)"

lemma rest_of_work_simps [simp]:
  "slots_held i q (rest_of_work w ws) = slots_held i q ws" "conn_owners c (rest_of_work w ws) = conn_owners c ws"
  "serves i c (rest_of_work w ws) = serves i c ws"
  by (auto simp: rest_of_work_def slot_of_def worker_conn_def)

lemma rest_of_work_gen: "v \<in># rest_of_work w ws \<Longrightarrow> v \<in># ws \<or> wk_gen v = wk_gen w"
  by (auto simp: rest_of_work_def split: if_splits)

lemma end_work_workers: "ce_workers en = add_mset w ws \<Longrightarrow> ce_workers (end_work w en) = rest_of_work w ws"
  by (simp add: end_work_def Let_def become_def rest_of_work_def)

lemma end_work_same [simp]:
  "ce_used (end_work w en) = ce_used en" "ce_closed (end_work w en) = ce_closed en"
  "conn_received c (end_work w en) = conn_received c en" "length (ce_gens (end_work w en)) = length (ce_gens en)"
  by (simp_all add: end_work_def Let_def)

lemma end_work_nth:
  "j < length (ce_gens en) \<Longrightarrow> ce_gens (end_work w en) ! j =
     (if wk_gen w = j then (ce_gens en ! j)\<lparr>cg_pool := pool_release (pd_name (wk_proxy w)) (cg_pool (ce_gens en ! j))\<rparr>
      else ce_gens en ! j)"
  by (simp add: end_work_def Let_def set_pool_nth)

lemma pools_ok_end:
  assumes "pools_ok en" and "ce_workers en = add_mset w ws" and "wk_pc w \<noteq> WorkerTop" and "wk_gen w < length (ce_gens en)"
  shows "pools_ok (end_work w en)"
proof -
  let ?q = "pd_name (wk_proxy w)" and ?g = "ce_gens en ! wk_gen w"
  have held: "slots_held i q (ce_workers en) = slots_held i q ws + (if wk_gen w = i \<and> ?q = q then 1 else 0)" for i q
    using assms(2,3) by (simp add: slot_of_def)
  have "0 < pool_in_use ?q (cg_pool ?g)" using assms(1,4) held [of "wk_gen w" ?q] by (auto simp: pools_ok_def)
  note rel = release_in_use [OF this]
  have "wp_limit (cg_pool (ce_gens (end_work w en) ! i)) = ccf_pool_size (cg_config (ce_gens (end_work w en) ! i)) \<and>
      pool_in_use q (cg_pool (ce_gens (end_work w en) ! i)) = int (slots_held i q ws) \<and>
      (slots_held i q ws = 0 \<or> int (slots_held i q ws) \<le> ccf_pool_size (cg_config (ce_gens (end_work w en) ! i)))"
    if i: "i < length (ce_gens en)" for i q
  proof -
    have old: "wp_limit (cg_pool (ce_gens en ! i)) = ccf_pool_size (cg_config (ce_gens en ! i))"
      "pool_in_use q (cg_pool (ce_gens en ! i)) = int (slots_held i q (ce_workers en))"
      "slots_held i q (ce_workers en) = 0 \<or> int (slots_held i q (ce_workers en)) \<le> ccf_pool_size (cg_config (ce_gens en ! i))"
      using assms(1) i unfolding pools_ok_def by blast+
    then show ?thesis using rel(1) [of q] rel(2) held [of i q] by (auto simp: end_work_nth [OF i] split: if_splits)
  qed
  then show ?thesis by (simp add: pools_ok_def end_work_workers [OF assms(2)])
qed

lemma begin_work_gens [simp]: "ce_gens (begin_work w p en) = ce_gens (set_pool (wk_gen w) p en)"
  by (simp add: begin_work_def Let_def)

lemma pools_ok_begin:
  assumes "pools_ok en" and "ce_workers en = add_mset w ws" and "wk_pc w = WorkerTop" and "wk_gen w < length (ce_gens en)"
    and "pool_acquire False (pd_name (wk_proxy w)) (cg_pool (ce_gens en ! wk_gen w)) = (p, Inr s)"
  shows "pools_ok (begin_work w p en)"
proof -
  let ?q = "pd_name (wk_proxy w)" and ?g = "ce_gens en ! wk_gen w"
  have held: "slots_held i q (ce_workers (begin_work w p en)) =
      slots_held i q (ce_workers en) + (if wk_gen w = i \<and> ?q = q then 1 else 0)" for i q
    using assms(2,3) by (simp add: begin_work_def Let_def become_def slot_of_def)
  have gens: "ce_gens (begin_work w p en) = ce_gens (set_pool (wk_gen w) p en)"
    by (simp add: begin_work_def Let_def)
  note acq = acquire_in_use [OF assms(5)]
  have room: "int (slots_held (wk_gen w) ?q (ce_workers en)) < ccf_pool_size (cg_config ?g)"
    using assms(1,4) acq(3) by (auto simp: pools_ok_def)
  show ?thesis unfolding pools_ok_def gens held set_pool_same(5)
    using assms(1) acq(1,2) room by (auto simp: pools_ok_def set_pool_nth)
qed

lemma pools_ok_same:
  assumes "pools_ok en" and "length (ce_gens en') = length (ce_gens en)"
    and "\<And>i. i < length (ce_gens en) \<Longrightarrow> cg_pool (ce_gens en' ! i) = cg_pool (ce_gens en ! i) \<and>
      cg_config (ce_gens en' ! i) = cg_config (ce_gens en ! i)"
    and "\<And>i q. slots_held i q (ce_workers en') = slots_held i q (ce_workers en)"
  shows "pools_ok en'"
  using assms by (simp add: pools_ok_def)

lemma conns_okD:
  assumes "conns_ok en"
  shows "w \<in># ce_workers en \<Longrightarrow> wk_gen w < length (ce_gens en)"
    and "i < length (ce_gens en) \<Longrightarrow> c \<in> cg_conns (ce_gens en ! i) \<longleftrightarrow> serves i c (ce_workers en)"
    and "conn_owners c (ce_workers en) \<le> 1" and "c \<notin> ce_used en \<Longrightarrow> conn_owners c (ce_workers en) = 0"
    and "0 \<le> conn_received c en"
proof -
  have own: "conn_owners c (ce_workers en) \<le> (if c \<in> ce_used en then 1 else 0)"
    using assms unfolding conns_ok_def by blast
  from own show "conn_owners c (ce_workers en) \<le> 1" by (simp split: if_splits)
  from own show "c \<notin> ce_used en \<Longrightarrow> conn_owners c (ce_workers en) = 0" by simp
  show "w \<in># ce_workers en \<Longrightarrow> wk_gen w < length (ce_gens en)"
    "i < length (ce_gens en) \<Longrightarrow> c \<in> cg_conns (ce_gens en ! i) \<longleftrightarrow> serves i c (ce_workers en)" "0 \<le> conn_received c en"
    using assms unfolding conns_ok_def by blast+
qed

lemma conns_okI:
  assumes "\<And>w. w \<in># ce_workers en \<Longrightarrow> wk_gen w < length (ce_gens en)"
    and "\<And>i c. i < length (ce_gens en) \<Longrightarrow> c \<in> cg_conns (ce_gens en ! i) \<longleftrightarrow> serves i c (ce_workers en)"
    and "\<And>c. conn_owners c (ce_workers en) \<le> (if c \<in> ce_used en then 1 else 0)" and "\<And>c. 0 \<le> conn_received c en"
  shows "conns_ok en"
  using assms unfolding conns_ok_def by blast

text \<open>A worker that ends leaves its connection, which must not be tracked any more.\<close>

lemma conns_ok_end:
  assumes "conns_ok en" and "ce_workers en = add_mset w ws" and "\<And>c. wk_pc w \<noteq> WorkerServing c"
  shows "conns_ok (end_work w en)"
proof (rule conns_okI)
  note ok = conns_okD [OF assms(1)]
  note ws = end_work_workers [OF assms(2)]
  show "wk_gen v < length (ce_gens (end_work w en))" if "v \<in># ce_workers (end_work w en)" for v
    using that ok(1) [of v] ok(1) [of w] assms(2) by (auto simp: ws dest: rest_of_work_gen)
  show "c \<in> cg_conns (ce_gens (end_work w en) ! i) \<longleftrightarrow> serves i c (ce_workers (end_work w en))"
    if "i < length (ce_gens (end_work w en))" for i c
    using that ok(2) [of i c] assms(2,3) by (simp add: ws end_work_nth)
  show "conn_owners c (ce_workers (end_work w en)) \<le> (if c \<in> ce_used (end_work w en) then 1 else 0)" for c
    using ok(3) [of c] ok(4) [of c] assms(2) by (auto simp: ws split: if_splits)
  show "0 \<le> conn_received c (end_work w en)" for c using ok(5) by simp
qed

lemma close_client_conn_same [simp]:
  "ce_gens (close_client_conn c en) = ce_gens en" "ce_workers (close_client_conn c en) = ce_workers en"
  "ce_used (close_client_conn c en) = ce_used en" "conn_received d (close_client_conn c en) = conn_received d en"
  "ce_closed (close_client_conn c en) = insert c (ce_closed en)"
  by (simp_all add: close_client_conn_def)

lemma ok_close_client_conn [simp]:
  "pools_ok (close_client_conn c en) = pools_ok en" "conns_ok (close_client_conn c en) = conns_ok en"
  by (simp_all add: pools_ok_def conns_ok_def)

text \<open>Serving and untracking.\<close>

lemma untrack_work_same [simp]:
  "ce_workers (untrack_work i c en) = ce_workers en" "ce_used (untrack_work i c en) = ce_used en"
  "ce_closed (untrack_work i c en) = ce_closed en" "conn_received d (untrack_work i c en) = conn_received d en"
  "length (ce_gens (untrack_work i c en)) = length (ce_gens en)"
  by (simp_all add: untrack_work_def)

lemma untrack_work_nth:
  "j < length (ce_gens en) \<Longrightarrow> ce_gens (untrack_work i c en) ! j =
     (if i = j then (ce_gens en ! j)\<lparr>cg_conns := cg_conns (ce_gens en ! j) - {c}\<rparr> else ce_gens en ! j)"
  by (simp add: untrack_work_def nth_update_at)

lemma conns_ok_served:
  assumes "conns_ok en" and "ce_workers en = add_mset w ws" and "wk_pc w = WorkerServing c"
  shows "conns_ok (served_work w c en)"
proof (rule conns_okI)
  note ok = conns_okD [OF assms(1)]
  let ?en = "close_client_conn c (untrack_work (wk_gen w) c en)"
  have eq: "served_work w c en = end_work w ?en" by (simp add: served_work_def)
  have "ce_workers ?en = add_mset w ws" using assms(2) by simp
  note ws = end_work_workers [OF this]
  have wc: "worker_conn w = Some c" using assms(3) by (simp add: worker_conn_def)
  have "conn_owners c ws = 0" using ok(3) [of c] assms(2) wc by simp
  then have alone: "\<not> serves i c ws" for i using serves_owner [of i c ws] by auto
  show "wk_gen v < length (ce_gens (served_work w c en))" if "v \<in># ce_workers (served_work w c en)" for v
    using that ok(1) [of v] ok(1) [of w] assms(2) by (auto simp: eq ws dest: rest_of_work_gen)
  show "d \<in> cg_conns (ce_gens (served_work w c en) ! i) \<longleftrightarrow> serves i d (ce_workers (served_work w c en))"
    if "i < length (ce_gens (served_work w c en))" for i d
    using that ok(2) [of i d] assms(2,3) alone by (auto simp: eq ws end_work_nth untrack_work_nth)
  show "conn_owners d (ce_workers (served_work w c en)) \<le> (if d \<in> ce_used (served_work w c en) then 1 else 0)" for d
    using ok(3) [of d] ok(4) [of d] assms(2) by (auto simp: eq ws split: if_splits)
  show "0 \<le> conn_received d (served_work w c en)" for d using ok(5) by (simp add: eq)
qed

lemma track_if_active_cases:
  assumes "track_if_active i c en = (en', b)"
  shows "if b then \<not> cg_stopping (ce_gens en ! i) \<and>
      en' = set_client_gen i ((ce_gens en ! i)\<lparr>cg_conns := insert c (cg_conns (ce_gens en ! i))\<rparr>) en
    else cg_stopping (ce_gens en ! i) \<and> en' = en"
  using assms by (auto simp: track_if_active_def Let_def split: if_splits)

lemma conns_ok_declared:
  assumes "conns_ok en" and "ce_workers en = add_mset w ws" and "wk_pc w = WorkerDeclaring c"
  shows "conns_ok (declared_work w c en)"
proof -
  obtain en1 b where t: "track_if_active (wk_gen w) c en = (en1, b)" by fastforce
  note ok = conns_okD [OF assms(1)]
  show ?thesis
  proof (cases b)
    case False
    with track_if_active_cases [OF t] have "en1 = en" by simp
    then have "declared_work w c en = end_work w (close_client_conn c en)" using t False by (simp add: declared_work_def)
    then show ?thesis using conns_ok_end [of "close_client_conn c en" w ws] assms by simp
  next
    case True
    then have eq: "declared_work w c en = become w (WorkerServing c) en1" using t by (simp add: declared_work_def)
    have en1: "en1 = set_client_gen (wk_gen w) ((ce_gens en ! wk_gen w)\<lparr>cg_conns := insert c (cg_conns (ce_gens en ! wk_gen w))\<rparr>) en"
      using track_if_active_cases [OF t] True by simp
    have ws: "ce_workers (become w (WorkerServing c) en1) = add_mset (w\<lparr>wk_pc := WorkerServing c\<rparr>) ws"
      by (rule become_workers) (simp add: en1 assms(2))
    have wc: "worker_conn w = Some c" "worker_conn (w\<lparr>wk_pc := WorkerServing c\<rparr>) = Some c"
      using assms(3) by (simp_all add: worker_conn_def)
    show ?thesis unfolding eq
    proof (rule conns_okI)
      show "wk_gen v < length (ce_gens (become w (WorkerServing c) en1))"
        if "v \<in># ce_workers (become w (WorkerServing c) en1)" for v
        using that ok(1) [of v] ok(1) [of w] assms(2) unfolding ws by (auto simp: en1)
      show "d \<in> cg_conns (ce_gens (become w (WorkerServing c) en1) ! i) \<longleftrightarrow>
          serves i d (ce_workers (become w (WorkerServing c) en1))"
        if "i < length (ce_gens (become w (WorkerServing c) en1))" for i d
        using that ok(2) [of i d] assms(2,3) unfolding ws by (auto simp: en1 nth_update_at)
      show "conn_owners d (ce_workers (become w (WorkerServing c) en1)) \<le>
          (if d \<in> ce_used (become w (WorkerServing c) en1) then 1 else 0)" for d
        using ok(3) [of d] ok(4) [of d] assms(2) wc unfolding ws by (auto simp: en1 split: if_splits)
      show "0 \<le> conn_received d (become w (WorkerServing c) en1)" for d using ok(5) by (simp add: en1)
    qed
  qed
qed

lemma pools_ok_become:
  assumes "pools_ok en" and "ce_workers en = add_mset w ws" and "wk_pc w \<noteq> WorkerTop" and "pc \<noteq> WorkerTop"
  shows "pools_ok (become w pc en)"
  by (rule pools_ok_same [OF assms(1)]) (use assms(2-4) in \<open>simp_all add: become_def slot_of_def\<close>)

lemma work_step_ok:
  assumes "work_step en en'" and "pools_ok en" and "conns_ok en"
  shows "pools_ok en' \<and> conns_ok en'"
  using assms
proof (induction rule: work_step.induct)
  case (loop_ends w en)
  obtain ws where ws: "ce_workers en = add_mset w ws" using take_worker [OF loop_ends(1)] by blast
  have "pools_ok (en\<lparr>ce_workers := ce_workers en - {#w#}\<rparr>)"
    by (rule pools_ok_same [OF loop_ends(4)]) (use ws loop_ends(2) in \<open>simp_all add: slot_of_def\<close>)
  moreover have "conns_ok (en\<lparr>ce_workers := ce_workers en - {#w#}\<rparr>)"
    using loop_ends(2,5) ws conns_okD [OF loop_ends(5)] by (intro conns_okI) (auto simp: worker_conn_def)
  ultimately show ?case ..
next
  case (pool_full w en p e)
  note full = acquire_full [OF pool_full(3)]
  have "pools_ok (set_pool (wk_gen w) p en)"
    using pool_full(4) full by (auto simp: pools_ok_def set_pool_nth)
  moreover have "conns_ok (set_pool (wk_gen w) p en)"
    using pool_full(5) by (auto simp: conns_ok_def set_pool_nth)
  ultimately show ?case ..
next
  case (slot_taken w en p s)
  obtain ws where ws: "ce_workers en = add_mset w ws" using take_worker [OF slot_taken(1)] by blast
  note ok = conns_okD [OF slot_taken(5)]
  have gen: "wk_gen w < length (ce_gens en)" by (rule ok(1) [OF slot_taken(1)])
  have "conns_ok (begin_work w p en)"
  proof (rule conns_okI)
    show "wk_gen v < length (ce_gens (begin_work w p en))" if "v \<in># ce_workers (begin_work w p en)" for v
      using that ok(1) [of v] gen ws unfolding begin_work_gens set_pool_same
      by (auto simp: begin_work_def Let_def become_def split: if_splits)
    show "c \<in> cg_conns (ce_gens (begin_work w p en) ! i) \<longleftrightarrow> serves i c (ce_workers (begin_work w p en))"
      if "i < length (ce_gens (begin_work w p en))" for i c
      using that ok(2) [of i c] ws slot_taken(2)
      by (auto simp: set_pool_nth begin_work_def Let_def become_def simp del: begin_work_gens split: if_splits)
    show "conn_owners c (ce_workers (begin_work w p en)) \<le> (if c \<in> ce_used (begin_work w p en) then 1 else 0)" for c
      using ok(3) [of c] ok(4) [of c] ws slot_taken(2)
      by (auto simp: begin_work_def Let_def become_def worker_conn_def split: if_splits)
    show "0 \<le> conn_received c (begin_work w p en)" for c using ok(5) by (simp add: begin_work_def Let_def)
  qed
  with pools_ok_begin [OF slot_taken(4) ws slot_taken(2) gen slot_taken(3)] show ?case ..
next
  case (dial_failed w en)
  obtain ws where ws: "ce_workers en = add_mset w ws" using take_worker [OF dial_failed(1)] by blast
  have gen: "wk_gen w < length (ce_gens en)" by (rule conns_okD(1) [OF dial_failed(4,1)])
  show ?case using pools_ok_end [OF dial_failed(3) ws _ gen] conns_ok_end [OF dial_failed(4) ws] dial_failed(2) by simp
next
  case (dialed w en c)
  obtain ws where ws: "ce_workers en = add_mset w ws" using take_worker [OF dialed(1)] by blast
  note ok = conns_okD [OF dialed(5)]
  let ?en = "en\<lparr>ce_used := insert c (ce_used en)\<rparr>"
  have "pools_ok ?en" using dialed(4) by (simp add: pools_ok_def)
  then have "pools_ok (dialed_work w c en)"
    unfolding dialed_work_def by (rule pools_ok_become) (use ws dialed(2) in simp_all)
  moreover have "conns_ok (dialed_work w c en)"
  proof (rule conns_okI)
    show "wk_gen v < length (ce_gens (dialed_work w c en))" if "v \<in># ce_workers (dialed_work w c en)" for v
      using that ok(1) [of v] ok(1) [of w] ws by (auto simp: dialed_work_def become_def)
    show "d \<in> cg_conns (ce_gens (dialed_work w c en) ! i) \<longleftrightarrow> serves i d (ce_workers (dialed_work w c en))"
      if "i < length (ce_gens (dialed_work w c en))" for i d
      using that ok(2) [of i d] ws dialed(2) by (auto simp: dialed_work_def become_def)
    show "conn_owners d (ce_workers (dialed_work w c en)) \<le> (if d \<in> ce_used (dialed_work w c en) then 1 else 0)" for d
      using ok(3) [of d] ok(4) [of d] ws dialed(2,3)
      by (auto simp: dialed_work_def become_def worker_conn_def split: if_splits)
    show "0 \<le> conn_received d (dialed_work w c en)" for d using ok(5) by (simp add: dialed_work_def)
  qed
  ultimately show ?case ..
next
  case (undeclared w en c)
  obtain ws where ws: "ce_workers en = add_mset w ws" using take_worker [OF undeclared(1)] by blast
  have gen: "wk_gen w < length (ce_gens en)" by (rule conns_okD(1) [OF undeclared(4,1)])
  show ?case
    using pools_ok_end [of "close_client_conn c en" w ws] conns_ok_end [of "close_client_conn c en" w ws] ws gen undeclared(2-4)
    by simp
next
  case (declared w en c)
  obtain ws where ws: "ce_workers en = add_mset w ws" using take_worker [OF declared(1)] by blast
  have gen: "wk_gen w < length (ce_gens en)" by (rule conns_okD(1) [OF declared(4,1)])
  obtain en1 b where t: "track_if_active (wk_gen w) c en = (en1, b)" by fastforce
  have "pools_ok (declared_work w c en)"
  proof (cases b)
    case True
    have "pools_ok en1" using track_if_active_cases [OF t] True declared(3)
      by (auto simp: pools_ok_def nth_update_at)
    moreover have "ce_workers en1 = add_mset w ws" using track_if_active_cases [OF t] True ws by simp
    ultimately have "pools_ok (become w (WorkerServing c) en1)" by (rule pools_ok_become) (simp_all add: declared(2))
    then show ?thesis using t True by (simp add: declared_work_def)
  next
    case False
    then have "en1 = en" using track_if_active_cases [OF t] by simp
    then show ?thesis using pools_ok_end [of "close_client_conn c en" w ws] ws gen declared(2,3) t False
      by (simp add: declared_work_def)
  qed
  with conns_ok_declared [OF declared(4) ws declared(2)] show ?case by simp
next
  case (received w en c n)
  have "pools_ok (receive_bytes c n en)" using received(5) by (simp add: receive_bytes_def pools_ok_def)
  moreover have "conns_ok (receive_bytes c n en)"
    using received(4,6) by (auto simp: receive_bytes_def conns_ok_def conn_received_def)
  ultimately show ?case ..
next
  case (served w en c)
  obtain ws where ws: "ce_workers en = add_mset w ws" using take_worker [OF served(1)] by blast
  have gen: "wk_gen w < length (ce_gens en)" by (rule conns_okD(1) [OF served(4,1)])
  let ?en = "close_client_conn c (untrack_work (wk_gen w) c en)"
  have "pools_ok (untrack_work (wk_gen w) c en)" using served(3) by (auto simp: pools_ok_def untrack_work_nth)
  then have "pools_ok (end_work w ?en)"
    by (intro pools_ok_end) (use ws gen served(2) in simp_all)
  then show ?case using conns_ok_served [OF served(4) ws served(2)] by (simp add: served_work_def)
qed

end
