(* ===== verification/Client_Life.thy ===== *)
theory Client_Life
  imports Client_Laws
begin

section \<open>Invariants of the client's life cycle\<close>

text \<open>What a step of a worker leaves alone. A generation that is stopping tracks nothing new; closed
  connections stay closed and received data stays received.\<close>

definition settled :: "client_engine \<Rightarrow> conn \<Rightarrow> bool" where
  "settled en c \<longleftrightarrow> c \<in> ce_closed en \<or> conn_received c en \<noteq> 0"

definition gen_kept :: "client_gen \<Rightarrow> client_gen \<Rightarrow> bool" where
  "gen_kept g g' \<longleftrightarrow> cg_revision g' = cg_revision g \<and> cg_config g' = cg_config g \<and>
     (cg_stopping g \<longrightarrow> cg_stopping g' \<and> cg_conns g' \<subseteq> cg_conns g) \<and> (cg_stop_ch g \<longrightarrow> cg_stop_ch g') \<and>
     (cg_cancelled g \<longrightarrow> cg_cancelled g')"

lemma gen_kept_refl [simp]: "gen_kept g g"
  by (simp add: gen_kept_def)

definition life_fields :: "client_engine \<Rightarrow> client_state \<times> bool \<times> nat option \<times> nat \<times> bool \<times> (conn \<times> string) option" where
  "life_fields en = (ce_state en, ce_stop_once en, ce_active en, ce_last_good en, ce_applying en, ce_control en)"

definition gens_kept :: "client_engine \<Rightarrow> client_engine \<Rightarrow> bool" where
  "gens_kept en en' \<longleftrightarrow> length (ce_gens en') = length (ce_gens en) \<and>
     (\<forall>i < length (ce_gens en). gen_kept (ce_gens en ! i) (ce_gens en' ! i)) \<and>
     ce_closed en \<subseteq> ce_closed en' \<and> (\<forall>c. settled en c \<longrightarrow> settled en' c)"

definition life_kept :: "client_engine \<Rightarrow> client_engine \<Rightarrow> bool" where
  "life_kept en en' \<longleftrightarrow> life_fields en' = life_fields en \<and> gens_kept en en'"

lemma gens_kept_trans:
  assumes "gens_kept a b" and "gens_kept b c"
  shows "gens_kept a c"
  using assms unfolding gens_kept_def gen_kept_def by (auto 0 4)

lemma gens_kept_refl [simp]: "gens_kept en en"
  by (simp add: gens_kept_def)

lemma life_kept_trans:
  assumes "life_kept a b" and "life_kept b c"
  shows "life_kept a c"
  using assms gens_kept_trans by (auto simp: life_kept_def)

lemma life_kept_refl [simp]: "life_kept en en"
  by (simp add: life_kept_def)

lemma life_kept_same:
  assumes "life_fields en' = life_fields en" and "ce_gens en' = ce_gens en" and "ce_closed en \<subseteq> ce_closed en'"
    and "\<And>c. conn_received c en' = conn_received c en"
  shows "life_kept en en'"
  using assms by (auto simp: life_kept_def gens_kept_def settled_def)

lemma life_kept_set_gen:
  assumes "i < length (ce_gens en) \<Longrightarrow> gen_kept (ce_gens en ! i) g"
  shows "life_kept en (set_client_gen i g en)"
  using assms by (auto simp: life_kept_def gens_kept_def life_fields_def settled_def nth_update_at) (simp_all add: set_client_gen_def)

lemma life_kept_pool: "life_kept en (set_pool i p en)"
  unfolding set_pool_def by (rule life_kept_set_gen) (simp add: gen_kept_def)

lemma life_kept_become: "life_kept en (become w pc en)"
  by (rule life_kept_same) (simp_all add: life_fields_def become_def)

lemma life_kept_workers: "life_kept en (en\<lparr>ce_workers := ws\<rparr>)"
  by (rule life_kept_same) (simp_all add: life_fields_def)

lemma life_kept_close: "life_kept en (close_client_conn c en)"
  by (rule life_kept_same) (auto simp: life_fields_def close_client_conn_def)

lemma life_kept_end: "life_kept en (end_work w en)"
  unfolding end_work_def Let_def
  by (auto intro: life_kept_trans [OF life_kept_pool life_kept_become] life_kept_trans [OF life_kept_pool life_kept_workers])

lemma life_kept_untrack: "life_kept en (untrack_work i c en)"
  unfolding untrack_work_def by (rule life_kept_set_gen) (auto simp: gen_kept_def)

lemma life_kept_declared: "life_kept en (declared_work w c en)"
proof -
  obtain en1 b where t: "track_if_active (wk_gen w) c en = (en1, b)" by fastforce
  show ?thesis
  proof (cases b)
    case True
    let ?g = "(ce_gens en ! wk_gen w)\<lparr>cg_conns := insert c (cg_conns (ce_gens en ! wk_gen w))\<rparr>"
    have "\<not> cg_stopping (ce_gens en ! wk_gen w)" "en1 = set_client_gen (wk_gen w) ?g en"
      using track_if_active_cases [OF t] True by simp_all
    moreover from this(1) have "gen_kept (ce_gens en ! wk_gen w) ?g" by (simp add: gen_kept_def)
    ultimately have "life_kept en en1" using life_kept_set_gen by simp
    with t True show ?thesis by (auto simp: declared_work_def intro: life_kept_trans life_kept_become)
  next
    case False
    then have "en1 = en" using track_if_active_cases [OF t] by simp
    with t False show ?thesis by (auto simp: declared_work_def intro: life_kept_trans life_kept_close life_kept_end)
  qed
qed

lemma work_step_kept:
  assumes "work_step en en'" and "conns_ok en"
  shows "life_kept en en'"
  using assms
proof (induction rule: work_step.induct)
  case (slot_taken w en p s)
  then show ?case
    by (auto simp: begin_work_def Let_def intro: life_kept_trans [OF life_kept_pool life_kept_workers]
        life_kept_trans [OF life_kept_pool life_kept_become])
next
  case (dialed w en c)
  have "life_kept en (en\<lparr>ce_used := insert c (ce_used en)\<rparr>)" by (rule life_kept_same) (simp_all add: life_fields_def)
  then show ?case unfolding dialed_work_def by (rule life_kept_trans [OF _ life_kept_become])
next
  case (received w en c n)
  have nn: "0 \<le> conn_received d en" for d using conns_okD(5) [OF received(5)] .
  have rc: "conn_received d (receive_bytes c n en) = (if d = c then conn_received c en + n else conn_received d en)" for d
    by (simp add: receive_bytes_def conn_received_def)
  have "settled (receive_bytes c n en) d" if "settled en d" for d
  proof (cases "d = c")
    case True
    have "conn_received c en + n \<noteq> 0" using received(4) nn [of c] by simp
    with True show ?thesis by (simp add: settled_def rc)
  next
    case False
    with that show ?thesis by (simp add: settled_def rc) (simp add: receive_bytes_def)
  qed
  then show ?case by (simp add: life_kept_def gens_kept_def) (simp add: life_fields_def receive_bytes_def)
next
  case (served w en c)
  show ?case unfolding served_work_def
    by (rule life_kept_trans [OF life_kept_trans [OF life_kept_untrack life_kept_close] life_kept_end])
next
  case (undeclared w en c)
  show ?case by (rule life_kept_trans [OF life_kept_close life_kept_end])
qed (simp_all add: life_kept_workers life_kept_pool life_kept_end life_kept_declared)

subsection \<open>The sections of the life cycle\<close>

lemma gens_kept_fields:
  assumes "ce_gens en' = ce_gens en" and "ce_closed en \<subseteq> ce_closed en'" and "\<And>c. conn_received c en' = conn_received c en"
  shows "gens_kept en en'"
  using assms by (auto simp: gens_kept_def settled_def)

lemma gens_kept_ops [simp]:
  "gens_kept en (client_mark_stopped en)" "gens_kept en (release_client_start en)" "gens_kept en (apply_finished en)"
  "gens_kept en (en\<lparr>ce_applying := b\<rparr>)" "gens_kept en (close_control k en)" "gens_kept en (close_if_idle c en)"
  "gens_kept en (start_client_generation i en)"
  by (rule gens_kept_fields;
      force simp: client_mark_stopped_def release_client_start_def apply_finished_def close_control_def close_if_idle_def
        start_client_generation_def conn_received_def close_client_conn_def split: option.splits)+

lemma gens_kept_gen_ops [simp]:
  "gens_kept en (gen_stop_mark i en)" "gens_kept en (gen_stop_signal i en)" "gens_kept en (gen_cancel i en)"
  by (auto simp: gens_kept_def gen_stop_mark_def gen_stop_signal_def gen_cancel_def gen_kept_def settled_def nth_update_at)

lemma gens_kept_close_gen [simp]: "gens_kept en (close_gen_conns i en)"
  by (rule gens_kept_fields) (auto simp: close_gen_conns_def)

lemma gens_kept_close_conns [simp]: "gens_kept en (close_client_conns en)"
  by (simp add: close_client_conns_def Let_def gens_kept_trans [OF gens_kept_ops(5) gens_kept_close_gen] split: option.split)

lemma life_fields_ops [simp]:
  "life_fields (gen_stop_mark i en) = life_fields en" "life_fields (gen_stop_signal i en) = life_fields en"
  "life_fields (gen_cancel i en) = life_fields en" "life_fields (close_if_idle c en) = life_fields en"
  "life_fields (close_control k en) = life_fields en" "life_fields (close_gen_conns i en) = life_fields en"
  "life_fields (close_client_conns en) = life_fields en" "life_fields (start_client_generation i en) = life_fields en"
  by (auto simp: life_fields_def gen_stop_mark_def gen_stop_signal_def gen_cancel_def set_client_gen_def close_if_idle_def
      close_client_conn_def close_control_def close_gen_conns_def close_client_conns_def start_client_generation_def Let_def
      split: option.splits)

lemma wait_drained_kept:
  "client_wait_drained d en = (en', b) \<Longrightarrow> life_kept en en'"
  "gen_wait_drained i d en = (en', b) \<Longrightarrow> life_kept en en'"
  by (auto simp: client_wait_drained_def gen_wait_drained_def life_kept_def split: drain_end.splits)

lemma close_done_kept: "client_close_done en = Some en' \<Longrightarrow> life_kept en en'"
  by (rule life_kept_same) (auto simp: client_close_done_def life_fields_def conn_received_def split: if_splits)

lemma fail_abnormal_kept: "client_fail_abnormal cause en = Some en' \<Longrightarrow> life_kept en en'"
  by (rule life_kept_same) (auto simp: client_fail_abnormal_def life_fields_def conn_received_def Let_def split: if_splits)

lemma claim_kept: "claim_client_start en = (en', None) \<Longrightarrow> en' = en\<lparr>ce_state := ClientStarting\<rparr> \<and> ce_state en = ClientIdle"
  by (auto simp: claim_client_start_def split: if_splits)

lemma connect_kept:
  assumes "client_connect L c en = (en', r)"
  shows "gens_kept en en' \<and> ce_stop_once en' = ce_stop_once en \<and> ce_active en' = ce_active en \<and> ce_last_good en' = ce_last_good en \<and>
    ce_applying en' = ce_applying en \<and> ce_control en' = ce_control en \<and>
    ce_state en' = (if (\<exists>e. r = Inl e) \<and> ce_state en = ClientStarting then ClientIdle else ce_state en)"
  using assms
  by (auto simp: client_connect_def gens_kept_def settled_def conn_received_def release_client_start_def close_client_conn_def Let_def
      split: option.splits sum.splits)

subsection \<open>Revisions only advance\<close>

definition gen_revs :: "client_engine \<Rightarrow> nat list" where
  "gen_revs en = map cg_revision (ce_gens en)"

lemma gens_kept_revs: "gens_kept en en' \<Longrightarrow> gen_revs en' = gen_revs en"
  by (auto simp: gens_kept_def gen_revs_def gen_kept_def intro: nth_equalityI)

definition start_shape :: "nat list \<Rightarrow> client_start_pc \<Rightarrow> bool" where
  "start_shape revs s = (case s of CStartIdle \<Rightarrow> True | CStartClaimed \<Rightarrow> revs = [] | CStartReady _ _ \<Rightarrow> revs = []
     | CStartCommitted i \<Rightarrow> i < length revs)"

definition apply_shape :: "nat list \<Rightarrow> client_apply_pc \<Rightarrow> bool" where
  "apply_shape revs a = (case a of
       CApplyIdle \<Rightarrow> True | CApplyEntered d \<Rightarrow> True
     | CApplyValid d \<Rightarrow> revs \<noteq> [] \<and> last revs < cd_revision d
     | CApplyReady g \<Rightarrow> revs \<noteq> [] \<and> last revs < cg_revision g
     | CApplyPublished old k \<Rightarrow> 2 \<le> length revs \<and> Suc k = length revs \<and> old = Some (k - 1)
     | CApplyStarted old \<Rightarrow> 2 \<le> length revs \<and> old = Some (length revs - 2)
     | CApplyMarked i \<Rightarrow> Suc (Suc i) = length revs
     | CApplySweep i cs \<Rightarrow> Suc (Suc i) = length revs
     | CApplyDraining i \<Rightarrow> Suc (Suc i) = length revs)"

definition shape_inv :: "client_state \<Rightarrow> nat option \<Rightarrow> nat \<Rightarrow> bool \<Rightarrow> nat list \<Rightarrow> client_start_pc \<Rightarrow> client_apply_pc \<Rightarrow> bool" where
  "shape_inv st act good ap revs s a \<longleftrightarrow>
     act = (if revs = [] then None else Some (length revs - 1)) \<and> (revs \<noteq> [] \<longrightarrow> good = last revs) \<and>
     sorted_wrt (<) revs \<and> (ap \<longleftrightarrow> a \<noteq> CApplyIdle) \<and>
     (st = ClientIdle \<longrightarrow> revs = [] \<and> s = CStartIdle) \<and> (st = ClientStarting \<longrightarrow> revs = []) \<and>
     (st = ClientRunning \<longrightarrow> revs \<noteq> []) \<and> start_shape revs s \<and> apply_shape revs a"

abbreviation shaped :: "client_life \<Rightarrow> bool" where
  "shaped \<equiv> \<lambda>(en, s, p, a). shape_inv (ce_state en) (ce_active en) (ce_last_good en) (ce_applying en) (gen_revs en) s a"

lemma shaped_kept:
  assumes "life_kept en en'" and "shaped (en, s, p, a)"
  shows "shaped (en', s, p', a)"
  using assms gens_kept_revs [of en en'] by (auto simp: life_kept_def life_fields_def)

lemma shaped_apply:
  assumes "gens_kept en en'" and "life_fields en' = life_fields en" and "shaped (en, s, p, a)"
    and "a' \<noteq> CApplyIdle" and "a \<noteq> CApplyIdle" and "apply_shape (gen_revs en) a \<Longrightarrow> apply_shape (gen_revs en) a'"
  shows "shaped (en', s, p', a')"
  using assms gens_kept_revs [of en en'] by (auto simp: life_fields_def shape_inv_def)

lemma shaped_finish:
  assumes "gens_kept en en'" and "life_fields en' = life_fields en" and "shaped (en, s, p, a)"
  shows "shaped (apply_finished en', s, p', CApplyIdle)"
  using assms gens_kept_revs [of en en']
  by (auto simp: life_fields_def shape_inv_def apply_finished_def gen_revs_def apply_shape_def)

lemma fresh_generation [simp]:
  "cg_revision (new_client_generation r c) = r" "cg_revision (client_prepare_generation g) = cg_revision g"
  by (simp_all add: new_client_generation_def client_prepare_generation_def)

lemma validate_go:
  assumes "client_apply_validate d en = Inr True"
  shows "ce_state en = ClientRunning"
    and "client_active_generation en = Some g \<Longrightarrow> cg_revision g < cd_revision d"
  using assms by (auto simp: client_apply_validate_def split: if_splits option.splits)

lemma active_gen: "ce_active en = Some i \<Longrightarrow> client_active_generation en = Some (ce_gens en ! i)"
  by (simp add: client_active_generation_def)

lemma le_last_sorted: "sorted_wrt (<) xs \<Longrightarrow> x \<in> set xs \<Longrightarrow> x \<le> (last xs :: nat)"
proof (induction xs)
  case (Cons a xs)
  then show ?case using last_in_set [of xs] by (cases "xs = []") (auto simp: order_le_less)
qed simp

lemma life_move_shaped:
  assumes "life_move E x y" and "shaped x" and "conns_ok (fst x)"
  shows "shaped y"
  using assms
proof (induction rule: life_move.induct)
  case (work en en' s p a)
  have "conns_ok en" using work(3) by simp
  from shaped_kept [OF work_step_kept [OF work(1) this]] work(2) show ?case by simp
next
  case (abnormal cause en en' s p a)
  from shaped_kept [OF fail_abnormal_kept [OF abnormal(1)]] abnormal(3) show ?case by simp
next
  case (start_claim en en' p a)
  from claim_kept [OF start_claim(1)] start_claim(2) show ?case
    by (auto simp: shape_inv_def start_shape_def gen_revs_def)
next
  case (start_failed c en L en' e p a)
  from connect_kept [OF start_failed(2)] start_failed(3) gens_kept_revs [of en en'] show ?case
    by (auto simp: shape_inv_def start_shape_def split: if_splits)
next
  case (start_connected c en L en' c' r p a)
  from connect_kept [OF start_connected(2)] start_connected(3) gens_kept_revs [of en en'] show ?case
    by (auto simp: shape_inv_def start_shape_def)
next
  case (start_committed en c r p a)
  let ?en = "commit_client_running c r (new_client_generation 0 (ce_config en)) en"
  have revs: "gen_revs en = []" and ap: "apply_shape [] a" "ce_applying en \<longleftrightarrow> a \<noteq> CApplyIdle"
    using start_committed by (auto simp: shape_inv_def start_shape_def)
  then have a: "a = CApplyIdle \<or> (\<exists>d. a = CApplyEntered d)" by (cases a) (simp_all add: apply_shape_def)
  have "ce_gens en = []" using revs by (simp add: gen_revs_def)
  then have "gen_revs ?en = [0]" "ce_active ?en = Some 0" "ce_last_good ?en = 0" "ce_state ?en = ClientRunning"
    "ce_applying ?en = ce_applying en" "length (ce_gens en) = 0"
    by (simp_all add: commit_client_running_def gen_revs_def)
  moreover have "apply_shape [0] a" using a by (auto simp: apply_shape_def)
  ultimately show ?case using ap(2) by (simp add: shape_inv_def start_shape_def)
next
  case (start_running en i p a)
  have "life_kept en (start_client_generation i en)" by (simp add: life_kept_def)
  from shaped_kept [OF this start_running(1)]
  have "shaped (start_client_generation i en, CStartCommitted i, p, a)" by simp
  then show ?case by (simp add: shape_inv_def start_shape_def)
next
  case (stop_begin en s a)
  then show ?case by (auto simp: shape_inv_def client_mark_stopped_def gen_revs_def)
next
  case (stop_cut d en en' s a)
  from shaped_kept [OF wait_drained_kept(1) [OF stop_cut(1)]] stop_cut(2) show ?case by simp
next
  case (stop_done en en' s a)
  from shaped_kept [OF close_done_kept [OF stop_done(1)]] stop_done(2) show ?case by simp
next
  case (apply_enter d en s p)
  then show ?case by (auto simp: shape_inv_def gen_revs_def apply_shape_def)
next
  case (apply_settled d en s p)
  show ?case using shaped_finish [OF gens_kept_refl refl apply_settled(2)] by simp
next
  case (apply_valid d en s p)
  have run: "ce_state en = ClientRunning" by (rule validate_go(1) [OF apply_valid(1)])
  with apply_valid(2) have ne: "gen_revs en \<noteq> []" and act: "ce_active en = Some (length (gen_revs en) - 1)"
    by (auto simp: shape_inv_def)
  have "last (gen_revs en) = cg_revision (ce_gens en ! (length (gen_revs en) - 1))"
    using ne by (simp add: gen_revs_def last_conv_nth)
  with validate_go(2) [OF apply_valid(1) active_gen [OF act]] have "last (gen_revs en) < cd_revision d" by simp
  with apply_valid(2) ne show ?case by (auto simp: shape_inv_def apply_shape_def)
next
  case (apply_unhealthy g d en e s p)
  show ?case using shaped_finish [OF gens_kept_refl refl apply_unhealthy(3)] by simp
next
  case (apply_ready g d en s p)
  then show ?case by (auto simp: shape_inv_def apply_shape_def)
next
  case (apply_refused g en en' e s p)
  then have "en' = en" by (auto simp: client_publish_generation_def split: if_splits)
  then show ?case using shaped_finish [OF gens_kept_refl refl apply_refused(2)] by simp
next
  case (apply_published g en en' old s p)
  then have en': "ce_state en = ClientRunning" "old = ce_active en"
    "en' = en\<lparr>ce_gens := ce_gens en @ [g], ce_active := Some (length (ce_gens en)), ce_last_good := cg_revision g\<rparr>"
    by (auto simp: client_publish_generation_def split: if_splits)
  have old: "gen_revs en \<noteq> []" "last (gen_revs en) < cg_revision g" "sorted_wrt (<) (gen_revs en)"
    using apply_published(2) by (auto simp: shape_inv_def apply_shape_def)
  have all: "\<forall>r \<in> set (gen_revs en). r < cg_revision g"
    using le_last_sorted [OF old(3)] old(2) by (meson order.strict_trans1)
  show ?case using apply_published(2) en' old all
    by (auto simp: shape_inv_def apply_shape_def gen_revs_def sorted_wrt_append start_shape_def Suc_le_eq
        split: client_start_pc.splits)
next
  case (apply_first en s p)
  show ?case using shaped_finish [OF gens_kept_refl refl apply_first(1)] by simp
next
  case (apply_drained i en en' b s p)
  have "gens_kept en en'" "life_fields en' = life_fields en"
    using wait_drained_kept(2) [OF apply_drained(1)] by (simp_all add: life_kept_def)
  from shaped_finish [OF this apply_drained(2)] show ?case by simp
next
  case (apply_started en s p old i)
  show ?case by (rule shaped_apply [OF gens_kept_ops(7) life_fields_ops(8) apply_started(1)])
      (auto simp: apply_shape_def)
next
  case (apply_mark en s p i)
  show ?case by (rule shaped_apply [OF gens_kept_gen_ops(1) life_fields_ops(1) apply_mark(1)])
      (auto simp: apply_shape_def)
next
  case (apply_signal cs en i s p)
  show ?case by (rule shaped_apply [OF gens_kept_gen_ops(2) life_fields_ops(2) apply_signal(2)])
      (auto simp: apply_shape_def)
next
  case (apply_sweep en s p i c cs)
  show ?case by (rule shaped_apply [OF gens_kept_ops(6) life_fields_ops(4) apply_sweep(1)])
      (auto simp: apply_shape_def)
next
  case (apply_swept en s p i)
  show ?case by (rule shaped_apply [OF gens_kept_refl refl apply_swept(1)]) (auto simp: apply_shape_def)
next
  case (stop_mark en s i k a)
  show ?case using shaped_kept [of en "gen_stop_mark i en"] stop_mark by (simp add: life_kept_def)
next
  case (stop_signal cs en i s k a)
  show ?case using shaped_kept [of en "gen_stop_signal i en"] stop_signal by (simp add: life_kept_def)
next
  case (stop_sweep en s i c cs k a)
  show ?case using shaped_kept [of en "close_if_idle c en"] stop_sweep by (simp add: life_kept_def)
next
  case (stop_swept en s i k a)
  show ?case using shaped_kept [of en "gen_cancel i en"] stop_swept by (simp add: life_kept_def)
next
  case (stop_control en s k a)
  show ?case using shaped_kept [of en "close_control k en"] stop_control by (simp add: life_kept_def)
qed simp_all

end
