(* ===== verification/Client_Drain.thy ===== *)
theory Client_Drain
  imports Client_Life
begin

section \<open>Retired generations and the end of the client\<close>

subsection \<open>The books of the workers outside their own steps\<close>

definition books :: "client_engine \<Rightarrow> client_worker multiset \<times> (work_pool \<times> client_config \<times> conn set) list \<times> (conn, int) gomap" where
  "books en = (ce_workers en, map (\<lambda>g. (cg_pool g, cg_config g, cg_conns g)) (ce_gens en), ce_received en)"

definition books_ok :: "client_engine \<Rightarrow> bool" where
  "books_ok en \<longleftrightarrow> pools_ok en \<and> conns_ok en"

lemma books_ok_same:
  assumes "books_ok en" and "books en' = books en" and "ce_used en \<subseteq> ce_used en'"
  shows "books_ok en'"
proof -
  let ?f = "\<lambda>g. (cg_pool g, cg_config g, cg_conns g)"
  have eq: "ce_workers en' = ce_workers en" "map ?f (ce_gens en') = map ?f (ce_gens en)" "ce_received en' = ce_received en"
    using assms(2) by (simp_all add: books_def)
  have len: "length (ce_gens en') = length (ce_gens en)" by (rule map_eq_imp_length_eq [OF eq(2)])
  have nth: "?f (ce_gens en' ! i) = ?f (ce_gens en ! i)" if "i < length (ce_gens en)" for i
  proof -
    have "map ?f (ce_gens en') ! i = map ?f (ce_gens en) ! i" by (simp only: eq(2))
    with that len show ?thesis by (simp only: nth_map)
  qed
  have pc: "cg_pool (ce_gens en' ! i) = cg_pool (ce_gens en ! i) \<and> cg_config (ce_gens en' ! i) = cg_config (ce_gens en ! i)"
    if "i < length (ce_gens en)" for i using nth [OF that] by simp
  have "pools_ok en" using assms(1) by (simp add: books_ok_def)
  then have "pools_ok en'" by (rule pools_ok_same) (simp_all add: len pc eq(1))
  moreover have "conns_ok en'"
  proof (rule conns_okI)
    have old: "conns_ok en" using assms(1) by (simp add: books_ok_def)
    note ok = conns_okD [OF old]
    show "wk_gen w < length (ce_gens en')" if "w \<in># ce_workers en'" for w using that ok(1) eq(1) len by simp
    show "c \<in> cg_conns (ce_gens en' ! i) \<longleftrightarrow> serves i c (ce_workers en')" if "i < length (ce_gens en')" for i c
      using that ok(2) [of i c] nth [of i] eq(1) len by simp
    show "conn_owners c (ce_workers en') \<le> (if c \<in> ce_used en' then 1 else 0)" for c
      using ok(3,4) [of c] assms(3) eq(1) by auto
    show "0 \<le> conn_received c en'" for c using ok(5) [of c] eq(3) by (simp add: conn_received_def)
  qed
  ultimately show ?thesis by (simp add: books_ok_def)
qed

lemma map_update_same: "(i < length xs \<Longrightarrow> f x = f (xs ! i)) \<Longrightarrow> map f (xs[i := x]) = map f xs"
  by (cases "i < length xs") (simp_all add: map_update list_update_beyond, metis length_map list_update_id nth_map)

lemma books_ops [simp]:
  "books (client_mark_stopped en) = books en" "books (release_client_start en) = books en"
  "books (apply_finished en) = books en" "books (en\<lparr>ce_applying := b\<rparr>) = books en"
  "books (close_control k en) = books en" "books (close_if_idle c en) = books en"
  "books (gen_stop_mark i en) = books en" "books (gen_stop_signal i en) = books en" "books (gen_cancel i en) = books en"
  "books (close_gen_conns i en) = books en" "books (en\<lparr>ce_state := st\<rparr>) = books en"
  by (auto simp: books_def client_mark_stopped_def release_client_start_def apply_finished_def close_control_def
      close_if_idle_def close_client_conn_def gen_stop_mark_def gen_stop_signal_def gen_cancel_def close_gen_conns_def
      set_client_gen_def map_update_same split: option.splits)

lemma used_ops [simp]:
  "ce_used (client_mark_stopped en) = ce_used en" "ce_used (release_client_start en) = ce_used en"
  "ce_used (apply_finished en) = ce_used en" "ce_used (close_control k en) = ce_used en"
  "ce_used (close_if_idle c en) = ce_used en" "ce_used (gen_stop_mark i en) = ce_used en"
  "ce_used (gen_stop_signal i en) = ce_used en" "ce_used (gen_cancel i en) = ce_used en"
  "ce_used (close_gen_conns i en) = ce_used en"
  by (auto simp: client_mark_stopped_def release_client_start_def apply_finished_def close_control_def close_if_idle_def
      gen_stop_mark_def gen_stop_signal_def gen_cancel_def close_gen_conns_def split: option.splits)

lemma no_slots_beyond:
  assumes "\<And>w. w \<in># ws \<Longrightarrow> wk_gen w < i"
  shows "slots_held i q ws = 0" and "\<not> serves i c ws"
proof -
  have "filter_mset (slot_of i q) ws = {#}" by (rule filter_none) (use assms in \<open>auto simp: slot_of_def\<close>)
  then show "slots_held i q ws = 0" by (simp add: slots_held_def)
  show "\<not> serves i c ws" using assms by (auto simp: serves_def)
qed

definition fresh_gen :: "client_gen \<Rightarrow> bool" where
  "fresh_gen g \<longleftrightarrow> cg_conns g = {} \<and> cg_pool g = new_work_pool (ccf_pool_size (cg_config g))"

lemma fresh_gens [simp]:
  "fresh_gen (new_client_generation r c)" "fresh_gen (client_prepare_generation (new_client_generation r c))"
  by (simp_all add: fresh_gen_def new_client_generation_def client_prepare_generation_def)

lemma books_ok_append:
  assumes "books_ok en" and "fresh_gen g" and "ce_gens en' = ce_gens en @ [g]" and "ce_workers en' = ce_workers en"
    and "ce_received en' = ce_received en" and "ce_used en' = ce_used en"
  shows "books_ok en'"
proof -
  have old: "conns_ok en" "pools_ok en" using assms(1) by (simp_all add: books_ok_def)
  note ok = conns_okD [OF old(1)]
  note none = no_slots_beyond [OF ok(1)]
  have at: "ce_gens en' ! i = (if i = length (ce_gens en) then g else ce_gens en ! i)" if "i < Suc (length (ce_gens en))" for i
    using that assms(3) by (auto simp: nth_append less_Suc_eq)
  have "pools_ok en'" using old(2) assms(2-4) none at
    by (auto simp: pools_ok_def fresh_gen_def new_work_pool_def pool_in_use_def less_Suc_eq)
  moreover have "conns_ok en'"
  proof (rule conns_okI)
    show "wk_gen w < length (ce_gens en')" if "w \<in># ce_workers en'" for w
      using that ok(1) [of w] assms(3,4) by simp
    show "c \<in> cg_conns (ce_gens en' ! i) \<longleftrightarrow> serves i c (ce_workers en')" if "i < length (ce_gens en')" for i c
    proof (cases "i = length (ce_gens en)")
      case True
      with assms(2,4) none(2) [where c = c] at [of i] show ?thesis by (auto simp: fresh_gen_def)
    next
      case False
      with that have "i < length (ce_gens en)" using assms(3) by simp
      with ok(2) [of i c] at [of i] assms(4) False show ?thesis by simp
    qed
    show "conn_owners c (ce_workers en') \<le> (if c \<in> ce_used en' then 1 else 0)" for c
      using ok(3,4) [of c] assms(4,6) by auto
    show "0 \<le> conn_received c en'" for c using ok(5) [of c] assms(5) by (simp add: conn_received_def)
  qed
  ultimately show ?thesis by (simp add: books_ok_def)
qed

lemma books_ok_start:
  assumes "books_ok en" and "i < length (ce_gens en)"
  shows "books_ok (start_client_generation i en)"
proof -
  have old: "conns_ok en" "pools_ok en" using assms(1) by (simp_all add: books_ok_def)
  have "pools_ok (start_client_generation i en)"
    by (rule pools_ok_same [OF old(2)]) (simp_all add: start_client_generation_def)
  moreover have "conns_ok (start_client_generation i en)"
    using conns_okD [OF old(1)] assms(2)
    by (intro conns_okI) (auto simp: start_client_generation_def conn_received_def dest: proxy_workers_top)
  ultimately show ?thesis by (simp add: books_ok_def)
qed

subsection \<open>Generations that were replaced\<close>

text \<open>Stopping, and every tracked connection is closed, has received data, or is still on the list.\<close>

definition swept_but :: "client_engine \<Rightarrow> conn list \<Rightarrow> nat \<Rightarrow> bool" where
  "swept_but en cs i \<longleftrightarrow> cg_stopping (ce_gens en ! i) \<and> cg_stop_ch (ce_gens en ! i) \<and>
     (\<forall>c \<in> cg_conns (ce_gens en ! i). settled en c \<or> c \<in> set cs)"

abbreviation retired :: "client_engine \<Rightarrow> nat \<Rightarrow> bool" where
  "retired en \<equiv> swept_but en []"

definition retiring :: "client_engine \<Rightarrow> client_apply_pc \<Rightarrow> nat \<Rightarrow> bool" where
  "retiring en a i = (case a of
       CApplyPublished old k \<Rightarrow> old = Some i \<or> retired en i
     | CApplyStarted old \<Rightarrow> old = Some i \<or> retired en i
     | CApplyMarked j \<Rightarrow> if i = j then cg_stopping (ce_gens en ! i) else retired en i
     | CApplySweep j cs \<Rightarrow> if i = j then swept_but en cs i else retired en i
     | _ \<Rightarrow> retired en i)"

definition retire_inv :: "client_engine \<Rightarrow> client_apply_pc \<Rightarrow> bool" where
  "retire_inv en a \<longleftrightarrow> (\<forall>i. Suc i < length (ce_gens en) \<longrightarrow> retiring en a i)"

lemma gens_keptD:
  assumes "gens_kept en en'" and "i < length (ce_gens en)"
  shows "cg_stopping (ce_gens en ! i) \<Longrightarrow> cg_stopping (ce_gens en' ! i) \<and> cg_conns (ce_gens en' ! i) \<subseteq> cg_conns (ce_gens en ! i)"
    and "cg_stop_ch (ce_gens en ! i) \<Longrightarrow> cg_stop_ch (ce_gens en' ! i)"
    and "cg_cancelled (ce_gens en ! i) \<Longrightarrow> cg_cancelled (ce_gens en' ! i)"
    and "settled en c \<Longrightarrow> settled en' c"
  using assms by (auto simp: gens_kept_def gen_kept_def)

lemma swept_kept:
  assumes "gens_kept en en'" and "i < length (ce_gens en)" and "swept_but en cs i"
  shows "swept_but en' cs i"
  using assms(3) gens_keptD [OF assms(1,2)] by (auto simp: swept_but_def)

lemma gens_kept_length: "gens_kept en en' \<Longrightarrow> length (ce_gens en') = length (ce_gens en)"
  by (simp add: gens_kept_def)

lemma retire_kept:
  assumes "gens_kept en en'" and "retire_inv en a"
  shows "retire_inv en' a"
  unfolding retire_inv_def gens_kept_length [OF assms(1)]
proof (intro allI impI)
  fix i
  assume i: "Suc i < length (ce_gens en)"
  then have "retiring en a i" using assms(2) by (simp add: retire_inv_def)
  moreover note swept_kept [OF assms(1), of i] gens_keptD(1) [OF assms(1), of i]
  ultimately show "retiring en' a i" using i by (auto simp: retiring_def split: client_apply_pc.splits if_splits)
qed

lemma retire_move:
  assumes "gens_kept en en'" and "retire_inv en a"
    and "\<And>i. Suc i < length (ce_gens en) \<Longrightarrow> retiring en' a i \<Longrightarrow> retiring en' a' i"
  shows "retire_inv en' a'"
  using retire_kept [OF assms(1,2)] assms(3) gens_kept_length [OF assms(1)] by (simp add: retire_inv_def)

lemma swept_append:
  assumes "ce_gens en' = ce_gens en @ [g]" and "i < length (ce_gens en)" and "\<And>c. settled en' c = settled en c"
  shows "swept_but en' cs i = swept_but en cs i"
  using assms by (simp add: swept_but_def nth_append)

lemma settled_closed: "settled (close_if_idle c en) c"
  by (auto simp: settled_def close_if_idle_def close_client_conn_def conn_received_def)

lemma conns_stop_ops [simp]:
  "i < length (ce_gens en) \<Longrightarrow> cg_stopping (ce_gens (gen_stop_mark i en) ! i)"
  "i < length (ce_gens en) \<Longrightarrow> ce_gens (gen_stop_signal i en) ! i = (ce_gens en ! i)\<lparr>cg_stop_ch := True\<rparr>"
  "i < length (ce_gens en) \<Longrightarrow> ce_gens (gen_cancel i en) ! i = (ce_gens en ! i)\<lparr>cg_cancelled := True\<rparr>"
  "ce_gens (close_if_idle c en) = ce_gens en"
  by (simp_all add: gen_stop_mark_def gen_stop_signal_def gen_cancel_def close_if_idle_def)

lemma swept_next: "swept_but en (c # cs) i \<Longrightarrow> swept_but (close_if_idle c en) cs i"
  using gens_kept_ops(6) [of en c] settled_closed [of c en] by (auto simp: swept_but_def gens_kept_def)

end
