(* ===== verification/Client_Reach.thy ===== *)
theory Client_Reach
  imports Client_Drain
begin

section \<open>Reachable states of the client\<close>

lemma books_connect:
  "client_connect L c en = (en', r) \<Longrightarrow> books en' = books en \<and> ce_used en \<subseteq> ce_used en'"
  by (auto simp: client_connect_def books_def release_client_start_def close_client_conn_def Let_def
      split: option.splits sum.splits)

lemma books_close_done: "client_close_done en = Some en' \<Longrightarrow> books en' = books en \<and> ce_used en' = ce_used en"
  by (auto simp: client_close_done_def books_def split: if_splits)

lemma books_fail_abnormal: "client_fail_abnormal cause en = Some en' \<Longrightarrow> books en' = books en \<and> ce_used en' = ce_used en"
  by (auto simp: client_fail_abnormal_def books_def Let_def split: if_splits)

lemma books_wait_drained:
  "client_wait_drained d en = (en', b) \<Longrightarrow> books en' = books en \<and> ce_used en' = ce_used en"
  "gen_wait_drained i d en = (en', b) \<Longrightarrow> books en' = books en \<and> ce_used en' = ce_used en"
  by (auto simp: client_wait_drained_def gen_wait_drained_def close_client_conns_def Let_def split: drain_end.splits option.splits)

definition apply_fresh :: "client_apply_pc \<Rightarrow> bool" where
  "apply_fresh a = (case a of CApplyReady g \<Rightarrow> fresh_gen g | _ \<Rightarrow> True)"

lemma shaped_started:
  "shaped (en, CStartCommitted i, p, a) \<Longrightarrow> i < length (ce_gens en)"
  "shaped (en, s, p, CApplyPublished old i) \<Longrightarrow> i < length (ce_gens en)"
  by (auto simp: shape_inv_def start_shape_def apply_shape_def gen_revs_def)

lemma life_move_books:
  assumes "life_move E x y" and "shaped x" and "books_ok (fst x)" and "apply_fresh (snd (snd (snd x)))"
  shows "books_ok (fst y) \<and> apply_fresh (snd (snd (snd y)))"
  using assms
proof (induction rule: life_move.induct)
  case (work en en' s p a)
  then show ?case using work_step_ok by (auto simp: books_ok_def)
next
  case (abnormal cause en en' s p a)
  then show ?case using books_fail_abnormal books_ok_same by fastforce
next
  case (start_claim en en' p a)
  have "books_ok en'" by (rule books_ok_same [of en]) (use claim_kept [OF start_claim(1)] start_claim(3) in simp_all)
  with start_claim(4) show ?case by simp
next
  case (start_failed c en L en' e p a)
  have "books_ok en'" by (rule books_ok_same [of en]) (use books_connect [OF start_failed(2)] start_failed(4) in simp_all)
  with start_failed(5) show ?case by simp
next
  case (start_connected c en L en' c' r p a)
  have "books_ok en'" by (rule books_ok_same [of en]) (use books_connect [OF start_connected(2)] start_connected(4) in simp_all)
  with start_connected(5) show ?case by simp
next
  case (start_committed en c r p a)
  have "books_ok (commit_client_running c r (new_client_generation 0 (ce_config en)) en)"
    by (rule books_ok_append [of en "new_client_generation 0 (ce_config en)"])
      (use start_committed(2) in \<open>simp_all add: commit_client_running_def\<close>)
  with start_committed(3) show ?case by simp
next
  case (start_running en i p a)
  then show ?case using books_ok_start shaped_started(1) by fastforce
next
  case (stop_cut d en en' s a)
  have "books_ok en'" by (rule books_ok_same [of en]) (use books_wait_drained(1) [OF stop_cut(1)] stop_cut(3) in simp_all)
  with stop_cut(4) show ?case by simp
next
  case (stop_done en en' s a)
  have "books_ok en'" by (rule books_ok_same [of en]) (use books_close_done [OF stop_done(1)] stop_done(3) in simp_all)
  with stop_done(4) show ?case by simp
next
  case (apply_ready g d en s p)
  then show ?case by (simp add: apply_fresh_def)
next
  case (apply_refused g en en' e s p)
  then have "en' = en" by (auto simp: client_publish_generation_def split: if_splits)
  with apply_refused show ?case by (simp add: apply_fresh_def books_ok_same [of en])
next
  case (apply_published g en en' old s p)
  have "books_ok en'"
    by (rule books_ok_append [of en g])
      (use apply_published in \<open>auto simp: client_publish_generation_def apply_fresh_def split: if_splits\<close>)
  then show ?case by (simp add: apply_fresh_def)
next
  case (apply_started en s p old i)
  then show ?case using books_ok_start shaped_started(2) by (fastforce simp: apply_fresh_def)
next
  case (apply_drained i en en' b s p)
  have "books_ok (apply_finished en')"
    by (rule books_ok_same [of en]) (use books_wait_drained(2) [OF apply_drained(1)] apply_drained(3) in simp_all)
  then show ?case by (simp add: apply_fresh_def)
qed (auto simp: apply_fresh_def intro: books_ok_same)

lemma retire_ops [simp]:
  "retire_inv en a \<Longrightarrow> retire_inv (client_mark_stopped en) a" "retire_inv en a \<Longrightarrow> retire_inv (apply_finished en) a"
  "retire_inv en a \<Longrightarrow> retire_inv (en\<lparr>ce_applying := b\<rparr>) a" "retire_inv en a \<Longrightarrow> retire_inv (close_control k en) a"
  "retire_inv en a \<Longrightarrow> retire_inv (close_if_idle c en) a" "retire_inv en a \<Longrightarrow> retire_inv (start_client_generation i en) a"
  "retire_inv en a \<Longrightarrow> retire_inv (gen_stop_mark i en) a" "retire_inv en a \<Longrightarrow> retire_inv (gen_stop_signal i en) a"
  "retire_inv en a \<Longrightarrow> retire_inv (gen_cancel i en) a"
  by (erule retire_kept [rotated], simp)+

text \<open>Outside the hand-over all replaced generations are retired.\<close>

lemma retire_quiet [simp]:
  "retire_inv en (CApplyEntered d) = retire_inv en CApplyIdle" "retire_inv en (CApplyValid d) = retire_inv en CApplyIdle"
  "retire_inv en (CApplyReady g) = retire_inv en CApplyIdle" "retire_inv en (CApplyDraining i) = retire_inv en CApplyIdle"
  "retire_inv en (CApplySweep i []) = retire_inv en CApplyIdle" "retire_inv en (CApplyStarted None) = retire_inv en CApplyIdle"
  "retire_inv en (CApplyPublished old i) = retire_inv en (CApplyStarted old)"
  by (simp_all add: retire_inv_def retiring_def)

lemma life_move_retire:
  assumes "life_move E x y" and "shaped x" and "conns_ok (fst x)" and "retire_inv (fst x) (snd (snd (snd x)))"
  shows "retire_inv (fst y) (snd (snd (snd y)))"
  using assms
proof (induction rule: life_move.induct)
  case (work en en' s p a)
  have "gens_kept en en'" using work_step_kept [OF work(1)] work(3) by (simp add: life_kept_def)
  from retire_kept [OF this] work(4) show ?case by simp
next
  case (abnormal cause en en' s p a)
  from retire_kept fail_abnormal_kept [OF abnormal(1)] abnormal(5) show ?case by (auto simp: life_kept_def)
next
  case (start_claim en en' p a)
  have "gens_kept en en'" using claim_kept [OF start_claim(1)] by (auto intro: gens_kept_fields simp: conn_received_def)
  from retire_kept [OF this] start_claim(4) show ?case by simp
next
  case (start_failed c en L en' e p a)
  from retire_kept connect_kept [OF start_failed(2)] start_failed(5) show ?case by auto
next
  case (start_connected c en L en' c' r p a)
  from retire_kept connect_kept [OF start_connected(2)] start_connected(5) show ?case by auto
next
  case (start_committed en c r p a)
  then have "ce_gens en = []" by (simp add: shape_inv_def start_shape_def gen_revs_def)
  then show ?case by (simp add: retire_inv_def commit_client_running_def)
next
  case (stop_cut d en en' s a)
  from retire_kept wait_drained_kept(1) [OF stop_cut(1)] stop_cut(4) show ?case by (auto simp: life_kept_def)
next
  case (stop_done en en' s a)
  from retire_kept close_done_kept [OF stop_done(1)] stop_done(4) show ?case by (auto simp: life_kept_def)
next
  case (apply_refused g en en' e s p)
  then have same: "en' = en" by (auto simp: client_publish_generation_def split: if_splits)
  with apply_refused(4) show ?case by simp
next
  case (apply_published g en en' old s p)
  have en0: "en' = en\<lparr>ce_gens := ce_gens en @ [g], ce_active := Some (length (ce_gens en)), ce_last_good := cg_revision g\<rparr>"
    "old = ce_active en"
    using apply_published(1) by (auto simp: client_publish_generation_def split: if_splits)
  then have en': "old = ce_active en" "ce_gens en' = ce_gens en @ [g]" "\<And>c. settled en' c = settled en c"
    by (simp_all add: settled_def conn_received_def)
  have act: "ce_active en = (if gen_revs en = [] then None else Some (length (gen_revs en) - 1))"
    using apply_published(2) by (simp add: shape_inv_def)
  have "retiring en' (CApplyPublished old (length (ce_gens en))) i" if i: "i < length (ce_gens en)" for i
  proof (cases "Suc i = length (ce_gens en)")
    case True
    with i have "ce_active en = Some i" using act by (auto simp: gen_revs_def)
    then show ?thesis by (simp add: retiring_def en'(1))
  next
    case False
    with i apply_published(4) have "retired en i" by (simp add: retire_inv_def retiring_def)
    then show ?thesis using swept_append [OF en'(2) i en'(3)] by (simp add: retiring_def)
  qed
  then show ?case by (simp add: retire_inv_def en'(2))
next
  case (apply_mark en s p i)
  have "Suc (Suc i) = length (ce_gens en)"
    using apply_mark(1) by (auto simp: shape_inv_def apply_shape_def gen_revs_def)
  then have "cg_stopping (ce_gens (gen_stop_mark i en) ! i)" by simp
  then have "retire_inv (gen_stop_mark i en) (CApplyMarked i)"
    by - (rule retire_move [of en _ "CApplyStarted (Some i)"], use apply_mark(3) in \<open>auto simp: retiring_def\<close>)
  then show ?case by simp
next
  case (apply_signal cs en i s p)
  have len: "Suc (Suc i) = length (ce_gens en)"
    using apply_signal(2) by (auto simp: shape_inv_def apply_shape_def gen_revs_def)
  have "retire_inv (gen_stop_signal i en) (CApplySweep i cs)"
  proof (rule retire_move [of en _ "CApplyMarked i"])
    fix j
    assume j: "Suc j < length (ce_gens en)" "retiring (gen_stop_signal i en) (CApplyMarked i) j"
    then show "retiring (gen_stop_signal i en) (CApplySweep i cs) j"
      using len apply_signal(1) by (auto simp: retiring_def swept_but_def split: if_splits)
  qed (use apply_signal(4) in simp_all)
  then show ?case by simp
next
  case (apply_sweep en s p i c cs)
  have "retire_inv (close_if_idle c en) (CApplySweep i cs)"
    unfolding retire_inv_def
  proof (intro allI impI)
    fix j
    assume "Suc j < length (ce_gens (close_if_idle c en))"
    then have j: "Suc j < length (ce_gens en)" by simp
    then have "retiring en (CApplySweep i (c # cs)) j" using apply_sweep(3) by (simp add: retire_inv_def)
    then show "retiring (close_if_idle c en) (CApplySweep i cs) j"
      using swept_next [of en c cs i] swept_kept [OF gens_kept_ops(6), of j en "[]" c] j
      by (auto simp: retiring_def split: if_splits)
  qed
  then show ?case by simp
next
  case (apply_drained i en en' b s p)
  have "gens_kept en (apply_finished en')"
    using wait_drained_kept(2) [OF apply_drained(1)] gens_kept_trans by (fastforce simp: life_kept_def)
  from retire_kept [OF this] apply_drained(4) show ?case by simp
qed simp_all

subsection \<open>The end of the client\<close>

text \<open>The active generation is retired and cancelled, the control connection closed.\<close>

definition client_ended :: "client_engine \<Rightarrow> bool" where
  "client_ended en \<longleftrightarrow>
     (\<forall>i. ce_active en = Some i \<longrightarrow> retired en i \<and> cg_cancelled (ce_gens en ! i)) \<and>
     (\<forall>c r. ce_control en = Some (c, r) \<longrightarrow> c \<in> ce_closed en)"

text \<open>What a call of \<open>Shutdown\<close> has reached, as long as no start revives the engine.\<close>

definition stop_inv :: "client_engine \<Rightarrow> client_stop_pc \<Rightarrow> bool" where
  "stop_inv en p \<longleftrightarrow> (ce_state en = ClientStopped \<longrightarrow> ce_stop_once en) \<and>
     (case p of
        CStopIdle \<Rightarrow> ce_state en = ClientStopped \<longrightarrow> client_ended en
      | CStopTaken act k \<Rightarrow> (\<forall>i. act = Some i \<longrightarrow> i < length (ce_gens en)) \<and>
          (ce_state en = ClientStopped \<longrightarrow> act = ce_active en \<and> k = ce_control en)
      | CStopMarked i k \<Rightarrow> i < length (ce_gens en) \<and> cg_stopping (ce_gens en ! i) \<and>
          (ce_state en = ClientStopped \<longrightarrow> ce_active en = Some i \<and> k = ce_control en)
      | CStopSweep i cs k \<Rightarrow> i < length (ce_gens en) \<and> swept_but en cs i \<and>
          (ce_state en = ClientStopped \<longrightarrow> ce_active en = Some i \<and> k = ce_control en)
      | CStopControl k \<Rightarrow> ce_state en = ClientStopped \<longrightarrow> k = ce_control en \<and>
          (\<forall>i. ce_active en = Some i \<longrightarrow> retired en i \<and> cg_cancelled (ce_gens en ! i))
      | CStopWaiting \<Rightarrow> ce_state en = ClientStopped \<longrightarrow> client_ended en)"

lemma shaped_active: "shaped (en, s, p, a) \<Longrightarrow> ce_active en = Some i \<Longrightarrow> i < length (ce_gens en)"
  by (auto simp: shape_inv_def gen_revs_def split: if_splits)

lemma ended_kept:
  assumes "gens_kept en en'" and "\<And>i. ce_active en = Some i \<Longrightarrow> i < length (ce_gens en)" and "client_ended en"
    and "ce_active en' = ce_active en" and "ce_control en' = ce_control en"
  shows "client_ended en'"
  unfolding client_ended_def assms(4,5)
proof (intro conjI allI impI)
  fix i
  assume i: "ce_active en = Some i"
  then have "retired en i" "cg_cancelled (ce_gens en ! i)" using assms(3) by (auto simp: client_ended_def)
  then show "retired en' i" "cg_cancelled (ce_gens en' ! i)"
    using swept_kept [OF assms(1) assms(2) [OF i]] gens_keptD(3) [OF assms(1) assms(2) [OF i]] by blast+
next
  fix c r
  assume "ce_control en = Some (c, r)"
  with assms(1,3) show "c \<in> ce_closed en'" by (auto simp: client_ended_def gens_kept_def)
qed

lemma stop_kept:
  assumes "gens_kept en en'" and act: "\<And>i. ce_active en = Some i \<Longrightarrow> i < length (ce_gens en)"
    and "ce_stop_once en \<Longrightarrow> ce_stop_once en'"
    and "ce_state en' = ClientStopped \<Longrightarrow> ce_state en = ClientStopped \<and> ce_active en' = ce_active en \<and> ce_control en' = ce_control en"
    and "stop_inv en p"
  shows "stop_inv en' p"
proof -
  note len = gens_kept_length [OF assms(1)]
  note kept = swept_kept [OF assms(1)] gens_keptD [OF assms(1)]
  have over: "client_ended en'" if "ce_state en' = ClientStopped" "client_ended en"
    using ended_kept [OF assms(1) act that(2)] assms(4) [OF that(1)] by blast
  show ?thesis
  proof (cases p)
    case (CStopControl k)
    with assms(3-5) kept act show ?thesis by (auto simp: stop_inv_def)
  qed (use assms(3-5) kept len over in \<open>auto simp: stop_inv_def\<close>)
qed

lemma stop_append:
  assumes "ce_gens en' = ce_gens en @ [g]" and "\<And>c. settled en' c = settled en c" and "ce_state en' \<noteq> ClientStopped"
    and "stop_inv en p"
  shows "stop_inv en' p"
proof -
  have nth: "ce_gens en' ! i = ce_gens en ! i" if "i < length (ce_gens en)" for i using that assms(1) by (simp add: nth_append)
  show ?thesis
    using assms nth swept_append [OF assms(1) _ assms(2)] by (cases p) (auto simp: stop_inv_def less_Suc_eq)
qed

lemma stop_same:
  assumes "life_kept en en'" and "shaped (en, s, p, a)" and "stop_inv en p"
  shows "stop_inv en' p"
proof (rule stop_kept [of en])
  show "i < length (ce_gens en)" if "ce_active en = Some i" for i by (rule shaped_active [OF assms(2) that])
qed (use assms(1,3) in \<open>simp_all add: life_kept_def life_fields_def\<close>)

lemma stop_ops:
  assumes "shaped (en, s, p, a)" and "stop_inv en p"
  shows "stop_inv (gen_stop_mark i en) p" "stop_inv (gen_stop_signal i en) p" "stop_inv (close_if_idle c en) p"
    "stop_inv (start_client_generation i en) p" "stop_inv (apply_finished en) p" "stop_inv (en\<lparr>ce_applying := b\<rparr>) p"
proof -
  show "stop_inv (gen_stop_mark i en) p" "stop_inv (gen_stop_signal i en) p" "stop_inv (close_if_idle c en) p"
    "stop_inv (start_client_generation i en) p"
    by (rule stop_same [OF _ assms]; simp add: life_kept_def)+
  show "stop_inv (apply_finished en) p" "stop_inv (en\<lparr>ce_applying := b\<rparr>) p"
    by (rule stop_kept [OF _ _ _ _ assms(2)]; use shaped_active [OF assms(1)] in \<open>simp add: apply_finished_def\<close>)+
qed

lemma life_move_stop:
  assumes "life_move E x y" and "shaped x" and "conns_ok (fst x)" and "stop_inv (fst x) (fst (snd (snd x)))"
  shows "stop_inv (fst y) (fst (snd (snd y)))"
  using assms
proof (induction rule: life_move.induct)
  case (work en en' s p a)
  have "conns_ok en" "stop_inv en p" using work(3,4) by simp_all
  from stop_same [OF work_step_kept [OF work(1) this(1)] work(2) this(2)] show ?case by simp
next
  case (abnormal cause en en' s p a)
  have "stop_inv en p" using abnormal(5) by simp
  from stop_same [OF fail_abnormal_kept [OF abnormal(1)] abnormal(3) this] show ?case by simp
next
  case (start_claim en en' p a)
  have c: "en' = en\<lparr>ce_state := ClientStarting\<rparr>" using claim_kept [OF start_claim(1)] by simp
  have "stop_inv en' p"
    by (rule stop_kept [of en]) (use c start_claim(4) shaped_active [OF start_claim(2)] in \<open>auto simp: conn_received_def intro: gens_kept_fields\<close>)
  then show ?case by simp
next
  case (start_failed c en L en' e p a)
  have "stop_inv en' p"
    by (rule stop_kept [of en]) (use connect_kept [OF start_failed(2)] start_failed(5) shaped_active [OF start_failed(3)] in
        \<open>auto split: if_splits\<close>)
  then show ?case by simp
next
  case (start_connected c en L en' c' r p a)
  have "stop_inv en' p"
    by (rule stop_kept [of en]) (use connect_kept [OF start_connected(2)] start_connected(5) shaped_active [OF start_connected(3)] in
        \<open>auto split: if_splits\<close>)
  then show ?case by simp
next
  case (start_committed en c r p a)
  have "stop_inv (commit_client_running c r (new_client_generation 0 (ce_config en)) en) p"
    by (rule stop_append [of _ en "new_client_generation 0 (ce_config en)"])
      (use start_committed(3) in \<open>simp_all add: commit_client_running_def settled_def conn_received_def\<close>)
  then show ?case by simp
next
  case (stop_begin en s a)
  then show ?case using shaped_active [OF stop_begin(2)]
    by (auto simp: stop_inv_def client_mark_stopped_def)
next
  case (stop_mark en s i k a)
  have "i < length (ce_gens en)" using stop_mark(3) by (simp add: stop_inv_def)
  moreover have "life_fields (gen_stop_mark i en) = life_fields en" "length (ce_gens (gen_stop_mark i en)) = length (ce_gens en)"
    using gens_kept_length [OF gens_kept_gen_ops(1)] by simp_all
  ultimately show ?case using stop_mark(3) by (auto simp: stop_inv_def life_fields_def)
next
  case (stop_signal cs en i s k a)
  have i: "i < length (ce_gens en)" using stop_signal(4) by (simp add: stop_inv_def)
  have "life_fields (gen_stop_signal i en) = life_fields en" "length (ce_gens (gen_stop_signal i en)) = length (ce_gens en)"
    using gens_kept_length [OF gens_kept_gen_ops(2)] by simp_all
  with i stop_signal(1,4) show ?case by (auto simp: stop_inv_def life_fields_def swept_but_def)
next
  case (stop_sweep en s i c cs k a)
  have "life_fields (close_if_idle c en) = life_fields en" by simp
  with stop_sweep(3) swept_next [of en c cs i] show ?case by (auto simp: stop_inv_def life_fields_def)
next
  case (stop_swept en s i k a)
  have i: "i < length (ce_gens en)" "retired en i" using stop_swept(3) by (simp_all add: stop_inv_def)
  have "life_fields (gen_cancel i en) = life_fields en" by simp
  moreover have "retired (gen_cancel i en) i" by (rule swept_kept [OF gens_kept_gen_ops(3) i])
  ultimately show ?case using stop_swept(3) i(1) by (auto simp: stop_inv_def life_fields_def)
next
  case (stop_control en s k a)
  have lf: "life_fields (close_control k en) = life_fields en" by simp
  have "client_ended (close_control k en)" if "ce_state en = ClientStopped"
  proof -
    have k: "k = ce_control en" and r: "\<And>i. ce_active en = Some i \<Longrightarrow> retired en i \<and> cg_cancelled (ce_gens en ! i)"
      using stop_control(3) that by (auto simp: stop_inv_def)
    have "retired (close_control k en) i \<and> cg_cancelled (ce_gens (close_control k en) ! i)" if i: "ce_active en = Some i" for i
      using r [OF i] swept_kept [OF gens_kept_ops(5) shaped_active [OF stop_control(1) i]]
        gens_keptD(3) [OF gens_kept_ops(5) shaped_active [OF stop_control(1) i]] by blast
    moreover have "ce_active (close_control k en) = ce_active en" "ce_control (close_control k en) = k"
      using lf k by (simp_all add: life_fields_def)
    moreover have "c \<in> ce_closed (close_control k en)" if "k = Some (c, r)" for c r
      using that by (simp add: close_control_def)
    ultimately show ?thesis by (simp add: client_ended_def)
  qed
  with lf stop_control(3) show ?case by (auto simp: stop_inv_def life_fields_def)
next
  case (stop_cut d en en' s a)
  have "stop_inv en CStopWaiting" using stop_cut(4) by simp
  from stop_same [OF wait_drained_kept(1) [OF stop_cut(1)] stop_cut(2) this] show ?case by (simp add: stop_inv_def)
next
  case (stop_done en en' s a)
  have "stop_inv en CStopWaiting" using stop_done(4) by simp
  from stop_same [OF close_done_kept [OF stop_done(1)] stop_done(2) this] show ?case by (simp add: stop_inv_def)
next
  case (apply_refused g en en' e s p)
  then have "en' = en" by (auto simp: client_publish_generation_def split: if_splits)
  then show ?case using stop_ops(5) [OF apply_refused(2)] apply_refused(4) by simp
next
  case (apply_published g en en' old s p)
  then have "en' = en\<lparr>ce_gens := ce_gens en @ [g], ce_active := Some (length (ce_gens en)), ce_last_good := cg_revision g\<rparr>"
    "ce_state en = ClientRunning"
    by (auto simp: client_publish_generation_def split: if_splits)
  then have "stop_inv en' p"
    by - (rule stop_append [of _ en g], use apply_published(4) in \<open>simp_all add: settled_def conn_received_def\<close>)
  then show ?case by simp
next
  case (apply_drained i en en' b s p)
  have "stop_inv en p" using apply_drained(4) by simp
  then have "stop_inv en' p" "shaped (en', s, p, CApplyDraining i)"
    using stop_same [OF wait_drained_kept(2) [OF apply_drained(1)] apply_drained(2)]
      shaped_kept [OF wait_drained_kept(2) [OF apply_drained(1)] apply_drained(2)] by auto
  then show ?case using stop_ops(5) by fastforce
next
  case (start_running en i p a)
  then show ?case using stop_ops(4) [OF start_running(1)] by simp
next
  case (apply_started en s p old i)
  then show ?case using stop_ops(4) [OF apply_started(1)] by simp
next
  case (apply_mark en s p i)
  then show ?case using stop_ops(1) [OF apply_mark(1)] by simp
next
  case (apply_signal cs en i s p)
  then show ?case using stop_ops(2) [OF apply_signal(2)] by simp
next
  case (apply_sweep en s p i c cs)
  then show ?case using stop_ops(3) [OF apply_sweep(1)] by simp
next
  case (apply_enter d en s p)
  then show ?case using stop_ops(6) [OF apply_enter(3), where b = True] by simp
next
  case (apply_settled d en s p)
  then show ?case using stop_ops(5) [OF apply_settled(2)] by simp
next
  case (apply_unhealthy g d en e s p)
  then show ?case using stop_ops(5) [OF apply_unhealthy(3)] by simp
next
  case (apply_first en s p)
  then show ?case using stop_ops(5) [OF apply_first(1)] by simp
qed (auto simp: stop_inv_def)

subsection \<open>The invariant\<close>

definition client_inv :: "client_life \<Rightarrow> bool" where
  "client_inv x \<longleftrightarrow> shaped x \<and> books_ok (fst x) \<and> apply_fresh (snd (snd (snd x))) \<and>
     retire_inv (fst x) (snd (snd (snd x))) \<and> stop_inv (fst x) (fst (snd (snd x)))"

lemma client_inv_begin: "client_inv (client_begin c)"
  by (simp add: client_inv_def client_begin_def new_client_def shape_inv_def gen_revs_def start_shape_def apply_shape_def
      books_ok_def pools_ok_def conns_ok_def conn_received_def apply_fresh_def retire_inv_def stop_inv_def)

lemma client_inv_move:
  assumes "life_move E x y" and "client_inv x"
  shows "client_inv y"
proof -
  have inv: "shaped x" "books_ok (fst x)" "apply_fresh (snd (snd (snd x)))" "retire_inv (fst x) (snd (snd (snd x)))"
    "stop_inv (fst x) (fst (snd (snd x)))" "conns_ok (fst x)"
    using assms(2) by (simp_all add: client_inv_def books_ok_def)
  show ?thesis unfolding client_inv_def
    using life_move_shaped [OF assms(1) inv(1,6)] life_move_books [OF assms(1) inv(1-3)]
      life_move_retire [OF assms(1) inv(1,6,4)] life_move_stop [OF assms(1) inv(1,6,5)] by blast
qed

lemma client_inv_reach: "(life_move E)\<^sup>*\<^sup>* (client_begin c) x \<Longrightarrow> client_inv x"
  by (induction rule: rtranclp_induct) (auto intro: client_inv_begin client_inv_move)

end
