(* ===== verification/Client_Properties.thy ===== *)
theory Client_Properties
  imports Client_Reach Core_Properties
begin

section \<open>Properties of the client engine\<close>

text \<open>Sample values for the instances: a client with one stream proxy and one UDP proxy, a server
  that accepts its login, and the states of a run in which a second configuration is applied while
  an idle work connection waits.\<close>

definition sample_client_options :: "string \<Rightarrow> client_option list" where
  "sample_client_options name =
     [WithClientID ''c'',
      WithServerEndpoint \<lparr>se_address = \<lparr>ap_addr = IP_V4 0x7f000001, ap_port = 7000\<rparr>, se_transport = TransportTCP,
        se_wire = WireV1, se_config = zero_transport_config\<rparr>,
      WithClientAuth ''secret'',
      WithTCPProxies [\<lparr>pd_name = name, pd_local = sample_target, pd_remote_port = 2222\<rparr>]]"

definition sample_client :: "string \<Rightarrow> client_config" where
  "sample_client name = run_client_options (sample_client_options name)"

lemma sample_client_valid: "validate_client_config (sample_client ''ssh'') = []" "validate_client_config (sample_client ''web'') = []"
  by code_simp+

definition login_reply_bytes :: bytes where
  "login_reply_bytes = [of_char (CHR ''1'')] @ replicate 7 0 @ [2] @ map of_char ''{}''"

definition sample_login :: login_env where
  "sample_login = \<lparr>le_marshal = (\<lambda>l. Some (map of_char ''{}'')), le_unmarshal = (\<lambda>bs. Some \<lparr>ly_run_id = ''r'', ly_error = []\<rparr>),
     le_now = 0, le_write_ok = True,
     le_source = \<lparr>so_stream = \<lparr>st_data = login_reply_bytes, st_end = IO_EOF\<rparr>, so_chunks = []\<rparr>\<rparr>"

lemma sample_login_ok: "login_control sample_login (sample_client ''ssh'') = Inr ''r''"
  by code_simp

definition sample_worker :: "worker_pc \<Rightarrow> client_worker" where
  "sample_worker pc = \<lparr>wk_gen = 0, wk_type = ProxyTypeTCP,
     wk_proxy = \<lparr>pd_name = ''ssh'', pd_local = sample_target, pd_remote_port = 2222\<rparr>, wk_loop = True, wk_pc = pc\<rparr>"

definition sample_apply_env :: client_apply_env where
  "sample_apply_env = \<lparr>ca_cancel1 = False, ca_hook = (\<lambda>g. False), ca_cancel2 = False, ca_drain = DrainFinished\<rparr>"

definition sample_change :: client_deployment where
  "sample_change = \<lparr>cd_revision = 1, cd_config = sample_client ''web'', cd_bindings = 0\<rparr>"

text \<open>The engine after the start, with a tracked work connection that has received nothing, and after
  the publication of the second configuration.\<close>

definition sample_claimed :: client_engine where
  "sample_claimed = fst (claim_client_start (new_client (sample_client ''ssh'')))"

definition sample_connected :: client_engine where
  "sample_connected = fst (client_connect sample_login (Some 0) sample_claimed)"

definition sample_running :: client_engine where
  "sample_running = client_start_commit 0 ''r'' sample_connected"

definition sample_slot :: "work_pool \<times> (acquire_error + pool_slot)" where
  "sample_slot = pool_acquire False ''ssh'' (cg_pool (ce_gens sample_running ! 0))"

definition sample_tracked :: client_engine where
  "sample_tracked = declared_work (sample_worker (WorkerDeclaring 1)) 1
     (dialed_work (sample_worker WorkerDialing) 1 (begin_work (sample_worker WorkerTop) (fst sample_slot) sample_running))"

definition sample_published :: client_engine where
  "sample_published = fst (client_publish_generation
     (client_prepare_generation (new_client_generation 1 (sample_client ''web''))) (sample_tracked\<lparr>ce_applying := True\<rparr>))"

definition sample_replaced :: client_engine where
  "sample_replaced = apply_finished (close_if_idle 1 (gen_stop_signal 0 (gen_stop_mark 0
     (start_client_generation 1 sample_published))))"

lemmas sample_client_defs = sample_claimed_def sample_connected_def sample_running_def sample_slot_def sample_tracked_def
  sample_published_def sample_replaced_def

lemma sample_run_facts:
  "snd (claim_client_start (new_client (sample_client ''ssh''))) = None"
  "snd (client_connect sample_login (Some 0) sample_claimed) = Inr (0, ''r'')"
  "0 \<notin> ce_used sample_claimed" "length (ce_gens sample_connected) = 0"
  by code_simp+

lemma sample_worker_facts:
  "ce_workers sample_running = {#sample_worker WorkerTop#}"
  "case snd sample_slot of Inl e \<Rightarrow> False | Inr s \<Rightarrow> True"
  "1 \<notin> ce_used sample_running" "ce_gens sample_running \<noteq> []" "\<not> ce_applying sample_tracked"
  by code_simp+

lemma sample_apply_facts:
  "client_apply_validate sample_change (sample_tracked\<lparr>ce_applying := True\<rparr>) = Inr True"
  "client_health_check sample_apply_env
     (client_prepare_generation (new_client_generation 1 (sample_client ''web''))) (sample_tracked\<lparr>ce_applying := True\<rparr>) = None"
  "snd (client_publish_generation
     (client_prepare_generation (new_client_generation 1 (sample_client ''web''))) (sample_tracked\<lparr>ce_applying := True\<rparr>)) =
   Inr (Some 0)"
  "length (ce_gens sample_tracked) = 1"
  by code_simp+

lemma sample_members:
  "sample_worker WorkerDialing \<in># ce_workers (begin_work (sample_worker WorkerTop) (fst sample_slot) sample_running)"
  "1 \<notin> ce_used (begin_work (sample_worker WorkerTop) (fst sample_slot) sample_running)"
  "sample_worker (WorkerDeclaring 1) \<in># ce_workers (dialed_work (sample_worker WorkerDialing) 1
     (begin_work (sample_worker WorkerTop) (fst sample_slot) sample_running))"
  "cg_conns (ce_gens (gen_stop_mark 0 (start_client_generation 1 sample_published)) ! 0) = {1}"
  by code_simp+

lemma sample_reach_running:
  "(life_move sample_apply_env)\<^sup>*\<^sup>* (client_begin (sample_client ''ssh'')) (sample_running, CStartIdle, CStopIdle, CApplyIdle)"
proof -
  let ?E = sample_apply_env and ?c = "sample_client ''ssh''"
  have "(life_move ?E)\<^sup>*\<^sup>* (client_begin ?c) (sample_claimed, CStartClaimed, CStopIdle, CApplyIdle)"
    unfolding client_begin_def sample_claimed_def
    by (rule r_into_rtranclp, rule start_claim) (simp add: prod_eq_iff sample_run_facts(1))
  also have "life_move ?E \<dots> (sample_connected, CStartReady 0 ''r'', CStopIdle, CApplyIdle)"
    unfolding sample_connected_def
    by (rule start_connected [where L = sample_login, OF sample_run_facts(3)]) (simp add: prod_eq_iff sample_run_facts(2))
  also have "life_move ?E \<dots> (commit_client_running 0 ''r'' (new_client_generation 0 (ce_config sample_connected)) sample_connected,
      CStartCommitted (length (ce_gens sample_connected)), CStopIdle, CApplyIdle)"
    by (rule start_committed)
  also have "life_move ?E \<dots> (sample_running, CStartIdle, CStopIdle, CApplyIdle)"
    unfolding sample_running_def client_start_commit_def by (rule start_running)
  finally show ?thesis .
qed

lemma sample_reach_tracked:
  "(life_move sample_apply_env)\<^sup>*\<^sup>* (client_begin (sample_client ''ssh'')) (sample_tracked, CStartIdle, CStopIdle, CApplyIdle)"
proof -
  let ?E = sample_apply_env and ?w = "sample_worker WorkerTop"
  have w: "wk_gen ?w = 0" "pd_name (wk_proxy ?w) = ''ssh''" "\<And>pc. wk_pc (sample_worker pc) = pc"
    by (simp_all add: sample_worker_def)
  obtain sl where "snd sample_slot = Inr sl" using sample_worker_facts(2) by (auto split: sum.splits)
  then have slot: "pool_acquire False (pd_name (wk_proxy ?w)) (cg_pool (ce_gens sample_running ! wk_gen ?w)) =
      (fst sample_slot, Inr sl)"
    unfolding w sample_slot_def by (simp add: prod_eq_iff)
  note sample_reach_running
  also have "life_move ?E (sample_running, CStartIdle, CStopIdle, CApplyIdle)
      (begin_work ?w (fst sample_slot) sample_running, CStartIdle, CStopIdle, CApplyIdle)"
    by (rule work, rule slot_taken [OF _ w(3) slot]) (simp add: sample_worker_facts)
  also have "life_move ?E \<dots> (dialed_work (sample_worker WorkerDialing) 1
      (begin_work ?w (fst sample_slot) sample_running), CStartIdle, CStopIdle, CApplyIdle)"
    by (rule work, rule dialed [OF sample_members(1) w(3) sample_members(2)])
  also have "life_move ?E \<dots> (sample_tracked, CStartIdle, CStopIdle, CApplyIdle)"
    unfolding sample_tracked_def by (rule work, rule declared [OF sample_members(3) w(3)])
  finally show ?thesis .
qed

lemma sample_reach_replaced:
  "(life_move sample_apply_env)\<^sup>*\<^sup>* (client_begin (sample_client ''ssh'')) (sample_replaced, CStartIdle, CStopIdle, CApplyIdle)"
proof -
  let ?E = sample_apply_env and ?en = "sample_tracked\<lparr>ce_applying := True\<rparr>"
    and ?g = "client_prepare_generation (new_client_generation 1 (sample_client ''web''))"
  have d: "cd_revision sample_change = 1" "cd_config sample_change = sample_client ''web''"
    by (simp_all add: sample_change_def)
  have pub: "client_publish_generation ?g ?en = (sample_published, Inr (Some 0))"
    by (rule prod_eqI) (simp_all only: sample_published_def sample_apply_facts(3) fst_conv snd_conv)
  let ?e1 = "start_client_generation 1 sample_published"
  let ?e2 = "gen_stop_mark 0 ?e1"
  let ?e3 = "close_if_idle 1 (gen_stop_signal 0 ?e2)"
  note sample_reach_tracked
  also have "life_move ?E (sample_tracked, CStartIdle, CStopIdle, CApplyIdle) (?en, CStartIdle, CStopIdle, CApplyEntered sample_change)"
    by (rule apply_enter) (simp_all add: d sample_worker_facts(5))
  also have "life_move ?E \<dots> (?en, CStartIdle, CStopIdle, CApplyValid sample_change)"
    by (rule apply_valid [OF sample_apply_facts(1)])
  also have "life_move ?E \<dots> (?en, CStartIdle, CStopIdle, CApplyReady ?g)"
    by (rule apply_ready) (simp_all only: d sample_apply_facts(2))
  also have "life_move ?E \<dots> (sample_published, CStartIdle, CStopIdle, CApplyPublished (Some 0) (length (ce_gens ?en)))"
    by (rule apply_published [OF pub])
  also have "life_move ?E \<dots> (start_client_generation (length (ce_gens ?en)) sample_published, CStartIdle, CStopIdle, CApplyStarted (Some 0))"
    by (rule apply_started)
  also have "start_client_generation (length (ce_gens ?en)) sample_published = ?e1" by (simp add: sample_apply_facts(4))
  also have "life_move ?E (?e1, CStartIdle, CStopIdle, CApplyStarted (Some 0)) (?e2, CStartIdle, CStopIdle, CApplyMarked 0)"
    by (rule apply_mark)
  also have "life_move ?E \<dots> (gen_stop_signal 0 ?e2, CStartIdle, CStopIdle, CApplySweep 0 [1])"
    by (rule apply_signal) (simp only: sample_members(4) list.set)
  also have "life_move ?E \<dots> (?e3, CStartIdle, CStopIdle, CApplySweep 0 [])" by (rule apply_sweep)
  also have "life_move ?E \<dots> (?e3, CStartIdle, CStopIdle, CApplyDraining 0)" by (rule apply_swept)
  also have "life_move ?E \<dots> (apply_finished ?e3, CStartIdle, CStopIdle, CApplyIdle)"
    by (rule apply_drained) (simp add: gen_wait_drained_def sample_apply_env_def)
  finally show ?thesis by (simp only: sample_replaced_def)
qed

subsection \<open>Work connections\<close>

text \<open>C13: whatever the interleaving of workers, applications, shutdowns and failures, the pool of each
  generation counts exactly the goroutines of a proxy that are dialing, declaring or serving, and
  their number never exceeds the pool size of the configuration of that generation.\<close>

theorem client_work_conns_bounded:
  assumes "(life_move E)\<^sup>*\<^sup>* (client_begin c) (en, s, p, a)" and "i < length (ce_gens en)"
  shows "let busy = size {#w \<in># ce_workers en. wk_gen w = i \<and> pd_name (wk_proxy w) = q \<and> wk_pc w \<noteq> WorkerTop#}
    in pool_in_use q (cg_pool (ce_gens en ! i)) = int busy \<and>
      int busy \<le> max 0 (ccf_pool_size (cg_config (ce_gens en ! i)))"
proof -
  have "pools_ok en" using client_inv_reach [OF assms(1)] by (simp add: client_inv_def books_ok_def)
  then have held: "pool_in_use q (cg_pool (ce_gens en ! i)) = int (slots_held i q (ce_workers en))"
    and "slots_held i q (ce_workers en) = 0 \<or> int (slots_held i q (ce_workers en)) \<le> ccf_pool_size (cg_config (ce_gens en ! i))"
    using assms(2) unfolding pools_ok_def by blast+
  from this(2) have "int (slots_held i q (ce_workers en)) \<le> max 0 (ccf_pool_size (cg_config (ce_gens en ! i)))"
    by (elim disjE) simp_all
  with held have "pool_in_use q (cg_pool (ce_gens en ! i)) = int (slots_held i q (ce_workers en)) \<and>
      int (slots_held i q (ce_workers en)) \<le> max 0 (ccf_pool_size (cg_config (ce_gens en ! i)))" by simp
  moreover have "slot_of i q = (\<lambda>w. wk_gen w = i \<and> pd_name (wk_proxy w) = q \<and> wk_pc w \<noteq> WorkerTop)"
    by (simp add: slot_of_def fun_eq_iff)
  ultimately show ?thesis by (simp only: slots_held_def Let_def)
qed

theorem client_work_conns_bounded_witness:
  "let busy = size {#w \<in># ce_workers sample_tracked. wk_gen w = 0 \<and> pd_name (wk_proxy w) = ''ssh'' \<and> wk_pc w \<noteq> WorkerTop#}
   in pool_in_use ''ssh'' (cg_pool (ce_gens sample_tracked ! 0)) = int busy \<and>
     int busy \<le> max 0 (ccf_pool_size (cg_config (ce_gens sample_tracked ! 0)))"
  by (rule client_work_conns_bounded [OF sample_reach_tracked]) (simp add: sample_apply_facts(4))

text \<open>C7: when no application is running, every generation that was replaced has been told to stop,
  refuses to track a new work connection, and each connection it still tracks is closed or has
  received data of a guest: no idle connection of it can be paired any more.\<close>

theorem replaced_generation_keeps_only_used_conns:
  assumes "(life_move E)\<^sup>*\<^sup>* (client_begin c) (en, s, p, a)" and "Suc i < length (ce_gens en)" and "\<not> ce_applying en"
  shows "cg_stop_ch (ce_gens en ! i) \<and> track_if_active i k en = (en, False) \<and>
    (\<forall>k \<in> cg_conns (ce_gens en ! i). k \<in> ce_closed en \<or> conn_received k en \<noteq> 0)"
proof -
  have "shaped (en, s, p, a)" "retire_inv en a" using client_inv_reach [OF assms(1)] by (simp_all add: client_inv_def)
  with assms(2,3) have "retired en i" by (auto simp: shape_inv_def retire_inv_def retiring_def)
  then show ?thesis by (auto simp: swept_but_def track_if_active_def settled_def Let_def)
qed

lemma sample_replaced_facts: "Suc 0 < length (ce_gens sample_replaced)" "\<not> ce_applying sample_replaced" "ce_closed sample_replaced = {1}"
  by code_simp+

theorem replaced_generation_keeps_only_used_conns_witness:
  "track_if_active 0 2 sample_replaced = (sample_replaced, False) \<and>
   cg_conns (ce_gens sample_replaced ! 0) \<subseteq> {1} \<union> {k. conn_received k sample_replaced \<noteq> 0}"
  using replaced_generation_keeps_only_used_conns [OF sample_reach_replaced sample_replaced_facts(1,2), of 2]
    sample_replaced_facts(3) by blast

subsection \<open>Generations\<close>

text \<open>C26: the active generation of the client is always the one published last, the last good revision is
  its revision, and revisions strictly increase from one generation to the next.\<close>

theorem client_revisions_advance:
  assumes "(life_move E)\<^sup>*\<^sup>* (client_begin c) (en, s, p, a)"
  shows "ce_active en = (if ce_gens en = [] then None else Some (length (ce_gens en) - 1)) \<and>
    (ce_gens en \<noteq> [] \<longrightarrow> ce_last_good en = cg_revision (last (ce_gens en))) \<and>
    sorted_wrt (<) (map cg_revision (ce_gens en))"
proof -
  have "shaped (en, s, p, a)" using client_inv_reach [OF assms] by (simp add: client_inv_def)
  then show ?thesis by (auto simp: shape_inv_def gen_revs_def last_map)
qed

lemma sample_replaced_active: "ce_gens sample_replaced \<noteq> []" "length (ce_gens sample_replaced) = 2"
  by code_simp+

theorem client_revisions_advance_witness:
  "sorted_wrt (<) (map cg_revision (ce_gens sample_replaced)) \<and> ce_active sample_replaced = Some 1"
  using client_revisions_advance [OF sample_reach_replaced] sample_replaced_active by simp

text \<open>C19: once a shutdown has closed what it found, and no start has revived the engine, the active
  generation tracks no new connection, its forwarding is cancelled, its idle connections and the
  control connection are closed.\<close>

theorem client_shutdown_leaves_nothing_open:
  assumes "(life_move E)\<^sup>*\<^sup>* (client_begin c) (en, s, p, a)" and "ce_state en = ClientStopped" and "p \<in> {CStopWaiting, CStopIdle}"
  shows "(\<forall>i. ce_active en = Some i \<longrightarrow> track_if_active i k en = (en, False) \<and> cg_cancelled (ce_gens en ! i) \<and>
      (\<forall>k \<in> cg_conns (ce_gens en ! i). k \<in> ce_closed en \<or> conn_received k en \<noteq> 0)) \<and>
    (\<forall>k r. ce_control en = Some (k, r) \<longrightarrow> k \<in> ce_closed en)"
proof -
  have "stop_inv en p" using client_inv_reach [OF assms(1)] by (simp add: client_inv_def)
  then have "client_ended en" using assms(2,3) by (auto simp: stop_inv_def)
  then show ?thesis by (auto simp: client_ended_def swept_but_def track_if_active_def settled_def Let_def)
qed

text \<open>A shutdown that begins while the idle work connection is tracked, up to its wait.\<close>

definition sample_stopped :: client_engine where
  "sample_stopped = close_control (Some (0, ''r'')) (gen_cancel 0 (close_if_idle 1 (gen_stop_signal 0
     (gen_stop_mark 0 (client_mark_stopped sample_tracked)))))"

lemma sample_stop_facts:
  "\<not> ce_stop_once sample_tracked" "ce_active sample_tracked = Some 0" "ce_control sample_tracked = Some (0, ''r'')"
  "cg_conns (ce_gens (gen_stop_mark 0 (client_mark_stopped sample_tracked)) ! 0) = {1}"
  "ce_state sample_stopped = ClientStopped" "ce_active sample_stopped = Some 0" "ce_control sample_stopped = Some (0, ''r'')"
  by code_simp+

lemma sample_reach_stopped:
  "(life_move sample_apply_env)\<^sup>*\<^sup>* (client_begin (sample_client ''ssh'')) (sample_stopped, CStartIdle, CStopWaiting, CApplyIdle)"
proof -
  let ?E = sample_apply_env and ?k = "Some (0, ''r'') :: (conn \<times> string) option"
  let ?e0 = "client_mark_stopped sample_tracked"
  let ?e1 = "gen_stop_mark 0 ?e0"
  let ?e2 = "gen_stop_signal 0 ?e1"
  let ?e3 = "close_if_idle 1 ?e2"
  note sample_reach_tracked
  also have "life_move ?E (sample_tracked, CStartIdle, CStopIdle, CApplyIdle) (?e0, CStartIdle, CStopTaken (Some 0) ?k, CApplyIdle)"
    using stop_begin [OF sample_stop_facts(1), of ?E CStartIdle CApplyIdle] by (simp only: sample_stop_facts(2,3))
  also have "life_move ?E \<dots> (?e1, CStartIdle, CStopMarked 0 ?k, CApplyIdle)" by (rule stop_mark)
  also have "life_move ?E \<dots> (?e2, CStartIdle, CStopSweep 0 [1] ?k, CApplyIdle)"
    by (rule stop_signal) (simp only: sample_stop_facts(4) list.set)
  also have "life_move ?E \<dots> (?e3, CStartIdle, CStopSweep 0 [] ?k, CApplyIdle)" by (rule stop_sweep)
  also have "life_move ?E \<dots> (gen_cancel 0 ?e3, CStartIdle, CStopControl ?k, CApplyIdle)" by (rule stop_swept)
  also have "life_move ?E \<dots> (sample_stopped, CStartIdle, CStopWaiting, CApplyIdle)"
    unfolding sample_stopped_def by (rule stop_control)
  finally show ?thesis .
qed

theorem client_shutdown_leaves_nothing_open_witness:
  "track_if_active 0 2 sample_stopped = (sample_stopped, False) \<and> cg_cancelled (ce_gens sample_stopped ! 0) \<and> 0 \<in> ce_closed sample_stopped"
  using client_shutdown_leaves_nothing_open [OF sample_reach_stopped sample_stop_facts(5), of 2] sample_stop_facts(6,7) by simp

subsection \<open>Applications\<close>

lemma machine_failed: "client_apply_machine E d n en = (en', Inl e) \<Longrightarrow> en' = en"
  by (auto simp: client_apply_machine_def client_publish_generation_def Let_def
      split: sum.splits bool.splits option.splits prod.splits if_splits)

lemma apply_flag_restored: "\<not> ce_applying en \<Longrightarrow> en\<lparr>ce_applying := True, ce_hub := h, ce_applying := False\<rparr> = en\<lparr>ce_hub := h\<rparr>"
  by (cases en) simp





text \<open>C24: an application that fails changes nothing of the client but the events of its host: the
  configuration that runs, its work connections, the last good revision and the slot for the next
  application are as before.\<close>

theorem failed_client_apply_changes_nothing:
  assumes "client_apply E d en = Some (en', Inl e)"
  shows "\<exists>h. en' = en\<lparr>ce_hub := h\<rparr>"
proof (cases "cd_revision d = 0 \<or> ce_applying en")
  case True
  with assms have "en' = en\<lparr>ce_hub := ce_hub en\<rparr>" by (auto simp: client_apply_def split: if_splits)
  then show ?thesis by blast
next
  case False
  obtain en1 r where m: "client_apply_machine E d (client_active_revision en) (en\<lparr>ce_applying := True\<rparr>) = (en1, r)"
    by fastforce
  with False assms obtain h where "r = Inl e" "en' = en1\<lparr>ce_hub := h, ce_applying := False\<rparr>"
    by (auto simp: client_apply_def client_publish_apply_def split: option.splits)
  with machine_failed m False have "en' = en\<lparr>ce_hub := h\<rparr>" by (metis apply_flag_restored)
  then show ?thesis by blast
qed

definition sample_refused_env :: client_apply_env where
  "sample_refused_env = \<lparr>ca_cancel1 = False, ca_hook = (\<lambda>g. True), ca_cancel2 = False, ca_drain = DrainFinished\<rparr>"

lemma sample_refused: "map_option snd (client_apply sample_refused_env sample_change sample_tracked) =
    Some (Inl (ApplyError HealthCheckStage InjectedFailure))"
  by code_simp

theorem failed_client_apply_changes_nothing_witness:
  "case client_apply sample_refused_env sample_change sample_tracked of None \<Rightarrow> False
   | Some (en', r) \<Rightarrow> \<exists>h. en' = sample_tracked\<lparr>ce_hub := h\<rparr>"
  using sample_refused failed_client_apply_changes_nothing [of sample_refused_env sample_change sample_tracked]
  by (cases "client_apply sample_refused_env sample_change sample_tracked") auto




text \<open>An engine that is shut down while its start is logging in is set running again by the start; later
  shutdowns then do nothing, so the engine can no longer be stopped.\<close>

theorem start_revives_stopped_client:
  assumes "client_shutdown d en = Some (en1, b)"
  shows "let en2 = client_start_commit k r en1
    in ce_state en2 = ClientRunning \<and> client_active_generation en2 \<noteq> None \<and> ce_control en2 = Some (k, r) \<and>
      client_stop_all en2 = en2"
proof -
  have "ce_stop_once (client_stop_all en)"
    by (auto simp: client_stop_all_def Let_def close_control_def gen_stop_def close_client_conn_def gen_cancel_def set_client_gen_def
        close_idle_work_conns_def gen_stop_signal_def gen_stop_mark_def client_mark_stopped_def split: option.splits)
  then have "ce_stop_once en1"
    using assms by (auto simp: client_shutdown_def client_wait_drained_def close_client_conns_def close_control_def Let_def
        close_client_conn_def close_gen_conns_def client_close_done_def split: drain_end.splits option.splits prod.splits if_splits)
  then show ?thesis
    by (simp add: client_start_commit_def start_client_generation_def commit_client_running_def client_active_generation_def
        client_stop_all_def Let_def)
qed

theorem start_revives_stopped_client_witness:
  "case client_shutdown DrainFinished (fst (client_connect sample_login (Some 0) sample_claimed)) of
     None \<Rightarrow> False
   | Some (en1, b) \<Rightarrow> ce_state (client_start_commit 0 ''r'' en1) = ClientRunning"
proof -
  obtain en1 b where s: "client_shutdown DrainFinished (fst (client_connect sample_login (Some 0) sample_claimed)) = Some (en1, b)"
    by (cases "client_shutdown DrainFinished (fst (client_connect sample_login (Some 0) sample_claimed))") (code_simp, auto)
  with start_revives_stopped_client [OF s] show ?thesis by (simp add: Let_def)
qed

end
