(* ===== verification/Session_Writer.thy ===== *)
theory Session_Writer
  imports Wire_Progress Server_Login
begin

section \<open>Writing on a control connection (\<open>core/server/engine.go\<close>, \<open>crypto_v1.go\<close>)\<close>

text \<open>
  What the server sends on a control connection goes through a session writer: the encoding is that
  of the session's wire version, and the bytes go to the connection itself or, once the login of an
  official client has switched the channel, to a cipher writer on top of it. The write function of
  the connection, the ciphers, the key derivations, the random source and the JSON codec are
  parameters.
\<close>

datatype 'w session_output =
    Out_Plain 'w
  | Out_V1 "'w v1_cipher_writer"
  | Out_V2 "'w v2_aead_writer"

fun out_conn :: "'w session_output \<Rightarrow> 'w" where
  "out_conn (Out_Plain w) = w"
| "out_conn (Out_V1 c) = vcw_target c"
| "out_conn (Out_V2 a) = aw_target a"

record 'w session_writer =
  sw_version :: version
  sw_output :: "'w session_output"

record 'w session_env =
  ee_write :: "'w go_write"
  ee_crypto :: crypto_fns
  ee_seal :: aead_fn
  ee_iv :: bytes
  ee_nonce :: bytes
  ee_pbkdf2 :: "string \<Rightarrow> string \<Rightarrow> nat \<Rightarrow> nat \<Rightarrow> bytes option"
  ee_hkdf :: "bytes \<Rightarrow> bytes \<Rightarrow> string \<Rightarrow> nat \<Rightarrow> bytes option"
  ee_random :: string
  ee_marshal_hello :: "server_hello \<Rightarrow> bytes option"
  ee_marshal_response :: "login_response \<Rightarrow> bytes option"
  ee_auth :: auth_fns
  ee_unmarshal_login :: "bytes \<Rightarrow> login_payload option"
  ee_fresh :: string

subsection \<open>Messages\<close>

definition encode_session_message :: "version \<Rightarrow> message_type \<Rightarrow> bytes \<Rightarrow> go_error + bytes" where
  "encode_session_message v mt body =
     (if v = VersionV2 then encode_v2_message_frame mt body
      else encode_v1_frame \<lparr>fr_type = mt, fr_payload = body, fr_release = None\<rparr>)"

fun output_write :: "'w session_env \<Rightarrow> 'w session_output \<Rightarrow> bytes \<Rightarrow> 'w session_output \<times> go_error option" where
  "output_write E (Out_Plain w) raw = (case ee_write E w raw of (w', e) \<Rightarrow> (Out_Plain w', e))"
| "output_write E (Out_V1 c) raw =
     (case v1_cipher_write (cf_aes (ee_crypto E)) (ee_write E) (ee_iv E) c raw of (c', e) \<Rightarrow> (Out_V1 c', e))"
| "output_write E (Out_V2 a) raw =
     (case aead_write (ee_seal E) (ee_write E) a raw of (a', n, e) \<Rightarrow> (Out_V2 a', e))"

definition write_message ::
  "'w session_env \<Rightarrow> message_type \<Rightarrow> bytes \<Rightarrow> 'w session_writer \<Rightarrow> 'w session_writer \<times> go_error option" where
  "write_message E mt body s =
     (case encode_session_message (sw_version s) mt body of
        Inl e \<Rightarrow> (s, Some e)
      | Inr raw \<Rightarrow> (case output_write E (sw_output s) raw of (o', e) \<Rightarrow> (s\<lparr>sw_output := o'\<rparr>, e)))"

definition reply_pong :: "'w session_env \<Rightarrow> 'w session_writer \<Rightarrow> 'w session_writer \<times> go_error option" where
  "reply_pong E s = write_message E MessageTypePong (map of_char ''{}'') s"

text \<open>A response that cannot be encoded is not sent.\<close>

definition write_login_response ::
  "'w session_env \<Rightarrow> login_response \<Rightarrow> 'w session_writer \<Rightarrow> 'w session_writer \<times> bool" where
  "write_login_response E r s =
     (case ee_marshal_response E r of
        None \<Rightarrow> (s, False)
      | Some body \<Rightarrow> (case write_message E MessageTypeLoginResponse body s of (s', e) \<Rightarrow> (s', e = None)))"

subsection \<open>Negotiation on version 2\<close>

definition complete_v2_negotiation ::
  "'w session_env \<Rightarrow> 'w \<Rightarrow> connection_guard \<Rightarrow> 'w \<times> connection_guard \<times> go_error option" where
  "complete_v2_negotiation E w g =
     (case guard_negotiate (ee_crypto E) g of
        (g1, Inl e) \<Rightarrow> (w, g1, Some e)
      | (g1, Inr result) \<Rightarrow>
          (case encode_server_hello (ee_marshal_hello E) (ee_random E) result of
             Inl e \<Rightarrow> (w, g1, Some e)
           | Inr payload \<Rightarrow>
               (let g2 = record_v2_server_hello payload g1
                in case encode_v2_frame V2FrameTypeServerHello payload of
                     Inl e \<Rightarrow> (w, g2, Some e)
                   | Inr raw \<Rightarrow> (case ee_write E w raw of (w', e) \<Rightarrow> (w', g2, e)))))"

subsection \<open>Switching to the cipher\<close>

definition v1CipherSalt :: string where "v1CipherSalt = ''frp''"
definition v1CipherIterations :: nat where "v1CipherIterations = 64"

definition v1_control_cipher_key ::
  "(string \<Rightarrow> string \<Rightarrow> nat \<Rightarrow> nat \<Rightarrow> bytes option) \<Rightarrow> string \<Rightarrow> go_error + bytes" where
  "v1_control_cipher_key pbkdf2 token =
     (case pbkdf2 token v1CipherSalt v1CipherIterations aes_block_size of
        None \<Rightarrow> Inl (Wrapped ErrKeyLength)
      | Some key \<Rightarrow> Inr key)"

definition V2DirectionClientToServer :: string where "V2DirectionClientToServer = ''client-to-server''"
definition V2DirectionServerToClient :: string where "V2DirectionServerToClient = ''server-to-client''"

datatype cipher_failure = CompatTokenMissing | TranscriptIncomplete | CipherError go_error

text \<open>The key of one direction of a version 2 session.\<close>

definition v2_session_key :: "'w session_env \<Rightarrow> string \<Rightarrow> string \<Rightarrow> bytes \<Rightarrow> go_error + bytes" where
  "v2_session_key E token direction transcript =
     derive_v2_control_key (ee_hkdf E) (bytes_of token) V2CipherAlgorithmAES256GCM direction transcript"

definition enable_v2_control_cipher ::
  "'w session_env \<Rightarrow> client_credential list \<Rightarrow> string \<Rightarrow> connection_guard \<Rightarrow> 'w session_writer
   \<Rightarrow> connection_guard \<times> 'w session_writer \<times> cipher_failure option" where
  "enable_v2_control_cipher E creds client g s =
     (case compat_token creds client of
        None \<Rightarrow> (g, s, Some CompatTokenMissing)
      | Some token \<Rightarrow>
          (case guard_v2_transcript (ee_crypto E) g of
             None \<Rightarrow> (g, s, Some TranscriptIncomplete)
           | Some transcript \<Rightarrow>
               (case v2_session_key E token V2DirectionClientToServer transcript of
                  Inl e \<Rightarrow> (g, s, Some (CipherError e))
                | Inr read_key \<Rightarrow>
                    (case v2_session_key E token V2DirectionServerToClient transcript of
                       Inl e \<Rightarrow> (g, s, Some (CipherError e))
                     | Inr write_key \<Rightarrow>
                         (case new_v2_aead_writer (out_conn (sw_output s)) write_key (ee_nonce E) of
                            Inl e \<Rightarrow> (g, s, Some (CipherError e))
                          | Inr encrypted \<Rightarrow>
                              (case enable_v2_cipher read_key g of
                                 (g', Some e) \<Rightarrow> (g', s, Some (CipherError e))
                               | (g', None) \<Rightarrow> (g', s\<lparr>sw_output := Out_V2 encrypted\<rparr>, None)))))))"

definition enable_v1_control_cipher ::
  "'w session_env \<Rightarrow> client_credential list \<Rightarrow> string \<Rightarrow> connection_guard \<Rightarrow> 'w session_writer
   \<Rightarrow> connection_guard \<times> 'w session_writer \<times> cipher_failure option" where
  "enable_v1_control_cipher E creds client g s =
     (case compat_token creds client of
        None \<Rightarrow> (g, s, Some CompatTokenMissing)
      | Some token \<Rightarrow>
          (case v1_control_cipher_key (ee_pbkdf2 E) token of
             Inl e \<Rightarrow> (g, s, Some (CipherError e))
           | Inr key \<Rightarrow>
               (case new_v1_cipher_writer (out_conn (sw_output s)) key of
                  Inl e \<Rightarrow> (g, s, Some (CipherError e))
                | Inr encrypted \<Rightarrow>
                    (case enable_v1_cipher key g of
                       (g', Some e) \<Rightarrow> (g', s, Some (CipherError e))
                     | (g', None) \<Rightarrow> (g', s\<lparr>sw_output := Out_V1 encrypted\<rparr>, None)))))"

definition enable_control_cipher ::
  "'w session_env \<Rightarrow> client_credential list \<Rightarrow> string \<Rightarrow> version \<Rightarrow> connection_guard \<Rightarrow> 'w session_writer
   \<Rightarrow> connection_guard \<times> 'w session_writer \<times> cipher_failure option" where
  "enable_control_cipher E creds client v g s =
     (if v = VersionV2 then enable_v2_control_cipher E creds client g s else enable_v1_control_cipher E creds client g s)"

subsection \<open>Laws\<close>

lemma enable_v1_control_okD:
  assumes "enable_v1_control_cipher E creds client g s = (g', s', None)"
  shows "\<exists>token key. compat_token creds client = Some token \<and> v1_control_cipher_key (ee_pbkdf2 E) token = Inr key \<and>
    g_chan g' = Chan_V1 (new_v1_cipher_reader (chan_peeker (g_chan g)) key) \<and>
    sw_output s' = Out_V1 \<lparr>vcw_target = out_conn (sw_output s), vcw_key = key, vcw_stream = None\<rparr> \<and>
    sw_version s' = sw_version s"
  using assms
  by (auto simp: enable_v1_control_cipher_def new_v1_cipher_writer_def enable_v1_cipher_def
      split: option.splits sum.splits prod.splits if_splits)

lemma enable_v2_control_okD:
  assumes "enable_v2_control_cipher E creds client g s = (g', s', None)"
  shows "\<exists>token transcript rk wk. compat_token creds client = Some token \<and>
    guard_v2_transcript (ee_crypto E) g = Some transcript \<and>
    v2_session_key E token V2DirectionClientToServer transcript = Inr rk \<and>
    v2_session_key E token V2DirectionServerToClient transcript = Inr wk \<and>
    new_v2_aead_reader (chan_peeker (g_chan g)) rk = (case g_chan g' of Chan_V2 r \<Rightarrow> Inr r | _ \<Rightarrow> Inl IO_Failure) \<and>
    sw_output s' = Out_V2 \<lparr>aw_target = out_conn (sw_output s), aw_key = wk, aw_stream_nonce = ee_nonce E,
      aw_nonce = ee_nonce E, aw_header_sent = False\<rparr> \<and>
    sw_version s' = sw_version s"
  using assms
  by (auto simp: enable_v2_control_cipher_def new_v2_aead_writer_def enable_v2_cipher_def
      split: option.splits sum.splits prod.splits if_splits)

text \<open>The writer keeps its version, and what it wrote on a sink it never takes back.\<close>

lemma write_message_version [simp]: "sw_version (fst (write_message E mt body s)) = sw_version s"
  by (simp add: write_message_def split: sum.splits prod.splits)

lemma write_login_version [simp]: "sw_version (fst (write_login_response E r s)) = sw_version s"
  by (simp add: write_login_response_def case_prod_unfold split: option.splits)

lemma write_message_plain:
  assumes "ee_write E = sink_write" and "sw_output s = Out_Plain w" and "encode_session_message (sw_version s) mt body = Inr raw"
  shows "write_message E mt body s = (s\<lparr>sw_output := Out_Plain (w @ raw)\<rparr>, None)"
  using assms by (simp add: write_message_def sink_write_def)

end
