(* ===== verification/Server_Control.thy ===== *)
theory Server_Control
  imports Runtime_Proxy Session_Writer
begin

section \<open>Control connections of the server (\<open>core/server/engine.go\<close>)\<close>

text \<open>
  What the server does with a connection at its control entry: version detection, negotiation on
  version 2, the first frame (a login, or the declaration of a work connection), the switch to the
  cipher for official clients, the entry into the session tables, and the loop that serves the
  messages of the session. The first part works on the connection alone and is one function; the
  loop runs beside all other connections.
\<close>

subsection \<open>The wire options\<close>

definition compat_wire_versions :: "string list" where
  "compat_wire_versions = [''v1'', ''v2'']"

fun add_wire_version :: "string \<Rightarrow> wire_options \<Rightarrow> wire_options" where
  "add_wire_version v opts =
     (if v = ''v1'' then opts\<lparr>wo_max_version := Some VersionV1\<rparr>
      else if v = ''v2'' then opts\<lparr>wo_v2_enabled := True\<rparr> else opts)"

definition wire_options_from_compat :: wire_options where
  "wire_options_from_compat =
     fold add_wire_version compat_wire_versions
       \<lparr>wo_max_version = Some VersionV2, wo_v2_enabled = False,
        wo_capabilities = \<lparr>cap_codecs = [], cap_crypto = [], cap_compression = [], cap_max_payload = 0\<rparr>, wo_sink = False\<rparr>"

subsection \<open>Until the session is open\<close>

datatype control_failure =
    DetectionFailed go_error
  | FirstTypeFailed go_error
  | NegotiationFailed go_error
  | FirstFrameFailed go_error
  | LoginRefused login_failure
  | CipherRefused cipher_failure
  | PlainReaderFailed go_error
  | FirstFrameInvalid

datatype control_start =
    ControlRefused control_failure
  | WorkDeclared version bytes
  | SessionOpened string bool string

text \<open>A work connection of version 2 is neither negotiated nor encrypted.\<close>

definition serve_v2_work_conn :: "crypto_fns \<Rightarrow> connection_guard \<Rightarrow> connection_guard \<times> control_start" where
  "serve_v2_work_conn K g =
     (case bind_v2_plain_reader g of
        (g1, Some e) \<Rightarrow> (g1, ControlRefused (PlainReaderFailed e))
      | (g1, None) \<Rightarrow>
          (case guard_read_frame K g1 of
             (g2, Inl e) \<Rightarrow> (g2, ControlRefused (FirstFrameFailed e))
           | (g2, Inr f) \<Rightarrow>
               if mt_name (fr_type f) \<noteq> ''new-work-conn'' then (g2, ControlRefused FirstFrameInvalid)
               else (g2, WorkDeclared VersionV2 (fr_payload f))))"

text \<open>The login: the response is written before the channel switches.\<close>

definition login_session ::
  "'w session_env \<Rightarrow> client_credential list \<Rightarrow> bytes \<Rightarrow> 'w session_writer
   \<Rightarrow> 'w session_writer \<times> (login_failure + bool \<times> string)" where
  "login_session E creds payload s =
     (let login = (\<lambda>ok. handle_login (ee_auth E) (ee_unmarshal_login E) (ee_fresh E) ok creds payload)
      in case write_login_response E (fst (login True)) s of (s', ok) \<Rightarrow> (s', snd (login ok)))"

definition open_session ::
  "'w session_env \<Rightarrow> client_credential list \<Rightarrow> version \<Rightarrow> bytes \<Rightarrow> connection_guard \<Rightarrow> 'w session_writer
   \<Rightarrow> connection_guard \<times> 'w session_writer \<times> control_start" where
  "open_session E creds v payload g s =
     (case login_session E creds payload s of
        (s1, Inl e) \<Rightarrow> (g, s1, ControlRefused (LoginRefused e))
      | (s1, Inr (official, run_id)) \<Rightarrow>
          (let client = (case ee_unmarshal_login E payload of None \<Rightarrow> [] | Some rq \<Rightarrow> lp_client_id rq)
           in if official
              then (case enable_control_cipher E creds client v g s1 of
                  (g', s2, Some e) \<Rightarrow> (g', s2, ControlRefused (CipherRefused e))
                | (g', s2, None) \<Rightarrow> (g', s2, SessionOpened client official run_id))
              else (g, s1, SessionOpened client official run_id)))"

definition serve_first_frame ::
  "'w session_env \<Rightarrow> client_credential list \<Rightarrow> version \<Rightarrow> connection_guard \<Rightarrow> 'w
   \<Rightarrow> connection_guard \<times> 'w session_writer \<times> control_start" where
  "serve_first_frame E creds v g w =
     (let s = \<lparr>sw_version = v, sw_output = Out_Plain w\<rparr>
      in case guard_read_frame (ee_crypto E) g of
           (g1, Inl e) \<Rightarrow> (g1, s, ControlRefused (FirstFrameFailed e))
         | (g1, Inr f) \<Rightarrow>
             if mt_name (fr_type f) = ''login'' then open_session E creds v (fr_payload f) g1 s
             else if mt_name (fr_type f) = ''new-work-conn'' then (g1, s, WorkDeclared VersionV1 (fr_payload f))
             else (g1, s, ControlRefused FirstFrameInvalid))"

definition open_control ::
  "'w session_env \<Rightarrow> wire_options \<Rightarrow> client_credential list \<Rightarrow> string \<Rightarrow> socket \<Rightarrow> 'w
   \<Rightarrow> connection_guard \<times> 'w session_writer \<times> control_start" where
  "open_control E opts creds peer sock w =
     (let plain = (\<lambda>v. \<lparr>sw_version = v, sw_output = Out_Plain w\<rparr>)
      in case detect_version sock (new_guard opts peer None sock) of
           (g, Inl e) \<Rightarrow> (g, plain VersionV1, ControlRefused (DetectionFailed e))
         | (g, Inr VersionV1) \<Rightarrow> serve_first_frame E creds VersionV1 g w
         | (g, Inr VersionV2) \<Rightarrow>
             (case peek_v2_first_frame_type g of
                (g1, Inl e) \<Rightarrow> (g1, plain VersionV2, ControlRefused (FirstTypeFailed e))
              | (g1, Inr first) \<Rightarrow>
                  if first = V2FrameTypeMessage
                  then (case serve_v2_work_conn (ee_crypto E) g1 of (g2, r) \<Rightarrow> (g2, plain VersionV2, r))
                  else (case complete_v2_negotiation E w g1 of
                      (w1, g2, Some e) \<Rightarrow> (g2, (plain VersionV2)\<lparr>sw_output := Out_Plain w1\<rparr>, ControlRefused (NegotiationFailed e))
                    | (w1, g2, None) \<Rightarrow> serve_first_frame E creds VersionV2 g2 w1)))"

subsection \<open>The loop of a session\<close>

datatype control_end =
    EndDeadline
  | EndLiveness
  | EndRead go_error
  | EndPong go_error
  | EndUnknown
  | EndPanic

text \<open>What the loop depends on: whether the deadline can be set before the k-th message, which errors
  are a passed deadline, what other connections do to the engine before the k-th message and while
  an entry is opened, the network and the decoders.\<close>

record loop_env =
  oo_deadline :: "nat \<Rightarrow> bool"
  oo_timeout :: "go_error \<Rightarrow> bool"
  oo_others :: "nat \<Rightarrow> engine \<Rightarrow> engine"
  oo_between :: "nat \<Rightarrow> engine \<Rightarrow> engine"
  oo_bind :: bind_fn
  oo_order :: "string list \<Rightarrow> string list"
  oo_lower :: "string \<Rightarrow> string"
  oo_request :: "bytes \<Rightarrow> proxy_request option"
  oo_close :: "bytes \<Rightarrow> string option"
  oo_marshal :: "proxy_response \<Rightarrow> bytes option"

definition control_liveness_window :: "int \<Rightarrow> int" where
  "control_liveness_window heartbeat = (if heartbeat * 3 < second then second else heartbeat * 3)"

definition write_proxy_response ::
  "'w session_env \<Rightarrow> loop_env \<Rightarrow> proxy_response \<Rightarrow> 'w session_writer \<Rightarrow> 'w session_writer" where
  "write_proxy_response E L r s =
     (case oo_marshal L r of None \<Rightarrow> s | Some body \<Rightarrow> fst (write_message E MessageTypeNewProxyResponse body s))"

text \<open>One message of the session of \<open>client\<close> on connection \<open>c\<close>, which belongs to generation \<open>i\<close>.\<close>

definition control_message ::
  "'w session_env \<Rightarrow> loop_env \<Rightarrow> nat \<Rightarrow> string \<Rightarrow> conn \<Rightarrow> nat \<Rightarrow> frame \<Rightarrow> 'w session_writer \<times> engine
   \<Rightarrow> ('w session_writer \<times> engine) \<times> control_end option" where
  "control_message E L i client c k f = (\<lambda>(s, en).
     if mt_name (fr_type f) = ''ping'' then
       (case reply_pong E s of (s', e) \<Rightarrow> ((s', en), map_option EndPong e))
     else if mt_name (fr_type f) = ''new-proxy'' then
       (case handle_new_proxy (oo_bind L) (oo_order L) (oo_lower L) (oo_between L k) i client c (oo_request L (fr_payload f)) en of
          None \<Rightarrow> ((s, en), Some EndPanic)
        | Some (en', r) \<Rightarrow> ((write_proxy_response E L r s, en'), None))
     else if mt_name (fr_type f) = ''close-proxy'' then
       ((s, handle_close_proxy (oo_lower L) i client (oo_close L (fr_payload f)) en), None)
     else ((s, en), Some EndUnknown))"

partial_function (option) serve_control_loop ::
  "'w session_env \<Rightarrow> loop_env \<Rightarrow> nat \<Rightarrow> string \<Rightarrow> conn \<Rightarrow> nat \<Rightarrow> connection_guard \<Rightarrow> 'w session_writer \<times> engine
   \<Rightarrow> (connection_guard \<times> ('w session_writer \<times> engine) \<times> control_end) option" where
  "serve_control_loop E L i client c k g st =
     (if \<not> oo_deadline L k then Some (g, st, EndDeadline)
      else case guard_read_frame (ee_crypto E) g of
             (g', Inl e) \<Rightarrow> Some (g', st, if oo_timeout L e then EndLiveness else EndRead e)
           | (g', Inr f) \<Rightarrow>
               (case control_message E L i client c k f (map_prod id (oo_others L k) st) of
                  (st', Some r) \<Rightarrow> Some (g', st', r)
                | (st', None) \<Rightarrow> serve_control_loop E L i client c (Suc k) g' st'))"

subsection \<open>The tables around a session\<close>

definition close_session :: "conn \<Rightarrow> engine \<Rightarrow> engine" where
  "close_session c en = en\<lparr>en_closed := en_closed en @ [c]\<rparr>"

definition track_conn :: "nat \<Rightarrow> conn \<Rightarrow> engine \<Rightarrow> engine" where
  "track_conn i c en = set_gen i ((en_gens en ! i)\<lparr>gn_conns := insert c (gn_conns (en_gens en ! i))\<rparr>) en"

definition untrack_conn :: "nat \<Rightarrow> conn \<Rightarrow> engine \<Rightarrow> engine" where
  "untrack_conn i c en = set_gen i ((en_gens en ! i)\<lparr>gn_conns := gn_conns (en_gens en ! i) - {c}\<rparr>) en"

definition on_sessions :: "(sessions \<Rightarrow> sessions) \<Rightarrow> engine \<Rightarrow> engine" where
  "on_sessions f en = en\<lparr>en_sessions := f (en_sessions en)\<rparr>"

definition enter_control :: "nat \<Rightarrow> conn \<Rightarrow> engine \<Rightarrow> engine" where
  "enter_control i c en = on_sessions (track_control c) (track_conn i c en)"

definition leave_control :: "nat \<Rightarrow> conn \<Rightarrow> engine \<Rightarrow> engine" where
  "leave_control i c en = untrack_conn i c (on_sessions (untrack_control c) en)"

text \<open>The new session of a client takes over; the old one is closed. \<open>None\<close> is a panic of the hub.\<close>

definition join_session :: "conn \<Rightarrow> version \<Rightarrow> string \<Rightarrow> bool \<Rightarrow> string \<Rightarrow> string \<Rightarrow> engine \<Rightarrow> engine option" where
  "join_session c v client official run_id remote en =
     (let s = (if official then register_official_session client c v run_id (en_sessions en) else en_sessions en)
      in case bind_control_client c client s of
           (s', old) \<Rightarrow>
             (let en1 = en\<lparr>en_sessions := s'\<rparr>;
                  en2 = (case old of None \<Rightarrow> en1 | Some k \<Rightarrow> close_session k en1)
              in map_option (\<lambda>h. en2\<lparr>en_hub := h\<rparr>) (hub_publish (ClientConnected client remote) (en_hub en2))))"

text \<open>A whole control connection. The loop's end closes the connection, then the proxies registered over
  it are released; at last the connection leaves the tables. \<open>work\<close> is what the declaration of a work
  connection does to the engine (the theory of work connections has it on its own view).\<close>

definition run_session ::
  "'w session_env \<Rightarrow> loop_env \<Rightarrow> nat \<Rightarrow> conn \<Rightarrow> string \<Rightarrow> connection_guard \<Rightarrow> 'w session_writer \<Rightarrow> engine
   \<Rightarrow> engine option" where
  "run_session E L i c client g s en =
     (case serve_control_loop E L i client c 0 g (s, en) of
        None \<Rightarrow> None
      | Some (_, (_, en1), r) \<Rightarrow>
          if r = EndPanic then None else Some (cleanup_runtime_proxies (oo_lower L) i c (close_session c en1)))"

definition handle_control ::
  "'w session_env \<Rightarrow> loop_env \<Rightarrow> (version \<Rightarrow> bytes \<Rightarrow> engine \<Rightarrow> engine) \<Rightarrow> nat \<Rightarrow> conn \<Rightarrow> string \<Rightarrow> string
   \<Rightarrow> socket \<Rightarrow> 'w \<Rightarrow> engine \<Rightarrow> engine option" where
  "handle_control E L work i c peer remote sock w en =
     (let en1 = enter_control i c en
      in map_option (leave_control i c)
        (case open_control E wire_options_from_compat (scf_credentials (gn_config (en_gens en ! i))) peer sock w of
           (g, s, ControlRefused _) \<Rightarrow> Some (close_session c en1)
         | (g, s, WorkDeclared v payload) \<Rightarrow> Some (work v payload en1)
         | (g, s, SessionOpened client official run_id) \<Rightarrow>
             (case join_session c (sw_version s) client official run_id remote en1 of
                None \<Rightarrow> None
              | Some en2 \<Rightarrow> run_session E L i c client g s en2)))"

subsection \<open>The accept loops (\<open>engine.go\<close>, \<open>listener.go\<close>)\<close>

text \<open>What an accept gives: a connection, or an error that is a time-out or not.\<close>

datatype accept_result = Accepted conn | AcceptFailed bool

datatype accept_action = AcceptContinue | AcceptTemporary | AcceptFatal

definition accept_error_action :: "bool option \<Rightarrow> accept_action" where
  "accept_error_action err = (case err of None \<Rightarrow> AcceptContinue | Some timeout \<Rightarrow> if timeout then AcceptTemporary else AcceptFatal)"

definition accept_backoff :: "accept_action \<Rightarrow> int" where
  "accept_backoff a = (if a = AcceptTemporary then 20 * (second div 1000) else 0)"

text \<open>One round of a loop: it returns, sleeps, goes on, or hands the connection to a goroutine.\<close>

datatype accept_round = RoundReturn | RoundSleep int | RoundNext | RoundServe conn

definition report_accept_fatal :: "nat option \<Rightarrow> engine \<Rightarrow> engine" where
  "report_accept_fatal gi en =
     (if en_shutting en \<or> en_state en = StateStopped \<or>
        (case gi of None \<Rightarrow> False | Some i \<Rightarrow> gn_stopping (en_gens en ! i))
      then en else fail_abnormal gi ''accept'' en)"

definition accept_control :: "accept_result \<Rightarrow> engine \<Rightarrow> engine \<times> accept_round" where
  "accept_control r en =
     (case r of
        AcceptFailed timeout \<Rightarrow>
          (let action = accept_error_action (Some timeout)
           in if action = AcceptFatal then (report_accept_fatal None en, RoundReturn)
              else (en, RoundSleep (accept_backoff action)))
      | Accepted c \<Rightarrow>
          (case active_generation en of None \<Rightarrow> (close_session c en, RoundNext) | Some g \<Rightarrow> (en, RoundServe c)))"

definition owns_guest_listener :: "generation \<Rightarrow> nat \<Rightarrow> bool" where
  "owns_guest_listener g l \<longleftrightarrow> l \<in> snd ` set (gn_lns g)"

text \<open>The loop of a guest entry with listener \<open>l\<close>; the loops of HTTP entries differ in the goroutine.\<close>

definition accept_guest :: "nat \<Rightarrow> nat \<Rightarrow> accept_result \<Rightarrow> engine \<Rightarrow> engine \<times> accept_round" where
  "accept_guest i l r en =
     (case r of
        AcceptFailed timeout \<Rightarrow>
          (let action = accept_error_action (Some timeout)
           in if action = AcceptFatal
              then (if \<not> owns_guest_listener (en_gens en ! i) l then (en, RoundReturn) else (report_accept_fatal (Some i) en, RoundReturn))
              else if gn_stopping (en_gens en ! i) then (en, RoundReturn)
              else (en, RoundSleep (accept_backoff action)))
      | Accepted c \<Rightarrow> (en, RoundServe c))"

end
