(* ===== verification/Client_Control.thy ===== *)
theory Client_Control
  imports Client_Engine
begin

section \<open>The control session of the client (\<open>core/client/engine.go\<close>)\<close>

text \<open>
  Two loops keep the control session: one reads and drops what the server sends until the
  connection fails, the other sends a ping at every beat. \<open>stop\<close> tells whether the shutdown signal
  is seen in a given round. The loops are partial functions; that they end is proved.
\<close>

text \<open>The result: the error that ends the session abnormally, or \<open>None\<close> after the stop signal.\<close>

partial_function (option) serve_control :: "(nat \<Rightarrow> bool) \<Rightarrow> nat \<Rightarrow> socket v1_reader \<Rightarrow> go_error option option" where
  "serve_control stop k rd =
     (if stop k then Some None
      else case v1_read_frame sock_read_full rd None of
             (_, _, Inl e) \<Rightarrow> Some (Some e)
           | (rd', _, Inr f) \<Rightarrow> serve_control stop (Suc k) rd')"

definition control_reader :: "socket \<Rightarrow> socket v1_reader" where
  "control_reader s = \<lparr>v1r_source = s, v1r_limit = DefaultV1PayloadLimit\<rparr>"

definition heartbeat_beat :: "'w go_write \<Rightarrow> 'w \<Rightarrow> 'w \<times> go_error option" where
  "heartbeat_beat wr w =
     (case encode_v1_frame (bare_frame MessageTypePing (map of_char ''{}'')) of
        Inl e \<Rightarrow> (w, Some e)
      | Inr raw \<Rightarrow> wr w raw)"

partial_function (option) heartbeat_loop ::
  "(nat \<Rightarrow> bool) \<Rightarrow> 'w go_write \<Rightarrow> nat \<Rightarrow> 'w \<Rightarrow> ('w \<times> go_error option) option" where
  "heartbeat_loop stop wr k w =
     (if stop k then Some (w, None)
      else case heartbeat_beat wr w of
             (w', Some e) \<Rightarrow> Some (w', Some e)
           | (w', None) \<Rightarrow> heartbeat_loop stop wr (Suc k) w')"

subsection \<open>Laws\<close>

lemma serve_control_returns: "\<exists>r. serve_control stop k rd = Some r"
proof (induction "length (st_data (so_stream (v1r_source rd)))" arbitrary: k rd rule: less_induct)
  case less
  show ?case
  proof (cases "stop k")
    case True
    then show ?thesis by (subst serve_control.simps) simp
  next
    case False
    obtain rd' p r where rd: "v1_read_frame sock_read_full rd None = (rd', p, r)" by (metis prod_cases3)
    show ?thesis
    proof (cases r)
      case (Inl e)
      with False rd show ?thesis by (subst serve_control.simps) simp
    next
      case (Inr f)
      have "\<exists>r. serve_control stop (Suc k) rd' = Some r"
        using full_sock.v1_read_frame_left(1) rd Inr by (intro less) auto
      with False rd Inr show ?thesis by (subst serve_control.simps) simp
    qed
  qed
qed

text \<open>Frames that arrive are dropped.\<close>

lemma control_reader_sock: "control_reader s = sock_reader DefaultV1PayloadLimit s"
  by (simp add: control_reader_def sock_reader_def)

lemma serve_control_frame:
  assumes "encode_v1_frame f = Inr raw" and "v1_sendable DefaultV1PayloadLimit f" and "st_data (so_stream s) = raw @ rest"
    and "\<not> stop k"
  shows "\<exists>s'. so_stream s' = (so_stream s)\<lparr>st_data := rest\<rparr> \<and>
    serve_control stop k (control_reader s) = serve_control stop (Suc k) (control_reader s')"
proof -
  have "encode_v1_frame_with_limit f DefaultV1PayloadLimit = Inr raw" using assms(1) by (simp add: encode_v1_frame_def)
  from sock_reads_frame [OF this assms(2) _ assms(3)] obtain s' where
    s': "v1_read_frame sock_read_full (control_reader s) None = (control_reader s', None, Inr f)"
    "so_stream s' = (so_stream s)\<lparr>st_data := rest\<rparr>"
    by (auto simp: control_reader_sock DefaultV1PayloadLimit_def)
  then have "serve_control stop k (control_reader s) = serve_control stop (Suc k) (control_reader s')"
    using assms(4) by (subst serve_control.simps) simp
  with s'(2) show ?thesis by blast
qed

lemma ping_encodes: "encode_v1_frame (bare_frame MessageTypePing (map of_char ''{}'')) = Inr (of_char (CHR ''h'') # be_bytes 8 2 @ map of_char ''{}'')"
  by code_simp

lemma heartbeat_loop_stops:
  assumes "stop n" and "k \<le> n"
  shows "\<exists>r. heartbeat_loop stop wr k w = Some r"
  using assms(2)
proof (induction "n - k" arbitrary: k w)
  case 0
  with assms(1) show ?case by (subst heartbeat_loop.simps) simp
next
  case (Suc d)
  then have "\<exists>r. heartbeat_loop stop wr (Suc k) w' = Some r" for w' by (intro Suc(1)) simp_all
  then show ?case by (subst heartbeat_loop.simps) (auto split: prod.splits option.splits)
qed

definition ping_wire :: bytes where
  "ping_wire = of_char (CHR ''h'') # be_bytes 8 2 @ map of_char ''{}''"

lemma beat_sent: "heartbeat_beat sink_write w = (w @ ping_wire, None)"
  by (simp add: heartbeat_beat_def ping_encodes [simplified] sink_write_def ping_wire_def)

lemma heartbeat_sent:
  assumes "k \<le> n"
  shows "heartbeat_loop (\<lambda>j. n \<le> j) sink_write k w = Some (w @ concat (replicate (n - k) ping_wire), None)"
  using assms
proof (induction "n - k" arbitrary: k w)
  case 0
  then show ?case by (subst heartbeat_loop.simps) simp
next
  case (Suc d)
  then have k: "\<not> n \<le> k" "n - k = Suc (n - Suc k)" by simp_all
  have "heartbeat_loop (\<lambda>j. n \<le> j) sink_write (Suc k) (w @ ping_wire) =
      Some ((w @ ping_wire) @ concat (replicate (n - Suc k) ping_wire), None)"
    by (rule Suc(1)) (use Suc(2,3) in simp_all)
  then show ?case using k
    by (subst heartbeat_loop.simps) (simp add: beat_sent)
qed

end
