(* ===== verification/Control_Laws.thy ===== *)
theory Control_Laws
  imports Server_Control Client_Control Apply_Laws Guard_Laws
begin

section \<open>Laws of control connections\<close>

subsection \<open>The loop of a session ends\<close>

lemma serve_control_loop_returns: "\<exists>r. serve_control_loop E L i client c k g st = Some r"
proof (induction "guard_left (ee_crypto E) g" arbitrary: k g st rule: less_induct)
  case less
  obtain g' r where rd: "guard_read_frame (ee_crypto E) g = (g', r)" by fastforce
  show ?case
  proof (cases r)
    case (Inl e)
    with rd show ?thesis by (subst serve_control_loop.simps) simp
  next
    case (Inr f)
    have "\<exists>r. serve_control_loop E L i client c (Suc k) g' st' = Some r" for st'
      by (rule less) (use guard_read_frame_left rd Inr in blast)
    with rd Inr show ?thesis by (subst serve_control_loop.simps) (auto split: prod.splits option.splits)
  qed
qed

subsection \<open>The first frame of a v1 connection\<close>

lemma first_frame_v1:
  assumes "v1_sendable DefaultV1PayloadLimit f" and "st_data (so_stream sock) = v1_wire DefaultV1PayloadLimit [f] @ rest"
    and "wo_max_version opts \<noteq> Some VersionV2"
  obtains g g1 where "detect_version sock (new_guard opts peer None sock) = (g, Inr VersionV1)"
    and "guard_read_frame K g = (g1, Inr f)"
proof -
  obtain g r where d: "detect_version sock (new_guard opts peer None sock) = (g, r)" by fastforce
  obtain raw where raw: "encode_v1_frame_with_limit f DefaultV1PayloadLimit = Inr raw"
    using v1_sendable_encodes [OF assms(1)] by blast
  have hd: "v1_wire DefaultV1PayloadLimit [f] \<noteq> [] \<and> hd (v1_wire DefaultV1PayloadLimit [f] @ rest) \<noteq> hd V2Magic"
    by (rule v1_wire_hd) (use assms(1) in simp_all)
  have "take (length V2Magic) (st_data (so_stream sock)) \<noteq> V2Magic"
  proof
    assume a: "take (length V2Magic) (st_data (so_stream sock)) = V2Magic"
    have "hd (take (length V2Magic) (st_data (so_stream sock))) = hd (st_data (so_stream sock))" by (simp add: V2Magic_def)
    with a hd assms(2) show False by metis
  qed
  moreover have "length V2Magic \<le> length (st_data (so_stream sock))"
    using assms(2) raw encode_v1_header(1) [OF raw] by (simp add: v1_wire_def V2Magic_def V1HeaderSize_def)
  moreover have "st_data (so_stream sock) \<noteq> []" using hd assms(2) by simp
  ultimately have spec: "detect_spec opts (so_stream sock) = Inr (VersionV1, so_stream sock)"
    using assms(3) by (simp add: detect_spec_def)
  then have good: "detect_good K (g, r) (Inr (VersionV1, so_stream sock))"
    using detect_version_spec [of K sock opts peer None] d by simp
  have "g_pool (fst (detect_version sock (new_guard opts peer None sock))) = None"
    by (simp add: detect_version_def detect_from_short_prefix_def accept_v1_fallback_def accept_v2_def
        lock_version_def guard_fail_def guard_reject_def close_with_event_def new_guard_def Let_def
        split: prod.split option.split)
  then have pool: "g_pool g = None" using d by simp
  have r: "r = Inr VersionV1" and st: "g_version g = Some VersionV1" "g_v1 g = Some DefaultV1PayloadLimit"
    "chan_view K (g_chan g) = so_stream sock"
    using good by (simp_all add: detect_good_def)
  have "\<exists>c. guard_read_frame K g = (g\<lparr>g_chan := c, g_pool := None\<rparr>, Inr f) \<and>
      chan_view K c = (chan_view K (g_chan g))\<lparr>st_data := rest\<rparr>"
    by (rule guard_read_v1_wire [OF st(1,2) pool _ assms(1)]) (use assms(2) st(3) in \<open>simp_all add: DefaultV1PayloadLimit_def\<close>)
  with that [of g] d r show thesis by blast
qed

lemma open_control_v1:
  assumes "v1_sendable DefaultV1PayloadLimit f" and "st_data (so_stream sock) = v1_wire DefaultV1PayloadLimit [f] @ rest"
    and "wo_max_version opts \<noteq> Some VersionV2" and "mt_name (fr_type f) = ''login''"
  obtains g where "open_control E opts creds peer sock w =
    open_session E creds VersionV1 (fr_payload f) g \<lparr>sw_version = VersionV1, sw_output = Out_Plain w\<rparr>"
proof -
  from first_frame_v1 [OF assms(1-3), of peer "ee_crypto E"] obtain g g1 where
    "detect_version sock (new_guard opts peer None sock) = (g, Inr VersionV1)" "guard_read_frame (ee_crypto E) g = (g1, Inr f)" .
  with assms(4) that [of g1] show thesis by (simp add: open_control_def serve_first_frame_def Let_def)
qed

lemma open_control_work_v1:
  assumes "v1_sendable DefaultV1PayloadLimit f" and "st_data (so_stream sock) = v1_wire DefaultV1PayloadLimit [f] @ rest"
    and "wo_max_version opts \<noteq> Some VersionV2" and "fr_type f = MessageTypeNewWorkConn"
  shows "snd (snd (open_control E opts creds peer sock w)) = WorkDeclared VersionV1 (fr_payload f)"
proof -
  from first_frame_v1 [OF assms(1-3), of peer "ee_crypto E"] obtain g g1 where
    "detect_version sock (new_guard opts peer None sock) = (g, Inr VersionV1)" "guard_read_frame (ee_crypto E) g = (g1, Inr f)" .
  with assms(4) show ?thesis by (simp add: open_control_def serve_first_frame_def Let_def MessageTypeNewWorkConn_def)
qed

subsection \<open>The login\<close>

definition denied_response :: login_response where
  "denied_response = \<lparr>lr_run_id = [], lr_failure = Some LoginDenied\<rparr>"

lemma login_session_sent:
  assumes "ee_unmarshal_login E payload = Some rq"
    and "credentials_match (ee_auth E) creds (lp_client_id rq) (lp_token rq) (lp_timestamp rq) = (m, official)"
    and "write_login_response E (if m then \<lparr>lr_run_id = (if lp_run_id rq = [] then ee_fresh E else lp_run_id rq), lr_failure = None\<rparr>
      else denied_response) s = (s', True)"
  shows "login_session E creds payload s =
    (s', if m then Inr (official, if lp_run_id rq = [] then ee_fresh E else lp_run_id rq) else Inl LoginDenied)"
  using assms by (cases m) (simp_all add: login_session_def handle_login_def denied_response_def Let_def)

lemma write_login_response_plain:
  assumes "ee_write E = sink_write" and "sw_output s = Out_Plain w" and "sw_version s = VersionV1"
    and "ee_marshal_response E r = Some body" and "int (length body) \<le> DefaultV1PayloadLimit"
  obtains raw where "encode_v1_frame \<lparr>fr_type = MessageTypeLoginResponse, fr_payload = body, fr_release = None\<rparr> = Inr raw"
    and "write_login_response E r s = (s\<lparr>sw_output := Out_Plain (w @ raw)\<rparr>, True)"
proof -
  let ?f = "\<lparr>fr_type = MessageTypeLoginResponse, fr_payload = body, fr_release = None\<rparr>"
  obtain raw where raw: "encode_v1_frame ?f = Inr raw"
    using assms(5) by (simp add: encode_v1_frame_def encode_v1_frame_with_limit_def ensure_payload_within_limit_def
        supported_message_types_def)
  then have "encode_session_message (sw_version s) MessageTypeLoginResponse body = Inr raw"
    using assms(3) by (simp add: encode_session_message_def)
  from write_message_plain [OF assms(1,2) this] raw assms(4) that show thesis
    by (simp add: write_login_response_def)
qed

text \<open>What the client reads of a response frame.\<close>

lemma read_login_reply:
  assumes "encode_v1_frame \<lparr>fr_type = MessageTypeLoginResponse, fr_payload = body, fr_release = None\<rparr> = Inr raw"
    and "validate_json_object body = None" and "st_data (so_stream (le_source LE)) = raw @ rest"
    and "le_unmarshal LE body = Some reply"
  shows "read_login_response LE =
    (if ly_error reply \<noteq> [] then Inl LoginRejected else if ly_run_id reply = [] then Inl LoginRunIDMissing
     else Inr (ly_run_id reply))"
proof -
  let ?f = "\<lparr>fr_type = MessageTypeLoginResponse, fr_payload = body, fr_release = None\<rparr>"
  have "int (length body) \<le> DefaultV1PayloadLimit"
    using encode_v1_InrD [of ?f] assms(1) by (simp add: encode_v1_frame_def)
  then have "v1_sendable DefaultV1PayloadLimit ?f"
    using assms(2) by (simp add: v1_sendable_def supported_message_types_def)
  from sock_reads_frame [OF assms(1) [unfolded encode_v1_frame_def] this _ assms(3)] obtain s' where
    "v1_read_frame sock_read_full (sock_reader DefaultV1PayloadLimit (le_source LE)) None =
      (sock_reader DefaultV1PayloadLimit s', None, Inr ?f)" by (auto simp: DefaultV1PayloadLimit_def)
  then show ?thesis using assms(4)
    by (simp add: read_login_response_def sock_reader_def MessageTypeLoginResponse_def)
qed

text \<open>The frame of the client's login.\<close>

lemma write_login_frame:
  assumes "write_login LE c = Inr raw"
    and "\<And>body. le_marshal LE \<lparr>cl_client_id = ccf_client_id c, cl_token = ccf_token c, cl_timestamp = le_now LE\<rparr> = Some body \<Longrightarrow>
      validate_json_object body = None"
  obtains body where "le_marshal LE \<lparr>cl_client_id = ccf_client_id c, cl_token = ccf_token c, cl_timestamp = le_now LE\<rparr> = Some body"
    and "v1_sendable DefaultV1PayloadLimit (bare_frame MessageTypeLogin body)"
    and "raw = v1_wire DefaultV1PayloadLimit [bare_frame MessageTypeLogin body]"
proof -
  obtain body where body: "le_marshal LE \<lparr>cl_client_id = ccf_client_id c, cl_token = ccf_token c, cl_timestamp = le_now LE\<rparr> = Some body"
    and raw: "encode_v1_frame (bare_frame MessageTypeLogin body) = Inr raw"
    using assms(1) by (auto simp: write_login_def split: option.splits sum.splits if_splits)
  have "int (length body) \<le> DefaultV1PayloadLimit"
    using encode_v1_InrD [of "bare_frame MessageTypeLogin body"] raw by (simp add: encode_v1_frame_def bare_frame_def)
  then have "v1_sendable DefaultV1PayloadLimit (bare_frame MessageTypeLogin body)"
    using assms(2) [OF body] by (simp add: v1_sendable_def bare_frame_def supported_message_types_def)
  moreover have "raw = v1_wire DefaultV1PayloadLimit [bare_frame MessageTypeLogin body]"
    using raw by (simp add: v1_wire_def encode_v1_frame_def)
  ultimately show thesis using that body by blast
qed

subsection \<open>What an open session has shown\<close>

lemma login_session_okD:
  assumes "login_session E creds payload s = (s', Inr (official, run_id))"
  shows "\<exists>rq. ee_unmarshal_login E payload = Some rq \<and>
    credentials_match (ee_auth E) creds (lp_client_id rq) (lp_token rq) (lp_timestamp rq) = (True, official)"
  using assms by (auto simp: login_session_def handle_login_def Let_def split: prod.splits option.splits bool.splits if_splits)

lemma open_session_okD:
  assumes "open_session E creds v payload g s = (g', s', SessionOpened client official run_id)"
  shows "(\<exists>rq. ee_unmarshal_login E payload = Some rq \<and> lp_client_id rq = client \<and>
      credentials_match (ee_auth E) creds client (lp_token rq) (lp_timestamp rq) = (True, official)) \<and>
    (official \<longrightarrow> (\<exists>s1. enable_control_cipher E creds client v g s1 = (g', s', None)))"
  using assms
  by (auto simp: open_session_def Let_def dest!: login_session_okD split: prod.splits sum.splits if_splits option.splits)

text \<open>Only a login opens a session.\<close>

lemma first_frame_okD:
  assumes "serve_first_frame E creds v g w = (g', s, SessionOpened client official run_id)"
  shows "\<exists>payload g1 s1. open_session E creds v payload g1 s1 = (g', s, SessionOpened client official run_id)"
  using assms by (auto simp: serve_first_frame_def Let_def split: prod.splits sum.splits if_splits)

lemma opened_by_login:
  assumes "open_control E opts creds peer sock w = (g, s, SessionOpened client official run_id)"
  shows "\<exists>v payload g1 s1. open_session E creds v payload g1 s1 = (g, s, SessionOpened client official run_id)"
  using assms
  by (auto simp: open_control_def Let_def serve_v2_work_conn_def dest!: first_frame_okD
      split: prod.splits sum.splits version.splits if_splits option.splits)

text \<open>The two directions of the switched channel.\<close>

definition session_encrypted :: "'w session_env \<Rightarrow> string \<Rightarrow> 'w session_writer \<Rightarrow> connection_guard \<Rightarrow> bool" where
  "session_encrypted E token s g \<longleftrightarrow>
     (case (sw_output s, g_chan g) of
        (Out_V1 wr, Chan_V1 rd) \<Rightarrow> v1_control_cipher_key (ee_pbkdf2 E) token = Inr (vcw_key wr) \<and> vcr_key rd = vcw_key wr
      | (Out_V2 wr, Chan_V2 rd) \<Rightarrow> (\<exists>transcript.
          v2_session_key E token V2DirectionServerToClient transcript = Inr (aw_key wr) \<and>
          v2_session_key E token V2DirectionClientToServer transcript = Inr (ar_key rd))
      | _ \<Rightarrow> False)"

lemma control_cipher_okD:
  assumes "enable_control_cipher E creds client v g s = (g', s', None)"
  shows "\<exists>token. compat_token creds client = Some token \<and> session_encrypted E token s' g'"
proof (cases v)
  case VersionV1
  with assms have "enable_v1_control_cipher E creds client g s = (g', s', None)" by (simp add: enable_control_cipher_def)
  from enable_v1_control_okD [OF this] show ?thesis
    by (auto simp: session_encrypted_def new_v1_cipher_reader_def)
next
  case VersionV2
  with assms have "enable_v2_control_cipher E creds client g s = (g', s', None)" by (simp add: enable_control_cipher_def)
  from enable_v2_control_okD [OF this] show ?thesis
    by (auto simp: session_encrypted_def new_v2_aead_reader_def split: channel.splits if_splits)
qed

subsection \<open>Heartbeats\<close>

definition pong_wire :: bytes where
  "pong_wire = of_char (CHR ''4'') # be_bytes 8 2 @ map of_char ''{}''"

lemma pong_sent:
  assumes "ee_write E = sink_write" and "s = \<lparr>sw_version = VersionV1, sw_output = Out_Plain w\<rparr>"
  shows "reply_pong E s = (\<lparr>sw_version = VersionV1, sw_output = Out_Plain (w @ pong_wire)\<rparr>, None)"
proof -
  have "encode_session_message VersionV1 MessageTypePong (map of_char ''{}'') = Inr pong_wire" by code_simp
  with write_message_plain [OF assms(1), of s w] show ?thesis by (simp add: reply_pong_def assms(2))
qed

lemma ping_sendable:
  "v1_sendable DefaultV1PayloadLimit (bare_frame MessageTypePing (map of_char ''{}''))"
  "v1_wire DefaultV1PayloadLimit [bare_frame MessageTypePing (map of_char ''{}'')] = ping_wire"
proof -
  have "validate_json_object (map of_char ''{}'') = None" by code_simp
  then show "v1_sendable DefaultV1PayloadLimit (bare_frame MessageTypePing (map of_char ''{}''))"
    by (simp add: v1_sendable_def bare_frame_def supported_message_types_def DefaultV1PayloadLimit_def)
  show "v1_wire DefaultV1PayloadLimit [bare_frame MessageTypePing (map of_char ''{}'')] = ping_wire"
    using ping_encodes by (simp add: v1_wire_def encode_v1_frame_def ping_wire_def del: be_bytes.simps)
qed

lemma ping_answered:
  assumes "mt_name (fr_type f) = ''ping''" and "ee_write E = sink_write"
  shows "control_message E L i client c k f (\<lparr>sw_version = VersionV1, sw_output = Out_Plain w\<rparr>, en) =
    ((\<lparr>sw_version = VersionV1, sw_output = Out_Plain (w @ pong_wire)\<rparr>, en), None)"
  using assms by (simp add: control_message_def pong_sent)

lemma guard_read_ended:
  assumes "g_version g = Some VersionV1" and "g_v1 g = Some limit" and "g_pool g = None"
    and "st_data (chan_view K (g_chan g)) = []" and "st_end (chan_view K (g_chan g)) = IO_EOF"
  shows "\<exists>g'. guard_read_frame K g = (g', Inl IO_EOF)"
proof -
  obtain ch r where rf: "chan_read_full K (g_chan g) V1HeaderSize = (ch, r)" by fastforce
  have "snd (stream_read_full (chan_view K (g_chan g)) V1HeaderSize) = Inl IO_EOF"
    using assms(4,5) by (simp add: stream_read_full_def V1HeaderSize_def short_read_error_def)
  then have "r = Inl IO_EOF" using chan.rf_ok [of K "g_chan g" V1HeaderSize ch] chan.rf_fail [of K "g_chan g" V1HeaderSize ch] rf
    by (cases r) auto
  with rf assms(1-3) show ?thesis
    by (simp add: guard_read_frame_def read_v1_frame_def v1_read_frame_def frame_header_error_def Let_def)
qed

lemma pings_served:
  assumes "g_version g = Some VersionV1" and "g_v1 g = Some DefaultV1PayloadLimit" and "g_pool g = None"
    and "st_data (chan_view (ee_crypto E) (g_chan g)) = concat (replicate n ping_wire)"
    and "st_end (chan_view (ee_crypto E) (g_chan g)) = IO_EOF"
    and "ee_write E = sink_write" and "\<And>j. oo_deadline L j" and "\<not> oo_timeout L IO_EOF"
  shows "\<exists>g'. serve_control_loop E L i client c k g (\<lparr>sw_version = VersionV1, sw_output = Out_Plain w\<rparr>, en) =
    Some (g', (\<lparr>sw_version = VersionV1, sw_output = Out_Plain (w @ concat (replicate n pong_wire))\<rparr>,
      fold (oo_others L) [k..<k + n] en), EndRead IO_EOF)"
  using assms(1-5)
proof (induction n arbitrary: k g w en)
  case 0
  from guard_read_ended [OF 0(1-3), of "ee_crypto E"] 0(4,5) obtain g' where
    "guard_read_frame (ee_crypto E) g = (g', Inl IO_EOF)" by auto
  then show ?case using assms(7,8) by (subst serve_control_loop.simps) simp
next
  case (Suc n)
  define f where "f = bare_frame MessageTypePing (map of_char ''{}'')"
  have f: "v1_sendable DefaultV1PayloadLimit f" "v1_wire DefaultV1PayloadLimit [f] = ping_wire" "mt_name (fr_type f) = ''ping''"
    using ping_sendable by (simp_all add: f_def bare_frame_def MessageTypePing_def)
  have "st_data (chan_view (ee_crypto E) (g_chan g)) = v1_wire DefaultV1PayloadLimit [f] @ concat (replicate n ping_wire)"
    using Suc(5) by (simp add: f(2))
  from guard_read_v1_wire [OF Suc(2-4) _ f(1) this] obtain ch where
    ch: "guard_read_frame (ee_crypto E) g = (g\<lparr>g_chan := ch, g_pool := None\<rparr>, Inr f)"
    "chan_view (ee_crypto E) ch = (chan_view (ee_crypto E) (g_chan g))\<lparr>st_data := concat (replicate n ping_wire)\<rparr>"
    by (auto simp: DefaultV1PayloadLimit_def)
  have msg: "control_message E L i client c k f (\<lparr>sw_version = VersionV1, sw_output = Out_Plain w\<rparr>, oo_others L k en) =
      ((\<lparr>sw_version = VersionV1, sw_output = Out_Plain (w @ pong_wire)\<rparr>, oo_others L k en), None)"
    by (rule ping_answered [OF f(3) assms(6)])
  have "\<exists>g'. serve_control_loop E L i client c (Suc k) (g\<lparr>g_chan := ch, g_pool := None\<rparr>)
      (\<lparr>sw_version = VersionV1, sw_output = Out_Plain (w @ pong_wire)\<rparr>, oo_others L k en) =
    Some (g', (\<lparr>sw_version = VersionV1, sw_output = Out_Plain ((w @ pong_wire) @ concat (replicate n pong_wire))\<rparr>,
      fold (oo_others L) [Suc k..<Suc k + n] (oo_others L k en)), EndRead IO_EOF)"
    by (rule Suc(1)) (use Suc(2-6) ch(2) in simp_all)
  moreover have "[k..<k + Suc n] = k # [Suc k..<Suc k + n]" by (simp add: upt_conv_Cons del: upt_Suc)
  ultimately show ?case using ch(1) msg assms(7)
    by (subst serve_control_loop.simps) (simp del: upt_Suc)
qed

end
