(* ===== verification/Control_Typing.thy ===== *)
theory Control_Typing
  imports Control_Laws
begin

section \<open>Both directions of a session speak the same layer\<close>

text \<open>
  A session reads through the guard and writes through the session writer. Its two directions must
  agree on the wire version and on the cipher between frames and connection; the laws here say that
  opening establishes this and that serving keeps it.
\<close>

datatype cipher_layer = LayerPlain | LayerV1 | LayerV2

fun chan_layer :: "channel \<Rightarrow> cipher_layer" where
  "chan_layer (Chan_Plain _) = LayerPlain"
| "chan_layer (Chan_V1 _) = LayerV1"
| "chan_layer (Chan_V2 _) = LayerV2"

fun output_layer :: "'w session_output \<Rightarrow> cipher_layer" where
  "output_layer (Out_Plain _) = LayerPlain"
| "output_layer (Out_V1 _) = LayerV1"
| "output_layer (Out_V2 _) = LayerV2"

definition session_layer :: "bool \<Rightarrow> version \<Rightarrow> cipher_layer" where
  "session_layer official v = (if \<not> official then LayerPlain else if v = VersionV2 then LayerV2 else LayerV1)"

definition session_typed :: "bool \<Rightarrow> version \<Rightarrow> connection_guard \<Rightarrow> 'w session_writer \<Rightarrow> bool" where
  "session_typed official v g s \<longleftrightarrow>
     g_version g = Some v \<and> g_locked g \<and> sw_version s = v \<and>
     chan_layer (g_chan g) = session_layer official v \<and> output_layer (sw_output s) = session_layer official v"

subsection \<open>Reading\<close>

lemma v1_read_frame_source:
  assumes "\<And>s n s' r. rf s n = (s', r) \<Longrightarrow> P s \<Longrightarrow> P s'"
    and "v1_read_frame rf rd p = (rd', p', r)" and "P (v1r_source rd)"
  shows "P (v1r_source rd')"
  using assms(2,3)
  by (auto simp: v1_read_frame_def v1_read_payload_def Let_def dest!: assms(1)
      split: prod.splits sum.splits option.splits if_splits)

lemma v2_read_frame_source:
  assumes "\<And>s n s' r. rf s n = (s', r) \<Longrightarrow> P s \<Longrightarrow> P s'"
    and "v2_read_frame rf rd p = (rd', p', r)" and "P (v2r_source rd)"
  shows "P (v2r_source rd')"
  using assms(2,3)
  by (auto simp: v2_read_frame_def v2_read_body_def Let_def dest!: assms(1)
      split: prod.splits sum.splits option.splits if_splits)

lemma chan_read_layer: "chan_read_full K c n = (c', r) \<Longrightarrow> chan_layer c = l \<Longrightarrow> chan_layer c' = l"
  by (cases c) (auto simp: map_prod_def split: prod.splits)

lemma set_peeker_layer [simp]: "chan_layer (chan_set_peeker c p) = chan_layer c"
  by (cases c) simp_all

lemma close_keeps [simp]:
  "g_version (guard_reject e g) = g_version g" "g_locked (guard_reject e g) = g_locked g"
  "chan_layer (g_chan (guard_reject e g)) = chan_layer (g_chan g)"
  by (simp_all add: guard_reject_def close_with_event_def)

lemma chan_frame_layer:
  "v1_read_frame (chan_read_full K) rd p = (rd', p', x) \<Longrightarrow> chan_layer (v1r_source rd') = chan_layer (v1r_source rd)"
  "v2_read_frame (chan_read_full K) rd2 p = (rd2', p', y) \<Longrightarrow> chan_layer (v2r_source rd2') = chan_layer (v2r_source rd2)"
proof -
  assume a: "v1_read_frame (chan_read_full K) rd p = (rd', p', x)"
  show "chan_layer (v1r_source rd') = chan_layer (v1r_source rd)"
    by (rule v1_read_frame_source [OF _ a]) (auto dest: chan_read_layer)
next
  assume a: "v2_read_frame (chan_read_full K) rd2 p = (rd2', p', y)"
  show "chan_layer (v2r_source rd2') = chan_layer (v2r_source rd2)"
    by (rule v2_read_frame_source [OF _ a]) (auto dest: chan_read_layer)
qed

lemma guard_read_keeps:
  assumes "guard_read_frame K g = (g', r)"
  shows "g_version g' = g_version g \<and> g_locked g' = g_locked g \<and> chan_layer (g_chan g') = chan_layer (g_chan g)"
  using assms
  by (auto simp: guard_read_frame_def read_v1_frame_def read_v2_frame_def guard_fail_def Let_def
      dest!: chan_frame_layer split: option.splits version.splits prod.splits sum.splits if_splits)

lemma session_typed_read:
  "session_typed official v g s \<Longrightarrow> guard_read_frame K g = (g', r) \<Longrightarrow> session_typed official v g' s"
  using guard_read_keeps [of K g g' r] by (simp add: session_typed_def)

subsection \<open>Writing\<close>

lemma output_write_layer [simp]: "output_layer (fst (output_write E x raw)) = output_layer x"
  by (cases x) (simp_all split: prod.splits)

lemma write_message_layer [simp]: "output_layer (sw_output (fst (write_message E mt body s))) = output_layer (sw_output s)"
  by (simp add: write_message_def case_prod_unfold split: sum.splits)

lemma session_typed_write: "session_typed official v g s \<Longrightarrow> session_typed official v g (fst (write_message E mt body s))"
  by (simp add: session_typed_def)

lemma session_typed_login: "session_typed official v g s \<Longrightarrow> session_typed official v g (fst (write_login_response E r s))"
  using session_typed_write [of official v g s E MessageTypeLoginResponse]
  by (auto simp: write_login_response_def case_prod_unfold split: option.splits)

lemma session_typed_message:
  assumes "session_typed official v g s" and "control_message E L i client c k f (s, en) = ((s', en'), r)"
  shows "session_typed official v g s'"
proof -
  have "s' = s \<or> (\<exists>mt body. s' = fst (write_message E mt body s))"
    using assms(2)
    by (auto simp: control_message_def reply_pong_def write_proxy_response_def split: if_splits prod.splits option.splits
        dest: arg_cong [of _ _ fst] intro!: exI)
  with assms(1) session_typed_write show ?thesis by blast
qed

lemma session_typed_loop:
  assumes "serve_control_loop E L i client c k g (s, en) = Some (g', (s', en'), r)" and "session_typed official v g s"
  shows "session_typed official v g' s'"
  using assms
proof (induction "guard_left (ee_crypto E) g" arbitrary: k g s en rule: less_induct)
  case less
  show ?case
  proof (cases "oo_deadline L k")
    case False
    with less(2,3) show ?thesis by (subst (asm) serve_control_loop.simps) simp
  next
    case True
    obtain g1 x where rd: "guard_read_frame (ee_crypto E) g = (g1, x)" by fastforce
    note t1 = session_typed_read [OF less(3) rd]
    show ?thesis
    proof (cases x)
      case (Inl e)
      with rd True t1 less(2) show ?thesis by (subst (asm) serve_control_loop.simps) simp
    next
      case (Inr f)
      obtain s2 en2 y where msg: "control_message E L i client c k f (s, oo_others L k en) = ((s2, en2), y)"
        by (metis surj_pair)
      note t2 = session_typed_message [OF t1 msg]
      show ?thesis
      proof (cases y)
        case (Some z)
        with rd True Inr msg t2 less(2) show ?thesis by (subst (asm) serve_control_loop.simps) simp
      next
        case None
        with rd True Inr msg less(2) have "serve_control_loop E L i client c (Suc k) g1 (s2, en2) = Some (g', (s', en'), r)"
          by (subst (asm) serve_control_loop.simps) simp
        from less(1) [OF _ this t2] guard_read_frame_left rd Inr show ?thesis by blast
      qed
    qed
  qed
qed

subsection \<open>Opening\<close>

lemma detect_typed:
  assumes "detect_version sock g = (g', Inr v)"
  shows "g_version g' = Some v \<and> g_locked g' \<and> chan_layer (g_chan g') = LayerPlain"
  using assms
  by (auto simp: detect_version_def detect_from_short_prefix_def accept_v1_fallback_def accept_v2_def guard_fail_def Let_def
      lock_version_def split: prod.splits option.splits if_splits)

lemma peek_type_typed:
  "peek_v2_first_frame_type g = (g', r) \<Longrightarrow>
   g_version g' = g_version g \<and> g_locked g' = g_locked g \<and> chan_layer (g_chan g') = chan_layer (g_chan g)"
  by (auto simp: peek_v2_first_frame_type_def Let_def split: prod.splits option.splits if_splits)

lemma negotiate_typed:
  assumes "guard_negotiate K g = (g', Inr r)"
  shows "g_version g' = g_version g \<and> g_locked g' = g_locked g \<and> chan_layer (g_chan g') = LayerPlain"
  using assms
  by (auto simp: guard_negotiate_def guard_fail_def Let_def dest!: chan_frame_layer split: option.splits prod.splits sum.splits)

lemma negotiation_typed:
  assumes "complete_v2_negotiation E w g = (w', g', None)"
  shows "g_version g' = g_version g \<and> g_locked g' = g_locked g \<and> chan_layer (g_chan g') = LayerPlain"
  using assms
  by (auto simp: complete_v2_negotiation_def record_v2_server_hello_def Let_def dest!: negotiate_typed
      split: prod.splits sum.splits)

lemma cipher_typed:
  assumes "enable_control_cipher E creds client v g s = (g', s', None)" and "session_typed False v g s"
  shows "session_typed True v g' s'"
  using assms
  by (auto simp: enable_control_cipher_def enable_v1_control_cipher_def enable_v2_control_cipher_def enable_v1_cipher_def
      enable_v2_cipher_def session_typed_def session_layer_def split: option.splits sum.splits prod.splits if_splits)

lemma login_session_typed:
  assumes "session_typed official v g s"
  shows "session_typed official v g (fst (login_session E creds payload s))"
  using session_typed_login [OF assms] by (simp add: login_session_def case_prod_unfold Let_def)

lemma open_session_typed:
  assumes "open_session E creds v payload g s = (g', s', SessionOpened client official run_id)" and "session_typed False v g s"
  shows "session_typed official v g' s'"
proof -
  obtain s1 x where l: "login_session E creds payload s = (s1, x)" by fastforce
  have "session_typed False v g s1" using login_session_typed [OF assms(2), of E creds payload] l by simp
  with assms(1) l cipher_typed show ?thesis
    by (fastforce simp: open_session_def Let_def split: prod.splits sum.splits if_splits option.splits)
qed

lemma first_frame_typed:
  assumes "serve_first_frame E creds v g w = (g', s, SessionOpened client official run_id)"
    and "g_version g = Some v" and "g_locked g" and "chan_layer (g_chan g) = LayerPlain"
  shows "session_typed official v g' s"
proof -
  let ?s = "\<lparr>sw_version = v, sw_output = Out_Plain w\<rparr>"
  obtain g1 x where rd: "guard_read_frame (ee_crypto E) g = (g1, x)" by fastforce
  have "session_typed False v g ?s" using assms(2-4) by (simp add: session_typed_def session_layer_def)
  note t = session_typed_read [OF this rd]
  obtain payload where "open_session E creds v payload g1 ?s = (g', s, SessionOpened client official run_id)"
    using assms(1) rd by (auto simp: serve_first_frame_def Let_def split: sum.splits if_splits)
  then show ?thesis by (rule open_session_typed [OF _ t])
qed

lemma open_control_typed:
  assumes "open_control E opts creds peer sock w = (g, s, SessionOpened client official run_id)"
  shows "session_typed official (sw_version s) g s"
proof -
  obtain g0 x where d: "detect_version sock (new_guard opts peer None sock) = (g0, x)" by fastforce
  then obtain v where x: "x = Inr v" using assms by (cases x) (auto simp: open_control_def Let_def)
  note t0 = detect_typed [OF d [unfolded x]]
  have "\<exists>g1 w1. serve_first_frame E creds v g1 w1 = (g, s, SessionOpened client official run_id) \<and>
    g_version g1 = Some v \<and> g_locked g1 \<and> chan_layer (g_chan g1) = LayerPlain"
  proof (cases v)
    case VersionV1
    with assms d x t0 show ?thesis by (auto simp: open_control_def Let_def)
  next
    case VersionV2
    obtain g1 y where p: "peek_v2_first_frame_type g0 = (g1, y)" by fastforce
    note t1 = peek_type_typed [OF p]
    from assms d x VersionV2 p obtain g2 w2 where
      n: "complete_v2_negotiation E w g1 = (w2, g2, None)" and
      f: "serve_first_frame E creds VersionV2 g2 w2 = (g, s, SessionOpened client official run_id)"
      by (auto simp: open_control_def serve_v2_work_conn_def Let_def split: prod.splits sum.splits option.splits if_splits)
    with negotiation_typed [OF n] t1 t0 VersionV2 show ?thesis by auto
  qed
  then obtain g1 w1 where f: "serve_first_frame E creds v g1 w1 = (g, s, SessionOpened client official run_id)"
    and "g_version g1 = Some v" "g_locked g1" "chan_layer (g_chan g1) = LayerPlain" by blast
  from first_frame_typed [OF this] show ?thesis by (simp add: session_typed_def)
qed

end
