(* ===== verification/Control_Properties.thy ===== *)
theory Control_Properties
  imports Control_Typing Client_Work Wire_Properties Core_Properties
begin

section \<open>Properties of control connections\<close>

subsection \<open>Logging in\<close>

text \<open>C4: client and server agree about a login: the client's frame, on whatever chunks it arrives, leads
  the server to compare its credentials; when they match, the client takes the run identifier that
  the server made and, for a client of the own kind, the session is open under the client's name;
  when they do not, the client is told and the server refuses the connection.\<close>

theorem login_agreed:
  assumes "write_login LE c = Inr raw" and "st_data (so_stream sock) = raw @ rest" and "wo_max_version opts \<noteq> Some VersionV2"
    and login: "\<And>body. le_marshal LE \<lparr>cl_client_id = ccf_client_id c, cl_token = ccf_token c, cl_timestamp = le_now LE\<rparr> = Some body \<Longrightarrow>
      validate_json_object body = None \<and> ee_unmarshal_login E body =
        Some \<lparr>lp_client_id = ccf_client_id c, lp_token = ccf_token c, lp_run_id = [], lp_timestamp = le_now LE\<rparr>"
    and reply: "\<And>r. r = \<lparr>lr_run_id = ee_fresh E, lr_failure = None\<rparr> \<or> r = \<lparr>lr_run_id = [], lr_failure = Some LoginDenied\<rparr> \<Longrightarrow>
      \<exists>body. ee_marshal_response E r = Some body \<and> int (length body) \<le> DefaultV1PayloadLimit \<and>
      validate_json_object body = None \<and>
      (\<exists>t. le_unmarshal LE body = Some \<lparr>ly_run_id = lr_run_id r, ly_error = t\<rparr> \<and> (t = [] \<longleftrightarrow> lr_failure r = None))"
    and "ee_write E = sink_write" and "ee_fresh E \<noteq> []"
    and match: "credentials_match (ee_auth E) creds (ccf_client_id c) (ccf_token c) (le_now LE) = (m, official)"
  shows "\<exists>answer. (\<forall>src more. st_data (so_stream src) = answer @ more \<longrightarrow>
      read_login_response (LE\<lparr>le_source := src\<rparr>) = (if m then Inr (ee_fresh E) else Inl LoginRejected)) \<and>
    (case open_control E opts creds peer sock [] of (g, s, result) \<Rightarrow>
      (\<not> official \<or> \<not> m \<longrightarrow> sw_output s = Out_Plain answer \<and>
        result = (if m then SessionOpened (ccf_client_id c) False (ee_fresh E) else ControlRefused (LoginRefused LoginDenied))))"
proof -
  from write_login_frame [OF assms(1)] login obtain body where
    body: "le_marshal LE \<lparr>cl_client_id = ccf_client_id c, cl_token = ccf_token c, cl_timestamp = le_now LE\<rparr> = Some body"
    and f: "v1_sendable DefaultV1PayloadLimit (bare_frame MessageTypeLogin body)"
    and raw: "raw = v1_wire DefaultV1PayloadLimit [bare_frame MessageTypeLogin body]"
    by metis
  let ?rq = "\<lparr>lp_client_id = ccf_client_id c, lp_token = ccf_token c, lp_run_id = [], lp_timestamp = le_now LE\<rparr>"
    and ?s = "\<lparr>sw_version = VersionV1, sw_output = Out_Plain []\<rparr> :: bytes session_writer"
  define resp where "resp = (if m then \<lparr>lr_run_id = ee_fresh E, lr_failure = None\<rparr> else denied_response)"
  from open_control_v1 [OF f _ assms(3)] assms(2) raw obtain g where
    start: "open_control E opts creds peer sock [] = open_session E creds VersionV1 body g ?s"
    by (metis bare_frame_def frame.select_convs(1,2) MessageTypeLogin_def message_type.select_convs(1))
  have "resp = \<lparr>lr_run_id = ee_fresh E, lr_failure = None\<rparr> \<or> resp = \<lparr>lr_run_id = [], lr_failure = Some LoginDenied\<rparr>"
    by (simp add: resp_def denied_response_def)
  from reply [OF this] obtain rb t where
    rb: "ee_marshal_response E resp = Some rb" "int (length rb) \<le> DefaultV1PayloadLimit" "validate_json_object rb = None"
    and t: "le_unmarshal LE rb = Some \<lparr>ly_run_id = lr_run_id resp, ly_error = t\<rparr>" "t = [] \<longleftrightarrow> lr_failure resp = None"
    by (elim exE conjE) (rule that)
  from write_login_response_plain [OF assms(6) _ _ rb(1,2), of ?s "[]"] obtain answer where
    answer: "encode_v1_frame \<lparr>fr_type = MessageTypeLoginResponse, fr_payload = rb, fr_release = None\<rparr> = Inr answer"
    and sent: "write_login_response E resp ?s = (?s\<lparr>sw_output := Out_Plain answer\<rparr>, True)"
    by auto
  have "read_login_response (LE\<lparr>le_source := src\<rparr>) = (if m then Inr (ee_fresh E) else Inl LoginRejected)"
    if "st_data (so_stream src) = answer @ more" for src more
  proof -
    have "read_login_response (LE\<lparr>le_source := src\<rparr>) = (if t \<noteq> [] then Inl LoginRejected
        else if lr_run_id resp = [] then Inl LoginRunIDMissing else Inr (lr_run_id resp))"
      using read_login_reply [OF answer rb(3), of "LE\<lparr>le_source := src\<rparr>" more "\<lparr>ly_run_id = lr_run_id resp, ly_error = t\<rparr>"]
        that t(1) by simp
    then show ?thesis using t(2) assms(7) by (simp add: resp_def denied_response_def split: if_splits)
  qed
  moreover have "login_session E creds body ?s =
      (?s\<lparr>sw_output := Out_Plain answer\<rparr>, if m then Inr (official, ee_fresh E) else Inl LoginDenied)"
    using login_session_sent [of E body ?rq creds m official ?s "?s\<lparr>sw_output := Out_Plain answer\<rparr>"] login [OF body] match sent
    by (cases m) (simp_all add: resp_def)
  then have "\<not> official \<or> \<not> m \<Longrightarrow> open_control E opts creds peer sock [] = (g, ?s\<lparr>sw_output := Out_Plain answer\<rparr>,
      if m then SessionOpened (ccf_client_id c) False (ee_fresh E) else ControlRefused (LoginRefused LoginDenied))"
    unfolding start using login [OF body] by (auto simp: open_session_def)
  ultimately show ?thesis by (intro exI [of _ answer]) (auto split: prod.splits)
qed

text \<open>Sample values: hash functions that give back their input, a JSON codec that tells success from
  failure by a blank.\<close>

definition sample_auth :: auth_fns where
  "sample_auth = \<lparr>af_sha256 = (\<lambda>bs. bs), af_md5 = (\<lambda>bs. bs)\<rparr>"

definition sample_creds :: "client_credential list" where
  "sample_creds = [\<lparr>cc_client_id = ''c'', cc_token = digest_token sample_auth ''secret'', cc_compat_token = []\<rparr>]"

definition sample_session_env :: "bytes session_env" where
  "sample_session_env = \<lparr>ee_write = sink_write, ee_crypto = sample_crypto, ee_seal = sample_seal, ee_iv = replicate 16 0,
     ee_nonce = replicate 12 0, ee_pbkdf2 = (\<lambda>t s n l. Some (replicate l 1)), ee_hkdf = (\<lambda>t s i l. Some (replicate l 2)),
     ee_random = ''x'', ee_marshal_hello = (\<lambda>h. Some [0x7b, 0x7d]),
     ee_marshal_response = (\<lambda>r. Some (if lr_failure r = None then [0x7b, 0x7d] else [0x7b, 0x20, 0x7d])),
     ee_auth = sample_auth,
     ee_unmarshal_login = (\<lambda>bs. Some \<lparr>lp_client_id = ''c'', lp_token = ''secret'', lp_run_id = [], lp_timestamp = 0\<rparr>),
     ee_fresh = ''r''\<rparr>"

definition sample_client_login :: login_env where
  "sample_client_login = \<lparr>le_marshal = (\<lambda>l. Some [0x7b, 0x7d]),
     le_unmarshal = (\<lambda>bs. Some (if bs = [0x7b, 0x7d] then \<lparr>ly_run_id = ''r'', ly_error = []\<rparr> else \<lparr>ly_run_id = [], ly_error = ''x''\<rparr>)),
     le_now = 0, le_write_ok = True, le_source = sample_socket []\<rparr>"

definition sample_client_config :: client_config where
  "sample_client_config = run_client_options [WithClientID ''c'', WithClientAuth ''secret'']"

definition sample_login_bytes :: bytes where
  "sample_login_bytes = of_char (CHR ''o'') # be_bytes 8 2 @ [0x7b, 0x7d]"

lemma sample_login_facts:
  "write_login sample_client_login sample_client_config = Inr sample_login_bytes"
  "validate_json_object [0x7b, 0x7d] = None" "validate_json_object [0x7b, 0x20, 0x7d] = None"
  "ccf_client_id sample_client_config = ''c''" "ccf_token sample_client_config = ''secret''"
  "credentials_match sample_auth sample_creds ''c'' ''secret'' 0 = (True, False)"
  "wo_max_version wire_options_from_compat \<noteq> Some VersionV2"
  by code_simp+

lemma sample_fresh: "ee_fresh sample_session_env = ''r''"
  by (simp add: sample_session_env_def)

theorem login_agreed_witness:
  "\<exists>answer. read_login_response (sample_client_login\<lparr>le_source := sample_socket answer\<rparr>) = Inr ''r'' \<and>
    snd (snd (open_control sample_session_env wire_options_from_compat sample_creds ''p'' (sample_socket sample_login_bytes) [])) =
      SessionOpened ''c'' False ''r''"
proof -
  have "\<exists>answer. (\<forall>src more. st_data (so_stream src) = answer @ more \<longrightarrow>
      read_login_response (sample_client_login\<lparr>le_source := src\<rparr>) =
        (if True then Inr (ee_fresh sample_session_env) else Inl LoginRejected)) \<and>
    (case open_control sample_session_env wire_options_from_compat sample_creds ''p'' (sample_socket sample_login_bytes) [] of
      (g, s, result) \<Rightarrow> (\<not> False \<or> \<not> True \<longrightarrow> sw_output s = Out_Plain answer \<and>
        result = (if True then SessionOpened (ccf_client_id sample_client_config) False (ee_fresh sample_session_env)
          else ControlRefused (LoginRefused LoginDenied))))"
    by (rule login_agreed [OF sample_login_facts(1), where rest = "[]"])
      (auto simp: sample_login_facts sample_session_env_def sample_client_login_def sample_socket_def DefaultV1PayloadLimit_def)
  then obtain answer where a: "\<And>src more. st_data (so_stream src) = answer @ more \<Longrightarrow>
      read_login_response (sample_client_login\<lparr>le_source := src\<rparr>) = Inr (ee_fresh sample_session_env)"
    and "snd (snd (open_control sample_session_env wire_options_from_compat sample_creds ''p'' (sample_socket sample_login_bytes) [])) =
      SessionOpened ''c'' False ''r''"
    by (cases "open_control sample_session_env wire_options_from_compat sample_creds ''p'' (sample_socket sample_login_bytes) []")
      (fastforce simp: sample_login_facts(4) sample_fresh)
  moreover have "st_data (so_stream (sample_socket answer)) = answer @ []" by (simp add: sample_socket_def)
  ultimately show ?thesis using a sample_fresh by metis
qed

text \<open>C10: no session opens without a login whose credentials match, and under no other name than the
  one that logged in; the session of an official client is encrypted in both directions, under keys
  derived from a compatibility token of that client.\<close>

theorem opened_session_authenticated:
  assumes "open_control E opts creds peer sock w = (g, s, SessionOpened client official run_id)"
  shows "(\<exists>payload rq. ee_unmarshal_login E payload = Some rq \<and> lp_client_id rq = client \<and>
      credentials_match (ee_auth E) creds client (lp_token rq) (lp_timestamp rq) = (True, official)) \<and>
    (official \<longrightarrow> (\<exists>token. compat_token creds client = Some token \<and> session_encrypted E token s g))"
proof -
  obtain v payload g1 s1 where o: "open_session E creds v payload g1 s1 = (g, s, SessionOpened client official run_id)"
    using opened_by_login [OF assms] by blast
  from open_session_okD [OF o] control_cipher_okD show ?thesis by blast
qed

definition sample_official_creds :: "client_credential list" where
  "sample_official_creds = [\<lparr>cc_client_id = ''c'', cc_token = [], cc_compat_token = ''t''\<rparr>]"

definition sample_official_env :: "bytes session_env" where
  "sample_official_env = sample_session_env\<lparr>ee_unmarshal_login := (\<lambda>bs. Some \<lparr>lp_client_id = ''c'',
     lp_token = official_privilege_key sample_auth ''t'' 0, lp_run_id = [], lp_timestamp = 0\<rparr>)\<rparr>"

definition sample_detected :: connection_guard where
  "sample_detected = fst (detect_version (sample_socket sample_login_bytes)
     (new_guard wire_options_from_compat ''p'' None (sample_socket sample_login_bytes)))"

lemma sample_official_opened:
  "snd (snd (open_control sample_official_env wire_options_from_compat sample_official_creds ''p'' (sample_socket sample_login_bytes) [])) =
    SessionOpened ''c'' True ''r''"
proof -
  have "snd (detect_version (sample_socket sample_login_bytes)
      (new_guard wire_options_from_compat ''p'' None (sample_socket sample_login_bytes))) = Inr VersionV1" by code_simp
  then have "detect_version (sample_socket sample_login_bytes)
      (new_guard wire_options_from_compat ''p'' None (sample_socket sample_login_bytes)) = (sample_detected, Inr VersionV1)"
    by (simp add: prod_eq_iff sample_detected_def)
  moreover have "snd (snd (serve_first_frame sample_official_env sample_official_creds VersionV1 sample_detected [])) =
      SessionOpened ''c'' True ''r''" by code_simp
  ultimately show ?thesis by (simp add: open_control_def)
qed

theorem opened_session_authenticated_witness:
  "case open_control sample_official_env wire_options_from_compat sample_official_creds ''p'' (sample_socket sample_login_bytes) [] of
     (g, s, r) \<Rightarrow> \<exists>token. session_encrypted sample_official_env token s g"
proof -
  obtain g s where "open_control sample_official_env wire_options_from_compat sample_official_creds ''p''
      (sample_socket sample_login_bytes) [] = (g, s, SessionOpened ''c'' True ''r'')"
    using sample_official_opened by (metis prod.collapse)
  from opened_session_authenticated [OF this] this show ?thesis by auto
qed

text \<open>C14: an open session has one type for its whole life: what it reads and what it writes are of the wire version
  that was detected and locked, plain for a client of the own kind, under that version's cipher in both
  directions for an official one; the loop that serves it returns, and keeps this type whatever it
  reads, answers or refuses.\<close>

theorem session_keeps_its_type:
  assumes "open_control E opts creds peer sock w = (g, s, SessionOpened client official run_id)"
  shows "session_typed official (sw_version s) g s \<and>
    (\<exists>g' s' en' r. serve_control_loop E L i client c 0 g (s, en) = Some (g', (s', en'), r) \<and>
      session_typed official (sw_version s) g' s')"
proof -
  note t = open_control_typed [OF assms]
  obtain g' s' en' r where "serve_control_loop E L i client c 0 g (s, en) = Some (g', (s', en'), r)"
    using serve_control_loop_returns by (metis surj_pair)
  with t session_typed_loop [OF this t] show ?thesis by blast
qed

theorem session_keeps_its_type_witness:
  "case open_control sample_official_env wire_options_from_compat sample_official_creds ''p'' (sample_socket sample_login_bytes) [] of
     (g, s, r) \<Rightarrow> session_typed True (sw_version s) g s"
proof -
  obtain g s where o: "open_control sample_official_env wire_options_from_compat sample_official_creds ''p''
      (sample_socket sample_login_bytes) [] = (g, s, SessionOpened ''c'' True ''r'')"
    using sample_official_opened by (metis prod.collapse)
  from session_keeps_its_type [OF o] o show ?thesis by simp
qed

text \<open>C21: the declaration that a client sends on a work connection is understood by the server as it was
  meant: the connection is taken for a work connection, and the declaration names the client, its
  token, the proxy and the proxy's local target.\<close>

theorem declaration_understood:
  assumes "declare_work_conn marshal addr c p = Some raw" and "st_data (so_stream sock) = raw @ rest"
    and "wo_max_version opts \<noteq> Some VersionV2" and "parse_addr (addr (pd_local p)) = Some (pd_local p)"
    and "ccf_client_id c \<noteq> []" and "ccf_token c \<noteq> []" and "pd_name p \<noteq> []"
    and json: "\<And>r body. marshal r = Some body \<Longrightarrow> validate_json_object body = None \<and> unmarshal body =
      Some \<lparr>wr_client_id = cwr_client_id r, wr_token = cwr_token r, wr_privilege_key = [], wr_timestamp = 0,
        wr_run_id = cwr_run_id r, wr_proxy = cwr_proxy r, wr_target = cwr_target r\<rparr>"
  shows "\<exists>body. snd (snd (open_control E opts creds peer sock w)) = WorkDeclared VersionV1 body \<and>
    parse_work_declaration unmarshal parse_addr body = Inr \<lparr>wd_client_id = ccf_client_id c, wd_token = ccf_token c,
      wd_timestamp = 0, wd_proxy = pd_name p, wd_target = pd_local p, wd_official = False, wd_run_id = []\<rparr>"
proof -
  obtain body where body: "marshal \<lparr>cwr_client_id = ccf_client_id c, cwr_token = ccf_token c, cwr_run_id = pd_name p,
      cwr_proxy = pd_name p, cwr_target = addr (pd_local p)\<rparr> = Some body"
    and enc: "encode_v1_frame (bare_frame MessageTypeNewWorkConn body) = Inr raw"
    using assms(1) by (auto simp: declare_work_conn_def split: option.splits sum.splits)
  note decoded = json [OF body]
  have "int (length body) \<le> DefaultV1PayloadLimit"
    using encode_v1_InrD [of "bare_frame MessageTypeNewWorkConn body"] enc by (simp add: encode_v1_frame_def bare_frame_def)
  then have f: "v1_sendable DefaultV1PayloadLimit (bare_frame MessageTypeNewWorkConn body)"
    using decoded by (simp add: v1_sendable_def bare_frame_def supported_message_types_def)
  have "st_data (so_stream sock) = v1_wire DefaultV1PayloadLimit [bare_frame MessageTypeNewWorkConn body] @ rest"
    using assms(2) enc by (simp add: v1_wire_def encode_v1_frame_def)
  from open_control_work_v1 [OF f this assms(3)] have
    "snd (snd (open_control E opts creds peer sock w)) = WorkDeclared VersionV1 body" by (simp add: bare_frame_def)
  moreover have "parse_work_declaration unmarshal parse_addr body = Inr \<lparr>wd_client_id = ccf_client_id c, wd_token = ccf_token c,
      wd_timestamp = 0, wd_proxy = pd_name p, wd_target = pd_local p, wd_official = False, wd_run_id = []\<rparr>"
    using decoded assms(4-7) by (simp add: parse_work_declaration_def)
  ultimately show ?thesis by blast
qed

definition sample_request_bytes :: bytes where
  "sample_request_bytes = [0x7b, 0x7d]"

definition sample_request :: client_work_request where
  "sample_request = \<lparr>cwr_client_id = ''c'', cwr_token = ''secret'', cwr_run_id = ''ssh'', cwr_proxy = ''ssh'', cwr_target = ''t''\<rparr>"

definition sample_request_marshal :: "client_work_request \<Rightarrow> bytes option" where
  "sample_request_marshal r = (if r = sample_request then Some sample_request_bytes else None)"

definition sample_request_unmarshal :: "bytes \<Rightarrow> work_conn_request option" where
  "sample_request_unmarshal bs = Some \<lparr>wr_client_id = ''c'', wr_token = ''secret'', wr_privilege_key = [], wr_timestamp = 0,
     wr_run_id = ''ssh'', wr_proxy = ''ssh'', wr_target = ''t''\<rparr>"

definition sample_declared_proxy :: proxy_decl where
  "sample_declared_proxy = \<lparr>pd_name = ''ssh'', pd_local = sample_target, pd_remote_port = 2222\<rparr>"

lemma sample_declaration: "declare_work_conn sample_request_marshal (\<lambda>a. ''t'') sample_client_config sample_declared_proxy =
    Some (of_char (CHR ''w'') # be_bytes 8 2 @ [0x7b, 0x7d])"
  by code_simp

theorem declaration_understood_witness:
  "\<exists>body. snd (snd (open_control sample_session_env wire_options_from_compat sample_creds ''p''
      (sample_socket (of_char (CHR ''w'') # be_bytes 8 2 @ [0x7b, 0x7d])) [])) = WorkDeclared VersionV1 body \<and>
    (case parse_work_declaration sample_request_unmarshal (\<lambda>s. Some sample_target) body of
       Inl e \<Rightarrow> False | Inr d \<Rightarrow> wd_proxy d = ''ssh'' \<and> wd_client_id d = ''c'')"
proof -
  have "\<exists>body. snd (snd (open_control sample_session_env wire_options_from_compat sample_creds ''p''
      (sample_socket (of_char (CHR ''w'') # be_bytes 8 2 @ [0x7b, 0x7d])) [])) = WorkDeclared VersionV1 body \<and>
    parse_work_declaration sample_request_unmarshal (\<lambda>s. Some sample_target) body = Inr \<lparr>wd_client_id = ccf_client_id sample_client_config,
      wd_token = ccf_token sample_client_config, wd_timestamp = 0, wd_proxy = pd_name sample_declared_proxy,
      wd_target = pd_local sample_declared_proxy, wd_official = False, wd_run_id = []\<rparr>"
    by (rule declaration_understood [OF sample_declaration, where rest = "[]"])
      (auto simp: sample_login_facts sample_socket_def sample_declared_proxy_def sample_request_marshal_def
        sample_request_unmarshal_def sample_request_def sample_request_bytes_def split: if_splits)
  then show ?thesis by (auto simp: sample_login_facts sample_declared_proxy_def)
qed


text \<open>C33: each ping that the client's heartbeat sends is answered by one pong, in order, and the session
  goes on until the connection ends; nothing but the other connections changes the engine.\<close>

theorem pings_answered:
  assumes "heartbeat_loop (\<lambda>j. n \<le> j) sink_write 0 [] = Some (sent, None)"
    and "g_version g = Some VersionV1" and "g_v1 g = Some DefaultV1PayloadLimit" and "g_pool g = None"
    and "chan_view (ee_crypto E) (g_chan g) = \<lparr>st_data = sent, st_end = IO_EOF\<rparr>"
    and "ee_write E = sink_write" and "\<And>j. oo_deadline L j" and "\<not> oo_timeout L IO_EOF"
  shows "\<exists>g'. serve_control_loop E L i client c k g (\<lparr>sw_version = VersionV1, sw_output = Out_Plain w\<rparr>, en) =
    Some (g', (\<lparr>sw_version = VersionV1, sw_output = Out_Plain (w @ concat (replicate n pong_wire))\<rparr>,
      fold (oo_others L) [k..<k + n] en), EndRead IO_EOF)"
proof -
  have "sent = concat (replicate n ping_wire)" using assms(1) heartbeat_sent [of 0 n "[]"] by simp
  with assms show ?thesis by (intro pings_served) simp_all
qed

definition sample_loop_env :: loop_env where
  "sample_loop_env = \<lparr>oo_deadline = (\<lambda>k. True), oo_timeout = (\<lambda>e. False), oo_others = (\<lambda>k en. en), oo_between = (\<lambda>k en. en),
     oo_bind = (\<lambda>k a. None), oo_order = (\<lambda>xs. xs), oo_lower = (\<lambda>s. s), oo_request = (\<lambda>bs. None), oo_close = (\<lambda>bs. None),
     oo_marshal = (\<lambda>r. None)\<rparr>"

definition sample_idle_engine :: engine where
  "sample_idle_engine = (new_engine sample_server None \<lparr>nt_open = {}, nt_next = 0, nt_addr = (\<lambda>l. zero_addr_port)\<rparr>)\<lparr>en_gens := [new_generation 1 sample_server]\<rparr>"

definition sample_session_guard :: connection_guard where
  "sample_session_guard = (new_guard sample_options ''p'' None (sample_socket (ping_wire @ ping_wire)))\<lparr>
     g_version := Some VersionV1, g_locked := True, g_reader := True, g_v1 := Some DefaultV1PayloadLimit\<rparr>"

theorem pings_answered_witness:
  "\<exists>g'. serve_control_loop sample_session_env sample_loop_env 0 ''c'' 1 0 sample_session_guard
      (\<lparr>sw_version = VersionV1, sw_output = Out_Plain []\<rparr>, sample_idle_engine) =
    Some (g', (\<lparr>sw_version = VersionV1, sw_output = Out_Plain (pong_wire @ pong_wire)\<rparr>, sample_idle_engine), EndRead IO_EOF)"
proof -
  have "heartbeat_loop (\<lambda>j. 2 \<le> j) sink_write 0 [] = Some (ping_wire @ ping_wire, None)"
    using heartbeat_sent [of 0 2 "[]"] by (simp add: numeral_2_eq_2)
  from pings_answered [OF this, of sample_session_guard sample_session_env sample_loop_env 0 "''c''" 1 0 "[]" sample_idle_engine]
  show ?thesis
    by (simp add: sample_session_guard_def new_guard_def sample_session_env_def sample_loop_env_def sample_socket_def numeral_2_eq_2)
qed

text \<open>When the draining of a generation is cut, the control connections that were accepted while it
  was active are closed with it: they were tracked as connections of the generation.\<close>

theorem cut_drain_closes_control_session:
  assumes "i < length (en_gens en)" and "finite (gn_conns (en_gens en ! i))" and "\<And>cs. finite cs \<Longrightarrow> set (order cs) = cs"
    and "wait_drained i order DrainLimit (enter_control i c en) = (en', complete)"
  shows "c \<in> set (en_closed en') \<and> \<not> complete"
proof -
  let ?cs = "insert c (gn_conns (en_gens en ! i))"
  have "en_closed en' = en_closed en @ order ?cs" "\<not> complete"
    using assms(1,4)
    by (auto simp: wait_drained_def close_conns_def enter_control_def track_conn_def on_sessions_def set_gen_def)
  moreover have "set (order ?cs) = ?cs" by (rule assms(3)) (simp add: assms(2))
  ultimately show ?thesis by simp
qed

theorem cut_drain_closes_control_session_witness:
  "7 \<in> set (en_closed (fst (wait_drained 0 sorted_list_of_set DrainLimit (enter_control 0 7 sample_idle_engine))))"
proof -
  obtain en' b where w: "wait_drained 0 sorted_list_of_set DrainLimit (enter_control 0 7 sample_idle_engine) = (en', b)" by fastforce
  from cut_drain_closes_control_session [OF _ _ _ w] w show ?thesis
    by (simp add: sample_idle_engine_def new_generation_def)
qed

end
