(* ===== verification/Udp_Datagram.thy ===== *)
theory Udp_Datagram
  imports Wire_Progress Core_Config
begin

section \<open>Datagrams on work connections (\<open>internal/proxy/datagram.go\<close>)\<close>

text \<open>
  A datagram travels on a work connection as a wire frame. The own form is a JSON object whose only
  field holds the datagram in base64 (\<open>encoding/base64\<close>, modelled here); the form of official
  clients is a JSON object of the library's making, which is a parameter.
\<close>

definition udpDatagramFrameLimit :: int where "udpDatagramFrameLimit = 90 * 1024"

subsection \<open>Base64\<close>

definition b64_char :: "nat \<Rightarrow> byte" where
  "b64_char n =
     (if n < 26 then of_nat (65 + n) else if n < 52 then of_nat (71 + n) else if n < 62 then of_nat (n - 4)
      else if n = 62 then 43 else 47)"

definition b64_value :: "byte \<Rightarrow> nat option" where
  "b64_value c =
     (if 65 \<le> c \<and> c \<le> 90 then Some (unat c - 65) else if 97 \<le> c \<and> c \<le> 122 then Some (unat c - 71)
      else if 48 \<le> c \<and> c \<le> 57 then Some (unat c + 4) else if c = 43 then Some 62 else if c = 47 then Some 63 else None)"

definition b64_pad :: byte where "b64_pad = 61"

fun b64_encode :: "bytes \<Rightarrow> bytes" where
  "b64_encode [] = []"
| "b64_encode [a] = [b64_char (unat a div 4), b64_char (unat a mod 4 * 16), b64_pad, b64_pad]"
| "b64_encode [a, b] =
     [b64_char (unat a div 4), b64_char (unat a mod 4 * 16 + unat b div 16), b64_char (unat b mod 16 * 4), b64_pad]"
| "b64_encode (a # b # c # rest) =
     b64_char (unat a div 4) # b64_char (unat a mod 4 * 16 + unat b div 16)
       # b64_char (unat b mod 16 * 4 + unat c div 64) # b64_char (unat c mod 64) # b64_encode rest"

definition b64_byte :: "nat \<Rightarrow> byte" where "b64_byte n = of_nat (n mod 256)"

text \<open>Decoding: quantum by quantum; padding only in the last one, and nothing after it.\<close>

fun b64_quanta :: "bytes \<Rightarrow> bytes option" where
  "b64_quanta [] = Some []"
| "b64_quanta (c0 # c1 # c2 # c3 # rest) =
     (case (b64_value c0, b64_value c1) of
        (Some v0, Some v1) \<Rightarrow>
          (if c2 = b64_pad then
             (if c3 = b64_pad \<and> rest = [] then Some [b64_byte (v0 * 4 + v1 div 16)] else None)
           else case b64_value c2 of
               None \<Rightarrow> None
             | Some v2 \<Rightarrow>
                 (if c3 = b64_pad then
                    (if rest = [] then Some [b64_byte (v0 * 4 + v1 div 16), b64_byte (v1 * 16 + v2 div 4)] else None)
                  else case (b64_value c3, b64_quanta rest) of
                      (Some v3, Some bs) \<Rightarrow>
                        Some (b64_byte (v0 * 4 + v1 div 16) # b64_byte (v1 * 16 + v2 div 4) # b64_byte (v2 * 64 + v3) # bs)
                    | _ \<Rightarrow> None))
      | _ \<Rightarrow> None)"
| "b64_quanta _ = None"

text \<open>Line ends are skipped wherever they stand.\<close>

definition b64_decode :: "bytes \<Rightarrow> bytes option" where
  "b64_decode s = b64_quanta (filter (\<lambda>c. c \<noteq> 13 \<and> c \<noteq> 10) s)"

subsection \<open>The own form\<close>

definition datagram_body :: "bytes \<Rightarrow> bytes" where
  "datagram_body datagram = map of_char ''{\"data\":\"'' @ b64_encode datagram @ map of_char ''\"}''"

definition encode_datagram :: "bytes \<Rightarrow> go_error + bytes" where
  "encode_datagram datagram =
     encode_v1_frame_with_limit
       \<lparr>fr_type = MessageTypeUDPPacket, fr_payload = datagram_body datagram, fr_release = None\<rparr> udpDatagramFrameLimit"

text \<open>\<open>unmarshal\<close> gives the field of a payload.\<close>

definition decode_datagram :: "(bytes \<Rightarrow> bytes option) \<Rightarrow> frame \<Rightarrow> bytes option" where
  "decode_datagram unmarshal f =
     (if fr_type f \<noteq> MessageTypeUDPPacket then None
      else case unmarshal (fr_payload f) of None \<Rightarrow> None | Some s \<Rightarrow> b64_decode s)"

subsection \<open>The official form\<close>

text \<open>The remote address of a packet is the text of the library's address value.\<close>

record official_packet =
  op_content :: bytes
  op_remote :: "string option"

definition encode_official_datagram ::
  "(official_packet \<Rightarrow> bytes option) \<Rightarrow> (addr_port \<Rightarrow> string) \<Rightarrow> bytes \<Rightarrow> addr_port \<Rightarrow> version \<Rightarrow> go_error + bytes" where
  "encode_official_datagram marshal show_addr datagram peer v =
     (case marshal \<lparr>op_content = datagram, op_remote = Some (show_addr peer)\<rparr> of
        None \<Rightarrow> Inl IO_Failure
      | Some body \<Rightarrow>
          if v = VersionV2 then encode_v2_message_frame MessageTypeUDPPacket body
          else encode_v1_frame_with_limit \<lparr>fr_type = MessageTypeUDPPacket, fr_payload = body, fr_release = None\<rparr>
            udpDatagramFrameLimit)"

definition decode_official_datagram ::
  "(bytes \<Rightarrow> official_packet option) \<Rightarrow> (string \<Rightarrow> addr_port option) \<Rightarrow> bytes \<Rightarrow> (bytes \<times> addr_port) option" where
  "decode_official_datagram unmarshal parse payload =
     (case unmarshal payload of
        None \<Rightarrow> None
      | Some p \<Rightarrow> (case op_remote p of None \<Rightarrow> None
          | Some t \<Rightarrow> (case parse t of None \<Rightarrow> None | Some a \<Rightarrow> Some (op_content p, a))))"

subsection \<open>Writing a frame\<close>

type_synonym 'w count_write = "'w \<Rightarrow> bytes \<Rightarrow> 'w \<times> nat \<times> go_error option"

text \<open>A write that takes fewer bytes without an error is an error too.\<close>

definition write_datagram_frame :: "'w count_write \<Rightarrow> 'w \<Rightarrow> bytes \<Rightarrow> 'w \<times> go_error option" where
  "write_datagram_frame wr w frame =
     (case wr w frame of (w', n, e) \<Rightarrow> (w', if e \<noteq> None then e else if n \<noteq> length frame then Some IO_Failure else None))"

subsection \<open>Laws of base64\<close>

lemma byte_cases: "(c :: byte) = of_nat (unat c)" "unat (c :: byte) < 256"
  using unsigned_less [of c] by simp_all

lemma b64_char_small: "n < 64 \<Longrightarrow> b64_value (b64_char n) = Some n \<and> b64_char n \<noteq> b64_pad \<and> b64_char n \<noteq> 13 \<and> b64_char n \<noteq> 10 \<and>
  b64_char n \<noteq> 34 \<and> b64_char n \<noteq> 92 \<and> \<not> b64_char n < 32"
proof -
  have "\<forall>n \<in> set [0..<64]. b64_value (b64_char n) = Some n \<and> b64_char n \<noteq> b64_pad \<and> b64_char n \<noteq> 13 \<and> b64_char n \<noteq> 10 \<and>
    b64_char n \<noteq> 34 \<and> b64_char n \<noteq> 92 \<and> \<not> b64_char n < 32" by code_simp
  then show "n < 64 \<Longrightarrow> ?thesis" by simp
qed

lemma b64_index:
  "unat (a :: byte) div 4 < 64" "unat (a :: byte) mod 4 * 16 + unat (b :: byte) div 16 < 64"
  "unat (b :: byte) mod 16 * 4 + unat (c :: byte) div 64 < 64" "unat (c :: byte) mod 64 < 64"
  "unat (a :: byte) mod 4 * 16 < 64" "unat (b :: byte) mod 16 * 4 < 64"
  using byte_cases(2) [of a] byte_cases(2) [of b] byte_cases(2) [of c] by linarith+

lemma b64_joined:
  "unat (b :: byte) div 16 div 16 = 0" "unat (b :: byte) div 64 div 4 = 0"
  "b64_byte (unat b) = b" "b64_byte (unat b + 256 * k) = b"
  using byte_cases(2) [of b] by (simp_all add: div_mult2_eq [symmetric] b64_byte_def byte_cases(1) [symmetric])

lemma b64_quanta_encode: "b64_quanta (b64_encode bs) = Some bs"
  by (induction bs rule: b64_encode.induct)
    (simp_all add: b64_char_small b64_index b64_joined)

lemma b64_encode_chars:
  "c \<in> set (b64_encode bs) \<Longrightarrow> c \<noteq> 13 \<and> c \<noteq> 10 \<and> c \<noteq> 34 \<and> c \<noteq> 92 \<and> \<not> c < 32"
  by (induction bs rule: b64_encode.induct) (auto simp: b64_char_small b64_index b64_pad_def)

lemma b64_decode_encode: "b64_decode (b64_encode bs) = Some bs"
proof -
  have "filter (\<lambda>c. c \<noteq> 13 \<and> c \<noteq> 10) (b64_encode bs) = b64_encode bs"
    using b64_encode_chars by (simp add: filter_id_conv)
  then show ?thesis by (simp add: b64_decode_def b64_quanta_encode)
qed

lemma b64_encode_length: "length (b64_encode bs) = (length bs + 2) div 3 * 4"
  by (induction bs rule: b64_encode.induct) (simp_all, presburger)

subsection \<open>Laws of the own form\<close>

text \<open>The body is a JSON object whatever the bytes of the datagram.\<close>

lemma json_string_run:
  "js_step s = InString \<Longrightarrow> (\<And>c. c \<in> set bs \<Longrightarrow> c \<noteq> 34 \<and> c \<noteq> 92 \<and> \<not> c < 32) \<Longrightarrow> json_run s bs = Some s"
  by (induction bs) (auto simp: json_step.simps)

lemma datagram_body_json: "validate_json_object (datagram_body d) = None"
proof -
  let ?open = "\<lparr>js_step = InString, js_stack = [PObjectValue], js_end = False\<rparr>"
  have "json_run json_reset (map of_char ''{\"data\":\"'') = Some ?open" by code_simp
  moreover have "json_run ?open (b64_encode d) = Some ?open"
    by (rule json_string_run) (use b64_encode_chars in auto)
  moreover have "json_run ?open (map of_char ''\"}'') = Some \<lparr>js_step = EndTop, js_stack = [], js_end = True\<rparr>" by code_simp
  ultimately have "json_run json_reset (datagram_body d) = Some \<lparr>js_step = EndTop, js_stack = [], js_end = True\<rparr>"
    by (simp only: datagram_body_def json_run_append option.case append_assoc)
  then have valid: "json_valid (datagram_body d)" by (simp add: json_valid_def json_eof_def)
  have "space_at_front (123 # bs) = 0" "space_at_back (125 # bs) = 0" for bs
    by (simp_all add: is_ascii_space_def is_space2_def is_space3_def split: list.split)
  moreover have body: "datagram_body d = 123 # tl (datagram_body d)" "rev (datagram_body d) = 125 # tl (rev (datagram_body d))"
    by (simp_all add: datagram_body_def)
  ultimately have "trim_space (datagram_body d) = datagram_body d"
    by (metis rev_rev_ident trim_by_stop trim_space_def)
  moreover have "datagram_body d \<noteq> []" "hd (datagram_body d) = 123" by (simp_all add: datagram_body_def)
  ultimately show ?thesis using valid by (simp add: validate_json_object_def Let_def)
qed

lemma datagram_body_length: "length (datagram_body d) = (length d + 2) div 3 * 4 + 11"
  by (simp add: datagram_body_def b64_encode_length)

definition datagram_frame :: "bytes \<Rightarrow> frame" where
  "datagram_frame d = \<lparr>fr_type = MessageTypeUDPPacket, fr_payload = datagram_body d, fr_release = None\<rparr>"

text \<open>Every datagram that UDP can carry fits a frame.\<close>

lemma datagram_sendable: "length d \<le> 65507 \<Longrightarrow> v1_sendable udpDatagramFrameLimit (datagram_frame d)"
  by (simp add: v1_sendable_def datagram_frame_def supported_message_types_def datagram_body_json datagram_body_length
      udpDatagramFrameLimit_def)

lemma datagram_encoded: "length d \<le> 65507 \<Longrightarrow> \<exists>raw. encode_datagram d = Inr raw"
  using v1_sendable_encodes [OF datagram_sendable] by (simp add: encode_datagram_def datagram_frame_def)

lemma datagram_decoded:
  "unmarshal (datagram_body d) = Some (b64_encode d) \<Longrightarrow> decode_datagram unmarshal (datagram_frame d) = Some d"
  by (simp add: decode_datagram_def datagram_frame_def b64_decode_encode)

end
