(* ===== verification/Udp_Session.thy ===== *)
theory Udp_Session
  imports Udp_Datagram Work_Pool
begin

section \<open>UDP sessions (\<open>internal/proxy/udp.go\<close>)\<close>

text \<open>
  A UDP entry of the server keeps one session for each peer address; a session owns a work
  connection, a queue of at most sixteen datagrams and two goroutines: the service loop that sends
  the queue down the work connection, and the reader that hands the answers back to the peer. The
  client has the other end of the work connection. \<open>us_sent\<close> are the datagrams that went down
  the work connection, \<open>us_context\<close> the call of the entry's service loop under whose context the
  session runs, \<open>us_forgotten\<close> whether its goroutine has ended.
\<close>

definition inboundQueueSize :: nat where "inboundQueueSize = 16"

text \<open>The JSON codec of official packets, and the text form of addresses.\<close>

record udp_env =
  uv_unmarshal :: "bytes \<Rightarrow> bytes option"
  uv_marshal_official :: "official_packet \<Rightarrow> bytes option"
  uv_unmarshal_official :: "bytes \<Rightarrow> official_packet option"
  uv_show :: "addr_port \<Rightarrow> string"
  uv_parse :: "string \<Rightarrow> addr_port option"

datatype reader_pc = ReaderRunning | ReaderReported | ReaderGone

record udp_session =
  us_peer :: addr_port
  us_work :: conn
  us_idle :: int
  us_max :: int
  us_official :: bool
  us_wire :: version
  us_inbound :: "bytes list"
  us_done :: bool
  us_dropped :: nat
  us_serving :: bool
  us_reader :: reader_pc
  us_work_closed :: bool
  us_sent :: "bytes list"
  us_context :: nat
  us_forgotten :: bool

record udp_proxy_config =
  xc_idle :: int
  xc_max_sessions :: int
  xc_max_datagram :: int
  xc_official :: bool
  xc_wire :: version

definition new_udp_session :: "udp_proxy_config \<Rightarrow> nat \<Rightarrow> addr_port \<Rightarrow> conn \<Rightarrow> udp_session" where
  "new_udp_session c ctx peer work =
     \<lparr>us_peer = peer, us_work = work, us_idle = xc_idle c, us_max = xc_max_datagram c, us_official = xc_official c,
      us_wire = xc_wire c, us_inbound = [], us_done = False, us_dropped = 0, us_serving = True, us_reader = ReaderRunning,
      us_work_closed = False, us_sent = [], us_context = ctx, us_forgotten = False\<rparr>"

subsection \<open>One session\<close>

definition deliver :: "bytes \<Rightarrow> udp_session \<Rightarrow> udp_session \<times> bool" where
  "deliver datagram s =
     (if us_done s then (s, False)
      else if us_max s < int (length datagram) then (s\<lparr>us_dropped := Suc (us_dropped s)\<rparr>, False)
      else if length (us_inbound s) < inboundQueueSize then (s\<lparr>us_inbound := us_inbound s @ [datagram]\<rparr>, True)
      else (s\<lparr>us_dropped := Suc (us_dropped s)\<rparr>, False))"

definition session_frame :: "udp_env \<Rightarrow> udp_session \<Rightarrow> bytes \<Rightarrow> go_error + bytes" where
  "session_frame E s datagram =
     (if us_official s
      then encode_official_datagram (uv_marshal_official E) (uv_show E) datagram (us_peer s) (us_wire s)
      else encode_datagram datagram)"

definition send_datagram :: "udp_env \<Rightarrow> 'w count_write \<Rightarrow> udp_session \<Rightarrow> bytes \<Rightarrow> 'w \<Rightarrow> 'w \<times> go_error option" where
  "send_datagram E wr s datagram w =
     (case session_frame E s datagram of Inl e \<Rightarrow> (w, Some e) | Inr frame \<Rightarrow> write_datagram_frame wr w frame)"

text \<open>What wakes the service loop: a datagram of the queue (and whether its write succeeds), the
  reader's report, the idle timer, the end of the context.\<close>

datatype session_event = EvInbound bool | EvReport | EvIdle | EvCancelled

definition session_end :: "udp_session \<Rightarrow> udp_session" where
  "session_end s = s\<lparr>us_serving := False, us_done := True, us_work_closed := True\<rparr>"

definition serve_round :: "udp_env \<Rightarrow> session_event \<Rightarrow> udp_session \<Rightarrow> udp_session" where
  "serve_round E ev s =
     (case ev of
        EvInbound ok \<Rightarrow>
          (case us_inbound s of
             [] \<Rightarrow> s
           | d # ds \<Rightarrow>
               (let s1 = s\<lparr>us_inbound := ds\<rparr>
                in if isl (session_frame E s d) \<or> \<not> ok then session_end s1 else s1\<lparr>us_sent := us_sent s @ [d]\<rparr>))
      | EvReport \<Rightarrow> session_end s
      | EvIdle \<Rightarrow> session_end s
      | EvCancelled \<Rightarrow> session_end s)"

definition session_close :: "udp_session \<Rightarrow> udp_session" where
  "session_close s = s\<lparr>us_done := True, us_work_closed := True\<rparr>"

subsection \<open>The answers\<close>

datatype udp_report = ReportRead go_error | ReportInvalid

definition response_v1 :: "udp_env \<Rightarrow> udp_session \<Rightarrow> frame \<Rightarrow> (bytes \<times> addr_port) option" where
  "response_v1 E s f =
     (if us_official s
      then (if fr_type f = MessageTypeUDPPacket
        then decode_official_datagram (uv_unmarshal_official E) (uv_parse E) (fr_payload f) else None)
      else map_option (\<lambda>d. (d, us_peer s)) (decode_datagram (uv_unmarshal E) f))"

definition response_v2 :: "udp_env \<Rightarrow> v2_frame \<Rightarrow> (bytes \<times> addr_port) option" where
  "response_v2 E f =
     (if mf_type (v2f_message f) = MessageTypeUDPPacket
      then decode_official_datagram (uv_unmarshal_official E) (uv_parse E) (mf_payload (v2f_message f)) else None)"

text \<open>An answer goes to the peer, unless it is too large; false when it cannot be sent.\<close>

definition deliver_response ::
  "('p \<Rightarrow> addr_port \<Rightarrow> bytes \<Rightarrow> 'p \<times> bool) \<Rightarrow> udp_session \<Rightarrow> bytes \<times> addr_port \<Rightarrow> 'p \<times> nat \<Rightarrow> ('p \<times> nat) \<times> bool" where
  "deliver_response send s = (\<lambda>(datagram, peer) (port, dropped).
     if us_max s < int (length datagram) then ((port, Suc dropped), True)
     else case send port peer datagram of (port', ok) \<Rightarrow> ((port', dropped), ok))"

partial_function (option) read_responses_v1 ::
  "udp_env \<Rightarrow> ('p \<Rightarrow> addr_port \<Rightarrow> bytes \<Rightarrow> 'p \<times> bool) \<Rightarrow> udp_session \<Rightarrow> socket v1_reader \<Rightarrow> 'p \<times> nat
   \<Rightarrow> (('p \<times> nat) \<times> udp_report option) option" where
  "read_responses_v1 E send s rd st =
     (case v1_read_frame sock_read_full rd None of
        (_, _, Inl e) \<Rightarrow> Some (st, Some (ReportRead e))
      | (rd', _, Inr f) \<Rightarrow>
          (case response_v1 E s f of
             None \<Rightarrow> Some (st, Some ReportInvalid)
           | Some r \<Rightarrow> (case deliver_response send s r st of
               (st', ok) \<Rightarrow> if ok then read_responses_v1 E send s rd' st' else Some (st', None))))"

partial_function (option) read_responses_v2 ::
  "udp_env \<Rightarrow> ('p \<Rightarrow> addr_port \<Rightarrow> bytes \<Rightarrow> 'p \<times> bool) \<Rightarrow> udp_session \<Rightarrow> socket v2_reader \<Rightarrow> 'p \<times> nat
   \<Rightarrow> (('p \<times> nat) \<times> udp_report option) option" where
  "read_responses_v2 E send s rd st =
     (case v2_read_frame sock_read_full rd None of
        (_, _, Inl e) \<Rightarrow> Some (st, Some (ReportRead e))
      | (rd', _, Inr f) \<Rightarrow>
          (case response_v2 E f of
             None \<Rightarrow> Some (st, Some ReportInvalid)
           | Some r \<Rightarrow> (case deliver_response send s r st of
               (st', ok) \<Rightarrow> if ok then read_responses_v2 E send s rd' st' else Some (st', None))))"

text \<open>The reader's result: the state of the port, what was dropped, and its report, if it gives one.\<close>

definition read_responses ::
  "udp_env \<Rightarrow> ('p \<Rightarrow> addr_port \<Rightarrow> bytes \<Rightarrow> 'p \<times> bool) \<Rightarrow> udp_session \<Rightarrow> socket \<Rightarrow> 'p \<times> nat
   \<Rightarrow> (('p \<times> nat) \<times> udp_report option) option" where
  "read_responses E send s work st =
     (if us_official s \<and> us_wire s = VersionV2
      then read_responses_v2 E send s \<lparr>v2r_source = work, v2r_limit = udpDatagramFrameLimit\<rparr> st
      else read_responses_v1 E send s (sock_reader udpDatagramFrameLimit work) st)"

subsection \<open>The client's end\<close>

partial_function (option) serve_udp_client ::
  "(bytes \<Rightarrow> bytes option) \<Rightarrow> ('t \<Rightarrow> bytes \<Rightarrow> 't \<times> bool) \<Rightarrow> socket v1_reader \<Rightarrow> 't \<Rightarrow> 't option" where
  "serve_udp_client unmarshal send rd t =
     (case v1_read_frame sock_read_full rd None of
        (_, _, Inl e) \<Rightarrow> Some t
      | (rd', _, Inr f) \<Rightarrow>
          (case decode_datagram unmarshal f of
             None \<Rightarrow> Some t
           | Some d \<Rightarrow> (case send t d of (t', ok) \<Rightarrow> if ok then serve_udp_client unmarshal send rd' t' else Some t')))"

text \<open>The datagrams that the local target sends, until reading it fails.\<close>

fun read_udp_responses :: "'w count_write \<Rightarrow> 'w \<Rightarrow> bytes list \<Rightarrow> go_error \<Rightarrow> 'w \<times> go_error" where
  "read_udp_responses wr w [] e = (w, e)"
| "read_udp_responses wr w (d # ds) e =
     (case encode_datagram d of
        Inl x \<Rightarrow> (w, x)
      | Inr frame \<Rightarrow> (case write_datagram_frame wr w frame of
          (w', Some x) \<Rightarrow> (w', x) | (w', None) \<Rightarrow> read_udp_responses wr w' ds e))"

subsection \<open>The entry\<close>

record udp_proxy =
  xp_config :: udp_proxy_config
  xp_sessions :: "(addr_port, nat) gomap"
  xp_all :: "udp_session list"
  xp_rejected :: nat
  xp_oversized :: nat
  xp_delivered :: nat
  xp_closed :: bool
  xp_suspended :: bool
  xp_released :: bool
  xp_ended :: nat

definition new_udp_proxy :: "udp_proxy_config \<Rightarrow> udp_proxy" where
  "new_udp_proxy c = \<lparr>xp_config = c, xp_sessions = [], xp_all = [], xp_rejected = 0, xp_oversized = 0, xp_delivered = 0,
     xp_closed = False, xp_suspended = False, xp_released = False, xp_ended = 0\<rparr>"

definition set_session :: "nat \<Rightarrow> udp_session \<Rightarrow> udp_proxy \<Rightarrow> udp_proxy" where
  "set_session i s p = p\<lparr>xp_all := (xp_all p)[i := s]\<rparr>"

text \<open>The section under the lock: the session of the peer, made when there is room and a work
  connection. Sessions of the current call of the service loop have its number as their context.\<close>

definition dispatch_session :: "conn option \<Rightarrow> addr_port \<Rightarrow> udp_proxy \<Rightarrow> udp_proxy \<times> nat option" where
  "dispatch_session work peer p =
     (if xp_closed p then (p, None)
      else case map_of (xp_sessions p) peer of
        Some i \<Rightarrow> (p, Some i)
      | None \<Rightarrow>
          (if xc_max_sessions (xp_config p) \<le> int (length (xp_sessions p)) then (p\<lparr>xp_rejected := Suc (xp_rejected p)\<rparr>, None)
           else case work of
             None \<Rightarrow> (p\<lparr>xp_rejected := Suc (xp_rejected p)\<rparr>, None)
           | Some w \<Rightarrow>
               (p\<lparr>xp_all := xp_all p @ [new_udp_session (xp_config p) (xp_ended p) peer w],
                  xp_sessions := gm_set peer (length (xp_all p)) (xp_sessions p)\<rparr>, Some (length (xp_all p)))))"

definition deliver_to :: "nat \<Rightarrow> bytes \<Rightarrow> udp_proxy \<Rightarrow> udp_proxy" where
  "deliver_to i datagram p =
     (case deliver datagram (xp_all p ! i) of
        (s, ok) \<Rightarrow> (set_session i s p)\<lparr>xp_delivered := (if ok then Suc (xp_delivered p) else xp_delivered p)\<rparr>)"

definition dispatch :: "conn option \<Rightarrow> addr_port \<Rightarrow> bytes \<Rightarrow> udp_proxy \<Rightarrow> udp_proxy" where
  "dispatch work peer datagram p =
     (case dispatch_session work peer p of (p', None) \<Rightarrow> p' | (p', Some i) \<Rightarrow> deliver_to i datagram p')"

definition forget :: "nat \<Rightarrow> udp_proxy \<Rightarrow> udp_proxy" where
  "forget i p =
     (let peer = us_peer (xp_all p ! i)
      in if map_of (xp_sessions p) peer = Some i then p\<lparr>xp_sessions := gm_delete peer (xp_sessions p)\<rparr> else p)"

text \<open>One round of the service loop: setting the deadline fails, or a read gives a time-out, the error
  for a datagram that is too large, another error, or a datagram.\<close>

datatype packet_read = ReadNoDeadline | ReadTimeout | ReadOversized | ReadFailed | ReadPacket addr_port bytes

definition count_oversized :: "udp_proxy \<Rightarrow> udp_proxy" where
  "count_oversized p = p\<lparr>xp_oversized := Suc (xp_oversized p)\<rparr>"

definition serve_packet :: "packet_read \<Rightarrow> bool \<Rightarrow> conn option \<Rightarrow> udp_proxy \<Rightarrow> udp_proxy \<times> bool" where
  "serve_packet r cancelled work p =
     (case r of
        ReadNoDeadline \<Rightarrow> (p, False)
      | ReadTimeout \<Rightarrow> (p, \<not> (xp_closed p \<or> cancelled \<or> xp_suspended p))
      | ReadOversized \<Rightarrow> if xp_closed p then (p, False) else (count_oversized p, True)
      | ReadFailed \<Rightarrow> (p, False)
      | ReadPacket peer d \<Rightarrow>
          if xc_max_datagram (xp_config p) < int (length d) then (count_oversized p, True)
          else (dispatch work peer d p, True))"

definition serve_started :: "udp_proxy \<Rightarrow> udp_proxy" where
  "serve_started p = p\<lparr>xp_suspended := False\<rparr>"

text \<open>The return of the loop cancels the context of its sessions.\<close>

definition serve_ended :: "udp_proxy \<Rightarrow> udp_proxy" where
  "serve_ended p = p\<lparr>xp_ended := Suc (xp_ended p)\<rparr>"

definition suspend :: "udp_proxy \<Rightarrow> udp_proxy" where
  "suspend p = p\<lparr>xp_suspended := True\<rparr>"

definition close_begin :: "udp_proxy \<Rightarrow> udp_proxy \<times> nat list" where
  "close_begin p = (p\<lparr>xp_closed := True, xp_sessions := []\<rparr>, map snd (xp_sessions p))"

subsection \<open>Everything together\<close>

datatype udp_serve_pc = ServeIdle | ServeReading | ServeDelivering nat bytes

datatype udp_close_pc = CloseIdle | CloseSessions "nat list" | CloseWaiting

text \<open>The entry, the service loop, a call of \<open>Close\<close>, and the datagrams that were taken off the port.\<close>

type_synonym udp_state = "udp_proxy \<times> udp_serve_pc \<times> udp_close_pc \<times> (addr_port \<times> bytes) list"

definition event_enabled :: "session_event \<Rightarrow> udp_session \<Rightarrow> udp_proxy \<Rightarrow> bool" where
  "event_enabled ev s p =
     (case ev of
        EvInbound ok \<Rightarrow> us_inbound s \<noteq> [] \<and> (ok \<longrightarrow> \<not> us_work_closed s)
      | EvReport \<Rightarrow> us_reader s = ReaderReported
      | EvIdle \<Rightarrow> True
      | EvCancelled \<Rightarrow> us_context s < xp_ended p)"

inductive udp_step :: "udp_env \<Rightarrow> udp_state \<Rightarrow> udp_state \<Rightarrow> bool" for E where
  serve_starts: "udp_step E (p, ServeIdle, c, l) (serve_started p, ServeReading, c, l)"
| serve_returns: "serve_packet r x w p = (p', False) \<Longrightarrow> udp_step E (p, ServeReading, c, l) (serve_ended p', ServeIdle, c, l)"
| serve_nothing: "serve_packet r x w p = (p', True) \<Longrightarrow> r = ReadTimeout \<or> r = ReadOversized \<Longrightarrow>
    udp_step E (p, ServeReading, c, l) (p', ServeReading, c, l)"
| packet_large: "xc_max_datagram (xp_config p) < int (length (d :: bytes)) \<Longrightarrow>
    udp_step E (p, ServeReading, c, l) (count_oversized p, ServeReading, c, l)"
| packet_refused: "int (length d) \<le> xc_max_datagram (xp_config p) \<Longrightarrow> dispatch_session w peer p = (p', None) \<Longrightarrow>
    udp_step E (p, ServeReading, c, l) (p', ServeReading, c, l @ [(peer, d)])"
| packet_taken: "int (length d) \<le> xc_max_datagram (xp_config p) \<Longrightarrow> dispatch_session w peer p = (p', Some i) \<Longrightarrow>
    udp_step E (p, ServeReading, c, l) (p', ServeDelivering i d, c, l @ [(peer, d)])"
| packet_queued: "udp_step E (p, ServeDelivering i d, c, l) (deliver_to i d p, ServeReading, c, l)"
| session_round: "i < length (xp_all p) \<Longrightarrow> us_serving (xp_all p ! i) \<Longrightarrow> event_enabled ev (xp_all p ! i) p \<Longrightarrow>
    udp_step E (p, s, c, l) (set_session i (serve_round E ev (xp_all p ! i)) p, s, c, l)"
| reader_ends: "i < length (xp_all p) \<Longrightarrow> us_reader (xp_all p ! i) = ReaderRunning \<Longrightarrow> r \<noteq> ReaderRunning \<Longrightarrow>
    udp_step E (p, s, c, l) (set_session i ((xp_all p ! i)\<lparr>us_reader := r\<rparr>) p, s, c, l)"
| session_forgotten: "i < length (xp_all p) \<Longrightarrow> \<not> us_serving (xp_all p ! i) \<Longrightarrow> \<not> us_forgotten (xp_all p ! i) \<Longrightarrow>
    udp_step E (p, s, c, l) (forget i (set_session i ((xp_all p ! i)\<lparr>us_forgotten := True\<rparr>) p), s, c, l)"
| suspended: "udp_step E (p, s, c, l) (suspend p, s, c, l)"
| close_starts: "\<not> xp_closed p \<Longrightarrow> close_begin p = (p', is) \<Longrightarrow> udp_step E (p, s, CloseIdle, l) (p', s, CloseSessions is, l)"
| close_one: "udp_step E (p, s, CloseSessions (i # is), l) (set_session i (session_close (xp_all p ! i)) p, s, CloseSessions is, l)"
| close_waits: "udp_step E (p, s, CloseSessions [], l) (p, s, CloseWaiting, l)"
| close_returns: "(\<And>i. i < length (xp_all p) \<Longrightarrow> us_forgotten (xp_all p ! i)) \<Longrightarrow>
    udp_step E (p, s, CloseWaiting, l) (p\<lparr>xp_released := True\<rparr>, s, CloseIdle, l)"

definition udp_begin :: "udp_proxy_config \<Rightarrow> udp_state" where
  "udp_begin c = (new_udp_proxy c, ServeIdle, CloseIdle, [])"

end
