(* ===== verification/Udp_Laws.thy ===== *)
theory Udp_Laws
  imports Udp_Session "HOL-Library.Sublist"
begin

section \<open>Laws of UDP sessions\<close>

subsection \<open>One session\<close>

text \<open>The datagrams a peer has sent, in order.\<close>

definition from_peer :: "addr_port \<Rightarrow> (addr_port \<times> bytes) list \<Rightarrow> bytes list" where
  "from_peer a l = map snd (filter (\<lambda>x. fst x = a) l)"

definition pending :: "udp_serve_pc \<Rightarrow> nat \<Rightarrow> bytes list" where
  "pending sp i = (case sp of ServeDelivering j d \<Rightarrow> if j = i then [d] else [] | _ \<Rightarrow> [])"

lemma pending_simps [simp]:
  "pending ServeIdle i = []" "pending ServeReading i = []" "pending (ServeDelivering j d) i = (if j = i then [d] else [])"
  by (simp_all add: pending_def)

text \<open>The queue is short and its datagrams are small; what went down the work connection, is queued or is
  being delivered was received from the peer, in the same order.\<close>

definition session_ok :: "int \<Rightarrow> (addr_port \<times> bytes) list \<Rightarrow> bytes list \<Rightarrow> udp_session \<Rightarrow> bool" where
  "session_ok limit l pend s \<longleftrightarrow>
     us_max s = limit \<and> length (us_inbound s) \<le> inboundQueueSize \<and>
     (\<forall>d \<in> set (us_inbound s). int (length d) \<le> limit) \<and>
     (\<not> us_serving s \<longrightarrow> us_done s \<and> us_work_closed s) \<and> (us_forgotten s \<longrightarrow> \<not> us_serving s) \<and>
     subseq (us_sent s @ us_inbound s @ pend) (from_peer (us_peer s) l)"

lemma subseq_more: "subseq xs ys \<Longrightarrow> subseq xs (ys @ zs)"
  using list_emb_append_mono [of "(=)" xs ys "[]" zs] by simp

lemma subseq_less: "subseq (xs @ ys @ zs) ws \<Longrightarrow> subseq (xs @ ys) ws"
  by (metis append_assoc list_emb_appendD list_emb_append_mono list_emb_Nil append_Nil2)

lemma session_ok_log: "session_ok limit l pend s \<Longrightarrow> session_ok limit (l @ l') pend s"
  by (simp add: session_ok_def from_peer_def subseq_more)

lemma session_ok_taken:
  "session_ok limit l [] s \<Longrightarrow> us_peer s = a \<Longrightarrow> session_ok limit (l @ [(a, d)]) [d] s"
  using list_emb_append_mono [of "(=)" "us_sent s @ us_inbound s" "from_peer a l" "[d]" "[d]"]
  by (auto simp: session_ok_def from_peer_def)

lemma session_ok_deliver:
  "session_ok limit l [d] s \<Longrightarrow> deliver d s = (s', ok) \<Longrightarrow> session_ok limit l [] s' \<and> us_peer s' = us_peer s"
  using subseq_less [of "us_sent s" "us_inbound s" "[d]"]
  by (auto simp: session_ok_def deliver_def split: if_splits)

lemma session_ok_less: "session_ok limit l pend s \<Longrightarrow> session_ok limit l [] s"
  using subseq_less by (fastforce simp: session_ok_def)

lemma session_ok_round:
  assumes "session_ok limit l pend s" and "us_serving s"
  shows "session_ok limit l pend (serve_round E ev s) \<and> us_peer (serve_round E ev s) = us_peer s"
proof -
  have drop: "subseq (us_sent s @ ds @ pend) (from_peer (us_peer s) l)" if "us_inbound s = d # ds" for d ds
  proof -
    have "subseq (us_sent s @ ds @ pend) (us_sent s @ us_inbound s @ pend)"
      unfolding that by (intro list_emb_append_mono) auto
    then show ?thesis using assms(1) subseq_order.order_trans by (auto simp: session_ok_def)
  qed
  show ?thesis
    using assms drop
    by (auto simp: session_ok_def serve_round_def session_end_def Let_def split: session_event.splits list.splits if_splits)
qed

lemma session_ok_close: "session_ok limit l pend s \<Longrightarrow> session_ok limit l pend (session_close s)"
  by (auto simp: session_ok_def session_close_def)

lemma session_ok_new: "session_ok (xc_max_datagram c) l [] (new_udp_session c k a w)"
  by (simp add: session_ok_def new_udp_session_def)

subsection \<open>The table of the entry\<close>

definition table_ok :: "udp_proxy \<Rightarrow> bool" where
  "table_ok p \<longleftrightarrow>
     gm_ok (xp_sessions p) \<and> int (length (xp_sessions p)) \<le> max 0 (xc_max_sessions (xp_config p)) \<and>
     (\<forall>a i. map_of (xp_sessions p) a = Some i \<longrightarrow> i < length (xp_all p) \<and> us_peer (xp_all p ! i) = a) \<and>
     (xp_closed p \<longrightarrow> xp_sessions p = []) \<and>
     (xp_released p \<longrightarrow> xp_closed p \<and> (\<forall>i < length (xp_all p). us_forgotten (xp_all p ! i)))"

definition udp_inv :: "udp_state \<Rightarrow> bool" where
  "udp_inv = (\<lambda>(p, sp, cp, l).
     table_ok p \<and>
     (\<forall>i < length (xp_all p). session_ok (xc_max_datagram (xp_config p)) l (pending sp i) (xp_all p ! i)) \<and>
     (\<forall>j d. sp = ServeDelivering j d \<longrightarrow> j < length (xp_all p)) \<and>
     (cp \<noteq> CloseIdle \<longrightarrow> xp_closed p))"

lemma length_gm_set_new: "map_of m k = None \<Longrightarrow> length (gm_set k v m) = Suc (length m)"
  by (induction m) (auto split: if_splits)

lemma length_gm_delete: "length (gm_delete k m) \<le> length m"
  by (rule length_delete_le)

lemma udp_inv_begin: "udp_inv (udp_begin c)"
  by (simp add: udp_inv_def udp_begin_def new_udp_proxy_def table_ok_def)

lemma set_session_simps [simp]:
  "xp_config (set_session i s p) = xp_config p" "xp_sessions (set_session i s p) = xp_sessions p"
  "xp_all (set_session i s p) = (xp_all p)[i := s]" "xp_closed (set_session i s p) = xp_closed p"
  "xp_released (set_session i s p) = xp_released p" "xp_ended (set_session i s p) = xp_ended p"
  by (simp_all add: set_session_def)

text \<open>Replacing a session by one of the same peer.\<close>

lemma table_ok_set:
  assumes "table_ok p" and "us_peer s = us_peer (xp_all p ! i)" and "us_forgotten (xp_all p ! i) \<longrightarrow> us_forgotten s"
  shows "table_ok (set_session i s p)"
proof -
  have "us_peer ((xp_all p)[i := s] ! j) = us_peer (xp_all p ! j)" "us_forgotten (xp_all p ! j) \<Longrightarrow> us_forgotten ((xp_all p)[i := s] ! j)"
    if "j < length (xp_all p)" for j
    using assms(2,3) that by (cases "i = j"; simp)+
  with assms(1) show ?thesis by (auto simp: table_ok_def)
qed

lemma udp_inv_set:
  assumes "udp_inv (p, sp, cp, l)" and "i < length (xp_all p)" and "us_peer s = us_peer (xp_all p ! i)"
    and "us_forgotten (xp_all p ! i) \<longrightarrow> us_forgotten s"
    and "session_ok (xc_max_datagram (xp_config p)) l (pending sp i) s" and "cp' \<noteq> CloseIdle \<Longrightarrow> cp \<noteq> CloseIdle"
  shows "udp_inv (set_session i s p, sp, cp', l)"
  using assms table_ok_set [of p s i] by (auto simp: udp_inv_def nth_list_update)

lemma udp_inv_same:
  assumes "udp_inv (p, sp, cp, l)" and "xp_config p' = xp_config p" and "xp_sessions p' = xp_sessions p"
    and "xp_all p' = xp_all p" and "xp_closed p' = xp_closed p" and "xp_released p' = xp_released p"
    and "\<And>i. pending sp' i = pending sp i" and "\<And>j d. sp' = ServeDelivering j d \<Longrightarrow> sp = ServeDelivering j d"
  shows "udp_inv (p', sp', cp, l)"
proof -
  have "table_ok p'" using assms(1-6) by (simp add: udp_inv_def table_ok_def)
  then show ?thesis using assms by (auto simp: udp_inv_def)
qed

lemma serve_packet_idle:
  "serve_packet r x w p = (p', b) \<Longrightarrow> \<not> b \<or> r = ReadTimeout \<or> r = ReadOversized \<Longrightarrow> p' = p \<or> p' = count_oversized p"
  by (auto simp: serve_packet_def split: packet_read.splits if_splits)

lemma udp_step_inv:
  assumes "udp_step E x y" and "udp_inv x"
  shows "udp_inv y"
  using assms
proof (induction rule: udp_step.induct)
  case (serve_starts p c l)
  then show ?case by (rule udp_inv_same) (simp_all add: serve_started_def)
next
  case (serve_returns r x w p p' c l)
  have "p' = p \<or> p' = count_oversized p" using serve_packet_idle [OF serve_returns(1)] by simp
  with serve_returns(2) show ?case
    by (elim disjE) (auto simp: serve_ended_def count_oversized_def elim: udp_inv_same)
next
  case (serve_nothing r x w p p' c l)
  have "p' = p \<or> p' = count_oversized p" using serve_packet_idle [OF serve_nothing(1)] serve_nothing(2) by simp
  with serve_nothing(3) show ?case by (elim disjE) (auto simp: count_oversized_def elim: udp_inv_same)
next
  case (packet_large p d c l)
  from packet_large(2) show ?case by (rule udp_inv_same) (simp_all add: count_oversized_def)
next
  case (packet_refused d p w peer p' c l)
  have same: "p' = p \<or> p' = p\<lparr>xp_rejected := Suc (xp_rejected p)\<rparr>"
    using packet_refused(2) by (auto simp: dispatch_session_def split: if_splits option.splits)
  have "udp_inv (p', ServeReading, c, l)" using same by (elim disjE) (use packet_refused(3) in \<open>auto elim: udp_inv_same\<close>)
  then show ?case using session_ok_log by (auto simp: udp_inv_def)
next
  case (packet_taken d p w peer p' i c l)
  let ?max = "xc_max_datagram (xp_config p)"
  have tab: "table_ok p" and old: "\<And>j. j < length (xp_all p) \<Longrightarrow> session_ok ?max l [] (xp_all p ! j)"
    and cl: "c \<noteq> CloseIdle \<longrightarrow> xp_closed p"
    using packet_taken(3) by (auto simp: udp_inv_def)
  show ?case
  proof (cases "map_of (xp_sessions p) peer")
    case (Some j)
    with packet_taken(2) have "p' = p" "i = j" by (auto simp: dispatch_session_def split: if_splits)
    moreover have "j < length (xp_all p)" "us_peer (xp_all p ! j) = peer" using tab Some by (auto simp: table_ok_def)
    ultimately show ?thesis using tab old cl session_ok_log session_ok_taken by (auto simp: udp_inv_def)
  next
    case None
    with packet_taken(2) obtain k where k: "w = Some k" "\<not> xp_closed p" "int (length (xp_sessions p)) < xc_max_sessions (xp_config p)"
      and i: "i = length (xp_all p)"
      and p': "p' = p\<lparr>xp_all := xp_all p @ [new_udp_session (xp_config p) (xp_ended p) peer k],
        xp_sessions := gm_set peer (length (xp_all p)) (xp_sessions p)\<rparr>"
      by (auto simp: dispatch_session_def split: if_splits option.splits)
    have peer: "us_peer (new_udp_session (xp_config p) (xp_ended p) peer k) = peer" by (simp add: new_udp_session_def)
    have "table_ok p'"
      using tab k None peer unfolding p' by (auto simp: table_ok_def nth_append update_conv' length_gm_set_new less_Suc_eq split: if_splits)
    moreover have "session_ok ?max (l @ [(peer, d)]) (pending (ServeDelivering i d) j) (xp_all p' ! j)"
      if "j < length (xp_all p')" for j
      using that old [of j] session_ok_log session_ok_taken [OF session_ok_new peer] unfolding p' i
      by (auto simp: nth_append less_Suc_eq)
    ultimately show ?thesis using cl k(2) by (simp add: udp_inv_def p' i)
  qed
next
  case (packet_queued p i d c l)
  then have i: "i < length (xp_all p)" and ok: "session_ok (xc_max_datagram (xp_config p)) l [d] (xp_all p ! i)"
    and others: "\<And>j. j < length (xp_all p) \<Longrightarrow> j \<noteq> i \<Longrightarrow> session_ok (xc_max_datagram (xp_config p)) l [] (xp_all p ! j)"
    and tab: "table_ok p" and cl: "c \<noteq> CloseIdle \<longrightarrow> xp_closed p"
    by (auto simp: udp_inv_def split: if_splits)
  obtain s b where s: "deliver d (xp_all p ! i) = (s, b)" by fastforce
  note s' = session_ok_deliver [OF ok s]
  have "us_forgotten s = us_forgotten (xp_all p ! i)" using s by (auto simp: deliver_def split: if_splits)
  then have "table_ok (set_session i s p)" using table_ok_set [OF tab] s' by simp
  then show ?case using i s' others cl
    by (auto simp: udp_inv_def deliver_to_def s table_ok_def nth_list_update)
next
  case (session_round i p ev s c l)
  have ok: "session_ok (xc_max_datagram (xp_config p)) l (pending s i) (xp_all p ! i)"
    using session_round(1,4) by (simp add: udp_inv_def)
  note r = session_ok_round [OF ok session_round(2), of E ev]
  show ?case
    by (rule udp_inv_set [OF session_round(4,1)])
      (use r ok session_round(2) in \<open>auto simp: session_ok_def\<close>)
next
  case (reader_ends i p r s c l)
  show ?case
    by (rule udp_inv_set [OF reader_ends(4,1)]) (use reader_ends(1,4) in \<open>auto simp: udp_inv_def session_ok_def\<close>)
next
  case (session_forgotten i p s c l)
  let ?s = "(xp_all p ! i)\<lparr>us_forgotten := True\<rparr>"
  have inv: "udp_inv (set_session i ?s p, s, c, l)"
    by (rule udp_inv_set [OF session_forgotten(4,1)]) (use session_forgotten(1,2,4) in \<open>auto simp: udp_inv_def session_ok_def\<close>)
  have "table_ok (forget i (set_session i ?s p))"
    using inv length_gm_delete [of "us_peer (xp_all p ! i)" "xp_sessions p"] session_forgotten(1)
    by (auto simp: udp_inv_def table_ok_def forget_def Let_def delete_conv' split: if_splits)
  then show ?case using inv by (auto simp: udp_inv_def forget_def Let_def)
next
  case (suspended p s c l)
  then show ?case by (rule udp_inv_same) (simp_all add: suspend_def)
next
  case (close_starts p p' "is" s l)
  then show ?case by (auto simp: udp_inv_def close_begin_def table_ok_def)
next
  case (close_one p s i "is" l)
  show ?case
  proof (cases "i < length (xp_all p)")
    case True
    show ?thesis
      by (rule udp_inv_set [OF close_one True]) (use close_one True in \<open>auto simp: udp_inv_def session_close_def session_ok_def\<close>)
  next
    case False
    then have "set_session i (session_close (xp_all p ! i)) p = p" by (simp add: set_session_def list_update_beyond)
    with close_one show ?thesis by (simp add: udp_inv_def)
  qed
next
  case (close_waits p s l)
  then show ?case by (simp add: udp_inv_def)
next
  case (close_returns p s l)
  then have "table_ok (p\<lparr>xp_released := True\<rparr>)" by (auto simp: udp_inv_def table_ok_def)
  with close_returns(2) show ?case by (simp add: udp_inv_def)
qed

subsection \<open>Reachable states\<close>

definition udp_reach :: "udp_env \<Rightarrow> udp_proxy_config \<Rightarrow> udp_state \<Rightarrow> bool" where
  "udp_reach E c = (udp_step E)\<^sup>*\<^sup>* (udp_begin c)"

lemma udp_reach_begin: "udp_reach E c (udp_begin c)"
  by (simp add: udp_reach_def)

lemma udp_reach_step: "udp_reach E c x \<Longrightarrow> udp_step E x y \<Longrightarrow> udp_reach E c y"
  by (simp add: udp_reach_def rtranclp.rtrancl_into_rtrancl)

lemma udp_reach_induct [consumes 1, case_names init step]:
  assumes "udp_reach E c x" and "P (udp_begin c)"
    and "\<And>x y. udp_reach E c x \<Longrightarrow> P x \<Longrightarrow> udp_step E x y \<Longrightarrow> P y"
  shows "P x"
  using assms(1) unfolding udp_reach_def
  by (induction rule: rtranclp_induct) (use assms(2,3) in \<open>auto simp: udp_reach_def\<close>)

lemma udp_reach_inv: "udp_reach E c x \<Longrightarrow> udp_inv x"
  by (induction rule: udp_reach_induct) (auto simp: udp_inv_begin udp_step_inv)

text \<open>The configuration stays, and a session belongs to a call of the service loop that began.\<close>

definition contexts_ok :: "udp_proxy \<Rightarrow> bool" where
  "contexts_ok p \<longleftrightarrow> (\<forall>s \<in> set (xp_all p). us_context s \<le> xp_ended p)"

lemma contexts_ok_set: "contexts_ok p \<Longrightarrow> us_context s \<le> xp_ended p \<Longrightarrow> contexts_ok (set_session i s p)"
  using set_update_subset_insert [of "xp_all p" i s] by (auto simp: contexts_ok_def)

lemma contexts_ok_nth: "contexts_ok p \<Longrightarrow> i < length (xp_all p) \<Longrightarrow> us_context (xp_all p ! i) \<le> xp_ended p"
  by (simp add: contexts_ok_def)

lemma same_context:
  "us_context (serve_round E ev s) = us_context s" "us_context (session_close s) = us_context s"
  "us_context (fst (deliver d s)) = us_context s"
  by (auto simp: serve_round_def session_end_def session_close_def deliver_def Let_def split: session_event.split list.split)

lemma dispatch_session_keeps:
  "dispatch_session w peer p = (p', r) \<Longrightarrow> xp_config p' = xp_config p \<and> (contexts_ok p \<longrightarrow> contexts_ok p')"
  by (auto simp: dispatch_session_def contexts_ok_def new_udp_session_def split: if_splits option.splits)

lemma udp_step_keeps:
  assumes "udp_step E (p, sp, cp, l) (p', sp', cp', l')" and "contexts_ok p" and "udp_inv (p, sp, cp, l)"
  shows "xp_config p' = xp_config p \<and> contexts_ok p'"
  using assms
proof (cases rule: udp_step.cases)
  case (serve_returns r x w q)
  have "q = p \<or> q = count_oversized p" using serve_packet_idle [OF serve_returns(6)] by simp
  with serve_returns(2) assms(2) show ?thesis by (auto simp: serve_ended_def count_oversized_def contexts_ok_def intro: le_SucI)
next
  case (serve_nothing r x w)
  have "p' = p \<or> p' = count_oversized p" using serve_packet_idle [OF serve_nothing(5)] serve_nothing(6) by simp
  with assms(2) show ?thesis by (auto simp: count_oversized_def contexts_ok_def)
next
  case (packet_queued i d)
  then have "i < length (xp_all p)" using assms(3) by (simp add: udp_inv_def)
  then have "us_context (fst (deliver d (xp_all p ! i))) \<le> xp_ended p" using assms(2) by (simp add: same_context contexts_ok_nth)
  with contexts_ok_set [OF assms(2) this] packet_queued(2) show ?thesis
    by (auto simp: deliver_to_def contexts_ok_def split: prod.splits)
next
  case (close_one i "is")
  show ?thesis
  proof (cases "i < length (xp_all p)")
    case True
    with close_one assms(2) show ?thesis by (auto intro!: contexts_ok_set simp: same_context contexts_ok_nth)
  next
    case False
    with close_one assms(2) show ?thesis by (simp add: set_session_def list_update_beyond)
  qed
next
  case (session_round i ev)
  then have "contexts_ok (set_session i (serve_round E ev (xp_all p ! i)) p)"
    using assms(2) by (intro contexts_ok_set) (simp_all add: same_context contexts_ok_nth)
  with session_round show ?thesis by simp
next
  case (reader_ends i r)
  then have "contexts_ok (set_session i ((xp_all p ! i)\<lparr>us_reader := r\<rparr>) p)"
    using assms(2) by (intro contexts_ok_set) (simp_all add: contexts_ok_nth)
  with reader_ends show ?thesis by simp
next
  case (session_forgotten i)
  then have "contexts_ok (set_session i ((xp_all p ! i)\<lparr>us_forgotten := True\<rparr>) p)"
    using assms(2) by (intro contexts_ok_set) (simp_all add: contexts_ok_nth)
  with session_forgotten show ?thesis by (auto simp: contexts_ok_def forget_def Let_def)
qed (auto simp: serve_started_def count_oversized_def contexts_ok_def suspend_def close_begin_def
    dest!: dispatch_session_keeps)

lemma udp_reach_keeps: "udp_reach E c (p, sp, cp, l) \<Longrightarrow> xp_config p = c \<and> contexts_ok p"
proof (induction "(p, sp, cp, l)" arbitrary: p sp cp l rule: udp_reach_induct)
  case init
  then show ?case by (auto simp: udp_begin_def new_udp_proxy_def contexts_ok_def)
next
  case (step x)
  obtain q sq cq k where x: "x = (q, sq, cq, k)" by (cases x) auto
  with step udp_step_keeps [of E q sq cq k p sp cp l] udp_reach_inv [of E c x] show ?case by simp
qed

lemma reach_session_ok:
  assumes "udp_reach E c (p, sp, cp, l)" and "s \<in> set (xp_all p)"
  shows "\<exists>pend. session_ok (xc_max_datagram c) l pend s"
  using udp_reach_inv [OF assms(1)] udp_reach_keeps [OF assms(1)] assms(2)
  by (auto simp: udp_inv_def in_set_conv_nth)

end
