(* ===== verification/Udp_Relay.thy ===== *)
theory Udp_Relay
  imports Udp_Session
begin

section \<open>Laws of the datagram loops\<close>

subsection \<open>They end\<close>

text \<open>A loop that reads a frame in every round ends when the bytes of the connection do.\<close>

lemma read_responses_v1_returns: "\<exists>r. read_responses_v1 E send s rd st = Some r"
proof (induction "length (st_data (so_stream (v1r_source rd)))" arbitrary: rd st rule: less_induct)
  case less
  obtain rd' p r where rd: "v1_read_frame sock_read_full rd None = (rd', p, r)" by (metis prod_cases3)
  have "\<exists>r. read_responses_v1 E send s rd' st' = Some r" if "r = Inr f" for f st'
    using full_sock.v1_read_frame_left(1) rd that by (intro less) auto
  then show ?case by (subst read_responses_v1.simps) (auto simp: rd split: sum.split option.split prod.split)
qed

lemma read_responses_v2_returns: "\<exists>r. read_responses_v2 E send s rd st = Some r"
proof (induction "length (st_data (so_stream (v2r_source rd)))" arbitrary: rd st rule: less_induct)
  case less
  obtain rd' p r where rd: "v2_read_frame sock_read_full rd None = (rd', p, r)" by (metis prod_cases3)
  have "\<exists>r. read_responses_v2 E send s rd' st' = Some r" if "r = Inr f" for f st'
    using full_sock.v2_read_frame_left rd that by (intro less) auto
  then show ?case by (subst read_responses_v2.simps) (auto simp: rd split: sum.split option.split prod.split)
qed

lemma read_responses_returns: "\<exists>r. read_responses E send s work st = Some r"
  unfolding read_responses_def by (rule if_split [THEN iffD2]) (blast intro: read_responses_v1_returns read_responses_v2_returns)

lemma serve_udp_client_returns: "\<exists>t'. serve_udp_client unmarshal send rd t = Some t'"
proof (induction "length (st_data (so_stream (v1r_source rd)))" arbitrary: rd t rule: less_induct)
  case less
  obtain rd' p r where rd: "v1_read_frame sock_read_full rd None = (rd', p, r)" by (metis prod_cases3)
  have "\<exists>r. serve_udp_client unmarshal send rd' t' = Some r" if "r = Inr f" for f t'
    using full_sock.v1_read_frame_left(1) rd that by (intro less) auto
  then show ?case by (subst serve_udp_client.simps) (auto simp: rd split: sum.split option.split prod.split)
qed

subsection \<open>Both directions\<close>

text \<open>A connection that takes every byte, and the frames of a list of datagrams on it.\<close>

definition count_sink :: "bytes count_write" where
  "count_sink w bs = (w @ bs, length bs, None)"

definition relay_wire :: "bytes list \<Rightarrow> bytes" where
  "relay_wire ds = v1_wire udpDatagramFrameLimit (map datagram_frame ds)"

definition relayed :: "(bytes \<Rightarrow> bytes option) \<Rightarrow> bytes \<Rightarrow> bool" where
  "relayed unmarshal d \<longleftrightarrow> length d \<le> 65507 \<and> unmarshal (datagram_body d) = Some (b64_encode d)"

lemma relay_wire_Nil [simp]: "relay_wire [] = []"
  by (simp add: relay_wire_def v1_wire_def)

lemma relay_encoded: "length d \<le> 65507 \<Longrightarrow> encode_datagram d = Inr raw \<Longrightarrow> relay_wire (d # ds) = raw @ relay_wire ds"
  by (simp add: relay_wire_def v1_wire_def encode_datagram_def datagram_frame_def)

lemma frame_written: "write_datagram_frame count_sink w raw = (w @ raw, None)"
  by (simp add: write_datagram_frame_def count_sink_def)

text \<open>One frame that is on the connection.\<close>

lemma relay_read:
  assumes "length d \<le> 65507" and "st_data (so_stream s) = relay_wire (d # ds)"
  obtains s' where
    "v1_read_frame sock_read_full (sock_reader udpDatagramFrameLimit s) None =
      (sock_reader udpDatagramFrameLimit s', None, Inr (datagram_frame d))"
    and "st_data (so_stream s') = relay_wire ds"
proof -
  obtain raw where raw: "encode_datagram d = Inr raw" using datagram_encoded [OF assms(1)] by blast
  have "encode_v1_frame_with_limit (datagram_frame d) udpDatagramFrameLimit = Inr raw"
    using raw by (simp add: encode_datagram_def datagram_frame_def)
  moreover have "udpDatagramFrameLimit < 2 ^ 63" by (simp add: udpDatagramFrameLimit_def)
  moreover have "st_data (so_stream s) = raw @ relay_wire ds" using assms(2) relay_encoded [OF assms(1) raw] by simp
  ultimately obtain s' where
    "v1_read_frame sock_read_full (sock_reader udpDatagramFrameLimit s) None =
      (sock_reader udpDatagramFrameLimit s', None, Inr (datagram_frame d))"
    "so_stream s' = (so_stream s)\<lparr>st_data := relay_wire ds\<rparr>"
    using sock_reads_frame [OF _ datagram_sendable [OF assms(1)]] by blast
  with that show thesis by simp
qed

lemma relay_read_end:
  assumes "st_data (so_stream s) = []"
  obtains rd p e where "v1_read_frame sock_read_full (sock_reader limit s) None = (rd, p, Inl e)"
proof -
  obtain rd p r where rd: "v1_read_frame sock_read_full (sock_reader limit s) None = (rd, p, r)" by (metis prod_cases3)
  have "\<not> (\<exists>f. r = Inr f)" using full_sock.v1_read_frame_left(1) rd assms by (fastforce simp: sock_reader_def)
  with that rd show thesis by (cases r) auto
qed

text \<open>Down: the session writes what it sends, the client hands it to its target in the same order.\<close>

lemma session_writes:
  assumes "\<not> us_official s" and "\<And>d. d \<in> set ds \<Longrightarrow> length d \<le> 65507"
  shows "fold (\<lambda>d w. fst (send_datagram E count_sink s d w)) ds w = w @ relay_wire ds"
  using assms(2)
proof (induction ds arbitrary: w)
  case (Cons d ds)
  have d: "length d \<le> 65507" using Cons(2) by simp
  then obtain raw where raw: "encode_datagram d = Inr raw" using datagram_encoded by blast
  have "fst (send_datagram E count_sink s d w) = w @ raw"
    using raw assms(1) by (simp add: send_datagram_def session_frame_def frame_written)
  with Cons show ?case by (simp add: relay_encoded [OF d raw])
qed simp

lemma client_serves:
  assumes "\<And>d. d \<in> set ds \<Longrightarrow> relayed unmarshal d" and "st_data (so_stream sock) = relay_wire ds"
  shows "serve_udp_client unmarshal (\<lambda>t d. (t @ [d], True)) (sock_reader udpDatagramFrameLimit sock) t = Some (t @ ds)"
  using assms
proof (induction ds arbitrary: sock t)
  case Nil
  then have "st_data (so_stream sock) = []" by simp
  from relay_read_end [OF this] obtain rd p e where
    "v1_read_frame sock_read_full (sock_reader udpDatagramFrameLimit sock) None = (rd, p, Inl e)" .
  then show ?case by (subst serve_udp_client.simps) simp
next
  case (Cons d ds)
  have d: "relayed unmarshal d" using Cons(2) by simp
  from relay_read [OF _ Cons(3)] d obtain s' where
    rd: "v1_read_frame sock_read_full (sock_reader udpDatagramFrameLimit sock) None =
      (sock_reader udpDatagramFrameLimit s', None, Inr (datagram_frame d))"
    and left: "st_data (so_stream s') = relay_wire ds"
    unfolding relayed_def by blast
  have "serve_udp_client unmarshal (\<lambda>t d. (t @ [d], True)) (sock_reader udpDatagramFrameLimit s') (t @ [d]) = Some ((t @ [d]) @ ds)"
    by (rule Cons(1)) (use Cons(2) left in auto)
  then show ?case
    using d by (subst serve_udp_client.simps) (simp add: rd relayed_def datagram_decoded)
qed

text \<open>Up: the client writes what its target sends, the session hands it to the peer in the same order.\<close>

lemma client_writes:
  assumes "\<And>d. d \<in> set ds \<Longrightarrow> length d \<le> 65507"
  shows "read_udp_responses count_sink w ds e = (w @ relay_wire ds, e)"
  using assms
proof (induction ds arbitrary: w)
  case (Cons d ds)
  have d: "length d \<le> 65507" using Cons(2) by simp
  then obtain raw where raw: "encode_datagram d = Inr raw" using datagram_encoded by blast
  with Cons show ?case by (simp add: relay_encoded [OF d raw] frame_written)
qed simp

lemma session_hands_up:
  assumes "\<not> us_official s" and "\<And>d. d \<in> set ds \<Longrightarrow> relayed (uv_unmarshal E) d \<and> int (length d) \<le> us_max s"
    and "st_data (so_stream sock) = relay_wire ds"
  shows "\<exists>e. read_responses E (\<lambda>t a d. (t @ [(a, d)], True)) s sock (t, n) =
    Some ((t @ map (Pair (us_peer s)) ds, n), Some (ReportRead e))"
  using assms(2,3)
proof (induction ds arbitrary: sock t)
  case Nil
  then have "st_data (so_stream sock) = []" by simp
  from relay_read_end [OF this] obtain rd p e where
    "v1_read_frame sock_read_full (sock_reader udpDatagramFrameLimit sock) None = (rd, p, Inl e)" .
  then show ?case using assms(1) by (simp add: read_responses_def) (subst read_responses_v1.simps, simp)
next
  case (Cons d ds)
  have d: "relayed (uv_unmarshal E) d" "\<not> us_max s < int (length d)" using Cons(2) by (simp_all add: not_less)
  from relay_read [OF _ Cons(3)] d(1) obtain s' where
    rd: "v1_read_frame sock_read_full (sock_reader udpDatagramFrameLimit sock) None =
      (sock_reader udpDatagramFrameLimit s', None, Inr (datagram_frame d))"
    and left: "st_data (so_stream s') = relay_wire ds"
    unfolding relayed_def by blast
  obtain e where "read_responses E (\<lambda>t a d. (t @ [(a, d)], True)) s s' (t @ [(us_peer s, d)], n) =
      Some (((t @ [(us_peer s, d)]) @ map (Pair (us_peer s)) ds, n), Some (ReportRead e))"
    using Cons(1) [of s' "t @ [(us_peer s, d)]"] Cons(2) left by auto
  then have "read_responses E (\<lambda>t a d. (t @ [(a, d)], True)) s sock (t, n) =
      Some ((t @ map (Pair (us_peer s)) (d # ds), n), Some (ReportRead e))"
    using assms(1) d
    by (simp add: read_responses_def)
      (subst read_responses_v1.simps, simp add: rd response_v1_def relayed_def datagram_decoded deliver_response_def)
  then show ?case ..
qed

end
