(* ===== verification/Udp_Properties.thy ===== *)
theory Udp_Properties
  imports Udp_Laws Udp_Relay
begin

section \<open>Properties of the UDP relay\<close>

subsection \<open>A run of an entry\<close>

text \<open>An entry for one peer: a datagram arrives, a session is made for it, and sends it.\<close>

definition sample_udp_config :: udp_proxy_config where
  "sample_udp_config = \<lparr>xc_idle = 60, xc_max_sessions = 1, xc_max_datagram = 1500, xc_official = False, xc_wire = VersionV1\<rparr>"

text \<open>The field of an own datagram.\<close>

definition sample_field :: "bytes \<Rightarrow> bytes option" where
  "sample_field bs = Some (take (length bs - 11) (drop 9 bs))"

definition sample_udp_env :: udp_env where
  "sample_udp_env = \<lparr>uv_unmarshal = sample_field, uv_marshal_official = (\<lambda>_. None), uv_unmarshal_official = (\<lambda>_. None),
     uv_show = (\<lambda>_. []), uv_parse = (\<lambda>_. None)\<rparr>"

lemma sample_field_body: "sample_field (datagram_body d) = Some (b64_encode d)"
  by (simp add: sample_field_def datagram_body_def)

definition udp_serving :: udp_state where
  "udp_serving = (serve_started (new_udp_proxy sample_udp_config), ServeReading, CloseIdle, [])"

definition udp_delivering :: udp_state where
  "udp_delivering = (fst (dispatch_session (Some 7) zero_addr_port (fst udp_serving)), ServeDelivering 0 [1, 2], CloseIdle,
     [(zero_addr_port, [1, 2])])"

definition udp_queued :: udp_state where
  "udp_queued = (deliver_to 0 [1, 2] (fst udp_delivering), ServeReading, CloseIdle, [(zero_addr_port, [1, 2])])"

definition udp_sent :: udp_state where
  "udp_sent = (set_session 0 (serve_round sample_udp_env (EvInbound True) (xp_all (fst udp_queued) ! 0)) (fst udp_queued),
     ServeReading, CloseIdle, [(zero_addr_port, [1, 2])])"

lemma udp_sent_facts:
  "length (xp_all (fst udp_sent)) = 1" "us_sent (xp_all (fst udp_sent) ! 0) = [[1, 2]]" "us_serving (xp_all (fst udp_sent) ! 0)"
  "\<not> us_official (xp_all (fst udp_sent) ! 0)" "us_peer (xp_all (fst udp_sent) ! 0) = zero_addr_port"
  "map_of (xp_sessions (fst udp_sent)) zero_addr_port = Some 0" "\<not> xp_closed (fst udp_sent)"
  by code_simp+

lemma udp_sent_step1: "udp_step sample_udp_env (udp_begin sample_udp_config) udp_serving"
  unfolding udp_begin_def udp_serving_def by (rule udp_step.serve_starts)

lemma udp_sent_step2: "udp_step sample_udp_env udp_serving udp_delivering"
proof -
  have "dispatch_session (Some 7) zero_addr_port (fst udp_serving) = (fst udp_delivering, Some 0)" by code_simp
  moreover have "int (length [1 :: byte, 2]) \<le> xc_max_datagram (xp_config (fst udp_serving))" by code_simp
  ultimately show ?thesis
    using udp_step.packet_taken [of "[1, 2]" "fst udp_serving" "Some 7" zero_addr_port "fst udp_delivering" 0 sample_udp_env CloseIdle "[]"]
    by (simp add: udp_serving_def udp_delivering_def)
qed

lemma udp_sent_step3: "udp_step sample_udp_env udp_delivering udp_queued"
  using udp_step.packet_queued [of sample_udp_env "fst udp_delivering" 0 "[1, 2]" CloseIdle "[(zero_addr_port, [1, 2])]"]
  by (simp add: udp_delivering_def udp_queued_def)

lemma udp_sent_step4: "udp_step sample_udp_env udp_queued udp_sent"
proof -
  have "0 < length (xp_all (fst udp_queued))" "us_serving (xp_all (fst udp_queued) ! 0)"
    "event_enabled (EvInbound True) (xp_all (fst udp_queued) ! 0) (fst udp_queued)" by code_simp+
  from udp_step.session_round [OF this, of sample_udp_env ServeReading CloseIdle "[(zero_addr_port, [1, 2])]"]
  show ?thesis by (simp add: udp_queued_def udp_sent_def)
qed

lemma udp_sent_reach: "udp_reach sample_udp_env sample_udp_config udp_sent"
  by (meson udp_reach_begin udp_reach_step udp_sent_step1 udp_sent_step2 udp_sent_step3 udp_sent_step4)

lemma udp_sent_split: "udp_sent = (fst udp_sent, ServeReading, CloseIdle, [(zero_addr_port, [1, 2])])"
  by (simp add: udp_sent_def)

lemma udp_sent_reached:
  "udp_reach sample_udp_env sample_udp_config (fst udp_sent, ServeReading, CloseIdle, [(zero_addr_port, [1, 2])])"
  using udp_sent_reach udp_sent_split by simp

subsection \<open>The relay\<close>

text \<open>C8: whatever other peers do and however the entry's goroutines are interleaved, the client hands its
  local target exactly what the session of a peer has sent, and that is a selection of the datagrams
  of this peer, in their order: datagrams may be lost, but never altered, reordered, duplicated or
  given to the session of another peer.\<close>

theorem peer_datagrams_arrive:
  assumes "udp_reach E c (p, sp, cp, l)" and "i < length (xp_all p)" and "\<not> us_official (xp_all p ! i)"
    and "\<And>a d. (a, d) \<in> set l \<Longrightarrow> relayed unmarshal d"
    and "st_data (so_stream sock) =
      fold (\<lambda>d w. fst (send_datagram E count_sink (xp_all p ! i) d w)) (us_sent (xp_all p ! i)) []"
  shows "serve_udp_client unmarshal (\<lambda>t d. (t @ [d], True)) (sock_reader udpDatagramFrameLimit sock) t =
      Some (t @ us_sent (xp_all p ! i)) \<and>
    subseq (us_sent (xp_all p ! i)) (from_peer (us_peer (xp_all p ! i)) l)"
proof -
  obtain pend where "session_ok (xc_max_datagram c) l pend (xp_all p ! i)"
    using reach_session_ok [OF assms(1) nth_mem [OF assms(2)]] by blast
  then have sub: "subseq (us_sent (xp_all p ! i)) (from_peer (us_peer (xp_all p ! i)) l)"
    using subseq_less [of "us_sent (xp_all p ! i)" "[]" "us_inbound (xp_all p ! i) @ pend"] by (simp add: session_ok_def)
  have ok: "relayed unmarshal d" if "d \<in> set (us_sent (xp_all p ! i))" for d
  proof -
    from list_emb_set [OF sub that] have "d \<in> set (from_peer (us_peer (xp_all p ! i)) l)" by blast
    then obtain a where "(a, d) \<in> set l" by (auto simp: from_peer_def)
    then show ?thesis by (rule assms(4))
  qed
  have "st_data (so_stream sock) = relay_wire (us_sent (xp_all p ! i))"
    using assms(5) session_writes [OF assms(3), of "us_sent (xp_all p ! i)" E "[]"] ok by (simp add: relayed_def)
  then have "serve_udp_client unmarshal (\<lambda>t d. (t @ [d], True)) (sock_reader udpDatagramFrameLimit sock) t =
      Some (t @ us_sent (xp_all p ! i))"
    by (intro client_serves) (rule ok)
  with sub show ?thesis by blast
qed

lemma sample_relayed: "relayed sample_field [1, 2]"
  by (simp add: relayed_def sample_field_body)

text \<open>The frames of the sample's only datagram.\<close>

definition sample_relay_socket :: "udp_session \<Rightarrow> socket" where
  "sample_relay_socket s =
     \<lparr>so_stream = \<lparr>st_data = fold (\<lambda>d w. fst (send_datagram sample_udp_env count_sink s d w)) (us_sent s) [], st_end = IO_EOF\<rparr>, so_chunks = [3, 1]\<rparr>"

theorem peer_datagrams_arrive_witness:
  "serve_udp_client sample_field (\<lambda>t d. (t @ [d], True))
      (sock_reader udpDatagramFrameLimit (sample_relay_socket (xp_all (fst udp_sent) ! 0))) [] = Some [[1, 2]] \<and>
    subseq [[1, 2]] (from_peer zero_addr_port [(zero_addr_port, [1, 2])])"
  using peer_datagrams_arrive [OF udp_sent_reached, of 0 sample_field "sample_relay_socket (xp_all (fst udp_sent) ! 0)" "[]"]
    sample_relayed
  by (simp add: udp_sent_facts sample_relay_socket_def)



text \<open>C25: an entry never keeps more sessions than configured, one for each peer address; a session never queues
  more than sixteen datagrams, none larger than configured.\<close>

theorem udp_entry_bounded:
  assumes "udp_reach E c (p, sp, cp, l)"
  shows "int (length (xp_sessions p)) \<le> max 0 (xc_max_sessions c) \<and> distinct (map fst (xp_sessions p)) \<and>
    (\<forall>a j. map_of (xp_sessions p) a = Some j \<longrightarrow> j < length (xp_all p) \<and> us_peer (xp_all p ! j) = a) \<and>
    (\<forall>s \<in> set (xp_all p). length (us_inbound s) \<le> 16 \<and> (\<forall>d \<in> set (us_inbound s). int (length d) \<le> xc_max_datagram c))"
proof -
  have tab: "table_ok p" "xp_config p = c" using udp_reach_inv [OF assms] udp_reach_keeps [OF assms] by (simp_all add: udp_inv_def)
  moreover have "\<forall>s \<in> set (xp_all p). length (us_inbound s) \<le> 16 \<and> (\<forall>d \<in> set (us_inbound s). int (length d) \<le> xc_max_datagram c)"
    using reach_session_ok [OF assms] by (fastforce simp: session_ok_def inboundQueueSize_def)
  ultimately show ?thesis by (simp add: table_ok_def gm_ok_def)
qed

theorem udp_entry_bounded_witness:
  "length (xp_sessions (fst udp_sent)) \<le> 1 \<and> us_peer (xp_all (fst udp_sent) ! 0) = zero_addr_port"
  using udp_entry_bounded [OF udp_sent_reached] udp_sent_facts(6)
  by (auto simp: sample_udp_config_def)

text \<open>C32: when \<open>Close\<close> has returned, the entry has no session left: none serves, each has given its work connection
  back, and a datagram that still arrives is not taken. (Close itself may wait for the idle time of a session.)\<close>

theorem closed_entry_released:
  assumes "udp_reach E c (p, sp, cp, l)" and "xp_released p"
  shows "xp_sessions p = [] \<and> (\<forall>s \<in> set (xp_all p). \<not> us_serving s \<and> us_work_closed s \<and> us_done s) \<and>
    dispatch w a d p = p"
proof -
  have tab: "table_ok p" using udp_reach_inv [OF assms(1)] by (simp add: udp_inv_def)
  have closed: "xp_closed p" "xp_sessions p = []" using tab assms(2) by (simp_all add: table_ok_def)
  have "\<forall>s \<in> set (xp_all p). us_forgotten s" using tab assms(2) by (auto simp: table_ok_def in_set_conv_nth)
  then have "\<forall>s \<in> set (xp_all p). \<not> us_serving s \<and> us_work_closed s \<and> us_done s"
    using reach_session_ok [OF assms(1)] by (fastforce simp: session_ok_def)
  with closed show ?thesis by (simp add: dispatch_def dispatch_session_def)
qed

text \<open>The sample entry closed: its session is closed, ends, is forgotten, and \<open>Close\<close> returns.\<close>

definition udp_gone :: udp_proxy where
  "udp_gone = (let p0 = fst (close_begin (fst udp_sent));
      p1 = set_session 0 (session_close (xp_all p0 ! 0)) p0;
      p2 = set_session 0 (serve_round sample_udp_env EvIdle (xp_all p1 ! 0)) p1;
      p3 = forget 0 (set_session 0 ((xp_all p2 ! 0)\<lparr>us_forgotten := True\<rparr>) p2)
    in p3\<lparr>xp_released := True\<rparr>)"

lemma udp_gone_reach:
  "udp_reach sample_udp_env sample_udp_config (udp_gone, ServeReading, CloseIdle, [(zero_addr_port, [1, 2])])"
proof -
  let ?l = "[(zero_addr_port, [1 :: byte, 2])]"
  define p0 where "p0 = fst (close_begin (fst udp_sent))"
  define p1 where "p1 = set_session 0 (session_close (xp_all p0 ! 0)) p0"
  define p2 where "p2 = set_session 0 (serve_round sample_udp_env EvIdle (xp_all p1 ! 0)) p1"
  define p3 where "p3 = forget 0 (set_session 0 ((xp_all p2 ! 0)\<lparr>us_forgotten := True\<rparr>) p2)"
  note defs = p0_def p1_def p2_def p3_def
  have facts: "close_begin (fst udp_sent) = (p0, [0])" "length (xp_all p1) = 1" "us_serving (xp_all p1 ! 0)"
    "length (xp_all p2) = 1" "\<not> us_serving (xp_all p2 ! 0)" "\<not> us_forgotten (xp_all p2 ! 0)"
    "length (xp_all p3) = 1" "us_forgotten (xp_all p3 ! 0)"
    unfolding defs by code_simp+
  have s1: "udp_step sample_udp_env udp_sent (p0, ServeReading, CloseSessions [0], ?l)"
    using udp_step.close_starts [OF udp_sent_facts(7) facts(1)] udp_sent_split by metis
  have s2: "udp_step sample_udp_env (p0, ServeReading, CloseSessions [0], ?l) (p1, ServeReading, CloseSessions [], ?l)"
    unfolding p1_def by (rule udp_step.close_one)
  have s3: "udp_step sample_udp_env (p1, ServeReading, CloseSessions [], ?l) (p1, ServeReading, CloseWaiting, ?l)"
    by (rule udp_step.close_waits)
  have s4: "udp_step sample_udp_env (p1, ServeReading, CloseWaiting, ?l) (p2, ServeReading, CloseWaiting, ?l)"
    unfolding p2_def by (rule udp_step.session_round) (simp_all add: facts event_enabled_def)
  have s5: "udp_step sample_udp_env (p2, ServeReading, CloseWaiting, ?l) (p3, ServeReading, CloseWaiting, ?l)"
    unfolding p3_def by (rule udp_step.session_forgotten) (simp_all add: facts)
  have s6: "udp_step sample_udp_env (p3, ServeReading, CloseWaiting, ?l) (p3\<lparr>xp_released := True\<rparr>, ServeReading, CloseIdle, ?l)"
    by (rule udp_step.close_returns) (simp add: facts)
  note r = udp_reach_step [OF udp_reach_step [OF udp_reach_step [OF udp_sent_reach s1] s2] s3]
  have "udp_gone = p3\<lparr>xp_released := True\<rparr>" by (simp only: udp_gone_def Let_def defs)
  with udp_reach_step [OF udp_reach_step [OF udp_reach_step [OF r s4] s5] s6] show ?thesis by simp
qed

theorem closed_entry_released_witness:
  "xp_sessions udp_gone = [] \<and> filter us_serving (xp_all udp_gone) = [] \<and>
    dispatch (Some 8) zero_addr_port [3] udp_gone = udp_gone"
proof -
  have "xp_released udp_gone" by (simp add: udp_gone_def Let_def)
  from closed_entry_released [OF udp_gone_reach this] show ?thesis by (simp add: filter_empty_conv)
qed



text \<open>C28: the loops of both ends return: the reader of a session and the client's service of a work connection end
  with the bytes of the connection, in either form and on either wire, whatever arrives.\<close>

theorem datagram_loops_end:
  "(\<exists>port report. read_responses E send s work st = Some (port, report)) \<and>
   (\<exists>t'. serve_udp_client unmarshal target rd t = Some t')"
  using read_responses_returns [of E send s work st] serve_udp_client_returns by fastforce

end
