(* ===== verification/Spec2Isabelle.thy ===== *)
theory Spec2Isabelle
  imports Wire_Properties Core_Properties Server_Properties Admission_Properties Engine_Properties Runtime_Properties
    Client_Properties Control_Properties Udp_Properties
begin

text \<open>
  A model of the core library of jrp, the reverse proxy that speaks the protocol of frp, with the
  theorems that make it correct. All file names are below \<open>src/\<close>.

  THE PROGRAM. A client (\<open>core/client\<close>) keeps a control connection to the server
  (\<open>core/server\<close>). Guests connect to the entries of the server; each guest is paired with a work
  connection the client opens on request, and the bytes are copied both ways. Control and work
  connections speak wire v1 or v2 (\<open>core/internal/wire\<close>); the configuration of both sides is a
  value built by \<open>core/config.go\<close> and checked by \<open>core/validate.go\<close>; a server applies a new
  configuration as a new generation of entries without closing what did not change
  (\<open>core/server/apply.go\<close>); hosts observe it through subscriptions (\<open>core/event.go\<close>).

  THE THEORIES, in the order of imports.
  \<^item> Prelude: bytes, big-endian integers, generic lemmas. Go_Map: a Go map as an association list
    with distinct keys, with the laws of reading, writing and deleting.
  \<^item> Buffer_Pool, Wire_Base (\<open>wire/pool.go\<close>, \<open>errors.go\<close>, \<open>message.go\<close>): the pool with the ownership
    of its buffers, error categories and stages, message types, frames.
  \<^item> Json_Scan, Wire_V1, Wire_V2 (\<open>wire/v1.go\<close>, \<open>v2.go\<close>): encoders, decoders and readers of frames;
    Json_Scan is the scanner behind the test that a v1 payload is a JSON object.
  \<^item> Wire_Peek (\<open>wire/detect.go\<close>): the reader that replays what the version detection has read.
  \<^item> Wire_Crypto, Wire_Aead (\<open>wire/crypto_v1.go\<close>, \<open>crypto_v2.go\<close>): the CFB stream of v1 and the
    framed AEAD channel of v2.
  \<^item> Wire_Negotiate (\<open>wire/negotiate.go\<close>, \<open>transform.go\<close>), Wire_Guard (\<open>wire/guard.go\<close>, \<open>peer.go\<close>):
    negotiation, and the guard of one connection: version detection and lock, frame reading, cipher
    switches, one close event. Guard_Laws: its methods as a step relation, the invariant, sessions.
  \<^item> Core_Config, Core_Validate, Config_Laws (\<open>core/enum.go\<close>, \<open>config.go\<close>, \<open>limits.go\<close>, \<open>error.go\<close>,
    \<open>build.go\<close>, \<open>validate.go\<close>): configurations, builders, validators with their lists of problems; a
    declarative notion of a well-formed configuration.
  \<^item> Event_Hub (\<open>core/event.go\<close>, \<open>core/apply.go\<close>): bounded subscriptions and the hub, apply results.
  \<^item> Work_Pool, Work_Staging, Work_Broker, Broker_Laws (\<open>transport/pool.go\<close>, \<open>staged.go\<close>,
    \<open>server/work.go\<close>): connection slots, idle work connections, waiting guests; histories of
    operations with a log of where each connection went. Server_Pairing: pairing and bridges.
  \<^item> Http_Router, Http_Request, Proxy_Registry (\<open>proxy/http.go\<close>, \<open>proxy/registry.go\<close>, parts of
    \<open>server/engine.go\<close>): routes, the head of a request, who owns a proxy and its targets.
  \<^item> Server_Sessions, Server_Login, Server_Work (\<open>server/engine.go\<close>, \<open>server/login.go\<close>): tables of
    control connections, login and its chain of checks, the handlers of work connections and
    guests.
  \<^item> Server_Generation, Server_Engine, Server_Apply, Apply_Laws (\<open>server/engine.go\<close>,
    \<open>server/apply.go\<close>, \<open>server/events.go\<close>): opening and taking over entries, the engine's record, its
    life cycle, and the application of a configuration.
  \<^item> Runtime_Proxy, Runtime_Laws (\<open>server/runtime_proxy.go\<close>): proxies that a client registers over
    its control connection. Server_Lifecycle: start, application and shutdown of different
    goroutines interleaved at the engine's lock.
  \<^item> Wire_Properties, Core_Properties, Server_Properties, Admission_Properties, Engine_Properties,
    Runtime_Properties: the properties C1 to C40, each with a concrete instance.

  HOW THE CODE IS READ. A struct is a record, an error a value of a datatype, a method a function
  from the old state to the new one. A section under a mutex is one step; where two sections of one
  method can be interleaved with other goroutines, the sections are separate definitions and the
  interleavings are steps of an inductive relation or explicit parameters (\<open>life_step\<close>,
  \<open>guard_step\<close>, the histories of Broker_Laws, \<open>steal\<close> in Event_Hub). Channels closed to signal an
  event are booleans. Lengths that the code keeps in fixed-width integers are words or integers
  with the wrap-around written out; bytes are \<open>8 word\<close>. Panics are \<open>None\<close>. The order in which Go
  traverses a map is a parameter where it can be observed.

  PARAMETERS. Cipher, hash and key derivation, JSON, \<open>strings.ToLower\<close>, \<open>net.ParseIP\<close>, the random
  source, the reaction of the operating system to a bind and of the network to a write are
  arguments of the definitions that use them; what a theorem needs of them is a hypothesis (a
  sealed text opens to itself, a block has 16 bytes), and every instance supplies concrete
  functions for them.

  LOCALES. Interfaces between components are locales, each interpreted on the model's own
  definitions: the byte sources that the frame readers draw from, the channel ciphers, the
  queues behind the broker, the openers of stream and datagram entries, and others; the theories
  that provide the operations hold the interpretations.

  LOOPS. Recursion is structural or has a termination proof. Reading a head, a frame or a stream
  recurses on the bytes or chunks that are left, the draining of a subscription on the content of
  its channel, the retry of a pairing on the number of waiting connections; no fuel is used where
  the code terminates, and every function that models a loop is total.

  NOT MODELLED. \<open>core/server/engine.go\<close>: the goroutines of the frame loop of a control connection
  and log records; the order of log records and error texts everywhere. \<open>core/internal/transport\<close>:
  adapters for TCP, KCP, QUIC, TLS and websocket, which only call third-party packages.
  \<open>core/internal/proxy/datagram.go\<close> and \<open>udp.go\<close>, \<open>core/client\<close>, \<open>core/compat\<close>, and the
  applications \<open>apps/jrps\<close> and \<open>apps/jrpc\<close> (persistence in SQLite, HTTP API, notifications).
  Time stamps of events, metrics, PBKDF2.
\<close>

end
